(* ===== verification/Prelude.thy ===== *)
theory Prelude
  imports Complex_Main
begin

text \<open>
  Shared vocabulary of the development.

  \<^item> Names of the model's basic types: a UUID is its 128-bit value as a \<open>nat\<close> (the textual form
    is fixed-width lower-case hexadecimal, so PostgreSQL's text order is the numeric order), a
    timezone-naive \<open>datetime\<close> is its distance in microseconds from a midnight epoch, a SHA-256
    digest is its hexadecimal string.
  \<^item> \<open>pyfloat\<close>: Python floats where the code asks whether they are finite.  Finite values are
    reals; rounding is not modelled.
  \<^item> \<open>exn\<close>: the exceptions the modelled code raises; a computation that can raise has the type
    \<open>exn + 'a\<close>.  \<open>run_checks\<close> is a sequence of \<open>if \<dots>: raise \<dots>\<close> statements, in source order.
  \<^item> \<open>push_bounded\<close>: \<open>append\<close> followed by \<open>if len(xs) > n: xs.pop(0)\<close>, the sliding window three
    components keep.
  \<^item> Locales for the contracts several components share: a lock-step simulation between a
    detailed machine and an abstract one, and a machine with an invariant.
\<close>

section \<open>Basic types\<close>

type_synonym uuid = nat
type_synonym datetime = int
type_synonym sha256 = string

abbreviation seconds :: "int \<Rightarrow> int" where
  "seconds n \<equiv> n * 1000000"

named_theorems err_simps "rules that run the error monad"
named_theorems table_simps "lookup and update rules of the tables"

section \<open>Exceptions\<close>

datatype exn =
    ValueError string
  | RuntimeError string
  | LookupError string
  | KeyError string
  | IndexError
  | AssertionError
  | OrderingViolationError
  | ReplayContractError string
  | IdentityMismatchError
  | DatabaseError string
  | SessionFailedError
  | RetryableScoringError
  | PermanentScoringError string
  | TypeError string
  | AttributeError string
  | FileNotFoundError string
  | FileExistsError string
  | ArtifactIntegrityError string
  | ChampionIntegrityError string
  | ChampionPackageError string
  | ScoringContractError string
  | MigrationError string
  | OverflowError string
  | AlertNotFound string

text \<open>A method of an object: its result or exception and the state it leaves.\<close>

type_synonym ('w, 'a) io = "'w \<Rightarrow> (exn + 'a) \<times> 'w"

definition bind_io :: "('w, 'a) io \<Rightarrow> ('a \<Rightarrow> ('w, 'b) io) \<Rightarrow> ('w, 'b) io" where
  "bind_io m f w = (case m w of (Inl e, w') \<Rightarrow> (Inl e, w') | (Inr x, w') \<Rightarrow> f x w')"

definition lift_io :: "exn + 'a \<Rightarrow> ('w, 'a) io" where
  "lift_io r w = (r, w)"

definition bind_err :: "exn + 'a \<Rightarrow> ('a \<Rightarrow> exn + 'b) \<Rightarrow> exn + 'b" where
  "bind_err m f = (case m of Inl e \<Rightarrow> Inl e | Inr x \<Rightarrow> f x)"

lemma bind_err_Inl [simp, err_simps]: "bind_err (Inl e) f = Inl e"
  by (simp add: bind_err_def)

lemma bind_err_Inr [simp, err_simps]: "bind_err (Inr x) f = f x"
  by (simp add: bind_err_def)

lemma bind_err_eq_Inr [err_simps]:
  "bind_err m f = Inr y \<longleftrightarrow> (\<exists>x. m = Inr x \<and> f x = Inr y)"
  by (cases m) simp_all

lemma bind_err_eq_Inl [err_simps]:
  "bind_err m f = Inl e \<longleftrightarrow> m = Inl e \<or> (\<exists>x. m = Inr x \<and> f x = Inl e)"
  by (cases m) simp_all

fun run_checks :: "(bool \<times> exn) list \<Rightarrow> 'a \<Rightarrow> exn + 'a" where
  "run_checks [] x = Inr x"
| "run_checks ((violated, e) # cs) x = (if violated then Inl e else run_checks cs x)"

lemma run_checks_Inr [err_simps]:
  "run_checks cs x = Inr y \<longleftrightarrow> y = x \<and> (\<forall>(violated, e) \<in> set cs. \<not> violated)"
  by (induction cs) (auto split: if_splits)

lemma run_checks_append [err_simps]:
  "run_checks (cs @ ds) x = bind_err (run_checks cs x) (run_checks ds)"
  by (induction cs) auto

lemma run_checks_error:
  "run_checks cs x = Inl e \<Longrightarrow> (True, e) \<in> set cs"
  by (induction cs) (auto split: if_splits)

text \<open>A list comprehension whose element expression may raise.\<close>

fun map_err :: "('a \<Rightarrow> exn + 'b) \<Rightarrow> 'a list \<Rightarrow> exn + 'b list" where
  "map_err f [] = Inr []"
| "map_err f (x # xs) = bind_err (f x) (\<lambda>y. bind_err (map_err f xs) (\<lambda>ys. Inr (y # ys)))"

lemma map_err_Inr:
  "(\<And>x. x \<in> set xs \<Longrightarrow> f x = Inr (g x)) \<Longrightarrow> map_err f xs = Inr (map g xs)"
  by (induction xs) auto

lemma map_err_length: "map_err f xs = Inr ys \<Longrightarrow> length ys = length xs"
  by (induction xs arbitrary: ys) (auto simp: err_simps)

lemma map_err_list_all2:
  "map_err f xs = Inr ys \<Longrightarrow> list_all2 (\<lambda>x y. f x = Inr y) xs ys"
  by (induction xs arbitrary: ys) (auto simp: err_simps)

lemma map_err_elements:
  "map_err f xs = Inr ys \<Longrightarrow> (\<forall>y \<in> set ys. \<exists>x \<in> set xs. f x = Inr y) \<and> (\<forall>x \<in> set xs. \<exists>y \<in> set ys. f x = Inr y)"
proof (induction xs arbitrary: ys)
  case (Cons a xs)
  from Cons.prems obtain z zs where "f a = Inr z" "map_err f xs = Inr zs" "ys = z # zs"
    by (auto simp: bind_err_eq_Inr)
  with Cons.IH [of zs] show ?case by simp
qed simp

text \<open>Running a fallible step over a list, stopping at the first exception.\<close>

fun fold_err :: "('s \<Rightarrow> 'x \<Rightarrow> exn + 's) \<Rightarrow> 's \<Rightarrow> 'x list \<Rightarrow> exn + 's" where
  "fold_err f s [] = Inr s"
| "fold_err f s (x # xs) = bind_err (f s x) (\<lambda>s'. fold_err f s' xs)"

lemma fold_err_append:
  "fold_err f s (xs @ ys) = bind_err (fold_err f s xs) (\<lambda>s'. fold_err f s' ys)"
proof (induction xs arbitrary: s)
  case Nil
  then show ?case by simp
next
  case (Cons x xs)
  then show ?case by (cases "f s x") simp_all
qed

lemma fold_err_invariant:
  assumes step: "\<And>s x s'. I s \<Longrightarrow> f s x = Inr s' \<Longrightarrow> I s'"
    and "I s" and "fold_err f s xs = Inr s'"
  shows "I s'"
  using assms(2,3)
proof (induction xs arbitrary: s)
  case Nil
  then show ?case by simp
next
  case (Cons x xs)
  then show ?case by (auto simp: err_simps dest: step)
qed

section \<open>Floats\<close>

datatype pyfloat = Fin real | PosInf | NegInf | NaN

fun isfinite :: "pyfloat \<Rightarrow> bool" where
  "isfinite (Fin r) = True"
| "isfinite _ = False"

text \<open>Comparisons follow IEEE 754: every comparison with NaN is false.\<close>

fun pf_le :: "pyfloat \<Rightarrow> pyfloat \<Rightarrow> bool" where
  "pf_le NaN _ = False"
| "pf_le _ NaN = False"
| "pf_le NegInf _ = True"
| "pf_le _ PosInf = True"
| "pf_le (Fin a) (Fin b) = (a \<le> b)"
| "pf_le _ _ = False"

fun pf_lt :: "pyfloat \<Rightarrow> pyfloat \<Rightarrow> bool" where
  "pf_lt NaN _ = False"
| "pf_lt _ NaN = False"
| "pf_lt _ NegInf = False"
| "pf_lt PosInf _ = False"
| "pf_lt (Fin a) (Fin b) = (a < b)"
| "pf_lt _ _ = True"

fun the_fin :: "pyfloat \<Rightarrow> real" where
  "the_fin (Fin r) = r"
| "the_fin _ = 0"

text \<open>Arithmetic: exact on finite values, IEEE rules for the infinities.\<close>

fun pf_neg :: "pyfloat \<Rightarrow> pyfloat" where
  "pf_neg (Fin r) = Fin (- r)"
| "pf_neg PosInf = NegInf"
| "pf_neg NegInf = PosInf"
| "pf_neg NaN = NaN"

fun pf_add :: "pyfloat \<Rightarrow> pyfloat \<Rightarrow> pyfloat" where
  "pf_add (Fin a) (Fin b) = Fin (a + b)"
| "pf_add NaN _ = NaN"
| "pf_add _ NaN = NaN"
| "pf_add PosInf NegInf = NaN"
| "pf_add NegInf PosInf = NaN"
| "pf_add PosInf _ = PosInf"
| "pf_add _ PosInf = PosInf"
| "pf_add NegInf _ = NegInf"
| "pf_add _ NegInf = NegInf"

definition pf_sub :: "pyfloat \<Rightarrow> pyfloat \<Rightarrow> pyfloat" where
  "pf_sub a b = pf_add a (pf_neg b)"

fun pf_abs :: "pyfloat \<Rightarrow> pyfloat" where
  "pf_abs (Fin r) = Fin \<bar>r\<bar>"
| "pf_abs NaN = NaN"
| "pf_abs _ = PosInf"

lemma pf_sub_Fin [simp]: "pf_sub (Fin a) (Fin b) = Fin (a - b)"
  by (simp add: pf_sub_def)

lemma isfinite_iff: "isfinite x \<longleftrightarrow> (\<exists>r. x = Fin r)"
  by (cases x) simp_all

lemma pf_le_Fin_left: "pf_le (Fin a) x \<longleftrightarrow> x = PosInf \<or> (\<exists>r. x = Fin r \<and> a \<le> r)"
  by (cases x) simp_all

lemma pf_le_Fin_right: "pf_le x (Fin b) \<longleftrightarrow> x = NegInf \<or> (\<exists>r. x = Fin r \<and> r \<le> b)"
  by (cases x) simp_all

section \<open>Name-based UUIDs\<close>

text \<open>
  The names \<open>uuid5\<close> is applied to, as structured values: the code formats each of them into a
  string with fixed separators.  \<open>uuid5\<close> itself (a SHA-1 digest) is an argument of the
  definitions that use it.
\<close>

datatype uuid_name =
    AlertName uuid uuid
  | EvidenceName uuid uuid
  | RuntimeName string uuid string
  | DecisionName uuid string

section \<open>Strings\<close>

definition hex_chars :: string where
  "hex_chars = ''0123456789abcdef''"

text \<open>The regular expression \<open>^[0-9a-f]{64}$\<close>.\<close>

definition is_hex64 :: "string \<Rightarrow> bool" where
  "is_hex64 s \<longleftrightarrow> length s = 64 \<and> list_all (\<lambda>c. c \<in> set hex_chars) s"

definition zero_sha :: sha256 where
  "zero_sha = replicate 64 CHR ''0''"

lemma zero_sha_hex [simp]: "is_hex64 zero_sha"
  by (simp add: is_hex64_def zero_sha_def hex_chars_def list_all_iff)

section \<open>Bounded windows\<close>

definition push_bounded :: "nat \<Rightarrow> 'a \<Rightarrow> 'a list \<Rightarrow> 'a list" where
  "push_bounded n x xs = (let ys = xs @ [x] in if length ys > n then tl ys else ys)"

definition last_n :: "nat \<Rightarrow> 'a list \<Rightarrow> 'a list" where
  "last_n n xs = drop (length xs - n) xs"

lemma length_last_n [simp]: "length (last_n n xs) = min n (length xs)"
  by (simp add: last_n_def)

lemma set_last_n: "set (last_n n xs) \<subseteq> set xs"
  by (simp add: last_n_def set_drop_subset)

lemma last_n_append_left:
  "n \<le> length ys \<Longrightarrow> last_n n (xs @ ys) = last_n n ys"
  by (simp add: last_n_def)

lemma last_n_all: "length xs \<le> n \<Longrightarrow> last_n n xs = xs"
  by (simp add: last_n_def)

lemma last_n_snoc: "0 < n \<Longrightarrow> last_n n (xs @ [x]) = last_n (n - 1) xs @ [x]"
  by (cases n) (simp_all add: last_n_def)

lemma length_push_bounded:
  "length xs \<le> n \<Longrightarrow> length (push_bounded n x xs) = min n (Suc (length xs))"
  by (auto simp: push_bounded_def Let_def)

lemma push_bounded_is_last_n:
  assumes "length xs \<le> n"
  shows "push_bounded n x xs = last_n n (xs @ [x])"
proof (cases "length xs = n")
  case True
  then show ?thesis by (cases xs) (simp_all add: push_bounded_def last_n_def)
next
  case False
  with assms show ?thesis by (simp add: push_bounded_def last_n_def)
qed

lemma push_bounded_last_n:
  assumes "0 < n"
  shows "push_bounded n x (last_n n xs) = last_n n (xs @ [x])"
proof -
  have "length (last_n n xs) \<le> n" by simp
  then have "push_bounded n x (last_n n xs) = last_n n (last_n n xs @ [x])"
    by (rule push_bounded_is_last_n)
  also have "\<dots> = last_n n (xs @ [x])"
    using assms by (cases "length xs \<le> n")
      (auto simp: last_n_def Suc_diff_le)
  finally show ?thesis .
qed

lemma set_push_bounded: "set (push_bounded n x xs) \<subseteq> insert x (set xs)"
  by (cases xs) (auto simp: push_bounded_def Let_def)

lemma push_bounded_last:
  "0 < n \<Longrightarrow> push_bounded n x xs \<noteq> [] \<and> last (push_bounded n x xs) = x"
  by (cases xs) (auto simp: push_bounded_def Let_def)

section \<open>Chains\<close>

text \<open>Consecutive elements are related: the shape of every \<open>for i in range(len(xs) - 1)\<close> check.\<close>

fun chain :: "('a \<Rightarrow> 'a \<Rightarrow> bool) \<Rightarrow> 'a list \<Rightarrow> bool" where
  "chain R [] = True"
| "chain R [x] = True"
| "chain R (x # y # ys) = (R x y \<and> chain R (y # ys))"

lemma chain_Cons: "chain R (x # xs) \<longleftrightarrow> (xs = [] \<or> R x (hd xs) \<and> chain R xs)"
  by (cases xs) auto

lemma chain_tl: "chain R xs \<Longrightarrow> chain R (tl xs)"
  by (cases xs) (auto simp: chain_Cons)

lemma chain_snoc: "chain R (xs @ [y]) \<longleftrightarrow> chain R xs \<and> (xs = [] \<or> R (last xs) y)"
  by (induction R xs rule: chain.induct) auto

lemma chain_append:
  "chain R (xs @ ys) \<longleftrightarrow>
     chain R xs \<and> chain R ys \<and> (xs = [] \<or> ys = [] \<or> R (last xs) (hd ys))"
  by (induction R xs rule: chain.induct) (auto simp: chain_Cons)

lemma chain_mono: "chain R xs \<Longrightarrow> (\<And>x y. R x y \<Longrightarrow> S x y) \<Longrightarrow> chain S xs"
  by (induction R xs rule: chain.induct) auto

lemma chain_map: "chain R (map f xs) \<longleftrightarrow> chain (\<lambda>x y. R (f x) (f y)) xs"
  by (induction xs) (auto simp: chain_Cons hd_map)

lemma chain_sorted_wrt:
  assumes "transp R"
  shows "chain R xs \<longleftrightarrow> sorted_wrt R xs"
proof (induction xs)
  case Nil
  then show ?case by simp
next
  case (Cons x xs)
  then show ?case
    using assms by (cases xs) (auto dest: transpD)
qed

lemma chain_push_bounded:
  "chain R xs \<Longrightarrow> xs = [] \<or> R (last xs) x \<Longrightarrow> chain R (push_bounded n x xs)"
  by (auto simp: push_bounded_def Let_def chain_snoc intro!: chain_tl [of R "xs @ [x]"])

section \<open>Shared contracts\<close>

text \<open>
  A machine with a fallible step and an invariant each successful step keeps: the invariant holds
  after every run.
\<close>

locale inv_machine =
  fixes step :: "'s \<Rightarrow> 'e \<Rightarrow> exn + 's"
    and inv :: "'s \<Rightarrow> bool"
  assumes step_inv: "inv s \<Longrightarrow> step s e = Inr s' \<Longrightarrow> inv s'"
begin

lemma run_inv: "inv s \<Longrightarrow> fold_err step s es = Inr s' \<Longrightarrow> inv s'"
  by (rule fold_err_invariant [where I = inv and f = step]) (auto intro: step_inv)

end

text \<open>
  Runs of a machine with outputs.  \<open>run_err\<close> pairs each output with the state reached, and stops at
  the first exception; \<open>admissible_run\<close> says that every event is admissible where it is consumed.
\<close>

fun run_err :: "('c \<Rightarrow> 'e \<Rightarrow> exn + 'c \<times> 'o) \<Rightarrow> 'c \<Rightarrow> 'e list \<Rightarrow> exn + 'c \<times> ('c \<times> 'o) list" where
  "run_err f c [] = Inr (c, [])"
| "run_err f c (e # es) =
     (case f c e of Inl x \<Rightarrow> Inl x
      | Inr (c', out) \<Rightarrow>
          (case run_err f c' es of Inl x \<Rightarrow> Inl x
           | Inr (c'', outs) \<Rightarrow> Inr (c'', (c', out) # outs)))"

lemma run_err_snoc:
  "run_err f c (es @ [e]) =
     (case run_err f c es of Inl x \<Rightarrow> Inl x
      | Inr (c', outs) \<Rightarrow>
          (case f c' e of Inl x \<Rightarrow> Inl x | Inr (c'', out) \<Rightarrow> Inr (c'', outs @ [(c'', out)])))"
  by (induction es arbitrary: c) (auto split: sum.splits prod.splits)

fun run_pure :: "('a \<Rightarrow> 'e \<Rightarrow> 'a \<times> 'p) \<Rightarrow> 'a \<Rightarrow> 'e list \<Rightarrow> 'a \<times> 'p list" where
  "run_pure f a [] = (a, [])"
| "run_pure f a (e # es) =
     (let (a', out) = f a e; (a'', outs) = run_pure f a' es in (a'', out # outs))"

fun admissible_run ::
  "('c \<Rightarrow> 'e \<Rightarrow> exn + 'c \<times> 'o) \<Rightarrow> ('c \<Rightarrow> 'e \<Rightarrow> bool) \<Rightarrow> 'c \<Rightarrow> 'e list \<Rightarrow> bool"
where
  "admissible_run f A c [] = True"
| "admissible_run f A c (e # es) =
     (A c e \<and> (case f c e of Inl _ \<Rightarrow> False | Inr (c', _) \<Rightarrow> admissible_run f A c' es))"

text \<open>
  Lock-step simulation: on admissible events the detailed machine does not fail, the abstract
  machine makes the matching step, and the outputs correspond.
\<close>

locale lockstep =
  fixes cstep :: "'c \<Rightarrow> 'e \<Rightarrow> exn + 'c \<times> 'o"
    and astep :: "'a \<Rightarrow> 'e \<Rightarrow> 'a \<times> 'p"
    and rel :: "'c \<Rightarrow> 'a \<Rightarrow> bool"
    and obs :: "'c \<Rightarrow> 'o \<Rightarrow> 'p"
    and admissible :: "'c \<Rightarrow> 'e \<Rightarrow> bool"
  assumes sim: "rel c a \<Longrightarrow> admissible c e \<Longrightarrow>
    \<exists>c' out a'. cstep c e = Inr (c', out) \<and> astep a e = (a', obs c' out) \<and> rel c' a'"
begin

lemma run_sim:
  "rel c a \<Longrightarrow> admissible_run cstep admissible c es \<Longrightarrow>
     \<exists>c' outs a'. run_err cstep c es = Inr (c', outs) \<and>
       run_pure astep a es = (a', map (\<lambda>(d, out). obs d out) outs) \<and> rel c' a'"
proof (induction es arbitrary: c a)
  case Nil
  then show ?case by simp
next
  case (Cons e es)
  from Cons.prems have "admissible c e" by simp
  with Cons.prems obtain c1 out a1 where c1: "cstep c e = Inr (c1, out)"
    "astep a e = (a1, obs c1 out)" "rel c1 a1"
    using sim by blast
  with Cons.prems have "admissible_run cstep admissible c1 es" by simp
  with c1 Cons.IH obtain c2 outs a2 where "run_err cstep c1 es = Inr (c2, outs)"
    "run_pure astep a1 es = (a2, map (\<lambda>(d, out). obs d out) outs)" "rel c2 a2"
    by blast
  with c1 show ?case by simp
qed

end

text \<open>
  A store that keeps one state per key.  A commit writes the state it carries under its key and
  leaves the states of the other keys alone.
\<close>

locale keyed_store =
  fixes load :: "'db \<Rightarrow> 'k \<Rightarrow> exn + 's"
    and commit :: "'db \<Rightarrow> 'x \<Rightarrow> exn + 'db"
    and key_of :: "'x \<Rightarrow> 'k"
    and state_of :: "'x \<Rightarrow> 's"
    and inv :: "'db \<Rightarrow> bool"
    and ok :: "'x \<Rightarrow> bool"
  assumes inv_commit: "inv db \<Longrightarrow> ok x \<Longrightarrow> commit db x = Inr db' \<Longrightarrow> inv db'"
    and load_commit: "inv db \<Longrightarrow> ok x \<Longrightarrow> commit db x = Inr db' \<Longrightarrow>
      load db' k = (if k = key_of x then Inr (state_of x) else load db k)"

text \<open>Load, step, commit: the body of a stateful message handler.\<close>

definition store_process ::
  "('db \<Rightarrow> 'k \<Rightarrow> exn + 's) \<Rightarrow> ('db \<Rightarrow> 'x \<Rightarrow> exn + 'db) \<Rightarrow> ('s \<Rightarrow> 'e \<Rightarrow> exn + 'x) \<Rightarrow> ('e \<Rightarrow> 'k)
     \<Rightarrow> 'db \<Rightarrow> 'e \<Rightarrow> exn + 'db"
where
  "store_process load commit step key db e =
     bind_err (load db (key e)) (\<lambda>s. bind_err (step s e) (commit db))"

locale keyed_client = keyed_store load commit key_of state_of inv ok
  for load :: "'db \<Rightarrow> 'k \<Rightarrow> exn + 's"
    and commit :: "'db \<Rightarrow> 'x \<Rightarrow> exn + 'db"
    and key_of :: "'x \<Rightarrow> 'k"
    and state_of :: "'x \<Rightarrow> 's"
    and inv :: "'db \<Rightarrow> bool"
    and ok :: "'x \<Rightarrow> bool" +
  fixes step :: "'s \<Rightarrow> 'e \<Rightarrow> exn + 'x"
    and key :: "'e \<Rightarrow> 'k"
  assumes step_ok: "inv db \<Longrightarrow> load db (key e) = Inr s \<Longrightarrow> step s e = Inr x \<Longrightarrow>
    ok x \<and> key_of x = key e"
begin

lemma process_step:
  assumes "inv db" "store_process load commit step key db e = Inr db'"
  obtains s x where "load db (key e) = Inr s" "step s e = Inr x" "commit db x = Inr db'" "inv db'"
    "\<forall>k. load db' k = (if k = key e then Inr (state_of x) else load db k)"
proof -
  from assms(2) obtain s x where sx: "load db (key e) = Inr s" "step s e = Inr x"
    "commit db x = Inr db'"
    by (auto simp: store_process_def err_simps)
  with step_ok assms(1) have "ok x" "key_of x = key e" by blast+
  with sx assms(1) inv_commit load_commit that show thesis by metis
qed

lemma process_run:
  "inv db \<Longrightarrow> fold_err (store_process load commit step key) db es = Inr db' \<Longrightarrow>
     inv db' \<and> load db' k = bind_err (load db k)
       (\<lambda>s. fold_err (\<lambda>s e. bind_err (step s e) (\<lambda>x. Inr (state_of x))) s
         (filter (\<lambda>e. key e = k) es))"
proof (induction es arbitrary: db)
  case Nil
  then show ?case by (cases "load db' k") simp_all
next
  case (Cons e es)
  from Cons.prems(2) obtain db1 where db1: "store_process load commit step key db e = Inr db1"
    "fold_err (store_process load commit step key) db1 es = Inr db'"
    by (auto simp: err_simps)
  obtain s x where sx: "load db (key e) = Inr s" "step s e = Inr x" "commit db x = Inr db1" "inv db1"
    "\<forall>k. load db1 k = (if k = key e then Inr (state_of x) else load db k)"
    by (rule process_step [OF Cons.prems(1) db1(1)])
  with Cons.IH [OF sx(4) db1(2)] show ?case by simp
qed

end

text \<open>
  A transactional outbox: \<open>next_row\<close> selects an unpublished message, \<open>mark\<close> records that it was
  published.  \<open>drain\<close> is the dispatch loop: send what \<open>next_row\<close> selects, then mark it.
\<close>

fun drain :: "('db \<Rightarrow> 'm option) \<Rightarrow> ('db \<Rightarrow> 'm \<Rightarrow> 'db) \<Rightarrow> nat \<Rightarrow> 'db \<Rightarrow> 'm list \<times> 'db" where
  "drain next_row mark 0 db = ([], db)"
| "drain next_row mark (Suc n) db =
     (case next_row db of None \<Rightarrow> ([], db)
      | Some m \<Rightarrow> (let (sent, db') = drain next_row mark n (mark db m) in (m # sent, db')))"

locale outbox =
  fixes next_row :: "'db \<Rightarrow> 'm option"
    and mark :: "'db \<Rightarrow> 'm \<Rightarrow> 'db"
    and pending :: "'db \<Rightarrow> 'm set"
    and inv :: "'db \<Rightarrow> bool"
    and before :: "'m \<Rightarrow> 'm \<Rightarrow> bool"
  assumes finite_pending: "inv db \<Longrightarrow> finite (pending db)"
    and next_None: "inv db \<Longrightarrow> next_row db = None \<longleftrightarrow> pending db = {}"
    and next_Some: "inv db \<Longrightarrow> next_row db = Some m \<Longrightarrow> m \<in> pending db"
    and next_least: "inv db \<Longrightarrow> next_row db = Some m \<Longrightarrow> m' \<in> pending db \<Longrightarrow> before m m'"
    and mark_pending: "inv db \<Longrightarrow> m \<in> pending db \<Longrightarrow> pending (mark db m) = pending db - {m}"
    and mark_inv: "inv db \<Longrightarrow> m \<in> pending db \<Longrightarrow> inv (mark db m)"
begin

lemma drain_all:
  "inv db \<Longrightarrow> card (pending db) \<le> n \<Longrightarrow>
     \<exists>sent db'. drain next_row mark n db = (sent, db') \<and> inv db' \<and> pending db' = {} \<and>
       distinct sent \<and> set sent = pending db \<and> sorted_wrt before sent"
proof (induction n arbitrary: db)
  case 0
  then show ?case using finite_pending by simp
next
  case (Suc n)
  show ?case
  proof (cases "next_row db")
    case None
    moreover from this have "pending db = {}" using next_None Suc.prems(1) by blast
    ultimately show ?thesis using Suc.prems(1) by simp
  next
    case (Some m)
    with Suc.prems have m: "m \<in> pending db" using next_Some by blast
    have "card (pending (mark db m)) \<le> n"
      using Suc.prems m finite_pending by (simp add: mark_pending)
    with Suc.IH [of "mark db m"] mark_inv [OF Suc.prems(1) m] obtain sent db' where
      rest: "drain next_row mark n (mark db m) = (sent, db')" "inv db'" "pending db' = {}"
        "distinct sent" "set sent = pending db - {m}" "sorted_wrt before sent"
      using mark_pending [OF Suc.prems(1) m] by auto
    have "\<forall>m' \<in> set sent. before m m'"
      using rest(5) next_least [OF Suc.prems(1) Some] by blast
    with rest m Some show ?thesis by auto
  qed
qed

end

end
