(* ===== verification/Runtime_Messages.thy ===== *)
theory Runtime_Messages
  imports Prelude
begin

text \<open>
  The message schemas of \<open>runtime_messages.py\<close>: one record per Pydantic class and one validator
  per class, which runs the field constraints and then the \<open>model_validator\<close>, in source order.

  The six fields every message carries are the record \<open>envelope\<close>; the other fields keep their names
  with a prefix of their class, since record fields of one theory share a name space.  A datetime
  field is its clock value; whether it carries a timezone is the separate argument \<open>tz\<close> of a
  validator (\<open>tz ''emitted_at''\<close> is \<open>emitted_at.tzinfo is not None\<close>).  The fixed
  \<open>schema_version\<close> literals carry no information and are left out.
\<close>

type_synonym tzinfo = "string \<Rightarrow> bool"

text \<open>What the runtime itself builds: naive source times, timezone-aware emission times.\<close>

definition runtime_tz :: tzinfo where
  "runtime_tz f \<longleftrightarrow> f = ''emitted_at''"

definition ERR_SOURCE_TS_NAIVE :: exn where
  "ERR_SOURCE_TS_NAIVE = ValueError ''source_timestamp must be timezone-naive''"

definition ERR_EMITTED_AT_UTC :: exn where
  "ERR_EMITTED_AT_UTC = ValueError ''emitted_at must be timezone-aware UTC''"

datatype AlertAction = OPENED | UPDATED | RESOLVED | REOPENED
datatype ReplayAction = START | PAUSE | RESUME | STOP
datatype ReplayState = CREATED | RUNNING | PAUSED | STOPPED | COMPLETED | FAILED

text \<open>\<open>runtime_ids.py\<close>: the deterministic message ids.\<close>

definition runtime_id :: "(uuid_name \<Rightarrow> uuid) \<Rightarrow> string \<Rightarrow> uuid \<Rightarrow> string \<Rightarrow> exn + uuid" where
  "runtime_id uuid5 kind session identity =
     (if kind = [] \<or> identity = [] then Inl (ValueError ''kind and identity must be non-empty strings'')
      else Inr (uuid5 (RuntimeName kind session identity)))"

record envelope =
  message_id :: uuid
  replay_session_id :: uuid
  source_dataset_sha256 :: sha256
  contract_sha256 :: sha256
  source_timestamp :: datetime
  emitted_at :: datetime

text \<open>The field patterns on the two digests, and the two timezone rules.\<close>

definition sha_checks :: "'a envelope_scheme \<Rightarrow> (bool \<times> exn) list" where
  "sha_checks m =
     [(\<not> is_hex64 (source_dataset_sha256 m), ValueError ''source_dataset_sha256''),
      (\<not> is_hex64 (contract_sha256 m), ValueError ''contract_sha256'')]"

definition tz_checks :: "tzinfo \<Rightarrow> (bool \<times> exn) list" where
  "tz_checks tz =
     [(tz ''source_timestamp'', ERR_SOURCE_TS_NAIVE),
      (\<not> tz ''emitted_at'', ERR_EMITTED_AT_UTC)]"

definition str_len_check :: "string \<Rightarrow> nat \<Rightarrow> nat \<Rightarrow> string \<Rightarrow> bool \<times> exn" where
  "str_len_check name lo hi s = (length s < lo \<or> hi < length s, ValueError name)"

section \<open>Feature vectors\<close>

record CoverageEvidenceV1 =
  observations_by_bin :: "int list"
  bin_ends :: "datetime list"

definition validate_coverage :: "(nat \<Rightarrow> bool) \<Rightarrow> CoverageEvidenceV1 \<Rightarrow> exn + CoverageEvidenceV1" where
  "validate_coverage bin_tz c =
     run_checks
       ([(length (observations_by_bin c) \<noteq> 6,
            ValueError ''observations_by_bin must contain exactly 6 elements''),
         (length (bin_ends c) \<noteq> 6, ValueError ''bin_ends must contain exactly 6 elements'')]
        @ map (\<lambda>cnt. (cnt < 24, ValueError ''less than min 24 observations/bin''))
            (observations_by_bin c)
        @ concat (map (\<lambda>i.
            [(bin_ends c ! i \<ge> bin_ends c ! (i + 1),
                ValueError ''bin_ends must be strictly increasing''),
             (bin_tz i, ValueError ''bin_ends must be timezone-naive'')])
            [0 ..< length (bin_ends c) - 1])
        @ [(bin_tz (length (bin_ends c) - 1), ValueError ''bin_ends must be timezone-naive'')]) c"

record FeatureVectorV1 = envelope +
  fv_window_id :: uuid
  fv_machine_id :: string
  fv_window_start :: datetime
  fv_window_end :: datetime
  fv_feature_names :: "string list"
  fv_feature_values :: "pyfloat list"
  fv_coverage :: CoverageEvidenceV1

definition validate_feature_vector :: "tzinfo \<Rightarrow> FeatureVectorV1 \<Rightarrow> exn + FeatureVectorV1" where
  "validate_feature_vector tz m =
     run_checks
       (sha_checks m
        @ [str_len_check ''machine_id'' 1 128 (fv_machine_id m),
           (fv_feature_names m = [], ValueError ''feature_names''),
           (fv_feature_values m = [], ValueError ''feature_values''),
           (tz ''source_timestamp'', ERR_SOURCE_TS_NAIVE),
           (tz ''window_start'' \<or> tz ''window_end'',
              ValueError ''window_start and window_end must be timezone-naive''),
           (\<not> tz ''emitted_at'', ERR_EMITTED_AT_UTC),
           (\<not> (fv_window_start m < fv_window_end m \<and> fv_window_end m = source_timestamp m),
              ValueError ''window_start must be < window_end and window_end must equal source_timestamp''),
           (length (fv_feature_names m) \<noteq> length (fv_feature_values m),
              ValueError ''feature_names and feature_values must have the same length''),
           (card (set (fv_feature_names m)) \<noteq> length (fv_feature_names m),
              ValueError ''feature_names must contain unique elements'')]
        @ map (\<lambda>val. (\<not> isfinite val,
              ValueError ''feature_values must contain only finite numbers''))
            (fv_feature_values m)) m"

section \<open>Score requests and decisions\<close>

record ScoreRequestV1 =
  sr_model_version :: string
  sr_feature_vector :: FeatureVectorV1

definition validate_score_request :: "ScoreRequestV1 \<Rightarrow> exn + ScoreRequestV1" where
  "validate_score_request r =
     run_checks [str_len_check ''model_version'' 1 200 (sr_model_version r)] r"

record EvidenceValueV1 =
  feature_name :: string
  feature_value :: pyfloat
  robust_deviation :: pyfloat

definition validate_evidence :: "EvidenceValueV1 \<Rightarrow> exn + EvidenceValueV1" where
  "validate_evidence v =
     run_checks
       [(\<not> isfinite (feature_value v) \<or> \<not> isfinite (robust_deviation v),
           ValueError ''feature_value and robust_deviation must be finite numbers'')] v"

record ScoreDecisionV1 = envelope +
  decision_id :: uuid
  window_id :: uuid
  model_version :: string
  score :: pyfloat
  threshold :: pyfloat
  is_anomaly :: bool
  evidence_vector :: "EvidenceValueV1 list"

definition validate_decision :: "tzinfo \<Rightarrow> ScoreDecisionV1 \<Rightarrow> exn + ScoreDecisionV1" where
  "validate_decision tz d =
     run_checks
       (sha_checks d
        @ [str_len_check ''model_version'' 1 200 (model_version d)]
        @ tz_checks tz
        @ [(\<not> isfinite (score d) \<or> \<not> isfinite (threshold d),
              ValueError ''score and threshold must be finite numbers'')]) d"

record ApiErrorV1 =
  code :: string
  api_message :: string

text \<open>The two response envelopes: \<open>success\<close> is fixed by the class.\<close>

datatype ScoreResponse = ScoreResponseV1 ScoreDecisionV1 | ErrorResponseV1 ApiErrorV1

section \<open>Replay commands and status\<close>

record ReplayCommandV1 = envelope +
  command_id :: uuid
  action :: ReplayAction
  speed :: int
  range_start :: "datetime option"
  range_end :: "datetime option"

definition validate_start_command :: "tzinfo \<Rightarrow> ReplayCommandV1 \<Rightarrow> exn + ReplayCommandV1" where
  "validate_start_command tz cmd =
     run_checks
       [(range_start cmd = None \<or> range_end cmd = None,
           ValueError ''START action requires range_start and range_end''),
        (tz ''range_start'' \<or> tz ''range_end'',
           ValueError ''range_start and range_end must be timezone-naive''),
        (the (range_start cmd) \<ge> the (range_end cmd),
           ValueError ''range_start must be strictly earlier than range_end''),
        (Some (source_timestamp cmd) \<noteq> range_start cmd,
           ValueError ''source_timestamp must equal range_start for START action'')] cmd"

definition validate_control_command :: "ReplayCommandV1 \<Rightarrow> exn + ReplayCommandV1" where
  "validate_control_command cmd =
     run_checks
       [(range_start cmd \<noteq> None \<or> range_end cmd \<noteq> None,
           ValueError ''action must not specify range_start or range_end'')] cmd"

definition validate_command :: "tzinfo \<Rightarrow> ReplayCommandV1 \<Rightarrow> exn + ReplayCommandV1" where
  "validate_command tz cmd =
     bind_err
       (run_checks
          (sha_checks cmd
           @ [(speed cmd \<notin> {1, 100, 1000}, ValueError ''speed'')]
           @ tz_checks tz) cmd)
       (\<lambda>cmd. if action cmd = START then validate_start_command tz cmd
              else validate_control_command cmd)"

record ReplayStatusV1 = envelope +
  status_state :: ReplayState
  status_last_sequence :: "int option"
  status_error_code :: "string option"

definition validate_status :: "tzinfo \<Rightarrow> ReplayStatusV1 \<Rightarrow> exn + ReplayStatusV1" where
  "validate_status tz s =
     run_checks
       (sha_checks s @ tz_checks tz
        @ [(status_state s \<in> {STOPPED, COMPLETED, FAILED}
              \<and> (status_last_sequence s = None \<or> the (status_last_sequence s) < 0),
              ValueError ''terminal state requires non-negative last_sequence''),
           (status_state s = FAILED \<and> status_error_code s \<in> {None, Some []},
              ValueError ''FAILED state requires non-empty error_code''),
           (status_state s \<noteq> FAILED \<and> status_error_code s \<noteq> None,
              ValueError ''state must have error_code=None'')]) s"

section \<open>Telemetry and quarantine\<close>

text \<open>\<open>phase1b_contracts.py\<close>: the hard envelope of each analog signal.\<close>

definition ANALOG_SIGNAL_BY_NAME :: "(string \<times> real \<times> real) list" where
  "ANALOG_SIGNAL_BY_NAME =
     [(''tp2'', -1, 20), (''tp3'', -1, 20), (''h1'', -1, 20), (''dv_pressure'', -1, 20),
      (''reservoirs'', -1, 20), (''oil_temperature'', -40, 150), (''motor_current'', 0, 50)]"

definition validate_analog_value :: "string \<Rightarrow> pyfloat \<Rightarrow> exn + pyfloat" where
  "validate_analog_value name v =
     (case map_of ANALOG_SIGNAL_BY_NAME name of
        None \<Rightarrow> Inl (KeyError name)
      | Some (hard_min, hard_max) \<Rightarrow>
          run_checks
            [(\<not> isfinite v \<or> \<not> (pf_le (Fin hard_min) v \<and> pf_le v (Fin hard_max)),
                ValueError name)] v)"

record TelemetryEventV1 = envelope +
  te_machine_id :: string
  sequence :: int
  tp2 :: pyfloat
  tp3 :: pyfloat
  h1 :: pyfloat
  dv_pressure :: pyfloat
  reservoirs :: pyfloat
  oil_temperature :: pyfloat
  motor_current :: pyfloat
  te_comp :: int
  dv_electric :: int
  towers :: int
  mpg :: int
  lps :: int
  pressure_switch :: int
  oil_level :: int
  caudal_impulses :: int

text \<open>\<open>getattr(event, column)\<close> for the analog and for the digital columns.\<close>

definition analog_fields :: "'a TelemetryEventV1_scheme \<Rightarrow> (string \<times> pyfloat) list" where
  "analog_fields e =
     [(''tp2'', tp2 e), (''tp3'', tp3 e), (''h1'', h1 e), (''dv_pressure'', dv_pressure e),
      (''reservoirs'', reservoirs e), (''oil_temperature'', oil_temperature e),
      (''motor_current'', motor_current e)]"

definition digital_fields :: "'a TelemetryEventV1_scheme \<Rightarrow> (string \<times> int) list" where
  "digital_fields e =
     [(''comp'', te_comp e), (''dv_electric'', dv_electric e), (''towers'', towers e),
      (''mpg'', mpg e), (''lps'', lps e), (''pressure_switch'', pressure_switch e),
      (''oil_level'', oil_level e), (''caudal_impulses'', caudal_impulses e)]"

definition validate_telemetry :: "tzinfo \<Rightarrow> TelemetryEventV1 \<Rightarrow> exn + TelemetryEventV1" where
  "validate_telemetry tz e =
     bind_err
       (run_checks
          (sha_checks e
           @ [str_len_check ''machine_id'' 1 128 (te_machine_id e),
              (sequence e \<le> 0, ValueError ''sequence'')]
           @ map (\<lambda>(name, v). (v \<notin> {0, 1}, ValueError name)) (digital_fields e)
           @ tz_checks tz) e)
       (\<lambda>e. bind_err
          (fold_err (\<lambda>_ (name, v). bind_err (validate_analog_value name v) (\<lambda>_. Inr ()))
             () (analog_fields e))
          (\<lambda>_. Inr e))"

record QuarantineRecordV1 =
  q_message_id :: uuid
  q_replay_session_id :: "uuid option"
  q_source_dataset_sha256 :: sha256
  q_contract_sha256 :: sha256
  q_source_timestamp :: datetime
  q_emitted_at :: datetime
  q_original_topic :: string
  q_partition :: int
  q_offset :: int
  q_payload_sha256 :: sha256
  q_error_code :: string
  q_error_detail :: string

definition validate_quarantine :: "tzinfo \<Rightarrow> QuarantineRecordV1 \<Rightarrow> exn + QuarantineRecordV1" where
  "validate_quarantine tz q =
     run_checks
       ([(\<not> is_hex64 (q_source_dataset_sha256 q), ValueError ''source_dataset_sha256''),
         (\<not> is_hex64 (q_contract_sha256 q), ValueError ''contract_sha256''),
         str_len_check ''original_topic'' 1 256 (q_original_topic q),
         (q_partition q < 0, ValueError ''partition''),
         (q_offset q < 0, ValueError ''offset''),
         (\<not> is_hex64 (q_payload_sha256 q), ValueError ''payload_sha256''),
         str_len_check ''error_code'' 1 128 (q_error_code q),
         str_len_check ''error_detail'' 1 1024 (q_error_detail q)]
        @ tz_checks tz) q"

section \<open>Alerts, evidence and root-cause reports\<close>

record FeatureDeviationV1 =
  dev_feature_name :: string
  observed_value :: pyfloat
  baseline_value :: pyfloat
  absolute_deviation :: pyfloat

definition validate_deviation :: "FeatureDeviationV1 \<Rightarrow> exn + FeatureDeviationV1" where
  "validate_deviation d =
     run_checks
       ([(dev_feature_name d = [], ValueError ''feature_name''),
         (\<not> pf_le (Fin 0) (absolute_deviation d), ValueError ''absolute_deviation'')]
        @ map (\<lambda>v. (\<not> isfinite v, ValueError ''Deviation values must be finite''))
            [observed_value d, baseline_value d, absolute_deviation d]) d"

record AlertEventV1 = envelope +
  ae_alert_id :: uuid
  ae_machine_id :: string
  ae_action :: AlertAction
  ae_first_detection :: datetime
  ae_last_detection :: datetime
  ae_decision_ids :: "uuid list"
  ae_policy_sha256 :: sha256

definition validate_alert_event :: "tzinfo \<Rightarrow> AlertEventV1 \<Rightarrow> exn + AlertEventV1" where
  "validate_alert_event tz e =
     run_checks
       (sha_checks e
        @ [(ae_machine_id e = [], ValueError ''machine_id''),
           (ae_decision_ids e = [], ValueError ''decision_ids''),
           (\<not> is_hex64 (ae_policy_sha256 e), ValueError ''policy_sha256'')]
        @ tz_checks tz
        @ [(tz ''first_detection'', ValueError ''first_detection must be timezone-naive''),
           (tz ''last_detection'', ValueError ''last_detection must be timezone-naive''),
           (ae_first_detection e > ae_last_detection e,
              ValueError ''first_detection must not be later than last_detection'')]) e"

text \<open>A value of the \<open>dict[str, float | int | str | bool]\<close> fields.\<close>

datatype json_scalar = JFloat pyfloat | JInt int | JStr string | JBool bool

record EvidenceSnapshotV1 = envelope +
  es_evidence_id :: uuid
  es_alert_id :: uuid
  es_decision_id :: uuid
  es_window_id :: uuid
  es_model_version :: string
  es_feature_deviations :: "FeatureDeviationV1 list"
  es_data_quality :: "(string \<times> json_scalar) list"
  es_model :: "(string \<times> json_scalar) list"
  es_system_health :: "(string \<times> json_scalar) list"

definition validate_evidence_snapshot ::
  "tzinfo \<Rightarrow> EvidenceSnapshotV1 \<Rightarrow> exn + EvidenceSnapshotV1"
where
  "validate_evidence_snapshot tz s =
     run_checks
       (sha_checks s @ [(es_model_version s = [], ValueError ''model_version'')]
        @ tz_checks tz) s"

record RcaObservationV1 =
  obs_claim :: string
  obs_evidence_ids :: "string list"

definition validate_rca_observation :: "RcaObservationV1 \<Rightarrow> exn + RcaObservationV1" where
  "validate_rca_observation obs =
     run_checks
       [str_len_check ''claim'' 1 500 (obs_claim obs),
        (length (obs_evidence_ids obs) < 1 \<or> 8 < length (obs_evidence_ids obs),
           ValueError ''evidence_ids'')] obs"

datatype RcaStatus = RCA_COMPLETE | RCA_UNAVAILABLE

record RcaReportV1 = envelope +
  report_id :: string
  rca_alert_id :: string
  rca_status :: RcaStatus
  rca_summary :: string
  observations :: "RcaObservationV1 list"
  uncertainty :: "string list"
  next_checks :: "string list"
  evidence_ids :: "string list"
  evidence_bundle_sha256 :: sha256
  provider_model :: "string option"

definition validate_rca_report :: "tzinfo \<Rightarrow> RcaReportV1 \<Rightarrow> exn + RcaReportV1" where
  "validate_rca_report tz r =
     run_checks
       (sha_checks r
        @ [(report_id r = [], ValueError ''report_id''),
           (rca_alert_id r = [], ValueError ''alert_id''),
           str_len_check ''summary'' 1 1000 (rca_summary r),
           (12 < length (observations r), ValueError ''observations''),
           (length (uncertainty r) < 1 \<or> 8 < length (uncertainty r), ValueError ''uncertainty''),
           (8 < length (next_checks r), ValueError ''next_checks''),
           (length (evidence_ids r) < 1 \<or> 64 < length (evidence_ids r), ValueError ''evidence_ids''),
           (\<not> is_hex64 (evidence_bundle_sha256 r), ValueError ''evidence_bundle_sha256'')]
        @ tz_checks tz
        @ [(length (evidence_ids r) \<noteq> card (set (evidence_ids r)),
              ValueError ''evidence_ids must be unique'')]
        @ concat (map (\<lambda>obs. map (\<lambda>ev_id. (ev_id \<notin> set (evidence_ids r),
              ValueError ''Observation citation is not in evidence_ids''))
              (obs_evidence_ids obs)) (observations r))
        @ [(rca_status r = RCA_COMPLETE \<and> provider_model r = None,
              ValueError ''provider_model is required when status is COMPLETE''),
           (rca_status r = RCA_UNAVAILABLE \<and> provider_model r \<noteq> None,
              ValueError ''provider_model must be None when status is UNAVAILABLE'')]) r"

section \<open>What the validators accept\<close>

lemmas check_defs = sha_checks_def tz_checks_def str_len_check_def

lemma runtime_tz_simps [simp]:
  "runtime_tz ''emitted_at''" "\<not> runtime_tz ''source_timestamp''"
  "\<not> runtime_tz ''first_detection''" "\<not> runtime_tz ''last_detection''"
  "\<not> runtime_tz ''window_start''" "\<not> runtime_tz ''window_end''"
  "\<not> runtime_tz ''range_start''" "\<not> runtime_tz ''range_end''"
  by (simp_all add: runtime_tz_def)

text \<open>The digests every validated message carries.\<close>

definition hex_envelope :: "'a envelope_scheme \<Rightarrow> bool" where
  "hex_envelope m \<longleftrightarrow> is_hex64 (source_dataset_sha256 m) \<and> is_hex64 (contract_sha256 m)"

lemma validate_alert_event_runtime:
  "validate_alert_event runtime_tz e = Inr e' \<longleftrightarrow>
     e' = e \<and> hex_envelope e \<and> ae_machine_id e \<noteq> [] \<and> ae_decision_ids e \<noteq> [] \<and>
     is_hex64 (ae_policy_sha256 e) \<and> ae_first_detection e \<le> ae_last_detection e"
  by (auto simp: validate_alert_event_def err_simps check_defs hex_envelope_def)

lemma validate_evidence_snapshot_runtime:
  "validate_evidence_snapshot runtime_tz s = Inr s' \<longleftrightarrow>
     s' = s \<and> hex_envelope s \<and> es_model_version s \<noteq> []"
  by (auto simp: validate_evidence_snapshot_def err_simps check_defs hex_envelope_def)

lemma validate_decision_iff:
  "validate_decision tz d = Inr d' \<longleftrightarrow>
     d' = d \<and> hex_envelope d \<and> model_version d \<noteq> [] \<and> length (model_version d) \<le> 200 \<and>
     \<not> tz ''source_timestamp'' \<and> tz ''emitted_at'' \<and> isfinite (score d) \<and> isfinite (threshold d)"
  by (auto simp: validate_decision_def err_simps check_defs hex_envelope_def not_less)

lemma validate_deviation_iff:
  "validate_deviation d = Inr d' \<longleftrightarrow>
     d' = d \<and> dev_feature_name d \<noteq> [] \<and> isfinite (observed_value d) \<and>
     isfinite (baseline_value d) \<and> isfinite (absolute_deviation d) \<and>
     pf_le (Fin 0) (absolute_deviation d)"
  by (auto simp: validate_deviation_def err_simps)

lemma validate_status_runtime:
  "validate_status runtime_tz s = Inr s' \<longleftrightarrow>
     s' = s \<and> hex_envelope s \<and>
     (status_state s \<in> {STOPPED, COMPLETED, FAILED} \<longrightarrow>
        (\<exists>n\<ge>0. status_last_sequence s = Some n)) \<and>
     (if status_state s = FAILED then \<exists>c. c \<noteq> [] \<and> status_error_code s = Some c
      else status_error_code s = None)"
  by (auto simp: validate_status_def err_simps check_defs hex_envelope_def not_less)

lemma adjacent_indices:
  "(\<forall>i < length xs - 1. P (xs ! i) (xs ! Suc i)) \<longleftrightarrow> chain P xs"
proof (induction P xs rule: chain.induct)
  case (3 P x y ys)
  have "(\<forall>i < length (x # y # ys) - 1. P ((x # y # ys) ! i) ((x # y # ys) ! Suc i)) \<longleftrightarrow>
    P x y \<and> (\<forall>i < length (y # ys) - 1. P ((y # ys) ! i) ((y # ys) ! Suc i))"
    by (simp add: All_less_Suc2)
  with 3 show ?case by simp
qed simp_all

end
