(* ===== verification/Alert_Policy.thy ===== *)
theory Alert_Policy
  imports Runtime_Messages
begin

text \<open>
  \<open>alert_policy.py\<close>: the calibration-locked alert policy.  A score table is a list of rows; the
  calibration simulator \<open>_simulate_alert_stream\<close> is a step function on \<open>sim_state\<close>, folded over the
  rows.  \<open>json.dumps\<close> followed by SHA-256 is the argument \<open>sha_json\<close>.  File reading and writing in
  \<open>lock_alert_policy\<close> is replaced by its inputs: the parsed manifest, the digest of the score file
  and its rows.
\<close>

section \<open>Data\<close>

definition PERSISTENCE_CANDIDATES :: "int list" where
  "PERSISTENCE_CANDIDATES = [1, 2, 3]"

definition COOLDOWN_CANDIDATES :: "int list" where
  "COOLDOWN_CANDIDATES = [1, 2, 3, 6]"

definition MERGE_GAP_SECONDS_CANDIDATES :: "int list" where
  "MERGE_GAP_SECONDS_CANDIDATES = [0, 300, 900]"

record PolicyMetrics =
  false_episodes_per_day :: real
  time_in_alert :: real

record PolicySelection =
  sel_persistence :: int
  sel_cooldown :: int
  sel_merge_gap_seconds :: int
  metrics :: PolicyMetrics

record LockedAlertPolicyV1 =
  pol_schema_version :: string
  pol_source_split :: string
  pol_source_scores_sha256 :: sha256
  pol_source_dataset_sha256 :: sha256
  pol_contract_sha256 :: sha256
  pol_model_id :: string
  pol_model_version :: string
  pol_threshold :: real
  pol_stride_seconds :: int
  persistence_decisions :: int
  cooldown_decisions :: int
  merge_gap_seconds :: int
  calibration_false_episodes_per_day :: real
  calibration_time_in_alert :: real
  policy_sha256 :: sha256

type_synonym json_dict = "(string \<times> json_scalar) list"

text \<open>\<open>to_dict\<close> is \<open>dataclasses.asdict\<close>: the fields in declaration order.\<close>

definition to_dict :: "LockedAlertPolicyV1 \<Rightarrow> json_dict" where
  "to_dict p =
     [(''schema_version'', JStr (pol_schema_version p)),
      (''source_split'', JStr (pol_source_split p)),
      (''source_scores_sha256'', JStr (pol_source_scores_sha256 p)),
      (''source_dataset_sha256'', JStr (pol_source_dataset_sha256 p)),
      (''contract_sha256'', JStr (pol_contract_sha256 p)),
      (''model_id'', JStr (pol_model_id p)),
      (''model_version'', JStr (pol_model_version p)),
      (''threshold'', JFloat (Fin (pol_threshold p))),
      (''stride_seconds'', JInt (pol_stride_seconds p)),
      (''persistence_decisions'', JInt (persistence_decisions p)),
      (''cooldown_decisions'', JInt (cooldown_decisions p)),
      (''merge_gap_seconds'', JInt (merge_gap_seconds p)),
      (''calibration_false_episodes_per_day'', JFloat (Fin (calibration_false_episodes_per_day p))),
      (''calibration_time_in_alert'', JFloat (Fin (calibration_time_in_alert p))),
      (''policy_sha256'', JStr (policy_sha256 p))]"

definition compute_policy_sha256 :: "(json_dict \<Rightarrow> sha256) \<Rightarrow> json_dict \<Rightarrow> sha256" where
  "compute_policy_sha256 sha_json policy_data =
     sha_json (filter (\<lambda>(k, v). k \<noteq> ''policy_sha256'') policy_data)"

definition verify_policy_integrity ::
  "(json_dict \<Rightarrow> sha256) \<Rightarrow> LockedAlertPolicyV1 \<Rightarrow> exn + unit"
where
  "verify_policy_integrity sha_json policy =
     (if policy_sha256 policy \<noteq> compute_policy_sha256 sha_json (to_dict policy)
      then Inl (ValueError ''Alert policy integrity check failed'') else Inr ())"

section \<open>The calibration simulator\<close>

definition step_anomaly ::
  "datetime \<Rightarrow> bool \<Rightarrow> int \<Rightarrow> datetime option \<Rightarrow> int \<Rightarrow> int \<Rightarrow> bool \<times> int \<times> int"
where
  "step_anomaly ts is_active anomaly_streak last_resolution persistence merge_gap =
     (let new_anomaly_streak = anomaly_streak + 1;
          is_merged = (case last_resolution of None \<Rightarrow> False
            | Some r \<Rightarrow> merge_gap > 0 \<and> ts - r \<le> seconds merge_gap)
      in if \<not> is_active \<and> new_anomaly_streak \<ge> persistence
         then (True, new_anomaly_streak, if is_merged then 0 else 1)
         else (is_active, new_anomaly_streak, 0))"

definition step_normal ::
  "datetime \<Rightarrow> bool \<Rightarrow> int \<Rightarrow> int \<Rightarrow> bool \<times> int \<times> datetime option"
where
  "step_normal ts is_active normal_streak cooldown =
     (let new_normal_streak = normal_streak + 1
      in if is_active \<and> new_normal_streak \<ge> cooldown
         then (False, new_normal_streak, Some ts)
         else (is_active, new_normal_streak, None))"

record score_row =
  row_model_id :: string
  row_split :: string
  row_window_start :: datetime
  row_window_end :: datetime
  row_is_anomaly :: bool

record sim_state =
  sim_active :: bool
  sim_anomaly_streak :: int
  sim_normal_streak :: int
  sim_last_resolution :: "datetime option"
  sim_episodes :: int
  sim_alert_window_count :: int

definition sim_init :: sim_state where
  "sim_init = \<lparr>sim_active = False, sim_anomaly_streak = 0, sim_normal_streak = 0,
     sim_last_resolution = None, sim_episodes = 0, sim_alert_window_count = 0\<rparr>"

text \<open>One iteration of the loop body.\<close>

definition sim_row :: "int \<Rightarrow> int \<Rightarrow> int \<Rightarrow> sim_state \<Rightarrow> datetime \<Rightarrow> bool \<Rightarrow> sim_state" where
  "sim_row persistence cooldown merge_gap s ts is_anom =
     (let s' =
        (if is_anom then
           (let (active, streak, ep_inc) =
              step_anomaly ts (sim_active s) (sim_anomaly_streak s) (sim_last_resolution s)
                persistence merge_gap
            in s\<lparr>sim_normal_streak := 0, sim_active := active, sim_anomaly_streak := streak,
                 sim_episodes := sim_episodes s + ep_inc\<rparr>)
         else
           (let (active, streak, res) =
              step_normal ts (sim_active s) (sim_normal_streak s) cooldown
            in s\<lparr>sim_anomaly_streak := 0, sim_active := active, sim_normal_streak := streak,
                 sim_last_resolution := (if res \<noteq> None then res else sim_last_resolution s)\<rparr>))
      in if sim_active s'
         then s'\<lparr>sim_alert_window_count := sim_alert_window_count s' + 1\<rparr> else s')"

definition simulate_alert_stream :: "score_row list \<Rightarrow> int \<Rightarrow> int \<Rightarrow> int \<Rightarrow> int \<times> int" where
  "simulate_alert_stream sorted_df persistence cooldown merge_gap =
     (let s = fold (\<lambda>row s. sim_row persistence cooldown merge_gap s
                (row_window_end row) (row_is_anomaly row)) sorted_df sim_init
      in (sim_episodes s, sim_alert_window_count s))"

definition evaluate_candidate :: "score_row list \<Rightarrow> int \<Rightarrow> int \<Rightarrow> int \<Rightarrow> PolicyMetrics" where
  "evaluate_candidate frame persistence cooldown merge_gap =
     (if frame = [] then \<lparr>false_episodes_per_day = 0, time_in_alert = 0\<rparr>
      else
        (let sorted_df = sort_key row_window_end frame;
             (episodes, alert_window_count) =
               simulate_alert_stream sorted_df persistence cooldown merge_gap;
             start_time = Min (set (map row_window_start sorted_df));
             end_time = Max (set (map row_window_end sorted_df));
             duration_days = max (real_of_int (end_time - start_time) / 1000000 / 86400) (1 / 288)
         in \<lparr>false_episodes_per_day = real_of_int episodes / duration_days,
             time_in_alert = real_of_int alert_window_count / real (max (length sorted_df) 1)\<rparr>))"

section \<open>Selecting and locking a policy\<close>

definition policy_grid :: "(int \<times> int \<times> int) list" where
  "policy_grid = concat (map (\<lambda>p. concat (map (\<lambda>c. map (\<lambda>g. (p, c, g))
     MERGE_GAP_SECONDS_CANDIDATES) COOLDOWN_CANDIDATES)) PERSISTENCE_CANDIDATES)"

definition meets_gates :: "PolicyMetrics \<Rightarrow> bool" where
  "meets_gates m \<longleftrightarrow> false_episodes_per_day m \<le> 1 \<and> time_in_alert m \<le> 5 / 100"

definition policy_cost :: "PolicyMetrics \<Rightarrow> real" where
  "policy_cost m = false_episodes_per_day m + 100 * time_in_alert m"

definition selection_for :: "score_row list \<Rightarrow> int \<times> int \<times> int \<Rightarrow> PolicySelection" where
  "selection_for frame = (\<lambda>(p, c, g). \<lparr>sel_persistence = p, sel_cooldown = c, sel_merge_gap_seconds = g,
     metrics = evaluate_candidate frame p c g\<rparr>)"

text \<open>
  The search loop: return the first candidate that meets the gates, remembering the cheapest one
  seen so far (\<open>best_cost\<close> starts at infinity, here \<open>None\<close>).
\<close>

fun search_policy ::
  "score_row list \<Rightarrow> (int \<times> int \<times> int) list \<Rightarrow> PolicySelection option
     \<Rightarrow> PolicySelection + PolicySelection option"
where
  "search_policy frame [] best = Inr best"
| "search_policy frame (cand # cands) best =
     (let sel = selection_for frame cand in
      if meets_gates (metrics sel) then Inl sel
      else search_policy frame cands
        (case best of None \<Rightarrow> Some sel
         | Some b \<Rightarrow> if policy_cost (metrics sel) < policy_cost (metrics b) then Some sel else best))"

definition select_policy :: "score_row list \<Rightarrow> bool \<Rightarrow> exn + PolicySelection" where
  "select_policy frame allow_fallback =
     (if set (map row_split frame) \<noteq> {''calibration''} \<and> \<not> allow_fallback
      then Inl (ValueError ''policy selection accepts calibration rows only'')
      else case search_policy frame policy_grid None of
          Inl sel \<Rightarrow> Inr sel
        | Inr best \<Rightarrow>
            (if allow_fallback \<and> best \<noteq> None then Inr (the best)
             else Inl (ValueError ''no predeclared alert policy satisfies the calibration gates'')))"

record policy_manifest =
  man_model_id :: string
  man_model_version :: "string option"
  man_source_dataset_sha256 :: sha256
  man_contract_sha256 :: sha256
  man_threshold :: real
  man_stride_seconds :: "int option"
  man_operational_status :: "string option"
  man_scores_sha256 :: "sha256 option"

definition rows_of :: "string \<Rightarrow> string \<Rightarrow> score_row list \<Rightarrow> score_row list" where
  "rows_of model_id split = filter (\<lambda>r. row_model_id r = model_id \<and> row_split r = split)"

text \<open>The rows the search runs on: the champion's calibration rows, or, for a research-only model
  that has none, its train rows.\<close>

definition champion_rows :: "bool \<Rightarrow> string \<Rightarrow> score_row list \<Rightarrow> exn + score_row list" where
  "champion_rows is_research model_id scores_df =
     (let calib = rows_of model_id ''calibration'' scores_df;
          train = rows_of model_id ''train'' scores_df
      in if calib \<noteq> [] then Inr calib
         else if \<not> is_research
         then Inl (ValueError ''No calibration rows found for champion model'')
         else if train = []
         then Inl (ValueError ''No calibration or train rows found'')
         else Inr train)"

text \<open>The payload dictionary, before its own digest is added.\<close>

definition policy_payload ::
  "policy_manifest \<Rightarrow> sha256 \<Rightarrow> score_row list \<Rightarrow> PolicySelection \<Rightarrow> LockedAlertPolicyV1"
where
  "policy_payload man actual_scores_sha champion_calib selection =
     \<lparr>pol_schema_version = ''alert-policy-v1'',
      pol_source_split =
        (if ''calibration'' \<in> set (map row_split champion_calib)
         then ''calibration'' else ''train''),
      pol_source_scores_sha256 = actual_scores_sha,
      pol_source_dataset_sha256 = man_source_dataset_sha256 man,
      pol_contract_sha256 = man_contract_sha256 man,
      pol_model_id = man_model_id man,
      pol_model_version =
        (case man_model_version man of Some v \<Rightarrow> v
         | None \<Rightarrow> ''champion-'' @ man_model_id man @ ''-v1''),
      pol_threshold = man_threshold man,
      pol_stride_seconds = (case man_stride_seconds man of Some n \<Rightarrow> n | None \<Rightarrow> 300),
      persistence_decisions = sel_persistence selection,
      cooldown_decisions = sel_cooldown selection,
      merge_gap_seconds = sel_merge_gap_seconds selection,
      calibration_false_episodes_per_day = false_episodes_per_day (metrics selection),
      calibration_time_in_alert = time_in_alert (metrics selection),
      policy_sha256 = []\<rparr>"

definition lock_alert_policy ::
  "(json_dict \<Rightarrow> sha256) \<Rightarrow> policy_manifest \<Rightarrow> (sha256 \<times> score_row list) option
     \<Rightarrow> exn + LockedAlertPolicyV1"
where
  "lock_alert_policy sha_json man scores_file =
     (let is_research = (man_operational_status man = Some ''RESEARCH_ONLY'')
      in case scores_file of
           None \<Rightarrow> Inl (ValueError ''Scores file not found'')
         | Some (actual_scores_sha, scores_df) \<Rightarrow>
             (if man_scores_sha256 man \<notin> {None, Some []}
                 \<and> Some actual_scores_sha \<noteq> man_scores_sha256 man
              then Inl (ValueError ''scores.parquet SHA-256 mismatch'')
              else
                bind_err (champion_rows is_research (man_model_id man) scores_df)
                  (\<lambda>champion_calib.
                     bind_err (select_policy champion_calib is_research) (\<lambda>selection.
                       let payload = policy_payload man actual_scores_sha champion_calib selection
                       in Inr (payload\<lparr>policy_sha256 :=
                            sha_json (butlast (to_dict payload))\<rparr>)))))"

section \<open>Lemmas\<close>

lemma policy_grid_length: "length policy_grid = 36"
  by (simp add: policy_grid_def PERSISTENCE_CANDIDATES_def COOLDOWN_CANDIDATES_def
      MERGE_GAP_SECONDS_CANDIDATES_def)

lemma search_policy_Inl:
  "search_policy frame cands best = Inl sel \<Longrightarrow>
     \<exists>pre cand post. cands = pre @ cand # post \<and> sel = selection_for frame cand \<and>
       meets_gates (metrics sel) \<and>
       (\<forall>c \<in> set pre. \<not> meets_gates (metrics (selection_for frame c)))"
proof (induction cands arbitrary: best)
  case Nil
  then show ?case by simp
next
  case (Cons cand cands)
  show ?case
  proof (cases "meets_gates (metrics (selection_for frame cand))")
    case True
    with Cons.prems have "sel = selection_for frame cand" by (simp add: Let_def)
    with True have "cand # cands = [] @ cand # cands \<and> sel = selection_for frame cand \<and>
        meets_gates (metrics sel)" by simp
    then show ?thesis by fastforce
  next
    case False
    with Cons.prems obtain best' where "search_policy frame cands best' = Inl sel"
      by (auto simp: Let_def)
    from Cons.IH [OF this] obtain pre cand' post where
      "cands = pre @ cand' # post" "sel = selection_for frame cand'" "meets_gates (metrics sel)"
      "\<forall>c \<in> set pre. \<not> meets_gates (metrics (selection_for frame c))"
      by blast
    with False have "cand # cands = (cand # pre) @ cand' # post \<and> sel = selection_for frame cand' \<and>
      meets_gates (metrics sel) \<and>
      (\<forall>c \<in> set (cand # pre). \<not> meets_gates (metrics (selection_for frame c)))"
      by simp
    then show ?thesis by blast
  qed
qed

lemma search_policy_Inr:
  "search_policy frame cands best = Inr res \<Longrightarrow>
     (\<forall>c \<in> set cands. \<not> meets_gates (metrics (selection_for frame c))) \<and>
     (res = None \<longrightarrow> best = None \<and> cands = []) \<and>
     (\<forall>b. res = Some b \<longrightarrow>
        (best = Some b \<or> (\<exists>c \<in> set cands. b = selection_for frame c)) \<and>
        (\<forall>b'. best = Some b' \<longrightarrow> policy_cost (metrics b) \<le> policy_cost (metrics b')) \<and>
        (\<forall>c \<in> set cands. policy_cost (metrics b) \<le> policy_cost (metrics (selection_for frame c))))"
proof (induction cands arbitrary: best)
  case Nil
  then show ?case by simp
next
  case (Cons cand cands)
  let ?sel = "selection_for frame cand"
  let ?best = "case best of None \<Rightarrow> Some ?sel
    | Some b \<Rightarrow> if policy_cost (metrics ?sel) < policy_cost (metrics b) then Some ?sel else best"
  from Cons.prems have ng: "\<not> meets_gates (metrics ?sel)"
    and rec: "search_policy frame cands ?best = Inr res"
    by (auto simp: Let_def split: if_splits)
  obtain b0 where b0: "?best = Some b0" "b0 = ?sel \<or> best = Some b0"
    "policy_cost (metrics b0) \<le> policy_cost (metrics ?sel)"
    "\<And>b'. best = Some b' \<Longrightarrow> policy_cost (metrics b0) \<le> policy_cost (metrics b')"
  proof (cases best)
    case None
    then show thesis using that [of ?sel] by simp
  next
    case (Some a)
    then show thesis
      using that [of "if policy_cost (metrics ?sel) < policy_cost (metrics a) then ?sel else a"]
      by auto
  qed
  note ih = Cons.IH [OF rec, unfolded b0(1)]
  show ?case
  proof (cases res)
    case None
    with ih show ?thesis by simp
  next
    case (Some b)
    have "policy_cost (metrics b) \<le> policy_cost (metrics b0)" using ih Some by simp
    with ih Some ng b0 show ?thesis
      by (auto intro: order_trans)
  qed
qed

lemma select_policy_gates:
  assumes "select_policy frame False = Inr sel"
  shows "meets_gates (metrics sel) \<and> set (map row_split frame) = {''calibration''}"
  using assms by (auto simp: select_policy_def split: if_splits sum.splits dest: search_policy_Inl)

lemma rows_of_filter:
  "split \<noteq> s \<Longrightarrow> rows_of m split (filter (\<lambda>r. row_split r \<noteq> s) df) = rows_of m split df"
  by (auto simp: rows_of_def intro: filter_cong)

lemma to_dict_sha:
  "compute_policy_sha256 sha_json (to_dict (p\<lparr>policy_sha256 := h\<rparr>)) = sha_json (butlast (to_dict p))"
  by (simp add: compute_policy_sha256_def to_dict_def)

lemma selection_for_grid:
  assumes "select_policy frame fb = Inr sel"
  shows "\<exists>p c g. p \<in> set PERSISTENCE_CANDIDATES \<and> c \<in> set COOLDOWN_CANDIDATES \<and>
    g \<in> set MERGE_GAP_SECONDS_CANDIDATES \<and> sel = selection_for frame (p, c, g)"
proof -
  have "\<exists>cand \<in> set policy_grid. sel = selection_for frame cand"
  proof (cases "search_policy frame policy_grid None")
    case (Inl s)
    with assms have "s = sel" by (auto simp: select_policy_def split: if_splits)
    with search_policy_Inl [OF Inl] show ?thesis
      by (metis in_set_conv_decomp)
  next
    case (Inr best)
    with assms have "best = Some sel" by (auto simp: select_policy_def split: if_splits)
    with search_policy_Inr [OF Inr] show ?thesis by auto
  qed
  then show ?thesis by (auto simp: policy_grid_def)
qed

lemma rows_of_split: "r \<in> set (rows_of m s df) \<Longrightarrow> row_split r = s"
  by (simp add: rows_of_def)

lemma lock_alert_policy_integrity:
  assumes "lock_alert_policy sha_json man (Some (h, df)) = Inr p"
  shows "verify_policy_integrity sha_json p = Inr ()"
proof -
  from assms obtain calib sel where "p = policy_payload man h calib sel
      \<lparr>policy_sha256 := sha_json (butlast (to_dict (policy_payload man h calib sel)))\<rparr>"
    by (auto simp: lock_alert_policy_def Let_def err_simps simp del: insert_iff split: if_splits)
  then show ?thesis by (simp add: verify_policy_integrity_def to_dict_sha)
qed

lemma lock_alert_policy_selects:
  assumes locked: "lock_alert_policy sha_json man (Some (h, df)) = Inr p"
    and operational: "man_operational_status man \<noteq> Some ''RESEARCH_ONLY''"
  obtains sel where "rows_of (man_model_id man) ''calibration'' df \<noteq> []"
    "select_policy (rows_of (man_model_id man) ''calibration'' df) False = Inr sel"
    "p = policy_payload man h (rows_of (man_model_id man) ''calibration'' df) sel
      \<lparr>policy_sha256 := policy_sha256 p\<rparr>" "pol_source_split p = ''calibration''"
proof -
  let ?calib = "rows_of (man_model_id man) ''calibration'' df"
  from locked operational obtain sel where calib: "?calib \<noteq> []"
    and sel: "select_policy ?calib False = Inr sel"
    and p: "p = policy_payload man h ?calib sel
      \<lparr>policy_sha256 := sha_json (butlast (to_dict (policy_payload man h ?calib sel)))\<rparr>"
    by (auto simp: lock_alert_policy_def champion_rows_def Let_def err_simps simp del: insert_iff
        split: if_splits)
  have split: "pol_source_split (policy_payload man h ?calib sel) = ''calibration''"
    using calib by (cases ?calib) (auto simp: policy_payload_def rows_of_def dest: filter_eq_ConsD)
  show thesis
  proof (rule that [OF calib sel])
    show "p = policy_payload man h ?calib sel\<lparr>policy_sha256 := policy_sha256 p\<rparr>"
      by (subst (1 2) p) simp
    show "pol_source_split p = ''calibration''" by (simp add: p split)
  qed
qed

lemma lock_alert_policy_calibration_only:
  assumes "lock_alert_policy sha_json man (Some (h, df)) = Inr p"
    and "man_operational_status man \<noteq> Some ''RESEARCH_ONLY''"
    and "rows_of (man_model_id man) ''calibration'' df' =
      rows_of (man_model_id man) ''calibration'' df"
  shows "lock_alert_policy sha_json man (Some (h, df')) = Inr p"
proof -
  obtain sel where "rows_of (man_model_id man) ''calibration'' df \<noteq> []"
    using lock_alert_policy_selects [OF assms(1,2)] by blast
  with assms show ?thesis
    by (simp add: lock_alert_policy_def champion_rows_def Let_def split: if_splits)
qed

section \<open>Properties\<close>


definition quiet_rows :: "score_row list" where
  "quiet_rows =
     [\<lparr>row_model_id = ''m'', row_split = ''calibration'', row_window_start = 0,
       row_window_end = seconds 1800, row_is_anomaly = False\<rparr>,
      \<lparr>row_model_id = ''m'', row_split = ''holdout'', row_window_start = seconds 300,
       row_window_end = seconds 2100, row_is_anomaly = True\<rparr>]"

definition sample_manifest :: policy_manifest where
  "sample_manifest =
     \<lparr>man_model_id = ''m'', man_model_version = None, man_source_dataset_sha256 = zero_sha,
      man_contract_sha256 = zero_sha, man_threshold = 3, man_stride_seconds = None,
      man_operational_status = None, man_scores_sha256 = None\<rparr>"

lemma select_policy_quiet:
  "select_policy (rows_of ''m'' ''calibration'' quiet_rows) False =
     Inr \<lparr>sel_persistence = 1, sel_cooldown = 1, sel_merge_gap_seconds = 0,
       metrics = \<lparr>false_episodes_per_day = 0, time_in_alert = 0\<rparr>\<rparr>"
  by (simp add: select_policy_def rows_of_def quiet_rows_def policy_grid_def
      PERSISTENCE_CANDIDATES_def COOLDOWN_CANDIDATES_def MERGE_GAP_SECONDS_CANDIDATES_def
      selection_for_def evaluate_candidate_def simulate_alert_stream_def sim_row_def sim_init_def
      step_normal_def meets_gates_def)


text \<open>
  C25 (safety): locking a policy for an operational model.  The locked policy passes its own
  integrity check, was selected on the calibration split, meets both gates and carries parameters
  of the declared grid; and it is a function of the champion's calibration rows only: replacing the
  rest of the score table (train, holdout, other models) gives the same policy.
\<close>

theorem lock_alert_policy_sound:
  assumes locked: "lock_alert_policy sha_json man (Some (h, df)) = Inr p"
    and operational: "man_operational_status man \<noteq> Some ''RESEARCH_ONLY''"
  shows "verify_policy_integrity sha_json p = Inr () \<and> pol_source_split p = ''calibration'' \<and>
      calibration_false_episodes_per_day p \<le> 1 \<and> calibration_time_in_alert p \<le> 5 / 100 \<and>
      persistence_decisions p \<in> set PERSISTENCE_CANDIDATES \<and>
      cooldown_decisions p \<in> set COOLDOWN_CANDIDATES \<and>
      merge_gap_seconds p \<in> set MERGE_GAP_SECONDS_CANDIDATES \<and>
      (\<forall>df'. rows_of (man_model_id man) ''calibration'' df' =
          rows_of (man_model_id man) ''calibration'' df \<longrightarrow>
        lock_alert_policy sha_json man (Some (h, df')) = Inr p)"
proof -
  from lock_alert_policy_selects [OF assms] obtain sel where
    sel: "select_policy (rows_of (man_model_id man) ''calibration'' df) False = Inr sel"
    and split: "pol_source_split p = ''calibration''"
    and p: "p = policy_payload man h (rows_of (man_model_id man) ''calibration'' df) sel
      \<lparr>policy_sha256 := policy_sha256 p\<rparr>"
    by blast
  have fields: "calibration_false_episodes_per_day p = false_episodes_per_day (metrics sel)"
    "calibration_time_in_alert p = time_in_alert (metrics sel)"
    "persistence_decisions p = sel_persistence sel" "cooldown_decisions p = sel_cooldown sel"
    "merge_gap_seconds p = sel_merge_gap_seconds sel"
    by (subst p, simp add: policy_payload_def)+
  have "meets_gates (metrics sel)" using select_policy_gates [OF sel] by simp
  with fields split selection_for_grid [OF sel] lock_alert_policy_integrity [OF locked]
    lock_alert_policy_calibration_only [OF assms]
  show ?thesis by (auto simp: meets_gates_def selection_for_def)
qed

theorem lock_alert_policy_sound_witness:
  "\<exists>p. lock_alert_policy (\<lambda>_. zero_sha) sample_manifest (Some (zero_sha, quiet_rows)) = Inr p \<and>
     persistence_decisions p = 1 \<and> calibration_time_in_alert p \<le> 5 / 100"
proof -
  have "\<exists>p. lock_alert_policy (\<lambda>_. zero_sha) sample_manifest (Some (zero_sha, quiet_rows)) = Inr p \<and>
     persistence_decisions p = 1"
    using select_policy_quiet
    by (simp add: lock_alert_policy_def sample_manifest_def Let_def champion_rows_def rows_of_def
        quiet_rows_def policy_payload_def)
  then obtain p where
    p: "lock_alert_policy (\<lambda>_. zero_sha) sample_manifest (Some (zero_sha, quiet_rows)) = Inr p"
    and "persistence_decisions p = 1" by blast
  moreover have "man_operational_status sample_manifest \<noteq> Some ''RESEARCH_ONLY''"
    by (simp add: sample_manifest_def)
  with p have "calibration_time_in_alert p \<le> 5 / 100"
    using lock_alert_policy_sound by blast
  ultimately show ?thesis by blast
qed

end
