(* ===== verification/Alert_State.thy ===== *)
theory Alert_State
  imports Alert_Policy
begin

text \<open>
  \<open>alert_state.py\<close>: the deterministic alert state machine.  \<open>transition\<close> is the source's function
  with its four helpers; what it takes from outside (the two fresh message ids and the two clock
  readings) is the record \<open>call_env\<close>, and \<open>uuid5\<close> is an argument.

  Shown here: the state invariant (interpretation \<open>alert_machine\<close> of \<open>inv_machine\<close>), that the events
  of a run follow the alert life cycle, and that the machine opens exactly the episodes and is
  active in exactly the windows that the calibration simulator of \<open>alert_policy.py\<close> counted when the
  policy was selected (interpretation \<open>alert_sim\<close> of \<open>lockstep\<close>).
\<close>

section \<open>State\<close>

record AlertState =
  st_replay_session_id :: uuid
  st_machine_id :: string
  active_alert_id :: "uuid option"
  previous_alert_id :: "uuid option"
  first_detection :: "datetime option"
  last_detection :: "datetime option"
  resolved_at :: "datetime option"
  anomaly_decision_ids :: "uuid list"
  anomaly_streak :: int
  normal_streak :: int
  last_decision_id :: "uuid option"
  last_source_timestamp :: "datetime option"

definition empty_state :: "uuid \<Rightarrow> string \<Rightarrow> AlertState" where
  "empty_state session machine =
     \<lparr>st_replay_session_id = session, st_machine_id = machine, active_alert_id = None,
      previous_alert_id = None, first_detection = None, last_detection = None, resolved_at = None,
      anomaly_decision_ids = [], anomaly_streak = 0, normal_streak = 0, last_decision_id = None,
      last_source_timestamp = None\<rparr>"

record TransitionResult =
  tr_state :: AlertState
  tr_event :: "AlertEventV1 option"
  tr_evidence :: "EvidenceSnapshotV1 option"

record call_env =
  event_uuid :: uuid
  event_now :: datetime
  evidence_uuid :: uuid
  evidence_now :: datetime

definition alert_id_for :: "(uuid_name \<Rightarrow> uuid) \<Rightarrow> uuid \<Rightarrow> uuid \<Rightarrow> uuid" where
  "alert_id_for uuid5 session first_decision = uuid5 (AlertName session first_decision)"

definition evidence_id_for :: "(uuid_name \<Rightarrow> uuid) \<Rightarrow> uuid \<Rightarrow> uuid \<Rightarrow> uuid" where
  "evidence_id_for uuid5 alert dec = uuid5 (EvidenceName alert dec)"

text \<open>Python's \<open>x or d\<close> on an optional datetime (a datetime is always true).\<close>

definition or_else :: "'a option \<Rightarrow> 'a \<Rightarrow> 'a" where
  "or_else x d = (case x of None \<Rightarrow> d | Some v \<Rightarrow> v)"

section \<open>Operations\<close>

definition build_deviation :: "EvidenceValueV1 \<Rightarrow> exn + FeatureDeviationV1" where
  "build_deviation ev =
     validate_deviation
       \<lparr>dev_feature_name = feature_name ev, observed_value = feature_value ev,
        baseline_value = pf_sub (feature_value ev) (robust_deviation ev),
        absolute_deviation = pf_abs (robust_deviation ev)\<rparr>"

definition build_evidence_snapshot ::
  "(uuid_name \<Rightarrow> uuid) \<Rightarrow> call_env \<Rightarrow> uuid \<Rightarrow> ScoreDecisionV1 \<Rightarrow> exn + EvidenceSnapshotV1"
where
  "build_evidence_snapshot uuid5 env alert_id decision =
     bind_err (map_err build_deviation (evidence_vector decision)) (\<lambda>deviations.
       validate_evidence_snapshot runtime_tz
         \<lparr>message_id = evidence_uuid env, replay_session_id = replay_session_id decision,
          source_dataset_sha256 = source_dataset_sha256 decision,
          contract_sha256 = contract_sha256 decision,
          source_timestamp = source_timestamp decision, emitted_at = evidence_now env,
          es_evidence_id = evidence_id_for uuid5 alert_id (decision_id decision),
          es_alert_id = alert_id, es_decision_id = decision_id decision,
          es_window_id = window_id decision, es_model_version = model_version decision,
          es_feature_deviations = deviations,
          es_data_quality = [(''status'', JStr ''ok'')],
          es_model = [(''score'', JFloat (score decision)), (''threshold'', JFloat (threshold decision))],
          es_system_health = [(''is_anomaly'', JBool (is_anomaly decision))]\<rparr>)"

text \<open>The \<open>AlertEventV1(...)\<close> constructor call both emitting branches make.\<close>

definition build_alert_event ::
  "call_env \<Rightarrow> AlertState \<Rightarrow> ScoreDecisionV1 \<Rightarrow> LockedAlertPolicyV1 \<Rightarrow> AlertAction \<Rightarrow> uuid
     \<Rightarrow> datetime \<Rightarrow> datetime \<Rightarrow> uuid list \<Rightarrow> exn + AlertEventV1"
where
  "build_alert_event env state decision policy act alert_id first_det last_det ids =
     validate_alert_event runtime_tz
       \<lparr>message_id = event_uuid env, replay_session_id = replay_session_id decision,
        source_dataset_sha256 = source_dataset_sha256 decision,
        contract_sha256 = contract_sha256 decision,
        source_timestamp = source_timestamp decision, emitted_at = event_now env,
        ae_alert_id = alert_id, ae_machine_id = st_machine_id state, ae_action = act,
        ae_first_detection = first_det, ae_last_detection = last_det, ae_decision_ids = ids,
        ae_policy_sha256 = policy_sha256 policy\<rparr>"

definition emit_anomaly_result ::
  "(uuid_name \<Rightarrow> uuid) \<Rightarrow> call_env \<Rightarrow> AlertState \<Rightarrow> ScoreDecisionV1 \<Rightarrow> LockedAlertPolicyV1
     \<Rightarrow> AlertAction \<Rightarrow> uuid \<Rightarrow> datetime \<Rightarrow> int \<Rightarrow> uuid list \<Rightarrow> exn + TransitionResult"
where
  "emit_anomaly_result uuid5 env state decision policy act alert_id first_det new_streak new_ids =
     (let last_det = source_timestamp decision in
      bind_err (build_alert_event env state decision policy act alert_id first_det last_det new_ids)
        (\<lambda>event.
      bind_err (build_evidence_snapshot uuid5 env alert_id decision) (\<lambda>evidence.
        Inr \<lparr>tr_state =
               \<lparr>st_replay_session_id = st_replay_session_id state,
                st_machine_id = st_machine_id state,
                active_alert_id = Some alert_id,
                previous_alert_id = previous_alert_id state,
                first_detection = Some first_det,
                last_detection = Some last_det,
                resolved_at = None,
                anomaly_decision_ids = new_ids,
                anomaly_streak = new_streak,
                normal_streak = 0,
                last_decision_id = Some (decision_id decision),
                last_source_timestamp = Some (source_timestamp decision)\<rparr>,
             tr_event = Some event, tr_evidence = Some evidence\<rparr>)))"

definition is_reopen :: "LockedAlertPolicyV1 \<Rightarrow> AlertState \<Rightarrow> ScoreDecisionV1 \<Rightarrow> bool" where
  "is_reopen policy state decision \<longleftrightarrow>
     previous_alert_id state \<noteq> None \<and> resolved_at state \<noteq> None
     \<and> merge_gap_seconds policy > 0
     \<and> source_timestamp decision - the (resolved_at state) \<le> seconds (merge_gap_seconds policy)"

definition handle_anomaly_trigger ::
  "(uuid_name \<Rightarrow> uuid) \<Rightarrow> call_env \<Rightarrow> AlertState \<Rightarrow> ScoreDecisionV1 \<Rightarrow> LockedAlertPolicyV1
     \<Rightarrow> int \<Rightarrow> uuid list \<Rightarrow> exn + TransitionResult"
where
  "handle_anomaly_trigger uuid5 env state decision policy new_streak new_ids =
     (if new_streak < persistence_decisions policy then
        Inr \<lparr>tr_state =
               \<lparr>st_replay_session_id = st_replay_session_id state,
                st_machine_id = st_machine_id state,
                active_alert_id = None,
                previous_alert_id = previous_alert_id state,
                first_detection = first_detection state,
                last_detection = last_detection state,
                resolved_at = resolved_at state,
                anomaly_decision_ids = new_ids,
                anomaly_streak = new_streak,
                normal_streak = 0,
                last_decision_id = Some (decision_id decision),
                last_source_timestamp = Some (source_timestamp decision)\<rparr>,
             tr_event = None, tr_evidence = None\<rparr>
      else
        (let is_reopen = is_reopen policy state decision;
             act = (if is_reopen then REOPENED else OPENED);
             alert_id =
               (if is_reopen then the (previous_alert_id state)
                else alert_id_for uuid5 (replay_session_id decision) (hd new_ids));
             first_det =
               (if is_reopen then or_else (first_detection state) (source_timestamp decision)
                else source_timestamp decision)
         in emit_anomaly_result uuid5 env state decision policy act alert_id first_det
              new_streak new_ids))"

definition handle_anomaly_update ::
  "(uuid_name \<Rightarrow> uuid) \<Rightarrow> call_env \<Rightarrow> AlertState \<Rightarrow> ScoreDecisionV1 \<Rightarrow> LockedAlertPolicyV1
     \<Rightarrow> int \<Rightarrow> uuid list \<Rightarrow> exn + TransitionResult"
where
  "handle_anomaly_update uuid5 env state decision policy new_streak new_ids =
     (case active_alert_id state of
        None \<Rightarrow> Inl AssertionError
      | Some alert_id \<Rightarrow>
          emit_anomaly_result uuid5 env state decision policy UPDATED alert_id
            (or_else (first_detection state) (source_timestamp decision)) new_streak new_ids)"

definition handle_normal ::
  "call_env \<Rightarrow> AlertState \<Rightarrow> ScoreDecisionV1 \<Rightarrow> LockedAlertPolicyV1 \<Rightarrow> exn + TransitionResult"
where
  "handle_normal env state decision policy =
     (let new_normal_streak = normal_streak state + 1 in
      case active_alert_id state of
        Some alert_id \<Rightarrow>
          (if new_normal_streak \<ge> cooldown_decisions policy then
             (let first_det = or_else (first_detection state) (source_timestamp decision);
                  last_det = or_else (last_detection state) (source_timestamp decision)
              in bind_err
                   (build_alert_event env state decision policy RESOLVED alert_id first_det last_det
                      (anomaly_decision_ids state))
                   (\<lambda>event.
                 Inr \<lparr>tr_state =
                        \<lparr>st_replay_session_id = st_replay_session_id state,
                         st_machine_id = st_machine_id state,
                         active_alert_id = None,
                         previous_alert_id = Some alert_id,
                         first_detection = Some first_det,
                         last_detection = Some last_det,
                         resolved_at = Some (source_timestamp decision),
                         anomaly_decision_ids = [],
                         anomaly_streak = 0,
                         normal_streak = new_normal_streak,
                         last_decision_id = Some (decision_id decision),
                         last_source_timestamp = Some (source_timestamp decision)\<rparr>,
                      tr_event = Some event, tr_evidence = None\<rparr>))
           else
             Inr \<lparr>tr_state = state
                    \<lparr>anomaly_streak := 0, normal_streak := new_normal_streak,
                     last_decision_id := Some (decision_id decision),
                     last_source_timestamp := Some (source_timestamp decision)\<rparr>,
                  tr_event = None, tr_evidence = None\<rparr>)
      | None \<Rightarrow>
          Inr \<lparr>tr_state = state
                 \<lparr>active_alert_id := None, anomaly_decision_ids := [], anomaly_streak := 0,
                  normal_streak := new_normal_streak,
                  last_decision_id := Some (decision_id decision),
                  last_source_timestamp := Some (source_timestamp decision)\<rparr>,
               tr_event = None, tr_evidence = None\<rparr>)"

definition transition ::
  "(uuid_name \<Rightarrow> uuid) \<Rightarrow> call_env \<Rightarrow> AlertState \<Rightarrow> ScoreDecisionV1 \<Rightarrow> LockedAlertPolicyV1
     \<Rightarrow> exn + TransitionResult"
where
  "transition uuid5 env state decision policy =
     (if last_decision_id state = Some (decision_id decision)
      then Inr \<lparr>tr_state = state, tr_event = None, tr_evidence = None\<rparr>
      else if last_source_timestamp state \<noteq> None
        \<and> source_timestamp decision \<le> the (last_source_timestamp state)
      then Inl OrderingViolationError
      else if is_anomaly decision then
        (let new_streak = anomaly_streak state + 1;
             new_ids = anomaly_decision_ids state @ [decision_id decision]
         in if active_alert_id state = None
            then handle_anomaly_trigger uuid5 env state decision policy new_streak new_ids
            else handle_anomaly_update uuid5 env state decision policy new_streak new_ids)
      else handle_normal env state decision policy)"

section \<open>Invariant\<close>

text \<open>Both present and ordered.\<close>

fun opt_le :: "int option \<Rightarrow> int option \<Rightarrow> bool" where
  "opt_le (Some a) (Some b) = (a \<le> b)"
| "opt_le _ _ = False"

lemma opt_le_iff: "opt_le x y \<longleftrightarrow> (\<exists>a b. x = Some a \<and> y = Some b \<and> a \<le> b)"
  by (cases x; cases y) auto

definition alert_inv :: "AlertState \<Rightarrow> bool" where
  "alert_inv s \<longleftrightarrow>
     st_machine_id s \<noteq> [] \<and> 0 \<le> anomaly_streak s \<and> 0 \<le> normal_streak s \<and>
     (last_decision_id s = None \<longleftrightarrow> last_source_timestamp s = None) \<and>
     (if active_alert_id s \<noteq> None
      then resolved_at s = None \<and> anomaly_decision_ids s \<noteq> [] \<and>
        opt_le (first_detection s) (last_detection s) \<and>
        opt_le (last_detection s) (last_source_timestamp s)
      else int (length (anomaly_decision_ids s)) = anomaly_streak s \<and>
        (resolved_at s = None \<longleftrightarrow> previous_alert_id s = None) \<and>
        (resolved_at s \<noteq> None \<longrightarrow>
           opt_le (first_detection s) (last_detection s) \<and>
           opt_le (last_detection s) (resolved_at s) \<and>
           opt_le (resolved_at s) (last_source_timestamp s)))"

lemma alert_inv_empty: "machine \<noteq> [] \<Longrightarrow> alert_inv (empty_state session machine)"
  by (simp add: alert_inv_def empty_state_def)

lemmas transition_defs = transition_def handle_anomaly_trigger_def handle_anomaly_update_def
  handle_normal_def emit_anomaly_result_def Let_def

lemma build_alert_event_Inr:
  "build_alert_event env s d policy act a f l ids = Inr e \<Longrightarrow>
     ae_action e = act \<and> ae_alert_id e = a \<and> ae_first_detection e = f \<and> ae_last_detection e = l \<and>
     ae_decision_ids e = ids \<and> source_timestamp e = source_timestamp d \<and> f \<le> l \<and> ids \<noteq> [] \<and>
     ae_policy_sha256 e = policy_sha256 policy \<and> replay_session_id e = replay_session_id d \<and>
     validate_alert_event runtime_tz e = Inr e \<and> message_id e = event_uuid env \<and>
     ae_machine_id e = st_machine_id s"
  by (auto simp: build_alert_event_def validate_alert_event_runtime)

lemma build_evidence_snapshot_Inr:
  "build_evidence_snapshot uuid5 env a d = Inr ev \<Longrightarrow>
     es_alert_id ev = a \<and> es_decision_id ev = decision_id d \<and>
     es_evidence_id ev = evidence_id_for uuid5 a (decision_id d) \<and>
     length (es_feature_deviations ev) = length (evidence_vector d) \<and>
     message_id ev = evidence_uuid env"
  by (auto simp: build_evidence_snapshot_def err_simps validate_evidence_snapshot_runtime
      map_err_length)

text \<open>The decision is new to the state: another id and a strictly later timestamp.\<close>

definition fresh_decision :: "AlertState \<Rightarrow> ScoreDecisionV1 \<Rightarrow> bool" where
  "fresh_decision s d \<longleftrightarrow>
     last_decision_id s \<noteq> Some (decision_id d) \<and>
     (case last_source_timestamp s of None \<Rightarrow> True | Some t \<Rightarrow> t < source_timestamp d)"

text \<open>The bookkeeping every non-duplicate transition ends with.\<close>

definition stamp :: "ScoreDecisionV1 \<Rightarrow> AlertState \<Rightarrow> AlertState" where
  "stamp d s = s\<lparr>last_decision_id := Some (decision_id d),
     last_source_timestamp := Some (source_timestamp d)\<rparr>"

lemma stamp_simps [simp]:
  "last_decision_id (stamp d s) = Some (decision_id d)"
  "last_source_timestamp (stamp d s) = Some (source_timestamp d)"
  "st_replay_session_id (stamp d s) = st_replay_session_id s"
  "st_machine_id (stamp d s) = st_machine_id s" "active_alert_id (stamp d s) = active_alert_id s"
  "previous_alert_id (stamp d s) = previous_alert_id s"
  "first_detection (stamp d s) = first_detection s"
  "last_detection (stamp d s) = last_detection s" "resolved_at (stamp d s) = resolved_at s"
  "anomaly_decision_ids (stamp d s) = anomaly_decision_ids s"
  "anomaly_streak (stamp d s) = anomaly_streak s" "normal_streak (stamp d s) = normal_streak s"
  by (simp_all add: stamp_def)

lemma not_fresh_iff:
  "\<not> fresh_decision s d \<longleftrightarrow> last_decision_id s = Some (decision_id d) \<or>
     (last_source_timestamp s \<noteq> None \<and> source_timestamp d \<le> the (last_source_timestamp s))"
  by (auto simp: fresh_decision_def split: option.splits)

lemma emit_anomaly_result_Inr:
  assumes "emit_anomaly_result uuid5 env s d policy act a f n ids = Inr r"
  obtains e ev where "build_alert_event env s d policy act a f (source_timestamp d) ids = Inr e"
    "build_evidence_snapshot uuid5 env a d = Inr ev" "tr_event r = Some e" "tr_evidence r = Some ev"
    "tr_state r = stamp d (s\<lparr>active_alert_id := Some a, first_detection := Some f,
       last_detection := Some (source_timestamp d), resolved_at := None,
       anomaly_decision_ids := ids, anomaly_streak := n, normal_streak := 0\<rparr>)"
  using assms
  by (auto simp: emit_anomaly_result_def Let_def err_simps stamp_def intro!: AlertState.equality)

lemma transition_cases:
  assumes tr: "transition uuid5 env s d policy = Inr r"
  obtains
    (duplicate) "last_decision_id s = Some (decision_id d)" "tr_state r = s"
      "tr_event r = None" "tr_evidence r = None"
  | (pending) "fresh_decision s d" "is_anomaly d" "active_alert_id s = None"
      "anomaly_streak s + 1 < persistence_decisions policy" "tr_event r = None" "tr_evidence r = None"
      "tr_state r = stamp d (s\<lparr>anomaly_decision_ids := anomaly_decision_ids s @ [decision_id d],
         anomaly_streak := anomaly_streak s + 1, normal_streak := 0\<rparr>)"
  | (triggered) e ev a f where "fresh_decision s d" "is_anomaly d" "active_alert_id s = None"
      "persistence_decisions policy \<le> anomaly_streak s + 1"
      "a = (if is_reopen policy s d then the (previous_alert_id s)
        else alert_id_for uuid5 (replay_session_id d)
          (hd (anomaly_decision_ids s @ [decision_id d])))"
      "f = (if is_reopen policy s d then or_else (first_detection s) (source_timestamp d)
        else source_timestamp d)"
      "build_alert_event env s d policy (if is_reopen policy s d then REOPENED else OPENED) a f
         (source_timestamp d) (anomaly_decision_ids s @ [decision_id d]) = Inr e"
      "build_evidence_snapshot uuid5 env a d = Inr ev" "tr_event r = Some e" "tr_evidence r = Some ev"
      "tr_state r = stamp d (s\<lparr>active_alert_id := Some a, first_detection := Some f,
         last_detection := Some (source_timestamp d), resolved_at := None,
         anomaly_decision_ids := anomaly_decision_ids s @ [decision_id d],
         anomaly_streak := anomaly_streak s + 1, normal_streak := 0\<rparr>)"
  | (updated) e ev a f where "fresh_decision s d" "is_anomaly d" "active_alert_id s = Some a"
      "f = or_else (first_detection s) (source_timestamp d)"
      "build_alert_event env s d policy UPDATED a f
         (source_timestamp d) (anomaly_decision_ids s @ [decision_id d]) = Inr e"
      "build_evidence_snapshot uuid5 env a d = Inr ev" "tr_event r = Some e" "tr_evidence r = Some ev"
      "tr_state r = stamp d (s\<lparr>active_alert_id := Some a, first_detection := Some f,
         last_detection := Some (source_timestamp d), resolved_at := None,
         anomaly_decision_ids := anomaly_decision_ids s @ [decision_id d],
         anomaly_streak := anomaly_streak s + 1, normal_streak := 0\<rparr>)"
  | (resolved) e a f l where "fresh_decision s d" "\<not> is_anomaly d" "active_alert_id s = Some a"
      "cooldown_decisions policy \<le> normal_streak s + 1"
      "f = or_else (first_detection s) (source_timestamp d)"
      "l = or_else (last_detection s) (source_timestamp d)"
      "build_alert_event env s d policy RESOLVED a f l (anomaly_decision_ids s) = Inr e"
      "tr_event r = Some e" "tr_evidence r = None"
      "tr_state r = stamp d (s\<lparr>active_alert_id := None, previous_alert_id := Some a,
         first_detection := Some f, last_detection := Some l,
         resolved_at := Some (source_timestamp d), anomaly_decision_ids := [],
         anomaly_streak := 0, normal_streak := normal_streak s + 1\<rparr>)"
  | (cooling) a where "fresh_decision s d" "\<not> is_anomaly d" "active_alert_id s = Some a"
      "normal_streak s + 1 < cooldown_decisions policy" "tr_event r = None" "tr_evidence r = None"
      "tr_state r = stamp d (s\<lparr>anomaly_streak := 0, normal_streak := normal_streak s + 1\<rparr>)"
  | (quiet) "fresh_decision s d" "\<not> is_anomaly d" "active_alert_id s = None"
      "tr_event r = None" "tr_evidence r = None"
      "tr_state r = stamp d (s\<lparr>anomaly_decision_ids := [], anomaly_streak := 0,
         normal_streak := normal_streak s + 1\<rparr>)"
proof (cases "last_decision_id s = Some (decision_id d)")
  case True
  with tr show thesis by (intro duplicate) (auto simp: transition_def)
next
  case False
  with tr have fresh: "fresh_decision s d"
    by (auto simp: transition_def fresh_decision_def split: if_splits option.splits)
  show thesis
  proof (cases "is_anomaly d")
    case anom: True
    show thesis
    proof (cases "active_alert_id s")
      case None
      with anom False fresh tr have t: "handle_anomaly_trigger uuid5 env s d policy
          (anomaly_streak s + 1) (anomaly_decision_ids s @ [decision_id d]) = Inr r"
        by (auto simp: transition_def Let_def fresh_decision_def split: if_splits option.splits)
      show thesis
      proof (cases "anomaly_streak s + 1 < persistence_decisions policy")
        case True
        with t None fresh anom show thesis
          by (intro pending) (auto simp: handle_anomaly_trigger_def stamp_def intro!: AlertState.equality)
      next
        case False
        with t have "emit_anomaly_result uuid5 env s d policy
          (if is_reopen policy s d then REOPENED else OPENED)
          (if is_reopen policy s d then the (previous_alert_id s)
           else alert_id_for uuid5 (replay_session_id d)
             (hd (anomaly_decision_ids s @ [decision_id d])))
          (if is_reopen policy s d then or_else (first_detection s) (source_timestamp d)
           else source_timestamp d)
          (anomaly_streak s + 1) (anomaly_decision_ids s @ [decision_id d]) = Inr r"
          by (simp only: handle_anomaly_trigger_def Let_def if_False)
        then show thesis
          by (rule emit_anomaly_result_Inr) (rule triggered [OF fresh anom None _ refl refl], use False in simp)
      qed
    next
      case (Some a)
      with anom False fresh tr have "emit_anomaly_result uuid5 env s d policy UPDATED a
          (or_else (first_detection s) (source_timestamp d))
          (anomaly_streak s + 1) (anomaly_decision_ids s @ [decision_id d]) = Inr r"
        by (auto simp: transition_def handle_anomaly_update_def Let_def fresh_decision_def
            split: if_splits option.splits)
      then show thesis
        by (rule emit_anomaly_result_Inr) (rule updated [OF fresh anom Some refl])
    qed
  next
    case norm: False
    with False fresh tr have h: "handle_normal env s d policy = Inr r"
      by (auto simp: transition_def fresh_decision_def split: if_splits option.splits)
    show thesis
    proof (cases "active_alert_id s")
      case None
      with h fresh norm show thesis
        by (intro quiet) (auto simp: handle_normal_def Let_def stamp_def)
    next
      case (Some a)
      show thesis
      proof (cases "normal_streak s + 1 < cooldown_decisions policy")
        case True
        with h Some fresh norm show thesis
          by (intro cooling) (auto simp: handle_normal_def Let_def stamp_def)
      next
        case False
        with h Some fresh norm show thesis
          by (auto simp: handle_normal_def Let_def err_simps stamp_def
              intro!: AlertState.equality resolved)
      qed
    qed
  qed
qed

lemma transition_inv:
  assumes inv: "alert_inv s" and tr: "transition uuid5 env s d policy = Inr r"
  shows "alert_inv (tr_state r)"
  using tr
proof (cases rule: transition_cases)
  case duplicate
  with inv show ?thesis by simp
next
  case pending
  with inv show ?thesis
    by (auto simp: alert_inv_def opt_le_iff fresh_decision_def)
next
  case (triggered e ev a f)
  have "f \<le> source_timestamp d" using build_alert_event_Inr [OF triggered(7)] by simp
  with inv triggered(11) show ?thesis by (simp add: alert_inv_def)
next
  case (updated e ev a f)
  have "f \<le> source_timestamp d" using build_alert_event_Inr [OF updated(5)] by simp
  with inv updated(9) show ?thesis by (simp add: alert_inv_def)
next
  case (resolved e a f l)
  have "f \<le> l" using build_alert_event_Inr [OF resolved(7)] by simp
  moreover have "l \<le> source_timestamp d"
    using inv resolved(1,3,6) by (auto simp: alert_inv_def fresh_decision_def opt_le_iff or_else_def)
  ultimately show ?thesis using inv resolved(10) by (simp add: alert_inv_def)
next
  case (cooling a)
  with inv show ?thesis
    by (auto simp: alert_inv_def opt_le_iff fresh_decision_def)
next
  case quiet
  with inv show ?thesis
    by (auto simp: alert_inv_def opt_le_iff fresh_decision_def)
qed

text \<open>The machine as a step function over pairs of a call environment and a decision.\<close>

definition alert_step ::
  "(uuid_name \<Rightarrow> uuid) \<Rightarrow> LockedAlertPolicyV1 \<Rightarrow> AlertState \<Rightarrow> call_env \<times> ScoreDecisionV1
     \<Rightarrow> exn + AlertState \<times> (AlertEventV1 option \<times> EvidenceSnapshotV1 option)"
where
  "alert_step uuid5 policy s = (\<lambda>(env, d).
     bind_err (transition uuid5 env s d policy)
       (\<lambda>r. Inr (tr_state r, (tr_event r, tr_evidence r))))"

definition alert_state_step ::
  "(uuid_name \<Rightarrow> uuid) \<Rightarrow> LockedAlertPolicyV1 \<Rightarrow> AlertState \<Rightarrow> call_env \<times> ScoreDecisionV1
     \<Rightarrow> exn + AlertState"
where
  "alert_state_step uuid5 policy s x = bind_err (alert_step uuid5 policy s x) (\<lambda>(s', _). Inr s')"

interpretation alert_machine: inv_machine "alert_state_step uuid5 policy" alert_inv
  by unfold_locales
    (auto simp: alert_state_step_def alert_step_def err_simps intro: transition_inv)

section \<open>Agreement with the calibration simulator\<close>

text \<open>
  What the machine needs of a decision besides passing \<open>validate_decision\<close>: finite, named evidence.
  (\<open>EvidenceValueV1\<close> allows an empty feature name, \<open>FeatureDeviationV1\<close> does not.)
\<close>

definition evidence_ok :: "EvidenceValueV1 \<Rightarrow> bool" where
  "evidence_ok ev \<longleftrightarrow>
     feature_name ev \<noteq> [] \<and> isfinite (feature_value ev) \<and> isfinite (robust_deviation ev)"

definition decision_ok :: "ScoreDecisionV1 \<Rightarrow> bool" where
  "decision_ok d \<longleftrightarrow>
     hex_envelope d \<and> model_version d \<noteq> [] \<and> list_all evidence_ok (evidence_vector d)"

lemma build_deviation_ok:
  "evidence_ok ev \<Longrightarrow> \<exists>dev. build_deviation ev = Inr dev"
  by (auto simp: evidence_ok_def build_deviation_def isfinite_iff validate_deviation_iff)

lemma build_evidence_snapshot_ok:
  assumes "decision_ok d"
  shows "\<exists>ev. build_evidence_snapshot uuid5 env a d = Inr ev"
proof -
  have "\<exists>devs. map_err build_deviation evs = Inr devs" if "list_all evidence_ok evs" for evs
    using that by (induction evs) (auto dest!: build_deviation_ok)
  with assms obtain devs where "map_err build_deviation (evidence_vector d) = Inr devs"
    by (auto simp: decision_ok_def)
  with assms show ?thesis
    by (simp add: build_evidence_snapshot_def validate_evidence_snapshot_runtime decision_ok_def
        hex_envelope_def)
qed

lemma build_alert_event_ok:
  assumes "decision_ok d" "is_hex64 (policy_sha256 policy)" "st_machine_id s \<noteq> []" "ids \<noteq> []"
    "f \<le> l"
  shows "\<exists>e. build_alert_event env s d policy act a f l ids = Inr e"
  using assms
  by (simp add: build_alert_event_def validate_alert_event_runtime decision_ok_def hex_envelope_def)

text \<open>One iteration of the simulator on a decision: the episodes it adds and whether it is active.\<close>

definition sim_decision ::
  "LockedAlertPolicyV1 \<Rightarrow> sim_state \<Rightarrow> call_env \<times> ScoreDecisionV1 \<Rightarrow> sim_state \<times> (int \<times> bool)"
where
  "sim_decision policy a = (\<lambda>(env, d).
     let a' = sim_row (persistence_decisions policy) (cooldown_decisions policy)
                (merge_gap_seconds policy) a (source_timestamp d) (is_anomaly d)
     in (a', (sim_episodes a' - sim_episodes a, sim_active a')))"

definition alert_rel :: "AlertState \<Rightarrow> sim_state \<Rightarrow> bool" where
  "alert_rel s a \<longleftrightarrow>
     alert_inv s \<and> sim_active a = (active_alert_id s \<noteq> None) \<and>
     sim_anomaly_streak a = anomaly_streak s \<and> sim_normal_streak a = normal_streak s \<and>
     (active_alert_id s = None \<longrightarrow> sim_last_resolution a = resolved_at s)"

definition alert_obs ::
  "AlertState \<Rightarrow> AlertEventV1 option \<times> EvidenceSnapshotV1 option \<Rightarrow> int \<times> bool"
where
  "alert_obs s = (\<lambda>(ev, _).
     ((case ev of Some e \<Rightarrow> if ae_action e = OPENED then 1 else 0 | None \<Rightarrow> 0),
      active_alert_id s \<noteq> None))"

definition alert_admissible :: "LockedAlertPolicyV1 \<Rightarrow> AlertState \<Rightarrow> call_env \<times> ScoreDecisionV1 \<Rightarrow> bool" where
  "alert_admissible policy s = (\<lambda>(env, d).
     is_hex64 (policy_sha256 policy) \<and> decision_ok d \<and> fresh_decision s d)"

lemma emit_anomaly_result_ok:
  assumes "decision_ok d" "is_hex64 (policy_sha256 policy)" "st_machine_id s \<noteq> []" "ids \<noteq> []"
    "f \<le> source_timestamp d"
  shows "\<exists>r. emit_anomaly_result uuid5 env s d policy act a f n ids = Inr r"
  using build_alert_event_ok [OF assms, of env act a]
    build_evidence_snapshot_ok [OF assms(1), of uuid5 env a]
  by (auto simp: emit_anomaly_result_def Let_def)

lemma handle_normal_ok:
  assumes "alert_inv s" "decision_ok d" "is_hex64 (policy_sha256 policy)"
  shows "\<exists>r. handle_normal env s d policy = Inr r"
proof (cases "active_alert_id s")
  case None
  then show ?thesis by (simp add: handle_normal_def Let_def)
next
  case (Some a)
  with assms(1) obtain f l where fl: "first_detection s = Some f" "last_detection s = Some l"
    "f \<le> l" and "st_machine_id s \<noteq> []" "anomaly_decision_ids s \<noteq> []"
    by (auto simp: alert_inv_def opt_le_iff)
  with build_alert_event_ok [OF assms(2,3), of s "anomaly_decision_ids s" f l env RESOLVED a]
  obtain e where "build_alert_event env s d policy RESOLVED a f l (anomaly_decision_ids s) = Inr e"
    by blast
  with Some fl show ?thesis by (simp add: handle_normal_def Let_def or_else_def)
qed

lemma transition_succeeds:
  assumes inv: "alert_inv s" and ok: "decision_ok d" "is_hex64 (policy_sha256 policy)"
    and fresh: "fresh_decision s d"
  shows "\<exists>r. transition uuid5 env s d policy = Inr r"
proof -
  have m: "st_machine_id s \<noteq> []" using inv by (simp add: alert_inv_def)
  note emit = emit_anomaly_result_ok [OF ok m]
  have "\<exists>r. handle_anomaly_trigger uuid5 env s d policy n (ids @ [x]) = Inr r"
    if "active_alert_id s = None" for n ids x
    using that inv fresh
    by (auto simp: handle_anomaly_trigger_def is_reopen_def Let_def alert_inv_def opt_le_iff or_else_def
        fresh_decision_def intro!: emit split: option.splits)
  moreover have "\<exists>r. handle_anomaly_update uuid5 env s d policy n (ids @ [x]) = Inr r"
    if "active_alert_id s \<noteq> None" for n ids x
    using that inv fresh
    by (auto simp: handle_anomaly_update_def alert_inv_def opt_le_iff or_else_def
        fresh_decision_def intro!: emit split: option.splits)
  ultimately show ?thesis
    using fresh handle_normal_ok [OF inv ok, of env]
    by (auto simp: transition_def Let_def fresh_decision_def split: option.splits)
qed

lemma is_reopen_inv:
  assumes "alert_inv s" "active_alert_id s = None"
  shows "is_reopen policy s d \<longleftrightarrow> (case resolved_at s of None \<Rightarrow> False
    | Some t \<Rightarrow> merge_gap_seconds policy > 0 \<and>
        source_timestamp d - t \<le> seconds (merge_gap_seconds policy))"
  using assms by (auto simp: is_reopen_def alert_inv_def split: option.splits)

lemma transition_sim:
  assumes rel: "alert_rel s a" and fresh: "fresh_decision s d"
    and tr: "transition uuid5 env s d policy = Inr r"
  shows "\<exists>a'. sim_decision policy a (env, d) = (a', alert_obs (tr_state r) (tr_event r, tr_evidence r))
    \<and> alert_rel (tr_state r) a'"
proof -
  have inv: "alert_inv s" "alert_inv (tr_state r)"
    using rel transition_inv [OF _ tr] by (auto simp: alert_rel_def)
  note sim = rel [unfolded alert_rel_def] inv
  note defs = sim_decision_def sim_row_def step_anomaly_def step_normal_def alert_obs_def
    alert_rel_def Let_def
  from tr show ?thesis
  proof (cases rule: transition_cases)
    case duplicate
    with fresh show ?thesis by (simp add: fresh_decision_def)
  next
    case pending
    with sim show ?thesis by (simp add: defs)
  next
    case (triggered e ev b f)
    with sim show ?thesis
      using build_alert_event_Inr [OF triggered(7)] is_reopen_inv [OF inv(1) triggered(3)]
      by (simp add: defs)
  next
    case (updated e ev b f)
    with sim show ?thesis using build_alert_event_Inr [OF updated(5)] by (simp add: defs)
  next
    case (resolved e b f l)
    with sim show ?thesis using build_alert_event_Inr [OF resolved(7)] by (simp add: defs)
  next
    case (cooling b)
    with sim show ?thesis by (simp add: defs)
  next
    case quiet
    with sim show ?thesis by (simp add: defs)
  qed
qed

interpretation alert_sim: lockstep "alert_step uuid5 policy" "sim_decision policy" alert_rel alert_obs
  "alert_admissible policy"
proof unfold_locales
  fix s a x
  assume rel: "alert_rel s a" and adm: "alert_admissible policy s x"
  obtain env d where x: "x = (env, d)" by (cases x)
  from adm have ok: "decision_ok d" "is_hex64 (policy_sha256 policy)" "fresh_decision s d"
    by (simp_all add: alert_admissible_def x)
  from rel have "alert_inv s" by (simp add: alert_rel_def)
  from transition_succeeds [OF this ok] obtain r where "transition uuid5 env s d policy = Inr r"
    by blast
  moreover from this rel adm obtain a' where
    "sim_decision policy a (env, d) = (a', alert_obs (tr_state r) (tr_event r, tr_evidence r))"
    "alert_rel (tr_state r) a'"
    using transition_sim by (fastforce simp: alert_admissible_def x)
  ultimately show "\<exists>s' out a'. alert_step uuid5 policy s x = Inr (s', out) \<and>
      sim_decision policy a x = (a', alert_obs s' out) \<and> alert_rel s' a'"
    by (auto simp: alert_step_def x)
qed

lemma alert_step_pair:
  "alert_step uuid5 policy s (env, d) = bind_err (transition uuid5 env s d policy)
     (\<lambda>r. Inr (tr_state r, (tr_event r, tr_evidence r)))"
  by (simp add: alert_step_def)

lemma alert_admissible_pair:
  "alert_admissible policy s (env, d) \<longleftrightarrow>
     is_hex64 (policy_sha256 policy) \<and> decision_ok d \<and> fresh_decision s d"
  by (simp add: alert_admissible_def)

section \<open>Runs\<close>

text \<open>A decision stream as the score table sees it.\<close>

definition decision_row :: "ScoreDecisionV1 \<Rightarrow> score_row" where
  "decision_row d = \<lparr>row_model_id = model_version d, row_split = ''calibration'',
     row_window_start = source_timestamp d, row_window_end = source_timestamp d,
     row_is_anomaly = is_anomaly d\<rparr>"

lemma sim_row_window_count:
  "sim_alert_window_count (sim_row P C G a ts x) =
     sim_alert_window_count a + (if sim_active (sim_row P C G a ts x) then 1 else 0)"
  by (auto simp: sim_row_def Let_def split: prod.splits)

lemma run_sim_decision:
  assumes "run_pure (sim_decision policy) a xs = (a', outs)"
  shows "a' = fold (\<lambda>row s. sim_row (persistence_decisions policy) (cooldown_decisions policy)
             (merge_gap_seconds policy) s (row_window_end row) (row_is_anomaly row))
             (map (decision_row \<circ> snd) xs) a \<and>
    sim_episodes a' = sim_episodes a + sum_list (map fst outs) \<and>
    sim_alert_window_count a' = sim_alert_window_count a + int (length (filter snd outs))"
  using assms
  by (induction xs arbitrary: a a' outs)
    (fastforce simp: sim_decision_def decision_row_def Let_def sim_row_window_count
      split: prod.splits if_splits)+

lemma transition_stamps:
  assumes "fresh_decision s d" and "transition uuid5 env s d policy = Inr r"
  shows "last_decision_id (tr_state r) = Some (decision_id d) \<and>
    last_source_timestamp (tr_state r) = Some (source_timestamp d)"
  using assms(2) by (cases rule: transition_cases) (use assms(1) in \<open>auto simp: fresh_decision_def\<close>)

text \<open>A well-formed stream after state \<open>s\<close>: later timestamps, new ids, well-formed decisions.\<close>

definition stream_ok :: "AlertState \<Rightarrow> ScoreDecisionV1 list \<Rightarrow> bool" where
  "stream_ok s ds \<longleftrightarrow>
     list_all decision_ok ds \<and> sorted_wrt (\<lambda>d e. source_timestamp d < source_timestamp e) ds \<and>
     distinct (map decision_id ds) \<and> list_all (fresh_decision s) ds"

lemma stream_ok_admissible:
  assumes "alert_inv s" "is_hex64 (policy_sha256 policy)" "stream_ok s (map snd xs)"
  shows "admissible_run (alert_step uuid5 policy) (alert_admissible policy) s xs"
  using assms(1,3)
proof (induction xs arbitrary: s)
  case Nil
  then show ?case by simp
next
  case (Cons x xs)
  obtain env d where x: "x = (env, d)" by (cases x)
  from Cons.prems have d: "decision_ok d" "fresh_decision s d" by (simp_all add: stream_ok_def x)
  with assms(2) Cons.prems(1) obtain r where r: "transition uuid5 env s d policy = Inr r"
    using transition_succeeds by blast
  have "stream_ok (tr_state r) (map snd xs)"
    using Cons.prems(2) transition_stamps [OF d(2) r]
    by (auto simp: stream_ok_def x fresh_decision_def list_all_iff)
  with Cons.IH transition_inv [OF Cons.prems(1) r]
  have "admissible_run (alert_step uuid5 policy) (alert_admissible policy) (tr_state r) xs" by blast
  with d r assms(2) show ?case
    by (simp add: x alert_step_pair alert_admissible_pair)
qed

definition is_opened :: "AlertState \<times> (AlertEventV1 option \<times> EvidenceSnapshotV1 option) \<Rightarrow> bool" where
  "is_opened = (\<lambda>(s, ev, _). case ev of Some e \<Rightarrow> ae_action e = OPENED | None \<Rightarrow> False)"

definition is_active_after :: "AlertState \<times> (AlertEventV1 option \<times> EvidenceSnapshotV1 option) \<Rightarrow> bool" where
  "is_active_after = (\<lambda>(s, _). active_alert_id s \<noteq> None)"

lemma alert_obs_counts:
  "sum_list (map fst (map (\<lambda>(s, out). alert_obs s out) outs)) = int (length (filter is_opened outs))"
  "length (filter snd (map (\<lambda>(s, out). alert_obs s out) outs)) = length (filter is_active_after outs)"
  by (induction outs)
    (auto simp: alert_obs_def is_opened_def is_active_after_def split: option.splits)

lemma alert_run_Cons:
  assumes "run_err (alert_step uuid5 policy) s ((env, d) # xs) = Inr (s', outs)"
  obtains r outs' where "transition uuid5 env s d policy = Inr r"
    "run_err (alert_step uuid5 policy) (tr_state r) xs = Inr (s', outs')"
    "outs = (tr_state r, tr_event r, tr_evidence r) # outs'"
  using assms
  by (cases "transition uuid5 env s d policy")
    (auto simp: alert_step_pair split: sum.splits prod.splits)

section \<open>Life cycle of an alert\<close>

text \<open>What the last event of a run says about the state it led to.\<close>

fun reflects :: "AlertState \<Rightarrow> AlertEventV1 option \<Rightarrow> bool" where
  "reflects s None = (active_alert_id s = None \<and> previous_alert_id s = None)"
| "reflects s (Some e) =
     (if ae_action e = RESOLVED
      then active_alert_id s = None \<and> previous_alert_id s = Some (ae_alert_id e)
      else active_alert_id s = Some (ae_alert_id e))"

text \<open>Which event may follow which: an open alert is updated or resolved under its own id; after a
  resolution a new alert opens or the same one reopens.\<close>

fun may_follow :: "AlertEventV1 option \<Rightarrow> AlertEventV1 \<Rightarrow> bool" where
  "may_follow None e = (ae_action e = OPENED)"
| "may_follow (Some p) e =
     (if ae_action p = RESOLVED
      then ae_action e = OPENED \<or> (ae_action e = REOPENED \<and> ae_alert_id e = ae_alert_id p)
      else ae_action e \<in> {UPDATED, RESOLVED} \<and> ae_alert_id e = ae_alert_id p)"

fun life_cycle :: "AlertEventV1 option \<Rightarrow> AlertEventV1 list \<Rightarrow> bool" where
  "life_cycle p [] = True"
| "life_cycle p (e # es) = (may_follow p e \<and> life_cycle (Some e) es)"

definition events_of :: "('s \<times> ('e option \<times> 'v)) list \<Rightarrow> 'e list" where
  "events_of outs = List.map_filter (\<lambda>(_, ev, _). ev) outs"

lemma transition_life_cycle:
  assumes "reflects s p" and tr: "transition uuid5 env s d policy = Inr r"
  shows "case tr_event r of None \<Rightarrow> reflects (tr_state r) p
    | Some e \<Rightarrow> may_follow p e \<and> reflects (tr_state r) (Some e)"
  using tr
  by (cases rule: transition_cases)
    (use assms(1) in \<open>cases p; auto simp: is_reopen_def dest!: build_alert_event_Inr split: if_splits\<close>)+

lemma run_life_cycle:
  assumes "reflects s p" and "run_err (alert_step uuid5 policy) s xs = Inr (s', outs)"
  shows "life_cycle p (events_of outs)"
  using assms
proof (induction xs arbitrary: s p outs)
  case Nil
  then show ?case by (simp add: events_of_def map_filter_simps)
next
  case (Cons x xs)
  obtain env d where x: "x = (env, d)" by (cases x)
  from Cons.prems(2) obtain r outs' where r: "transition uuid5 env s d policy = Inr r"
    and rest: "run_err (alert_step uuid5 policy) (tr_state r) xs = Inr (s', outs')"
    and outs: "outs = (tr_state r, tr_event r, tr_evidence r) # outs'"
    unfolding x by (rule alert_run_Cons)
  from transition_life_cycle [OF Cons.prems(1) r] show ?case
    using Cons.IH [OF _ rest]
    by (cases "tr_event r") (auto simp: outs events_of_def map_filter_simps)
qed

section \<open>Properties\<close>

text \<open>A concrete policy and decision stream for the witnesses.\<close>

definition sample_policy :: LockedAlertPolicyV1 where
  "sample_policy =
     \<lparr>pol_schema_version = ''alert-policy-v1'', pol_source_split = ''calibration'',
      pol_source_scores_sha256 = zero_sha, pol_source_dataset_sha256 = zero_sha,
      pol_contract_sha256 = zero_sha, pol_model_id = ''m'', pol_model_version = ''m-v1'',
      pol_threshold = 3, pol_stride_seconds = 300, persistence_decisions = 2,
      cooldown_decisions = 1, merge_gap_seconds = 900, calibration_false_episodes_per_day = 0,
      calibration_time_in_alert = 0, policy_sha256 = zero_sha\<rparr>"

definition sample_decision :: "uuid \<Rightarrow> bool \<Rightarrow> ScoreDecisionV1" where
  "sample_decision n anomalous =
     \<lparr>message_id = n, replay_session_id = 7, source_dataset_sha256 = zero_sha,
      contract_sha256 = zero_sha, source_timestamp = seconds (300 * int n), emitted_at = 0,
      decision_id = n, window_id = n, model_version = ''m-v1'', score = Fin 4, threshold = Fin 3,
      is_anomaly = anomalous,
      evidence_vector = [\<lparr>feature_name = ''tp2'', feature_value = Fin 5, robust_deviation = Fin 2\<rparr>]\<rparr>"

definition sample_env :: "nat \<Rightarrow> call_env" where
  "sample_env n = \<lparr>event_uuid = 2 * n, event_now = 0, evidence_uuid = 2 * n + 1, evidence_now = 0\<rparr>"

definition sample_stream :: "(call_env \<times> ScoreDecisionV1) list" where
  "sample_stream = map (\<lambda>(n, a). (sample_env n, sample_decision n a))
     [(1, True), (2, True), (3, False), (4, True), (5, True)]"

lemma sample_stream_ok:
  "stream_ok (empty_state 7 ''metropt3'') (map snd sample_stream)"
  "is_hex64 (policy_sha256 sample_policy)"
  by (simp_all add: stream_ok_def sample_stream_def sample_decision_def decision_ok_def
      hex_envelope_def evidence_ok_def fresh_decision_def empty_state_def sample_policy_def)

lemmas eval_transition = transition_defs build_alert_event_def validate_alert_event_def check_defs
  build_evidence_snapshot_def build_deviation_def validate_deviation_def
  validate_evidence_snapshot_def is_reopen_def or_else_def

lemmas sample_defs = sample_stream_def sample_policy_def sample_decision_def sample_env_def
  empty_state_def

lemma sample_run:
  "\<exists>s outs. run_err (alert_step (\<lambda>_. 0) sample_policy) (empty_state 7 ''metropt3'') sample_stream =
      Inr (s, outs) \<and> map ae_action (events_of outs) = [OPENED, RESOLVED, REOPENED]"
  by (simp add: sample_defs alert_step_pair eval_transition events_of_def map_filter_simps)

text \<open>
  C1 (refinement): the online alert machine agrees with the simulator the policy was calibrated
  with.  On every stream of well-formed decisions with strictly increasing source timestamps and
  distinct decision ids, processed from the empty state, no transition raises, the machine emits
  exactly as many OPENED events as the simulator counts episodes, and it has an active alert after
  exactly as many decisions as the simulator counts alert windows.
\<close>

theorem alert_machine_matches_calibration:
  assumes "machine \<noteq> []" "is_hex64 (policy_sha256 policy)"
    and "stream_ok (empty_state session machine) (map snd xs)"
  shows "\<exists>s outs. run_err (alert_step uuid5 policy) (empty_state session machine) xs = Inr (s, outs) \<and>
    simulate_alert_stream (map (decision_row \<circ> snd) xs) (persistence_decisions policy)
        (cooldown_decisions policy) (merge_gap_seconds policy) =
      (int (length (filter is_opened outs)), int (length (filter is_active_after outs)))"
proof -
  have "alert_rel (empty_state session machine) sim_init"
    using alert_inv_empty [OF assms(1)] by (simp add: alert_rel_def sim_init_def empty_state_def)
  moreover have "admissible_run (alert_step uuid5 policy) (alert_admissible policy)
      (empty_state session machine) xs"
    using stream_ok_admissible [OF alert_inv_empty [OF assms(1)] assms(2,3)] .
  ultimately obtain s outs a where
    run: "run_err (alert_step uuid5 policy) (empty_state session machine) xs = Inr (s, outs)"
    and sim: "run_pure (sim_decision policy) sim_init xs =
      (a, map (\<lambda>(d, out). alert_obs d out) outs)"
    using alert_sim.run_sim by blast
  have "sim_episodes sim_init = 0" "sim_alert_window_count sim_init = 0"
    by (simp_all add: sim_init_def)
  with run_sim_decision [OF sim, unfolded alert_obs_counts] run show ?thesis
    by (auto simp: simulate_alert_stream_def Let_def)
qed

theorem alert_machine_matches_calibration_witness:
  "\<exists>s outs. run_err (alert_step (\<lambda>_. 0) sample_policy) (empty_state 7 ''metropt3'') sample_stream =
      Inr (s, outs) \<and> length (filter is_opened outs) = 1 \<and> length (filter is_active_after outs) = 2"
proof -
  have "simulate_alert_stream (map (decision_row \<circ> snd) sample_stream)
      (persistence_decisions sample_policy) (cooldown_decisions sample_policy)
      (merge_gap_seconds sample_policy) = (1, 2)"
    by (simp add: simulate_alert_stream_def sample_stream_def decision_row_def sample_decision_def
        sample_policy_def sim_init_def sim_row_def step_anomaly_def step_normal_def)
  with alert_machine_matches_calibration [OF _ sample_stream_ok(2,1), of "\<lambda>_. 0"] show ?thesis
    by auto
qed

text \<open>
  C24 (invariant): every state the machine reaches satisfies the state invariant (an active alert
  has its detections, its decision ids and no resolution time, the detections and timestamps are
  ordered; an inactive state holds exactly the pending anomaly ids), and the events of the run
  follow the alert life cycle: the first event opens an alert, an open alert is only updated or
  resolved, under its own id, and after a resolution only a new alert opens or the resolved one
  reopens.
\<close>

theorem alert_run_life_cycle:
  assumes "machine \<noteq> []"
    and "run_err (alert_step uuid5 policy) (empty_state session machine) xs = Inr (s, outs)"
  shows "alert_inv s \<and> list_all (alert_inv \<circ> fst) outs \<and> life_cycle None (events_of outs)"
proof -
  have "alert_inv s0 \<Longrightarrow> run_err (alert_step uuid5 policy) s0 xs = Inr (s, outs) \<Longrightarrow>
      alert_inv s \<and> list_all (alert_inv \<circ> fst) outs" for s0
  proof (induction xs arbitrary: s0 outs)
    case (Cons x xs)
    obtain env d where x: "x = (env, d)" by (cases x)
    from Cons.prems(2) obtain r outs' where r: "transition uuid5 env s0 d policy = Inr r"
      and rest: "run_err (alert_step uuid5 policy) (tr_state r) xs = Inr (s, outs')"
      and outs: "outs = (tr_state r, tr_event r, tr_evidence r) # outs'"
      unfolding x by (rule alert_run_Cons)
    with Cons.IH [OF _ rest] transition_inv [OF Cons.prems(1) r] show ?case by simp
  qed simp
  moreover have "reflects (empty_state session machine) None" by (simp add: empty_state_def)
  ultimately show ?thesis
    using assms alert_inv_empty run_life_cycle by blast
qed

theorem alert_run_life_cycle_witness:
  "\<exists>s outs. run_err (alert_step (\<lambda>_. 0) sample_policy) (empty_state 7 ''metropt3'') sample_stream =
      Inr (s, outs) \<and> map ae_action (events_of outs) = [OPENED, RESOLVED, REOPENED] \<and>
      life_cycle None (events_of outs) \<and> alert_inv s"
proof -
  obtain s outs where
    run: "run_err (alert_step (\<lambda>_. 0) sample_policy) (empty_state 7 ''metropt3'') sample_stream =
      Inr (s, outs)" and acts: "map ae_action (events_of outs) = [OPENED, RESOLVED, REOPENED]"
    using sample_run by (elim exE conjE)
  show ?thesis
    using run acts alert_run_life_cycle [OF _ run]
    by (intro exI [of _ s] exI [of _ outs]) simp
qed

text \<open>
  Redelivery and reordering.  A decision that was just processed is a no-op when it is
  delivered again, and any other decision that is not strictly later than the last one is rejected
  with \<open>OrderingViolationError\<close>, whatever it contains.
\<close>

theorem transition_redelivery:
  assumes "fresh_decision s d" and "transition uuid5 env s d policy = Inr r"
  shows "transition uuid5 env' (tr_state r) d policy =
      Inr \<lparr>tr_state = tr_state r, tr_event = None, tr_evidence = None\<rparr> \<and>
    (decision_id d' \<noteq> decision_id d \<and> source_timestamp d' \<le> source_timestamp d \<longrightarrow>
      transition uuid5 env' (tr_state r) d' policy = Inl OrderingViolationError)"
  using transition_stamps [OF assms] by (simp add: transition_def)

theorem transition_redelivery_witness:
  "\<exists>r. transition (\<lambda>_. 0) (sample_env 1) (empty_state 7 ''metropt3'') (sample_decision 1 True)
        sample_policy = Inr r \<and>
     transition (\<lambda>_. 0) (sample_env 2) (tr_state r) (sample_decision 0 True) sample_policy =
       Inl OrderingViolationError"
proof -
  have "fresh_decision (empty_state 7 ''metropt3'') (sample_decision 1 True)"
    by (simp add: fresh_decision_def empty_state_def)
  moreover obtain r where "transition (\<lambda>_. 0) (sample_env 1) (empty_state 7 ''metropt3'')
      (sample_decision 1 True) sample_policy = Inr r"
    by (simp add: sample_defs eval_transition)
  ultimately show ?thesis
    using transition_redelivery [where d' = "sample_decision 0 True" and env' = "sample_env 2"]
    by (fastforce simp: sample_decision_def)
qed

end
