(* ===== verification/Tables.thy ===== *)
theory Tables
  imports Prelude "HOL-Library.AList" "HOL-Library.Multiset"
begin

text \<open>
  Relational tables as association lists from the primary key to the row, in insertion order, with
  the statements the repository's SQL uses: lookup by key, \<open>INSERT \<dots> ON CONFLICT (key) DO NOTHING\<close>,
  \<open>INSERT \<dots> ON CONFLICT (key) DO UPDATE\<close> and \<open>UPDATE \<dots> WHERE key = \<dots>\<close>.
\<close>

type_synonym ('k, 'v) table = "('k \<times> 'v) list"

definition insert_ignore :: "'k \<Rightarrow> 'v \<Rightarrow> ('k, 'v) table \<Rightarrow> ('k, 'v) table" where
  "insert_ignore k v t = (if map_of t k = None then t @ [(k, v)] else t)"

definition upsert :: "'k \<Rightarrow> 'v \<Rightarrow> ('v \<Rightarrow> 'v) \<Rightarrow> ('k, 'v) table \<Rightarrow> ('k, 'v) table" where
  "upsert k v f t =
     (case map_of t k of None \<Rightarrow> t @ [(k, v)] | Some old \<Rightarrow> AList.update k (f old) t)"

definition update_row :: "'k \<Rightarrow> ('v \<Rightarrow> 'v) \<Rightarrow> ('k, 'v) table \<Rightarrow> ('k, 'v) table" where
  "update_row k f t = map (\<lambda>(k', v). (k', if k' = k then f v else v)) t"

text \<open>The errors PostgreSQL raises for a violated constraint.\<close>

definition unique_violation :: exn where "unique_violation = DatabaseError ''unique_violation''"
definition fk_violation :: exn where "fk_violation = DatabaseError ''foreign_key_violation''"

definition keys :: "('k, 'v) table \<Rightarrow> 'k list" where
  "keys t = map fst t"

declare map_of_append [simp del]

lemma map_of_snoc:
  "map_of (t @ [(k, v)]) x =
     (case map_of t x of None \<Rightarrow> if x = k then Some v else None | Some w \<Rightarrow> Some w)"
  by (induction t) auto

lemma map_of_append_new [table_simps]:
  "map_of t k = None \<Longrightarrow> map_of (t @ [(k, v)]) x = (if x = k then Some v else map_of t x)"
  by (auto simp: map_of_snoc split: option.splits)

lemma map_of_insert_ignore [table_simps]:
  "map_of (insert_ignore k v t) x =
     (if x = k then Some (case map_of t k of None \<Rightarrow> v | Some old \<Rightarrow> old) else map_of t x)"
  by (auto simp: insert_ignore_def map_of_append_new split: option.splits)

lemma map_of_upsert [table_simps]:
  "map_of (upsert k v f t) x =
     (if x = k then Some (case map_of t k of None \<Rightarrow> v | Some old \<Rightarrow> f old) else map_of t x)"
  by (auto simp: upsert_def map_of_append_new update_conv' split: option.splits)

lemma map_of_update_row [table_simps]:
  "map_of (update_row k f t) x = (if x = k then map_option f (map_of t k) else map_of t x)"
  by (induction t) (auto simp: update_row_def)

lemma keys_insert_ignore [table_simps]:
  "keys (insert_ignore k v t) = (if k \<in> set (keys t) then keys t else keys t @ [k])"
  by (auto simp: insert_ignore_def keys_def map_of_eq_None_iff)

lemma keys_upsert [table_simps]:
  "keys (upsert k v f t) = (if k \<in> set (keys t) then keys t else keys t @ [k])"
  by (auto simp: upsert_def keys_def map_of_eq_None_iff update_keys split: option.splits
      dest!: map_of_SomeD)

lemma keys_update_row [table_simps]: "keys (update_row k f t) = keys t"
  by (auto simp: update_row_def keys_def)

lemma distinct_keys_insert_ignore:
  "distinct (keys t) \<Longrightarrow> distinct (keys (insert_ignore k v t))"
  by (simp add: keys_insert_ignore)

lemma distinct_keys_upsert: "distinct (keys t) \<Longrightarrow> distinct (keys (upsert k v f t))"
  by (simp add: keys_upsert)

lemma insert_ignore_same [simp]: "map_of t k = Some w \<Longrightarrow> insert_ignore k v t = t"
  by (simp add: insert_ignore_def)

lemma upsert_same: "map_of t k = Some w \<Longrightarrow> f w = w \<Longrightarrow> upsert k v f t = t"
  by (simp add: upsert_def update_triv)

lemma find_unique:
  assumes "r \<in> set t" "P r" and unique: "\<And>x. x \<in> set t \<Longrightarrow> P x \<Longrightarrow> x = r"
  shows "List.find P t = Some r"
proof (cases "List.find P t")
  case None
  with assms(1,2) show ?thesis by (auto simp: find_None_iff)
next
  case (Some y)
  then have "y \<in> set t" "P y" by (auto simp: find_Some_iff)
  with unique [of y] Some show ?thesis by blast
qed

lemma set_insert_ignore:
  "set (insert_ignore k v t) = set t \<union> (if map_of t k = None then {(k, v)} else {})"
  by (simp add: insert_ignore_def)

end
