(* ===== verification/Console_Stream.thy ===== *)
theory Console_Stream
  imports Runtime_Messages Tables
begin

text \<open>
  \<open>console_stream.py\<close>: the event feed of the operator console.  The downsampler's dictionary and the
  broker's subscriber sets are association lists; a subscriber queue is a bounded list whose items
  are events or the marker \<open>"resync_required"\<close>.  The store a feed writes to is the argument
  \<open>append_event\<close>, so that this theory does not depend on the database model.

  An event id is a structured value: the text of a message or decision id, or of the triple that the
  code formats for a status event.
\<close>

section \<open>Console events\<close>

datatype console_event_id =
    MessageEventId uuid
  | StatusEventId uuid ReplayState "int option"

datatype console_event_type = EV_STATUS | EV_TELEMETRY | EV_SCORE | EV_ALERT

datatype console_payload =
    PTelemetry TelemetryEventV1
  | PScore ScoreDecisionV1
  | PAlert AlertEventV1
  | PStatus ReplayStatusV1

record ConsoleEventV1 =
  ce_event_id :: console_event_id
  ce_replay_session_id :: uuid
  ce_event_type :: console_event_type
  ce_source_timestamp :: datetime
  ce_payload :: console_payload
  ce_durable :: bool

text \<open>\<open>payload.get("machine_id", "default")\<close>: telemetry and alert messages have the field.\<close>

fun payload_machine_id :: "console_payload \<Rightarrow> string" where
  "payload_machine_id (PTelemetry t) = te_machine_id t"
| "payload_machine_id (PAlert a) = ae_machine_id a"
| "payload_machine_id _ = ''default''"

section \<open>Downsampling\<close>

record TelemetryDownsampler =
  interval_seconds :: int
  last_emitted_by_machine :: "(string, datetime) table"

definition downsampler_accept ::
  "TelemetryDownsampler \<Rightarrow> ConsoleEventV1 \<Rightarrow> bool \<times> TelemetryDownsampler"
where
  "downsampler_accept ds event =
     (let machine = payload_machine_id (ce_payload event);
          last_ts = map_of (last_emitted_by_machine ds) machine
      in if last_ts = None
            \<or> ce_source_timestamp event - the last_ts \<ge> seconds (interval_seconds ds)
         then (True, ds\<lparr>last_emitted_by_machine :=
                AList.update machine (ce_source_timestamp event) (last_emitted_by_machine ds)\<rparr>)
         else (False, ds))"

section \<open>Broker\<close>

datatype queue_item = Event ConsoleEventV1 | ResyncRequired

type_synonym queue = "queue_item list"

record ConsoleEventBroker =
  max_queue_size :: nat
  subscribers :: "(uuid, (nat, queue) table) table"

definition session_queues :: "ConsoleEventBroker \<Rightarrow> uuid \<Rightarrow> (nat, queue) table" where
  "session_queues b session =
     (case map_of (subscribers b) session of None \<Rightarrow> [] | Some qs \<Rightarrow> qs)"

text \<open>\<open>asyncio.Queue\<close>: a maximal size of zero means unbounded; \<open>None\<close> is \<open>QueueFull\<close>.\<close>

definition put_nowait :: "nat \<Rightarrow> queue_item \<Rightarrow> queue \<Rightarrow> queue option" where
  "put_nowait maxsize x q = (if maxsize > 0 \<and> length q \<ge> maxsize then None else Some (q @ [x]))"

text \<open>The body of the loop in \<open>publish\<close>: on overflow the queue is drained and the marker put.\<close>

definition publish_to :: "nat \<Rightarrow> ConsoleEventV1 \<Rightarrow> queue \<Rightarrow> queue" where
  "publish_to maxsize event q =
     (case put_nowait maxsize (Event event) q of
        Some q' \<Rightarrow> q'
      | None \<Rightarrow> (case put_nowait maxsize ResyncRequired [] of Some q' \<Rightarrow> q' | None \<Rightarrow> []))"

definition subscribe :: "ConsoleEventBroker \<Rightarrow> uuid \<Rightarrow> nat \<Rightarrow> ConsoleEventBroker" where
  "subscribe b session qid =
     b\<lparr>subscribers := AList.update session (AList.update qid [] (session_queues b session))
         (subscribers b)\<rparr>"

definition unsubscribe :: "ConsoleEventBroker \<Rightarrow> uuid \<Rightarrow> nat \<Rightarrow> ConsoleEventBroker" where
  "unsubscribe b session qid =
     (case map_of (subscribers b) session of
        None \<Rightarrow> b
      | Some qs \<Rightarrow>
          (let qs' = AList.delete qid qs
           in b\<lparr>subscribers := (if qs' = [] then AList.delete session (subscribers b)
                                 else AList.update session qs' (subscribers b))\<rparr>))"

definition subscriber_count :: "ConsoleEventBroker \<Rightarrow> uuid \<Rightarrow> nat" where
  "subscriber_count b session = length (session_queues b session)"

definition broker_publish :: "ConsoleEventBroker \<Rightarrow> ConsoleEventV1 \<Rightarrow> ConsoleEventBroker" where
  "broker_publish b event =
     b\<lparr>subscribers := map (\<lambda>(session, qs).
         (session, if session = ce_replay_session_id event
                   then map (\<lambda>(qid, q). (qid, publish_to (max_queue_size b) event q)) qs else qs))
       (subscribers b)\<rparr>"

section \<open>Feed\<close>

text \<open>A Kafka record after \<open>decode_message\<close>, by topic.\<close>

definition decode_console :: "console_payload \<Rightarrow> ConsoleEventV1" where
  "decode_console p =
     (case p of
        PTelemetry t \<Rightarrow> \<lparr>ce_event_id = MessageEventId (message_id t),
          ce_replay_session_id = replay_session_id t, ce_event_type = EV_TELEMETRY,
          ce_source_timestamp = source_timestamp t, ce_payload = p, ce_durable = False\<rparr>
      | PScore d \<Rightarrow> \<lparr>ce_event_id = MessageEventId (decision_id d),
          ce_replay_session_id = replay_session_id d, ce_event_type = EV_SCORE,
          ce_source_timestamp = source_timestamp d, ce_payload = p, ce_durable = True\<rparr>
      | PAlert a \<Rightarrow> \<lparr>ce_event_id = MessageEventId (message_id a),
          ce_replay_session_id = replay_session_id a, ce_event_type = EV_ALERT,
          ce_source_timestamp = source_timestamp a, ce_payload = p, ce_durable = True\<rparr>
      | PStatus s \<Rightarrow> \<lparr>ce_event_id =
            StatusEventId (replay_session_id s) (status_state s) (status_last_sequence s),
          ce_replay_session_id = replay_session_id s, ce_event_type = EV_STATUS,
          ce_source_timestamp = source_timestamp s, ce_payload = p, ce_durable = True\<rparr>)"

record 'db ConsoleFeed =
  feed_store :: 'db
  feed_broker :: ConsoleEventBroker
  feed_downsampler :: TelemetryDownsampler

text \<open>\<open>process\<close> after a successful decode.  The result is the event and the new feed; the offset is
  committed exactly when the call returns.\<close>

definition feed_process ::
  "('db \<Rightarrow> ConsoleEventV1 \<Rightarrow> exn + 'db) \<Rightarrow> 'db ConsoleFeed \<Rightarrow> console_payload
     \<Rightarrow> exn + ConsoleEventV1 option \<times> 'db ConsoleFeed"
where
  "feed_process append_event feed p =
     (let event = decode_console p;
          (accepted, ds) =
            (if ce_event_type event = EV_TELEMETRY
             then downsampler_accept (feed_downsampler feed) event
             else (True, feed_downsampler feed));
          feed1 = feed\<lparr>feed_downsampler := ds\<rparr>
      in if \<not> accepted then Inr (None, feed1)
         else bind_err
           (if ce_durable event then append_event (feed_store feed1) event
            else Inr (feed_store feed1))
           (\<lambda>db. Inr (Some event, feed1\<lparr>feed_store := db,
              feed_broker := broker_publish (feed_broker feed1) event\<rparr>)))"

section \<open>Lemmas on the downsampler\<close>

text \<open>The source timestamps a machine's telemetry is emitted at.\<close>

fun run_downsampler ::
  "TelemetryDownsampler \<Rightarrow> ConsoleEventV1 list \<Rightarrow> ConsoleEventV1 list \<times> TelemetryDownsampler"
where
  "run_downsampler ds [] = ([], ds)"
| "run_downsampler ds (e # es) =
     (let (acc, ds') = downsampler_accept ds e; (out, ds'') = run_downsampler ds' es
      in (if acc then e # out else out, ds''))"

definition of_machine :: "string \<Rightarrow> ConsoleEventV1 list \<Rightarrow> ConsoleEventV1 list" where
  "of_machine machine = filter (\<lambda>e. payload_machine_id (ce_payload e) = machine)"

definition spaced :: "int \<Rightarrow> ConsoleEventV1 \<Rightarrow> ConsoleEventV1 \<Rightarrow> bool" where
  "spaced n e e' \<longleftrightarrow> ce_source_timestamp e + seconds n \<le> ce_source_timestamp e'"

lemma downsampler_accept_interval [simp]:
  "interval_seconds (snd (downsampler_accept ds e)) = interval_seconds ds"
  by (simp add: downsampler_accept_def Let_def)

lemma run_downsampler_spaced:
  "chain (spaced (interval_seconds ds)) (of_machine machine (fst (run_downsampler ds es))) \<and>
   (\<forall>t. map_of (last_emitted_by_machine ds) machine = Some t \<longrightarrow>
     of_machine machine (fst (run_downsampler ds es)) \<noteq> [] \<longrightarrow>
     t + seconds (interval_seconds ds)
       \<le> ce_source_timestamp (hd (of_machine machine (fst (run_downsampler ds es)))))"
proof (induction es arbitrary: ds)
  case Nil
  then show ?case by (simp add: of_machine_def)
next
  case (Cons e es)
  obtain acc ds' where acc: "downsampler_accept ds e = (acc, ds')" by (cases "downsampler_accept ds e")
  have iv: "interval_seconds ds' = interval_seconds ds"
    using downsampler_accept_interval [of ds e] by (simp add: acc)
  show ?case
  proof (cases acc)
    case False
    with acc have "ds' = ds" by (auto simp: downsampler_accept_def Let_def split: if_splits)
    with False Cons.IH [of ds] show ?thesis by (simp add: acc split: prod.splits)
  next
    case True
    with acc have ds': "last_emitted_by_machine ds' =
        AList.update (payload_machine_id (ce_payload e)) (ce_source_timestamp e)
          (last_emitted_by_machine ds)"
      and old: "map_of (last_emitted_by_machine ds) (payload_machine_id (ce_payload e)) = Some t \<Longrightarrow>
        t + seconds (interval_seconds ds) \<le> ce_source_timestamp e" for t
      by (auto simp: downsampler_accept_def Let_def split: if_splits)
    from Cons.IH [of ds'] True old show ?thesis
      by (auto simp: acc iv ds' of_machine_def update_conv' chain_Cons spaced_def
          split: prod.splits)
  qed
qed

section \<open>Lemmas on the queues\<close>

text \<open>
  What a subscriber has been given (consumed and queued items) against what was published: every
  event in order, except that a marker stands for a non-empty run of missed events.
\<close>

inductive covers :: "queue \<Rightarrow> ConsoleEventV1 list \<Rightarrow> bool" where
  covers_Nil: "covers [] []"
| covers_event: "covers items es \<Longrightarrow> covers (items @ [Event e]) (es @ [e])"
| covers_gap: "covers items es \<Longrightarrow> missed \<noteq> [] \<Longrightarrow> covers (items @ [ResyncRequired]) (es @ missed)"

lemma covers_split:
  "covers (xs @ ys) es \<Longrightarrow> \<exists>es1 es2. es = es1 @ es2 \<and> covers xs es1"
proof (induction ys arbitrary: es rule: rev_induct)
  case Nil
  then show ?case by (intro exI [of _ es] exI [of _ "[]"]) simp
next
  case (snoc y ys)
  from snoc.prems obtain es' tail where "es = es' @ tail" "covers (xs @ ys) es'"
    by (cases rule: covers.cases) auto
  with snoc.IH show ?case by fastforce
qed

datatype queue_op = Publish ConsoleEventV1 | Consume

text \<open>A subscriber \<open>qid\<close> of a session reads its next item, if there is one (\<open>get_nowait\<close>).\<close>

definition consume_item :: "ConsoleEventBroker \<Rightarrow> uuid \<Rightarrow> nat \<Rightarrow> queue_item option \<times> ConsoleEventBroker" where
  "consume_item b session qid =
     (case map_of (session_queues b session) qid of
        Some (x # q) \<Rightarrow>
          (Some x, b\<lparr>subscribers := AList.update session
             (AList.update qid q (session_queues b session)) (subscribers b)\<rparr>)
      | _ \<Rightarrow> (None, b))"

text \<open>One operation on the broker, with the items the subscriber has consumed so far.\<close>

fun broker_step :: "uuid \<Rightarrow> nat \<Rightarrow> queue \<times> ConsoleEventBroker \<Rightarrow> queue_op \<Rightarrow> queue \<times> ConsoleEventBroker" where
  "broker_step session qid (consumed, b) (Publish e) = (consumed, broker_publish b e)"
| "broker_step session qid (consumed, b) Consume =
     (case consume_item b session qid of
        (Some x, b') \<Rightarrow> (consumed @ [x], b') | (None, b') \<Rightarrow> (consumed, b'))"

definition published :: "queue_op list \<Rightarrow> ConsoleEventV1 list" where
  "published ops = List.map_filter (\<lambda>op. case op of Publish e \<Rightarrow> Some e | Consume \<Rightarrow> None) ops"

lemma publish_to_bounded:
  "0 < n \<Longrightarrow> length q \<le> n \<Longrightarrow> length (publish_to n e q) \<le> n"
  by (auto simp: publish_to_def put_nowait_def)

lemma covers_publish:
  assumes "0 < n" "covers (consumed @ q) es"
  shows "covers (consumed @ publish_to n e q) (es @ [e])"
proof (cases "length q \<ge> n")
  case False
  with covers_event [OF assms(2), of e] show ?thesis
    by (simp add: publish_to_def put_nowait_def)
next
  case True
  from covers_split [OF assms(2)] obtain es1 es2 where es: "es = es1 @ es2" "covers consumed es1"
    by blast
  have "covers (consumed @ [ResyncRequired]) (es1 @ (es2 @ [e]))"
    using es(2) by (rule covers_gap) simp
  with True assms(1) es show ?thesis by (simp add: publish_to_def put_nowait_def)
qed

lemma map_of_map_snd: "map_of (map (\<lambda>(k, v). (k, f k v)) t) x = map_option (f x) (map_of t x)"
  by (induction t) auto

lemma broker_publish_queue:
  "map_of (session_queues (broker_publish b e) session) qid =
     (if session = ce_replay_session_id e
      then map_option (publish_to (max_queue_size b) e) (map_of (session_queues b session) qid)
      else map_of (session_queues b session) qid)"
  by (auto simp: session_queues_def broker_publish_def map_of_map_snd split: option.splits)

lemma consume_item_queue:
  assumes "map_of (session_queues b session) qid = Some q"
  shows "case q of [] \<Rightarrow> consume_item b session qid = (None, b)
    | x # q' \<Rightarrow> (\<exists>b'. consume_item b session qid = (Some x, b') \<and>
        map_of (session_queues b' session) qid = Some q' \<and> max_queue_size b' = max_queue_size b)"
  using assms
  by (auto simp: consume_item_def session_queues_def update_conv' split: list.splits option.splits)

lemma broker_run_covers:
  assumes "0 < max_queue_size b" "map_of (session_queues b session) qid = Some q"
    "covers (consumed @ q) es" "length q \<le> max_queue_size b"
  shows "\<exists>c' b' q'. foldl (broker_step session qid) (consumed, b) ops = (c', b') \<and>
    map_of (session_queues b' session) qid = Some q' \<and> length q' \<le> max_queue_size b \<and>
    covers (c' @ q') (es @ filter (\<lambda>e. ce_replay_session_id e = session) (published ops))"
  using assms
proof (induction ops arbitrary: consumed b q es)
  case Nil
  then show ?case by (simp add: published_def map_filter_simps)
next
  case (Cons op ops)
  show ?case
  proof (cases op)
    case (Publish e)
    have n: "max_queue_size (broker_publish b e) = max_queue_size b" by (simp add: broker_publish_def)
    show ?thesis
    proof (cases "ce_replay_session_id e = session")
      case True
      then have "map_of (session_queues (broker_publish b e) session) qid =
          Some (publish_to (max_queue_size b) e q)"
        using Cons.prems(2) by (simp add: broker_publish_queue)
      from Cons.IH [OF _ this, unfolded n, OF Cons.prems(1) covers_publish [OF Cons.prems(1,3)]
          publish_to_bounded [OF Cons.prems(1,4)]]
      show ?thesis using True Publish by (simp add: published_def map_filter_simps)
    next
      case False
      then have "map_of (session_queues (broker_publish b e) session) qid = Some q"
        using Cons.prems(2) by (simp add: broker_publish_queue)
      from Cons.IH [OF _ this, unfolded n, OF Cons.prems(1,3,4)]
      show ?thesis using False Publish by (simp add: published_def map_filter_simps)
    qed
  next
    case Consume
    show ?thesis
    proof (cases q)
      case Nil
      with Cons.prems(2) have "consume_item b session qid = (None, b)"
        using consume_item_queue by fastforce
      with Cons.IH [OF Cons.prems] Consume show ?thesis
        by (simp add: published_def map_filter_simps)
    next
      case (Cons x q')
      with Cons.prems(2) obtain b' where b': "consume_item b session qid = (Some x, b')"
        "map_of (session_queues b' session) qid = Some q'" "max_queue_size b' = max_queue_size b"
        using consume_item_queue by fastforce
      from Cons.prems(3) Cons have "covers ((consumed @ [x]) @ q') es" by simp
      from Cons.IH [OF _ b'(2) this, unfolded b'(3), OF Cons.prems(1)] Cons.prems(4) Cons b'(1) Consume
      show ?thesis by (simp add: published_def map_filter_simps)
    qed
  qed
qed

lemma covers_no_gap: "covers items es \<Longrightarrow> ResyncRequired \<notin> set items \<Longrightarrow> items = map Event es"
  by (induction rule: covers.induct) auto

lemma run_downsampler_complete:
  assumes "0 < interval_seconds ds" "e \<in> set es"
  shows "(\<exists>e' \<in> set (fst (run_downsampler ds es)).
      payload_machine_id (ce_payload e') = payload_machine_id (ce_payload e) \<and>
      ce_source_timestamp e < ce_source_timestamp e' + seconds (interval_seconds ds)) \<or>
    (\<exists>t. map_of (last_emitted_by_machine ds) (payload_machine_id (ce_payload e)) = Some t \<and>
      ce_source_timestamp e < t + seconds (interval_seconds ds))"
  using assms
proof (induction es arbitrary: ds)
  case (Cons x es)
  obtain acc ds' where acc: "downsampler_accept ds x = (acc, ds')" by (cases "downsampler_accept ds x")
  have iv: "interval_seconds ds' = interval_seconds ds"
    using downsampler_accept_interval [of ds x] by (simp add: acc)
  show ?case
  proof (cases "e = x")
    case True
    with acc Cons.prems(1) show ?thesis
      by (cases acc) (auto simp: downsampler_accept_def Let_def split: if_splits prod.splits)
  next
    case False
    with Cons.prems have "0 < interval_seconds ds'" "e \<in> set es" by (simp_all add: iv)
    note ih = Cons.IH [OF this, unfolded iv]
    show ?thesis
    proof (cases acc)
      case True
      with acc have "map_of (last_emitted_by_machine ds') =
          (map_of (last_emitted_by_machine ds))
            (payload_machine_id (ce_payload x) \<mapsto> ce_source_timestamp x)"
        by (auto simp: downsampler_accept_def Let_def update_conv' split: if_splits)
      moreover have "set (fst (run_downsampler ds (x # es))) =
          insert x (set (fst (run_downsampler ds' es)))"
        using True acc by (simp add: split: prod.splits)
      ultimately show ?thesis using ih by (fastforce split: if_splits)
    next
      case acc_False: False
      with acc have "ds' = ds" by (auto simp: downsampler_accept_def Let_def split: if_splits)
      moreover have "fst (run_downsampler ds (x # es)) = fst (run_downsampler ds' es)"
        using acc_False acc by (simp split: prod.splits)
      ultimately show ?thesis using ih by simp
    qed
  qed
qed simp

section \<open>Properties\<close>

definition sample_status :: "nat \<Rightarrow> ReplayStatusV1" where
  "sample_status n =
     \<lparr>message_id = n, replay_session_id = 7, source_dataset_sha256 = zero_sha,
      contract_sha256 = zero_sha, source_timestamp = seconds (int n), emitted_at = 0,
      status_state = RUNNING, status_last_sequence = Some (int n), status_error_code = None\<rparr>"

definition sample_console_event :: "nat \<Rightarrow> ConsoleEventV1" where
  "sample_console_event n = decode_console (PStatus (sample_status n))"

definition sample_broker :: ConsoleEventBroker where
  "sample_broker = subscribe \<lparr>max_queue_size = 2, subscribers = []\<rparr> 7 1"

text \<open>
  C32 (safety): a console subscriber never misses an event silently.  Under any interleaving of
  publications (to any session) and reads by one subscriber, starting from its empty queue, the
  queue stays within its bound, and what the subscriber has read or has queued is the published
  stream of its session in order, in which each missed run of events is replaced by the marker
  \<open>resync_required\<close>; without a marker it is exactly the published stream.
\<close>

theorem subscriber_gaps_are_marked:
  assumes "0 < max_queue_size b" "map_of (session_queues b session) qid = Some []"
  shows "\<exists>consumed b' q. foldl (broker_step session qid) ([], b) ops = (consumed, b') \<and>
    map_of (session_queues b' session) qid = Some q \<and> length q \<le> max_queue_size b \<and>
    covers (consumed @ q) (filter (\<lambda>e. ce_replay_session_id e = session) (published ops)) \<and>
    (ResyncRequired \<notin> set (consumed @ q) \<longrightarrow>
      consumed @ q = map Event (filter (\<lambda>e. ce_replay_session_id e = session) (published ops)))"
proof -
  have "covers ([] @ []) []" by (simp add: covers_Nil)
  from broker_run_covers [OF assms this, of ops] covers_no_gap show ?thesis by fastforce
qed

theorem subscriber_gaps_are_marked_witness:
  "\<exists>consumed b' q. foldl (broker_step 7 1) ([], sample_broker)
      [Publish (sample_console_event 1), Consume, Publish (sample_console_event 2),
       Publish (sample_console_event 3), Publish (sample_console_event 4)] = (consumed, b') \<and>
     map_of (session_queues b' 7) 1 = Some q \<and>
     covers (consumed @ q) (map sample_console_event [1, 2, 3, 4])"
proof -
  have "0 < max_queue_size sample_broker" "map_of (session_queues sample_broker 7) 1 = Some []"
    by (simp_all add: sample_broker_def subscribe_def session_queues_def)
  from subscriber_gaps_are_marked [OF this, of "[Publish (sample_console_event 1), Consume,
      Publish (sample_console_event 2), Publish (sample_console_event 3),
      Publish (sample_console_event 4)]"]
  show ?thesis
    by (auto simp: published_def map_filter_simps sample_console_event_def decode_console_def
        sample_status_def)
qed

text \<open>
  The telemetry downsampler.  From a fresh downsampler the telemetry it lets through
  for one machine is spaced by at least the interval, and every event of the stream lies less than
  one interval after (or before) some emitted event of the same machine.
\<close>

theorem downsampler_rate:
  assumes "0 < n" and "out = fst (run_downsampler
    \<lparr>interval_seconds = n, last_emitted_by_machine = []\<rparr> es)"
  shows "chain (spaced n) (of_machine machine out) \<and>
    (\<forall>e \<in> set es. \<exists>e' \<in> set out.
      payload_machine_id (ce_payload e') = payload_machine_id (ce_payload e) \<and>
      ce_source_timestamp e < ce_source_timestamp e' + seconds n)"
proof -
  let ?ds = "\<lparr>interval_seconds = n, last_emitted_by_machine = []\<rparr>"
  have "chain (spaced n) (of_machine machine out)"
    using run_downsampler_spaced [of ?ds machine es] assms(2) by simp
  moreover have "\<exists>e' \<in> set out. payload_machine_id (ce_payload e') = payload_machine_id (ce_payload e)
      \<and> ce_source_timestamp e < ce_source_timestamp e' + seconds n" if "e \<in> set es" for e
    using run_downsampler_complete [of ?ds e es] assms that by simp
  ultimately show ?thesis by blast
qed

theorem downsampler_rate_witness:
  "map ce_event_id (fst (run_downsampler \<lparr>interval_seconds = 2, last_emitted_by_machine = []\<rparr>
      (map sample_console_event [1, 2, 3, 4]))) = map ce_event_id (map sample_console_event [1, 3]) \<and>
   chain (spaced 2) (of_machine ''default'' (fst (run_downsampler
      \<lparr>interval_seconds = 2, last_emitted_by_machine = []\<rparr> (map sample_console_event [1, 2, 3, 4]))))"
  using downsampler_rate [OF _ refl, of 2 "''default''" "map sample_console_event [1, 2, 3, 4]"]
  by (simp add: downsampler_accept_def sample_console_event_def decode_console_def sample_status_def)

end
