(* ===== verification/Runtime_Store.thy ===== *)
theory Runtime_Store
  imports Alert_State Console_Stream
begin

text \<open>
  \<open>persistence.py\<close>: \<open>RuntimeStore\<close> over the PostgreSQL schema of \<open>db/migrations\<close>.  The database is
  the record \<open>RuntimeDB\<close>, one table per field; a method is a function on it, its transaction either
  returns the new database or raises (\<open>DatabaseError\<close> for a violated unique, foreign-key or check
  constraint), in which case nothing is written.  \<open>now()\<close> is the argument \<open>now\<close>.

  A JSON payload is the message it encodes, except for the alert runtime state, whose encoding the
  source spells out (\<open>state_payload\<close>, \<open>state_from_payload\<close>): there the text of a UUID and of an ISO
  timestamp are the constructors \<open>JUuid\<close> and \<open>JTime\<close>.
\<close>

declare map_of_append [simp del]

section \<open>Encoding of the alert state\<close>

datatype json = JNull | JText string | JUuid uuid | JTime datetime | JNum int | JArr "json list"

type_synonym payload = "(string, json) table"

definition json_opt :: "('a \<Rightarrow> json) \<Rightarrow> 'a option \<Rightarrow> json" where
  "json_opt f x = (case x of None \<Rightarrow> JNull | Some v \<Rightarrow> f v)"

definition state_payload :: "AlertState \<Rightarrow> payload" where
  "state_payload s =
     [(''replay_session_id'', JUuid (st_replay_session_id s)),
      (''machine_id'', JText (st_machine_id s)),
      (''active_alert_id'', json_opt JUuid (active_alert_id s)),
      (''previous_alert_id'', json_opt JUuid (previous_alert_id s)),
      (''first_detection'', json_opt JTime (first_detection s)),
      (''last_detection'', json_opt JTime (last_detection s)),
      (''resolved_at'', json_opt JTime (resolved_at s)),
      (''anomaly_decision_ids'', JArr (map JUuid (anomaly_decision_ids s))),
      (''anomaly_streak'', JNum (anomaly_streak s)),
      (''normal_streak'', JNum (normal_streak s)),
      (''last_decision_id'', json_opt JUuid (last_decision_id s)),
      (''last_source_timestamp'', json_opt JTime (last_source_timestamp s))]"

fun parse_uuid :: "json \<Rightarrow> exn + uuid" where
  "parse_uuid (JUuid u) = Inr u"
| "parse_uuid _ = Inl (ValueError ''badly formed hexadecimal UUID string'')"

fun parse_time :: "json \<Rightarrow> exn + datetime" where
  "parse_time (JTime t) = Inr t"
| "parse_time _ = Inl (ValueError ''Invalid isoformat string'')"

fun parse_int :: "json \<Rightarrow> exn + int" where
  "parse_int (JNum n) = Inr n"
| "parse_int _ = Inl (ValueError ''int'')"

text \<open>\<open>payload[name]\<close> and \<open>payload.get(name, default)\<close>.\<close>

definition payload_item :: "payload \<Rightarrow> string \<Rightarrow> exn + json" where
  "payload_item p name = (case map_of p name of None \<Rightarrow> Inl (KeyError name) | Some v \<Rightarrow> Inr v)"

definition payload_get :: "payload \<Rightarrow> string \<Rightarrow> json \<Rightarrow> json" where
  "payload_get p name d = (case map_of p name of None \<Rightarrow> d | Some v \<Rightarrow> v)"

definition optional_field :: "(json \<Rightarrow> exn + 'a) \<Rightarrow> payload \<Rightarrow> string \<Rightarrow> exn + 'a option" where
  "optional_field parse p name =
     (case payload_get p name JNull of JNull \<Rightarrow> Inr None
      | v \<Rightarrow> bind_err (parse v) (\<lambda>x. Inr (Some x)))"

definition state_from_payload :: "payload \<Rightarrow> exn + AlertState" where
  "state_from_payload p =
     bind_err (bind_err (payload_item p ''replay_session_id'') parse_uuid) (\<lambda>session.
     bind_err (payload_item p ''machine_id'') (\<lambda>machine.
     bind_err (case machine of JText m \<Rightarrow> Inr m | _ \<Rightarrow> Inl (ValueError ''machine_id'')) (\<lambda>machine.
     bind_err (optional_field parse_uuid p ''active_alert_id'') (\<lambda>active.
     bind_err (optional_field parse_uuid p ''previous_alert_id'') (\<lambda>previous.
     bind_err (optional_field parse_time p ''first_detection'') (\<lambda>first_det.
     bind_err (optional_field parse_time p ''last_detection'') (\<lambda>last_det.
     bind_err (optional_field parse_time p ''resolved_at'') (\<lambda>resolved.
     bind_err (map_err parse_uuid
         (case payload_get p ''anomaly_decision_ids'' (JArr []) of JArr ids \<Rightarrow> ids | _ \<Rightarrow> [])) (\<lambda>ids.
     bind_err (parse_int (payload_get p ''anomaly_streak'' (JNum 0))) (\<lambda>anomalies.
     bind_err (parse_int (payload_get p ''normal_streak'' (JNum 0))) (\<lambda>normals.
     bind_err (optional_field parse_uuid p ''last_decision_id'') (\<lambda>last_dec.
     bind_err (optional_field parse_time p ''last_source_timestamp'') (\<lambda>last_ts.
       Inr \<lparr>st_replay_session_id = session, st_machine_id = machine, active_alert_id = active,
            previous_alert_id = previous, first_detection = first_det, last_detection = last_det,
            resolved_at = resolved, anomaly_decision_ids = ids, anomaly_streak = anomalies,
            normal_streak = normals, last_decision_id = last_dec,
            last_source_timestamp = last_ts\<rparr>)))))))))))))"

section \<open>Tables\<close>

record OutboxRow =
  ob_message_id :: uuid
  ob_topic :: string
  ob_message_key :: uuid
  ob_payload :: AlertEventV1

record ReplaySessionRecord =
  rs_replay_session_id :: uuid
  rs_source_dataset_sha256 :: sha256
  rs_contract_sha256 :: sha256
  rs_model_version :: string
  rs_state :: ReplayState
  rs_last_sequence :: "int option"
  rs_source_timestamp :: "datetime option"
  rs_error_code :: "string option"
  rs_updated_at :: datetime

record ReplayCheckpoint =
  cp_replay_session_id :: uuid
  cp_command :: ReplayCommandV1
  cp_state :: ReplayState
  cp_last_sequence :: int
  cp_source_timestamp :: "datetime option"

datatype alert_row_state = ROW_OPEN | ROW_RESOLVED

record AlertSummaryRecord =
  al_alert_id :: uuid
  al_replay_session_id :: uuid
  al_machine_id :: string
  al_state :: alert_row_state
  al_first_detection :: datetime
  al_last_detection :: datetime
  al_resolved_at :: "datetime option"
  al_latest_decision_id :: uuid
  al_policy_sha256 :: sha256

record AlertDetailRecord =
  ad_alert :: AlertSummaryRecord
  ad_events :: "AlertEventV1 list"
  ad_evidence :: "EvidenceSnapshotV1 list"
  ad_decisions :: "ScoreDecisionV1 list"
  ad_rca :: "RcaReportV1 option"

text \<open>Rows of \<open>alert_events\<close> and \<open>evidence_snapshots\<close>: the columns besides the primary key.\<close>

record alert_event_row =
  er_alert_id :: uuid
  er_decision_id :: uuid
  er_action :: AlertAction
  er_payload :: AlertEventV1

record evidence_row =
  vr_alert_id :: uuid
  vr_decision_id :: uuid
  vr_payload :: EvidenceSnapshotV1

record RuntimeDB =
  replay_sessions :: "(uuid, ReplaySessionRecord) table"
  score_decisions :: "(uuid, ScoreDecisionV1) table"
  alerts :: "(uuid, AlertSummaryRecord) table"
  alert_events :: "(uuid, alert_event_row) table"
  evidence_snapshots :: "(uuid, evidence_row) table"
  alert_outbox :: "(uuid, OutboxRow \<times> datetime option) table"
  alert_runtime_states :: "(uuid \<times> string, payload) table"
  replay_checkpoints :: "(uuid, ReplayCheckpoint \<times> datetime) table"
  console_events :: "(nat, ConsoleEventV1) table"
  rca_reports :: "(string, RcaReportV1) table"

definition empty_db :: RuntimeDB where
  "empty_db = \<lparr>replay_sessions = [], score_decisions = [], alerts = [], alert_events = [],
     evidence_snapshots = [], alert_outbox = [], alert_runtime_states = [], replay_checkpoints = [],
     console_events = [], rca_reports = []\<rparr>"

lemma empty_db_simps [simp]:
  "replay_sessions empty_db = []" "score_decisions empty_db = []" "alerts empty_db = []"
  "alert_events empty_db = []" "evidence_snapshots empty_db = []" "alert_outbox empty_db = []"
  "alert_runtime_states empty_db = []" "replay_checkpoints empty_db = []"
  "console_events empty_db = []" "rca_reports empty_db = []"
  by (simp_all add: empty_db_def)

definition check_violation :: exn where "check_violation = DatabaseError ''check_violation''"

definition count_active_alerts :: "RuntimeDB \<Rightarrow> nat" where
  "count_active_alerts db = length (filter (\<lambda>(_, a). al_state a = ROW_OPEN) (alerts db))"

section \<open>Replay checkpoints and sessions\<close>

definition record_replay_checkpoint ::
  "RuntimeDB \<Rightarrow> datetime \<Rightarrow> ReplayCommandV1 \<Rightarrow> ReplayState \<Rightarrow> int \<Rightarrow> datetime option \<Rightarrow> exn + RuntimeDB"
where
  "record_replay_checkpoint db now command st last_seq source_ts =
     (if st = CREATED then Inl check_violation
      else
        (let row = (\<lparr>cp_replay_session_id = replay_session_id command, cp_command = command,
                     cp_state = st, cp_last_sequence = last_seq,
                     cp_source_timestamp = source_ts\<rparr>, now)
         in Inr (db\<lparr>replay_checkpoints :=
              upsert (replay_session_id command) row (\<lambda>_. row) (replay_checkpoints db)\<rparr>)))"

definition update_replay_checkpoint_state ::
  "RuntimeDB \<Rightarrow> datetime \<Rightarrow> uuid \<Rightarrow> ReplayState \<Rightarrow> exn + RuntimeDB"
where
  "update_replay_checkpoint_state db now session st =
     (if map_of (replay_checkpoints db) session = None
      then Inl (LookupError ''Replay checkpoint not found'')
      else if st = CREATED then Inl check_violation
      else Inr (db\<lparr>replay_checkpoints :=
        update_row session (\<lambda>(c, _). (c\<lparr>cp_state := st\<rparr>, now)) (replay_checkpoints db)\<rparr>))"

definition load_replay_checkpoint :: "RuntimeDB \<Rightarrow> uuid \<Rightarrow> ReplayCheckpoint option" where
  "load_replay_checkpoint db session = map_option fst (map_of (replay_checkpoints db) session)"

definition load_incomplete_replays :: "RuntimeDB \<Rightarrow> ReplayCheckpoint list" where
  "load_incomplete_replays db =
     map fst (sort_key snd (map snd
       (filter (\<lambda>(_, c, _). cp_state c \<in> {RUNNING, PAUSED}) (replay_checkpoints db))))"

definition record_replay_status :: "RuntimeDB \<Rightarrow> datetime \<Rightarrow> ReplayStatusV1 \<Rightarrow> RuntimeDB" where
  "record_replay_status db now status =
     db\<lparr>replay_sessions := upsert (replay_session_id status)
          \<lparr>rs_replay_session_id = replay_session_id status,
           rs_source_dataset_sha256 = source_dataset_sha256 status,
           rs_contract_sha256 = contract_sha256 status,
           rs_model_version = ''champion-statistical-v1'', rs_state = status_state status,
           rs_last_sequence = status_last_sequence status,
           rs_source_timestamp = Some (source_timestamp status),
           rs_error_code = status_error_code status, rs_updated_at = now\<rparr>
          (\<lambda>r. r\<lparr>rs_state := status_state status, rs_last_sequence := status_last_sequence status,
                rs_source_timestamp := Some (source_timestamp status),
                rs_error_code := status_error_code status, rs_updated_at := now\<rparr>)
          (replay_sessions db)\<rparr>"

definition ensure_session_exists :: "RuntimeDB \<Rightarrow> datetime \<Rightarrow> ScoreDecisionV1 \<Rightarrow> RuntimeDB" where
  "ensure_session_exists db now decision =
     db\<lparr>replay_sessions := insert_ignore (replay_session_id decision)
          \<lparr>rs_replay_session_id = replay_session_id decision,
           rs_source_dataset_sha256 = source_dataset_sha256 decision,
           rs_contract_sha256 = contract_sha256 decision,
           rs_model_version = model_version decision, rs_state = RUNNING,
           rs_last_sequence = None, rs_source_timestamp = Some (source_timestamp decision),
           rs_error_code = None, rs_updated_at = now\<rparr> (replay_sessions db)\<rparr>"

definition get_replay :: "RuntimeDB \<Rightarrow> uuid \<Rightarrow> ReplaySessionRecord option" where
  "get_replay db session = map_of (replay_sessions db) session"

section \<open>Alert state\<close>

definition session_decisions :: "RuntimeDB \<Rightarrow> uuid \<Rightarrow> ScoreDecisionV1 list" where
  "session_decisions db session =
     map snd (filter (\<lambda>(_, d). replay_session_id d = session) (score_decisions db))"

text \<open>The clock and id arguments of the transitions run here do not matter: only the state is kept.\<close>

definition reconstruct_alert_state ::
  "(uuid_name \<Rightarrow> uuid) \<Rightarrow> call_env \<Rightarrow> RuntimeDB \<Rightarrow> uuid \<Rightarrow> string \<Rightarrow> LockedAlertPolicyV1 \<Rightarrow> exn + AlertState"
where
  "reconstruct_alert_state uuid5 env db session machine policy =
     fold_err (\<lambda>s d. bind_err (transition uuid5 env s d policy) (\<lambda>r. Inr (tr_state r)))
       (empty_state session machine)
       (sort_key source_timestamp (sort_key decision_id (session_decisions db session)))"

definition load_alert_state ::
  "(uuid_name \<Rightarrow> uuid) \<Rightarrow> call_env \<Rightarrow> RuntimeDB \<Rightarrow> uuid \<Rightarrow> string \<Rightarrow> LockedAlertPolicyV1 option
     \<Rightarrow> exn + RuntimeDB \<times> AlertState"
where
  "load_alert_state uuid5 env db session machine policy =
     (case map_of (alert_runtime_states db) (session, machine) of
        Some p \<Rightarrow> bind_err (state_from_payload p) (\<lambda>s. Inr (db, s))
      | None \<Rightarrow>
          (if session_decisions db session = [] then Inr (db, empty_state session machine)
           else case policy of
               None \<Rightarrow> Inl (RuntimeError ''alert policy is required to reconstruct legacy runtime state'')
             | Some pol \<Rightarrow>
                 bind_err (reconstruct_alert_state uuid5 env db session machine pol) (\<lambda>s.
                   if map_of (replay_sessions db) session = None then Inl fk_violation
                   else Inr (db\<lparr>alert_runtime_states :=
                          insert_ignore (session, machine) (state_payload s)
                            (alert_runtime_states db)\<rparr>, s))))"

text \<open>The statements of \<open>record_decision_transition\<close>, in order.\<close>

definition insert_decision :: "RuntimeDB \<Rightarrow> ScoreDecisionV1 \<Rightarrow> exn + RuntimeDB" where
  "insert_decision db decision =
     (if map_of (score_decisions db) (decision_id decision) \<noteq> None then Inr db
      else if window_id decision \<in> set (map (window_id \<circ> snd) (score_decisions db))
      then Inl unique_violation
      else Inr (db\<lparr>score_decisions := score_decisions db @ [(decision_id decision, decision)]\<rparr>))"

definition upsert_alert :: "RuntimeDB \<Rightarrow> ScoreDecisionV1 \<Rightarrow> AlertEventV1 \<Rightarrow> exn + RuntimeDB" where
  "upsert_alert db decision event =
     (let row_state = (if ae_action event = RESOLVED then ROW_RESOLVED else ROW_OPEN);
          resolved = (if ae_action event = RESOLVED then Some (source_timestamp decision) else None)
      in if map_of (alerts db) (ae_alert_id event) = None
            \<and> map_of (replay_sessions db) (replay_session_id event) = None
         then Inl fk_violation
         else Inr (db\<lparr>alerts := upsert (ae_alert_id event)
           \<lparr>al_alert_id = ae_alert_id event, al_replay_session_id = replay_session_id event,
            al_machine_id = ae_machine_id event, al_state = row_state,
            al_first_detection = ae_first_detection event,
            al_last_detection = ae_last_detection event, al_resolved_at = resolved,
            al_latest_decision_id = decision_id decision,
            al_policy_sha256 = ae_policy_sha256 event\<rparr>
           (\<lambda>r. r\<lparr>al_state := row_state, al_last_detection := ae_last_detection event,
                 al_resolved_at := resolved, al_latest_decision_id := decision_id decision\<rparr>)
           (alerts db)\<rparr>))"

definition insert_alert_event :: "RuntimeDB \<Rightarrow> ScoreDecisionV1 \<Rightarrow> AlertEventV1 \<Rightarrow> exn + RuntimeDB" where
  "insert_alert_event db decision event =
     (if list_ex (\<lambda>(_, r). er_alert_id r = ae_alert_id event
           \<and> er_decision_id r = decision_id decision \<and> er_action r = ae_action event)
         (alert_events db)
      then Inr db
      else if map_of (alert_events db) (message_id event) \<noteq> None then Inl unique_violation
      else Inr (db\<lparr>alert_events := alert_events db @
        [(message_id event, \<lparr>er_alert_id = ae_alert_id event, er_decision_id = decision_id decision,
           er_action = ae_action event, er_payload = event\<rparr>)]\<rparr>))"

definition insert_evidence :: "RuntimeDB \<Rightarrow> ScoreDecisionV1 \<Rightarrow> EvidenceSnapshotV1 \<Rightarrow> exn + RuntimeDB" where
  "insert_evidence db decision ev =
     (if list_ex (\<lambda>(_, r). vr_alert_id r = es_alert_id ev \<and> vr_decision_id r = decision_id decision)
         (evidence_snapshots db)
      then Inr db
      else if map_of (evidence_snapshots db) (es_evidence_id ev) \<noteq> None then Inl unique_violation
      else if map_of (alerts db) (es_alert_id ev) = None then Inl fk_violation
      else Inr (db\<lparr>evidence_snapshots := evidence_snapshots db @
        [(es_evidence_id ev, \<lparr>vr_alert_id = es_alert_id ev, vr_decision_id = decision_id decision,
           vr_payload = ev\<rparr>)]\<rparr>))"

definition insert_outbox :: "RuntimeDB \<Rightarrow> AlertEventV1 \<Rightarrow> exn + RuntimeDB" where
  "insert_outbox db event =
     (if map_of (alert_outbox db) (message_id event) \<noteq> None then Inr db
      else if map_of (alert_events db) (message_id event) = None then Inl fk_violation
      else Inr (db\<lparr>alert_outbox := alert_outbox db @
        [(message_id event, (\<lparr>ob_message_id = message_id event, ob_topic = ''irp.alerts.v1'',
           ob_message_key = ae_alert_id event, ob_payload = event\<rparr>, None))]\<rparr>))"

definition upsert_runtime_state :: "RuntimeDB \<Rightarrow> AlertState \<Rightarrow> exn + RuntimeDB" where
  "upsert_runtime_state db s =
     (if map_of (replay_sessions db) (st_replay_session_id s) = None then Inl fk_violation
      else Inr (db\<lparr>alert_runtime_states :=
        upsert (st_replay_session_id s, st_machine_id s) (state_payload s) (\<lambda>_. state_payload s)
          (alert_runtime_states db)\<rparr>))"

definition persist_event ::
  "RuntimeDB \<Rightarrow> ScoreDecisionV1 \<Rightarrow> TransitionResult \<Rightarrow> exn + RuntimeDB"
where
  "persist_event db decision result =
     (case tr_event result of
        None \<Rightarrow> Inr db
      | Some event \<Rightarrow>
          bind_err (upsert_alert db decision event) (\<lambda>db.
          bind_err (insert_alert_event db decision event) (\<lambda>db.
          bind_err (case tr_evidence result of None \<Rightarrow> Inr db
                    | Some ev \<Rightarrow> insert_evidence db decision ev) (\<lambda>db.
          insert_outbox db event))))"

definition record_decision_transition ::
  "RuntimeDB \<Rightarrow> datetime \<Rightarrow> ScoreDecisionV1 \<Rightarrow> TransitionResult \<Rightarrow> exn + RuntimeDB"
where
  "record_decision_transition db now decision result =
     bind_err (insert_decision (ensure_session_exists db now decision) decision) (\<lambda>db.
     bind_err (persist_event db decision result) (\<lambda>db.
     upsert_runtime_state db (tr_state result)))"

section \<open>Outbox\<close>

definition next_unpublished_outbox :: "RuntimeDB \<Rightarrow> OutboxRow option" where
  "next_unpublished_outbox db =
     (case sort_key fst (filter (\<lambda>(_, _, p). p = None) (alert_outbox db)) of
        [] \<Rightarrow> None | (_, row, _) # _ \<Rightarrow> Some row)"

definition mark_outbox_published :: "RuntimeDB \<Rightarrow> datetime \<Rightarrow> uuid \<Rightarrow> RuntimeDB" where
  "mark_outbox_published db now mid =
     db\<lparr>alert_outbox := update_row mid (\<lambda>(row, _). (row, Some now)) (alert_outbox db)\<rparr>"

section \<open>Queries\<close>

definition list_alerts :: "RuntimeDB \<Rightarrow> uuid \<Rightarrow> uuid option \<Rightarrow> nat \<Rightarrow> AlertSummaryRecord list" where
  "list_alerts db session after limit =
     take limit (map snd (sort_key fst
       (filter (\<lambda>(i, a). al_replay_session_id a = session
                \<and> (case after of None \<Rightarrow> True | Some x \<Rightarrow> i > x)) (alerts db))))"

definition latest_rca :: "RuntimeDB \<Rightarrow> string \<Rightarrow> RcaReportV1 option" where
  "latest_rca db alert =
     (case filter (\<lambda>r. rca_alert_id r = alert) (map snd (rca_reports db)) of
        [] \<Rightarrow> None
      | rs \<Rightarrow> Some (hd (sort_key (\<lambda>r. - emitted_at r) rs)))"

definition get_alert_detail :: "(uuid \<Rightarrow> string) \<Rightarrow> RuntimeDB \<Rightarrow> uuid \<Rightarrow> AlertDetailRecord option" where
  "get_alert_detail uuid_str db alert_id =
     (case map_of (alerts db) alert_id of
        None \<Rightarrow> None
      | Some summary \<Rightarrow>
          Some \<lparr>ad_alert = summary,
            ad_events = map (er_payload \<circ> snd) (sort_key fst
              (filter (\<lambda>(_, r). er_alert_id r = alert_id) (alert_events db))),
            ad_evidence = map (vr_payload \<circ> snd) (sort_key fst
              (filter (\<lambda>(_, r). vr_alert_id r = alert_id) (evidence_snapshots db))),
            ad_decisions = sort_key source_timestamp
              (concat (map (\<lambda>(i, d). map (\<lambda>_. d)
                 (filter (\<lambda>(_, r). er_decision_id r = i \<and> er_alert_id r = alert_id)
                    (alert_events db))) (score_decisions db))),
            ad_rca = latest_rca db (uuid_str alert_id)\<rparr>)"

section \<open>Root-cause reports\<close>

definition find_rca :: "RuntimeDB \<Rightarrow> string \<Rightarrow> sha256 \<Rightarrow> RcaReportV1 option" where
  "find_rca db alert bundle =
     List.find (\<lambda>r. rca_alert_id r = alert \<and> evidence_bundle_sha256 r = bundle)
       (map snd (rca_reports db))"

definition save_rca :: "(uuid \<Rightarrow> string) \<Rightarrow> RuntimeDB \<Rightarrow> RcaReportV1 \<Rightarrow> exn + RuntimeDB \<times> RcaReportV1" where
  "save_rca uuid_str db report =
     bind_err
       (if find_rca db (rca_alert_id report) (evidence_bundle_sha256 report) \<noteq> None then Inr db
        else if map_of (rca_reports db) (report_id report) \<noteq> None then Inl unique_violation
        else if rca_alert_id report \<notin> set (map (uuid_str \<circ> fst) (alerts db)) then Inl fk_violation
        else Inr (db\<lparr>rca_reports := rca_reports db @ [(report_id report, report)]\<rparr>))
       (\<lambda>db'. case find_rca db' (rca_alert_id report) (evidence_bundle_sha256 report) of
           None \<Rightarrow> Inr (db', report)
         | Some existing \<Rightarrow>
             (if existing \<noteq> report then Inl IdentityMismatchError else Inr (db', existing)))"

definition save_complete_rca ::
  "(uuid \<Rightarrow> string) \<Rightarrow> RuntimeDB \<Rightarrow> RcaReportV1 \<Rightarrow> exn + RuntimeDB \<times> RcaReportV1"
where
  "save_complete_rca uuid_str db report =
     (if rca_status report \<noteq> RCA_COMPLETE then Inr (db, report) else save_rca uuid_str db report)"

definition get_rca :: "RuntimeDB \<Rightarrow> string \<Rightarrow> sha256 option \<Rightarrow> RcaReportV1 option" where
  "get_rca db alert bundle =
     (case bundle of
        Some b \<Rightarrow> if b \<noteq> [] then find_rca db alert b else latest_rca db alert
      | None \<Rightarrow> latest_rca db alert)"

section \<open>Console events\<close>

definition next_stream_sequence :: "RuntimeDB \<Rightarrow> nat" where
  "next_stream_sequence db = Suc (fold max (keys (console_events db)) 0)"

definition append_console_event :: "RuntimeDB \<Rightarrow> ConsoleEventV1 \<Rightarrow> exn + RuntimeDB" where
  "append_console_event db event =
     (if ce_event_id event \<in> set (map (ce_event_id \<circ> snd) (console_events db)) then Inr db
      else if ce_event_type event = EV_TELEMETRY then Inl check_violation
      else if map_of (replay_sessions db) (ce_replay_session_id event) = None then Inl fk_violation
      else Inr (db\<lparr>console_events := console_events db @ [(next_stream_sequence db, event)]\<rparr>))"

definition console_cursor_exists :: "RuntimeDB \<Rightarrow> uuid \<Rightarrow> console_event_id \<Rightarrow> bool" where
  "console_cursor_exists db session eid \<longleftrightarrow>
     list_ex (\<lambda>(_, e). ce_event_id e = eid \<and> ce_replay_session_id e = session) (console_events db)"

definition events_after ::
  "RuntimeDB \<Rightarrow> uuid \<Rightarrow> console_event_id option \<Rightarrow> nat \<Rightarrow> ConsoleEventV1 list"
where
  "events_after db session after limit =
     (let rows_after = (\<lambda>n. take limit (map (\<lambda>(_, e). e\<lparr>ce_durable := True\<rparr>) (sort_key fst
            (filter (\<lambda>(i, e). ce_replay_session_id e = session \<and> i > n) (console_events db)))))
      in case after of
           None \<Rightarrow> take limit (map (\<lambda>(_, e). e\<lparr>ce_durable := True\<rparr>) (sort_key fst
             (filter (\<lambda>(_, e). ce_replay_session_id e = session) (console_events db))))
         | Some eid \<Rightarrow>
             (case List.find (\<lambda>(_, e). ce_event_id e = eid \<and> ce_replay_session_id e = session)
                 (console_events db) of
                None \<Rightarrow> []
              | Some (n, _) \<Rightarrow> rows_after n))"

section \<open>Lemmas\<close>

lemma state_payload_inverse: "state_from_payload (state_payload s) = Inr s"
proof -
  have "map_err parse_uuid (map JUuid ids) = Inr ids" for ids
    by (induction ids) simp_all
  moreover have "optional_field parse_uuid p n = Inr x"
    if "payload_get p n JNull = json_opt JUuid x" for p n x
    using that by (cases x) (simp_all add: optional_field_def json_opt_def)
  moreover have "optional_field parse_time p n = Inr x"
    if "payload_get p n JNull = json_opt JTime x" for p n x
    using that by (cases x) (simp_all add: optional_field_def json_opt_def)
  ultimately show ?thesis
    by (simp add: state_from_payload_def state_payload_def payload_item_def payload_get_def)
qed

lemma transition_keys:
  assumes "transition uuid5 env s d policy = Inr r"
  shows "st_replay_session_id (tr_state r) = st_replay_session_id s \<and>
    st_machine_id (tr_state r) = st_machine_id s"
  using assms by (cases rule: transition_cases) simp_all

text \<open>The tables the alert-writing statements leave alone.\<close>

definition same_core :: "RuntimeDB \<Rightarrow> RuntimeDB \<Rightarrow> bool" where
  "same_core db db' \<longleftrightarrow> replay_sessions db' = replay_sessions db \<and>
     score_decisions db' = score_decisions db \<and>
     alert_runtime_states db' = alert_runtime_states db \<and> console_events db' = console_events db \<and>
     replay_checkpoints db' = replay_checkpoints db \<and> rca_reports db' = rca_reports db"

lemma same_core_trans: "same_core a b \<Longrightarrow> same_core b c \<Longrightarrow> same_core a c"
  by (simp add: same_core_def)

lemma same_core_ops:
  "upsert_alert db d e = Inr db' \<Longrightarrow> same_core db db'"
  "insert_alert_event db d e = Inr db' \<Longrightarrow> same_core db db'"
  "insert_evidence db d ev = Inr db' \<Longrightarrow> same_core db db'"
  "insert_outbox db e = Inr db' \<Longrightarrow> same_core db db'"
  by (auto simp: upsert_alert_def insert_alert_event_def insert_evidence_def insert_outbox_def
      same_core_def Let_def split: if_splits)

lemma persist_event_frame:
  assumes "persist_event db d r = Inr db'"
  shows "same_core db db'"
proof (cases "tr_event r")
  case None
  with assms show ?thesis by (simp add: persist_event_def same_core_def)
next
  case (Some e)
  with assms obtain db1 db2 db3 where steps: "upsert_alert db d e = Inr db1"
    "insert_alert_event db1 d e = Inr db2"
    "(case tr_evidence r of None \<Rightarrow> Inr db2 | Some ev \<Rightarrow> insert_evidence db2 d ev) = Inr db3"
    "insert_outbox db3 e = Inr db'"
    by (auto simp: persist_event_def err_simps)
  from steps(3) have "same_core db2 db3"
    using same_core_ops(3) by (cases "tr_evidence r") (auto simp: same_core_def)
  with steps show ?thesis by (blast intro: same_core_trans same_core_ops)
qed

text \<open>What a successful \<open>record_decision_transition\<close> leaves in the core tables.\<close>

lemma record_decision_transition_core:
  assumes "record_decision_transition db now d r = Inr db'"
  shows "map_of (alert_runtime_states db') k =
      (if k = (st_replay_session_id (tr_state r), st_machine_id (tr_state r))
       then Some (state_payload (tr_state r)) else map_of (alert_runtime_states db) k)"
    and "score_decisions db' = (if map_of (score_decisions db) (decision_id d) \<noteq> None
       then score_decisions db else score_decisions db @ [(decision_id d, d)])"
    and "map_of (replay_sessions db') (replay_session_id d) \<noteq> None"
proof -
  from assms obtain db1 db2 where
    ins: "insert_decision (ensure_session_exists db now d) d = Inr db1"
    and pers: "persist_event db1 d r = Inr db2" and ups: "upsert_runtime_state db2 (tr_state r) = Inr db'"
    by (auto simp: record_decision_transition_def err_simps)
  have db1: "alert_runtime_states db1 = alert_runtime_states db"
    "map_of (replay_sessions db1) (replay_session_id d) \<noteq> None"
    "score_decisions db1 = (if map_of (score_decisions db) (decision_id d) \<noteq> None
       then score_decisions db else score_decisions db @ [(decision_id d, d)])"
    using ins by (auto simp: insert_decision_def ensure_session_exists_def table_simps split: if_splits)
  note frame = persist_event_frame [OF pers, unfolded same_core_def]
  show "map_of (alert_runtime_states db') k =
      (if k = (st_replay_session_id (tr_state r), st_machine_id (tr_state r))
       then Some (state_payload (tr_state r)) else map_of (alert_runtime_states db) k)"
    using ups frame db1(1)
    by (auto simp: upsert_runtime_state_def table_simps split: if_splits option.splits)
  show "score_decisions db' = (if map_of (score_decisions db) (decision_id d) \<noteq> None
       then score_decisions db else score_decisions db @ [(decision_id d, d)])"
    using ups frame db1(3) by (auto simp: upsert_runtime_state_def split: if_splits)
  show "map_of (replay_sessions db') (replay_session_id d) \<noteq> None"
    using ups frame db1(2) by (auto simp: upsert_runtime_state_def split: if_splits)
qed

section \<open>The store as a keyed store\<close>

text \<open>A decision to process: the commit time, the call environment and the decision.\<close>

type_synonym delivery = "datetime \<times> call_env \<times> ScoreDecisionV1"

definition load_session ::
  "(uuid_name \<Rightarrow> uuid) \<Rightarrow> LockedAlertPolicyV1 \<Rightarrow> call_env \<Rightarrow> string \<Rightarrow> RuntimeDB \<Rightarrow> uuid \<Rightarrow> exn + AlertState"
where
  "load_session uuid5 policy env machine db session =
     bind_err (load_alert_state uuid5 env db session machine (Some policy)) (\<lambda>(_, s). Inr s)"

definition commit_transition ::
  "RuntimeDB \<Rightarrow> datetime \<times> ScoreDecisionV1 \<times> TransitionResult \<Rightarrow> exn + RuntimeDB"
where
  "commit_transition db = (\<lambda>(now, d, r). record_decision_transition db now d r)"

definition transition_step ::
  "(uuid_name \<Rightarrow> uuid) \<Rightarrow> LockedAlertPolicyV1 \<Rightarrow> AlertState \<Rightarrow> delivery
     \<Rightarrow> exn + datetime \<times> ScoreDecisionV1 \<times> TransitionResult"
where
  "transition_step uuid5 policy s = (\<lambda>(now, env, d).
     bind_err (transition uuid5 env s d policy) (\<lambda>r. Inr (now, d, r)))"

definition delivery_session :: "delivery \<Rightarrow> uuid" where
  "delivery_session = (\<lambda>(now, env, d). replay_session_id d)"

text \<open>
  Every session with decisions has a runtime-state row, and each row holds the encoding of a state
  of its own key.  (Databases written before migration 004 lack the rows; see
  \<open>legacy_reconstruction\<close>.)
\<close>

definition store_inv :: "string \<Rightarrow> RuntimeDB \<Rightarrow> bool" where
  "store_inv machine db \<longleftrightarrow>
     (\<forall>(i, d) \<in> set (score_decisions db).
        map_of (alert_runtime_states db) (replay_session_id d, machine) \<noteq> None) \<and>
     (\<forall>k p. map_of (alert_runtime_states db) (k, machine) = Some p \<longrightarrow>
        (\<exists>s. p = state_payload s \<and> st_replay_session_id s = k \<and> st_machine_id s = machine))"

definition transition_ok :: "string \<Rightarrow> datetime \<times> ScoreDecisionV1 \<times> TransitionResult \<Rightarrow> bool" where
  "transition_ok machine = (\<lambda>(now, d, r).
     st_replay_session_id (tr_state r) = replay_session_id d \<and> st_machine_id (tr_state r) = machine)"

lemma load_session_inv:
  assumes "store_inv machine db"
  shows "load_alert_state uuid5 env db k machine (Some policy) =
      Inr (db, case map_of (alert_runtime_states db) (k, machine) of None \<Rightarrow> empty_state k machine
        | Some p \<Rightarrow> projr (state_from_payload p))"
    and "load_session uuid5 policy env machine db k =
      Inr (case map_of (alert_runtime_states db) (k, machine) of None \<Rightarrow> empty_state k machine
        | Some p \<Rightarrow> projr (state_from_payload p))"
    and "load_session uuid5 policy env machine db k = Inr s \<Longrightarrow>
      st_replay_session_id s = k \<and> st_machine_id s = machine"
proof -
  have none: "session_decisions db k = []" if "map_of (alert_runtime_states db) (k, machine) = None"
    using that assms by (auto simp: store_inv_def session_decisions_def filter_empty_conv)
  have some: "\<exists>s. p = state_payload s \<and> st_replay_session_id s = k \<and> st_machine_id s = machine"
    if "map_of (alert_runtime_states db) (k, machine) = Some p" for p
    using that assms by (auto simp: store_inv_def)
  show load: "load_alert_state uuid5 env db k machine (Some policy) =
      Inr (db, case map_of (alert_runtime_states db) (k, machine) of None \<Rightarrow> empty_state k machine
        | Some p \<Rightarrow> projr (state_from_payload p))"
    using none some
    by (auto simp: load_alert_state_def state_payload_inverse split: option.splits)
  then show session: "load_session uuid5 policy env machine db k =
      Inr (case map_of (alert_runtime_states db) (k, machine) of None \<Rightarrow> empty_state k machine
        | Some p \<Rightarrow> projr (state_from_payload p))"
    by (simp add: load_session_def)
  show "load_session uuid5 policy env machine db k = Inr s \<Longrightarrow>
      st_replay_session_id s = k \<and> st_machine_id s = machine"
    using some by (auto simp: session state_payload_inverse empty_state_def split: option.splits)
qed

lemma commit_transition_inv:
  assumes "store_inv machine db" "transition_ok machine x" "commit_transition db x = Inr db'"
  shows "store_inv machine db'"
proof -
  obtain now d r where x: "x = (now, d, r)" by (cases x)
  from assms(3) have rec: "record_decision_transition db now d r = Inr db'"
    by (simp add: commit_transition_def x)
  note core = record_decision_transition_core [OF rec]
  have key: "(st_replay_session_id (tr_state r), st_machine_id (tr_state r)) =
      (replay_session_id d, machine)"
    using assms(2) by (simp add: transition_ok_def x)
  show ?thesis
    using assms(1,2)
    by (auto simp: store_inv_def core key transition_ok_def x split: if_splits)
qed

lemma commit_transition_load:
  assumes "store_inv machine db" "transition_ok machine x" "commit_transition db x = Inr db'"
  shows "load_session uuid5 policy env machine db' k =
    (if k = replay_session_id (fst (snd x)) then Inr (tr_state (snd (snd x)))
     else load_session uuid5 policy env machine db k)"
proof -
  obtain now d r where x: "x = (now, d, r)" by (cases x)
  from assms(3) have rec: "record_decision_transition db now d r = Inr db'"
    by (simp add: commit_transition_def x)
  have key: "(st_replay_session_id (tr_state r), st_machine_id (tr_state r)) =
      (replay_session_id d, machine)"
    using assms(2) by (simp add: transition_ok_def x)
  show ?thesis
    unfolding load_session_inv(2) [OF assms(1)]
      load_session_inv(2) [OF commit_transition_inv [OF assms]]
      record_decision_transition_core(1) [OF rec] key
    by (simp add: x state_payload_inverse)
qed

interpretation runtime_store: keyed_store "load_session uuid5 policy env machine" commit_transition
  "replay_session_id \<circ> fst \<circ> snd" "tr_state \<circ> snd \<circ> snd" "store_inv machine" "transition_ok machine"
  by unfold_locales (auto intro: commit_transition_inv simp: commit_transition_load)

interpretation alert_client: keyed_client "load_session uuid5 policy env machine" commit_transition
  "replay_session_id \<circ> fst \<circ> snd" "tr_state \<circ> snd \<circ> snd" "store_inv machine" "transition_ok machine"
  "transition_step uuid5 policy" delivery_session
proof unfold_locales
  fix db e s x
  assume inv: "store_inv machine db"
    and load: "load_session uuid5 policy env machine db (delivery_session e) = Inr s"
    and step: "transition_step uuid5 policy s e = Inr x"
  obtain now env' d where e: "e = (now, env', d)" by (cases e)
  from step obtain r where r: "transition uuid5 env' s d policy = Inr r" and x: "x = (now, d, r)"
    by (auto simp: transition_step_def e err_simps)
  from load_session_inv(3) [OF inv load] transition_keys [OF r]
  show "transition_ok machine x \<and> (replay_session_id \<circ> fst \<circ> snd) x = delivery_session e"
    by (simp add: transition_ok_def x delivery_session_def e)
qed

section \<open>Reconstruction of legacy state\<close>

text \<open>The transitions that lead to a state do not depend on the message ids and clock readings.\<close>

lemma build_alert_event_env:
  assumes "build_alert_event env s d policy act a f l ids = Inr e"
  shows "\<exists>e'. build_alert_event env' s d policy act a f l ids = Inr e'"
  using assms by (auto simp: build_alert_event_def validate_alert_event_runtime hex_envelope_def)

lemma build_evidence_snapshot_env:
  assumes "build_evidence_snapshot uuid5 env a d = Inr v"
  shows "\<exists>v'. build_evidence_snapshot uuid5 env' a d = Inr v'"
  using assms
  by (auto simp: build_evidence_snapshot_def err_simps validate_evidence_snapshot_runtime
      hex_envelope_def)

lemma emit_anomaly_result_env:
  assumes "emit_anomaly_result uuid5 env s d policy act a f n ids = Inr r"
  shows "\<exists>r'. emit_anomaly_result uuid5 env' s d policy act a f n ids = Inr r' \<and>
    tr_state r' = tr_state r"
  using assms build_alert_event_env [of env s d policy act a f _ ids _ env']
    build_evidence_snapshot_env [of uuid5 env a d _ env']
  by (fastforce simp: emit_anomaly_result_def Let_def err_simps)

lemma transition_env:
  assumes "transition uuid5 env s d policy = Inr r"
  shows "\<exists>r'. transition uuid5 env' s d policy = Inr r' \<and> tr_state r' = tr_state r"
proof -
  note emit = emit_anomaly_result_env [where env = env and env' = env']
  have trig: "\<exists>r'. handle_anomaly_trigger uuid5 env' s d policy n ids = Inr r' \<and> tr_state r' = tr_state r"
    if "handle_anomaly_trigger uuid5 env s d policy n ids = Inr r" for n ids
    using that by (auto simp: handle_anomaly_trigger_def Let_def split: if_splits dest: emit)
  have upd: "\<exists>r'. handle_anomaly_update uuid5 env' s d policy n ids = Inr r' \<and> tr_state r' = tr_state r"
    if "handle_anomaly_update uuid5 env s d policy n ids = Inr r" for n ids
    using that by (auto simp: handle_anomaly_update_def split: option.splits dest: emit)
  have norm: "\<exists>r'. handle_normal env' s d policy = Inr r' \<and> tr_state r' = tr_state r"
    if "handle_normal env s d policy = Inr r"
    using that build_alert_event_env [of env s d policy RESOLVED _ _ _ _ _ env']
    by (fastforce simp: handle_normal_def Let_def err_simps split: if_splits option.splits)
  from assms trig upd norm show ?thesis
    by (auto simp: transition_def Let_def split: if_splits)
qed

definition replay_decisions ::
  "(uuid_name \<Rightarrow> uuid) \<Rightarrow> call_env \<Rightarrow> LockedAlertPolicyV1 \<Rightarrow> AlertState \<Rightarrow> ScoreDecisionV1 list \<Rightarrow> exn + AlertState"
where
  "replay_decisions uuid5 env policy =
     fold_err (\<lambda>s d. bind_err (transition uuid5 env s d policy) (\<lambda>r. Inr (tr_state r)))"

lemma replay_decisions_snoc:
  "replay_decisions uuid5 env policy s (ds @ [d]) =
     bind_err (replay_decisions uuid5 env policy s ds)
       (\<lambda>s'. bind_err (transition uuid5 env s' d policy) (\<lambda>r. Inr (tr_state r)))"
  by (cases "replay_decisions uuid5 env policy s ds")
    (auto simp: replay_decisions_def fold_err_append bind_err_def split: sum.splits)

text \<open>
  The stored decisions of each session are in strict time order and replay to the stored state; the
  state's last decision is the last stored one.
\<close>

definition replay_inv ::
  "(uuid_name \<Rightarrow> uuid) \<Rightarrow> call_env \<Rightarrow> LockedAlertPolicyV1 \<Rightarrow> string \<Rightarrow> RuntimeDB \<Rightarrow> bool"
where
  "replay_inv uuid5 env policy machine db \<longleftrightarrow>
     store_inv machine db \<and> (\<forall>(i, d) \<in> set (score_decisions db). i = decision_id d) \<and>
     (\<forall>k s. load_session uuid5 policy env machine db k = Inr s \<longrightarrow>
        replay_decisions uuid5 env policy (empty_state k machine) (session_decisions db k) = Inr s \<and>
        sorted_wrt (\<lambda>d e. source_timestamp d < source_timestamp e) (session_decisions db k) \<and>
        (case session_decisions db k of [] \<Rightarrow> last_decision_id s = None \<and> last_source_timestamp s = None
         | d # ds \<Rightarrow> last_decision_id s = Some (decision_id (last (d # ds))) \<and>
             last_source_timestamp s = Some (source_timestamp (last (d # ds)))))"

lemma store_inv_empty: "store_inv machine empty_db"
  by (simp add: store_inv_def)

lemma replay_inv_empty: "replay_inv uuid5 env policy machine empty_db"
  by (auto simp: replay_inv_def store_inv_empty load_session_inv(2) [OF store_inv_empty]
      session_decisions_def replay_decisions_def empty_state_def)

lemma last_state_of:
  assumes "replay_inv uuid5 env policy machine db" "load_session uuid5 policy env machine db k = Inr s"
    and "ds = session_decisions db k"
  shows "ds = [] \<Longrightarrow> last_decision_id s = None \<and> last_source_timestamp s = None"
    and "ds \<noteq> [] \<Longrightarrow> last_decision_id s = Some (decision_id (last ds)) \<and>
      last_source_timestamp s = Some (source_timestamp (last ds))"
    and "d \<in> set ds \<Longrightarrow> source_timestamp d \<le> source_timestamp (last ds)"
    and "d \<in> set ds \<Longrightarrow> source_timestamp d = source_timestamp (last ds) \<Longrightarrow> d = last ds"
    and "sorted_wrt (\<lambda>d e. source_timestamp d < source_timestamp e) ds"
    and "replay_decisions uuid5 env policy (empty_state k machine) ds = Inr s"
proof -
  have all: "replay_decisions uuid5 env policy (empty_state k machine) ds = Inr s \<and>
      sorted_wrt (\<lambda>d e. source_timestamp d < source_timestamp e) ds \<and>
      (case ds of [] \<Rightarrow> last_decision_id s = None \<and> last_source_timestamp s = None
       | d # ds \<Rightarrow> last_decision_id s = Some (decision_id (last (d # ds))) \<and>
           last_source_timestamp s = Some (source_timestamp (last (d # ds))))"
    using assms by (simp add: replay_inv_def)
  then show "ds = [] \<Longrightarrow> last_decision_id s = None \<and> last_source_timestamp s = None"
    and "ds \<noteq> [] \<Longrightarrow> last_decision_id s = Some (decision_id (last ds)) \<and>
      last_source_timestamp s = Some (source_timestamp (last ds))"
    and sorted: "sorted_wrt (\<lambda>d e. source_timestamp d < source_timestamp e) ds"
    and "replay_decisions uuid5 env policy (empty_state k machine) ds = Inr s"
    by (auto split: list.splits)
  have last: "d = last ds \<or> source_timestamp d < source_timestamp (last ds)" if "d \<in> set ds" for d
    using that sorted by (induction ds rule: rev_induct) (auto simp: sorted_wrt_append)
  then show "d \<in> set ds \<Longrightarrow> source_timestamp d \<le> source_timestamp (last ds)"
    and "d \<in> set ds \<Longrightarrow> source_timestamp d = source_timestamp (last ds) \<Longrightarrow> d = last ds"
    by force+
qed

lemma session_decisions_after:
  assumes "record_decision_transition db now d r = Inr db'"
  shows "session_decisions db' k =
    (if map_of (score_decisions db) (decision_id d) = None \<and> replay_session_id d = k
     then session_decisions db k @ [d] else session_decisions db k)"
  by (simp add: session_decisions_def record_decision_transition_core(2) [OF assms])

abbreviation process_delivery ::
  "(uuid_name \<Rightarrow> uuid) \<Rightarrow> LockedAlertPolicyV1 \<Rightarrow> call_env \<Rightarrow> string \<Rightarrow> RuntimeDB \<Rightarrow> delivery \<Rightarrow> exn + RuntimeDB"
where
  "process_delivery uuid5 policy env machine \<equiv>
     store_process (load_session uuid5 policy env machine) commit_transition
       (transition_step uuid5 policy) delivery_session"

lemma process_delivery_elim:
  assumes "store_inv machine db" "process_delivery uuid5 policy env machine db (now, env', d) = Inr db'"
  obtains s r where "load_session uuid5 policy env machine db (replay_session_id d) = Inr s"
    "transition uuid5 env' s d policy = Inr r" "record_decision_transition db now d r = Inr db'"
    "store_inv machine db'"
    "\<forall>k. load_session uuid5 policy env machine db' k =
      (if k = replay_session_id d then Inr (tr_state r) else load_session uuid5 policy env machine db k)"
proof -
  obtain s x where sx: "load_session uuid5 policy env machine db (delivery_session (now, env', d)) = Inr s"
    "transition_step uuid5 policy s (now, env', d) = Inr x" "commit_transition db x = Inr db'"
    "store_inv machine db'"
    "\<forall>k. load_session uuid5 policy env machine db' k =
      (if k = delivery_session (now, env', d) then Inr ((tr_state \<circ> snd \<circ> snd) x)
       else load_session uuid5 policy env machine db k)"
    by (rule alert_client.process_step [OF assms])
  from sx(2) obtain r where "transition uuid5 env' s d policy = Inr r" "x = (now, d, r)"
    by (auto simp: transition_step_def err_simps)
  with sx that [of s r] show thesis by (simp add: commit_transition_def delivery_session_def)
qed

lemma replay_inv_step:
  assumes inv: "replay_inv uuid5 env policy machine db"
    and proc: "process_delivery uuid5 policy env machine db (now, env', d) = Inr db'"
    and ident: "\<And>i d'. (i, d') \<in> set (score_decisions db) \<Longrightarrow> decision_id d' = decision_id d \<Longrightarrow> d' = d"
  shows "replay_inv uuid5 env policy machine db'"
proof -
  let ?k = "replay_session_id d" and ?ds = "session_decisions db (replay_session_id d)"
  from inv have store: "store_inv machine db" by (simp add: replay_inv_def)
  obtain s r where load: "load_session uuid5 policy env machine db ?k = Inr s"
    and tr: "transition uuid5 env' s d policy = Inr r"
    and rec: "record_decision_transition db now d r = Inr db'" and store': "store_inv machine db'"
    and load': "\<forall>k. load_session uuid5 policy env machine db' k =
      (if k = ?k then Inr (tr_state r) else load_session uuid5 policy env machine db k)"
    by (rule process_delivery_elim [OF store proc])
  note last = last_state_of [OF inv load refl]
  have ids: "i = decision_id e" if "(i, e) \<in> set (score_decisions db)" for i e
    using inv that by (auto simp: replay_inv_def)
  have in_table: "\<exists>i. (i, e) \<in> set (score_decisions db)" if "e \<in> set ?ds" for e
    using that by (auto simp: session_decisions_def)
  have main: "replay_decisions uuid5 env policy (empty_state ?k machine) (session_decisions db' ?k) =
        Inr (tr_state r) \<and>
      sorted_wrt (\<lambda>d e. source_timestamp d < source_timestamp e) (session_decisions db' ?k) \<and>
      session_decisions db' ?k \<noteq> [] \<and>
      last_decision_id (tr_state r) = Some (decision_id (last (session_decisions db' ?k))) \<and>
      last_source_timestamp (tr_state r) = Some (source_timestamp (last (session_decisions db' ?k)))"
  proof (cases "map_of (score_decisions db) (decision_id d)")
    case None
    then have ds': "session_decisions db' ?k = ?ds @ [d]"
      by (simp add: session_decisions_after [OF rec])
    have nodup: "last_decision_id s \<noteq> Some (decision_id d)"
    proof
      assume dup: "last_decision_id s = Some (decision_id d)"
      with last(1) have "?ds \<noteq> []" by auto
      moreover from this last(2) dup have "decision_id (last ?ds) = decision_id d" by simp
      ultimately have "(decision_id d, last ?ds) \<in> set (score_decisions db)"
        using in_table [of "last ?ds"] ids by fastforce
      with None show False by (force simp: map_of_eq_None_iff)
    qed
    from tr have fresh: "fresh_decision s d"
      by (cases rule: transition_cases) (use nodup in auto)
    obtain r' where "transition uuid5 env s d policy = Inr r'" "tr_state r' = tr_state r"
      using transition_env [OF tr] by blast
    with last(6) have "replay_decisions uuid5 env policy (empty_state ?k machine) (?ds @ [d]) =
        Inr (tr_state r)"
      by (simp add: replay_decisions_snoc)
    moreover have "\<forall>e \<in> set ?ds. source_timestamp e < source_timestamp d"
    proof
      fix e assume e: "e \<in> set ?ds"
      then have "?ds \<noteq> []" by auto
      with last(2) fresh have "source_timestamp (last ?ds) < source_timestamp d"
        by (auto simp: fresh_decision_def)
      with last(3) [OF e] show "source_timestamp e < source_timestamp d" by simp
    qed
    ultimately show ?thesis
      using last(5) transition_stamps [OF fresh tr] by (simp add: ds' sorted_wrt_append)
  next
    case (Some d')
    then have ds': "session_decisions db' ?k = ?ds"
      by (simp add: session_decisions_after [OF rec])
    from Some have "(decision_id d, d') \<in> set (score_decisions db)" by (rule map_of_SomeD)
    with ids ident have "(decision_id d, d) \<in> set (score_decisions db)" by fastforce
    then have mem: "d \<in> set ?ds" by (force simp: session_decisions_def)
    then have ne: "?ds \<noteq> []" by auto
    have "\<not> fresh_decision s d"
      using last(2) [OF ne] last(3) [OF mem] by (auto simp: fresh_decision_def)
    with tr have dup: "last_decision_id s = Some (decision_id d)" "tr_state r = s"
      by (cases rule: transition_cases; simp)+
    with last ne show ?thesis by (simp add: ds')
  qed
  have other: "session_decisions db' k = session_decisions db k" if "k \<noteq> ?k" for k
    using that by (simp add: session_decisions_after [OF rec])
  have ids': "\<forall>(i, e) \<in> set (score_decisions db'). i = decision_id e"
    using ids by (auto simp: record_decision_transition_core(2) [OF rec])
  show ?thesis
    unfolding replay_inv_def
  proof (intro conjI store' ids' allI impI)
    fix k s'
    assume s': "load_session uuid5 policy env machine db' k = Inr s'"
    show "replay_decisions uuid5 env policy (empty_state k machine) (session_decisions db' k) = Inr s'"
      using s' main inv load' other by (cases "k = ?k") (auto simp: replay_inv_def)
    show "sorted_wrt (\<lambda>d e. source_timestamp d < source_timestamp e) (session_decisions db' k)"
      using s' main inv load' other by (cases "k = ?k") (auto simp: replay_inv_def)
    show "case session_decisions db' k of [] \<Rightarrow> last_decision_id s' = None \<and> last_source_timestamp s' = None
       | d # ds \<Rightarrow> last_decision_id s' = Some (decision_id (last (d # ds))) \<and>
           last_source_timestamp s' = Some (source_timestamp (last (d # ds)))"
      using s' main inv load' other
      by (cases "k = ?k") (auto simp: replay_inv_def split: list.splits)
  qed
qed

lemma process_delivery_decisions:
  assumes "store_inv machine db" "process_delivery uuid5 policy env machine db (now, env', d) = Inr db'"
  shows "snd ` set (score_decisions db') \<subseteq> insert d (snd ` set (score_decisions db))"
  by (rule process_delivery_elim [OF assms])
    (auto dest!: record_decision_transition_core(2) split: if_splits)

lemma replay_inv_run:
  assumes "replay_inv uuid5 env policy machine db"
    and "fold_err (process_delivery uuid5 policy env machine) db es = Inr db'"
    and "\<And>d d'. d \<in> snd ` set (score_decisions db) \<union> set (map (snd \<circ> snd) es) \<Longrightarrow>
      d' \<in> snd ` set (score_decisions db) \<union> set (map (snd \<circ> snd) es) \<Longrightarrow>
      decision_id d' = decision_id d \<Longrightarrow> d' = d"
  shows "replay_inv uuid5 env policy machine db'"
  using assms
proof (induction es arbitrary: db)
  case Nil
  then show ?case by simp
next
  case (Cons e es)
  obtain now env' d where e: "e = (now, env', d)" by (cases e)
  from Cons.prems(2) obtain db1 where
    p: "process_delivery uuid5 policy env machine db (now, env', d) = Inr db1"
    and run: "fold_err (process_delivery uuid5 policy env machine) db1 es = Inr db'"
    by (auto simp: err_simps e)
  have store: "store_inv machine db" using Cons.prems(1) by (simp add: replay_inv_def)
  have ident: "d' = d" if "(i, d') \<in> set (score_decisions db)" "decision_id d' = decision_id d" for i d'
    using Cons.prems(3) [of d d'] that by (force simp: e)
  show ?case
  proof (rule Cons.IH [OF replay_inv_step [OF Cons.prems(1) p ident] run])
    fix x y
    assume xy: "x \<in> snd ` set (score_decisions db1) \<union> set (map (snd \<circ> snd) es)"
      "y \<in> snd ` set (score_decisions db1) \<union> set (map (snd \<circ> snd) es)" "decision_id y = decision_id x"
    have sub: "z \<in> snd ` set (score_decisions db) \<union> set (map (snd \<circ> snd) (e # es))"
      if "z \<in> snd ` set (score_decisions db1) \<union> set (map (snd \<circ> snd) es)" for z
      using that process_delivery_decisions [OF store p] by (auto simp: e)
    show "y = x" by (rule Cons.prems(3) [OF sub [OF xy(1)] sub [OF xy(2)] xy(3)])
  qed
qed

lemma sort_key_strictly_sorted:
  assumes "sorted_wrt (\<lambda>d e. (f d :: int) < f e) ds"
  shows "sort_key f (sort_key g ds) = ds"
proof -
  from assms have "sorted_wrt (<) (map f ds)" by (simp add: sorted_wrt_map)
  then have "sorted (map f ds)" "inj_on f (set (sort_key g ds))"
    by (simp_all add: strict_sorted_iff distinct_map)
  then show ?thesis by (intro sort_key_inj_key_eq) simp_all
qed

section \<open>Console event log\<close>

text \<open>Sequence numbers increase along the log, so it is in stream order.\<close>

definition console_inv :: "RuntimeDB \<Rightarrow> bool" where
  "console_inv db \<longleftrightarrow> sorted_wrt (<) (keys (console_events db)) \<and>
     distinct (map (ce_event_id \<circ> snd) (console_events db)) \<and>
     list_all (ce_durable \<circ> snd) (console_events db)"

definition session_log :: "RuntimeDB \<Rightarrow> uuid \<Rightarrow> ConsoleEventV1 list" where
  "session_log db session =
     filter (\<lambda>e. ce_replay_session_id e = session) (map snd (console_events db))"

lemma fold_max_ge: "(x :: nat) \<in> set xs \<Longrightarrow> x \<le> fold max xs a"
proof -
  have mono: "a \<le> fold max xs a" for xs :: "nat list" and a
    by (induction xs arbitrary: a) (auto intro: order_trans [OF max.cobounded2])
  show "x \<in> set xs \<Longrightarrow> x \<le> fold max xs a"
    by (induction xs arbitrary: a) (auto intro: order_trans [OF _ mono])
qed

lemma append_console_event_inv:
  assumes "console_inv db" "ce_durable e" "append_console_event db e = Inr db'"
  shows "console_inv db' \<and> session_log db' session =
    (if ce_event_id e \<in> set (map (ce_event_id \<circ> snd) (console_events db)) \<or>
        ce_replay_session_id e \<noteq> session
     then session_log db session else session_log db session @ [e])"
proof -
  have "\<forall>k \<in> set (keys (console_events db)). k < next_stream_sequence db"
    using fold_max_ge by (fastforce simp: next_stream_sequence_def less_Suc_eq_le)
  with assms show ?thesis
    by (auto simp: append_console_event_def console_inv_def session_log_def keys_def sorted_wrt_append
        split: if_splits)
qed

lemma log_sorted:
  assumes "sorted_wrt (<) (map fst (t :: (nat \<times> 'v) list))"
  shows "sort_key fst (filter P t) = filter P t"
proof -
  have "sorted (map fst (filter P t))"
    using assms by (induction t) (auto simp: less_imp_le)
  then show ?thesis by (simp add: sorted_sort_id sort_key_id_if_sorted)
qed

lemma events_after_log:
  assumes "console_inv db" "session_log db session = xs @ e # ys"
  shows "events_after db session None n = take n (xs @ e # ys)"
    and "events_after db session (Some (ce_event_id e)) n = take n ys"
proof -
  let ?t = "console_events db"
  have sorted: "sorted_wrt (<) (map fst ?t)" and durable: "list_all (ce_durable \<circ> snd) ?t"
    and dist: "distinct (map (ce_event_id \<circ> snd) ?t)"
    using assms(1) by (simp_all add: console_inv_def keys_def)
  have rows: "map (\<lambda>(_, e). e\<lparr>ce_durable := True\<rparr>) (filter P ?t) = map snd (filter P ?t)" for P
    using durable by (auto simp: list_all_iff)
  have log: "map snd (filter (\<lambda>(_, e). ce_replay_session_id e = session) ?t) = session_log db session"
    by (simp add: session_log_def filter_map o_def case_prod_unfold)
  show "events_after db session None n = take n (xs @ e # ys)"
    using assms(2) by (simp add: events_after_def Let_def log_sorted [OF sorted] rows log)
  from assms(2) log obtain rs1 r rs2 where
    r: "filter (\<lambda>(_, e). ce_replay_session_id e = session) ?t = rs1 @ r # rs2"
    "map snd rs1 = xs" "snd r = e" "map snd rs2 = ys"
    by (auto simp: map_eq_append_conv map_eq_Cons_conv)
  have sr: "sorted_wrt (<) (map fst (rs1 @ r # rs2))"
    using sorted_wrt_filter [OF sorted [unfolded sorted_wrt_map]] r(1) by (metis sorted_wrt_map)
  have "r \<in> set (filter (\<lambda>(_, e). ce_replay_session_id e = session) ?t)" by (simp add: r(1))
  then have "r \<in> set ?t" "ce_replay_session_id e = session"
    using r(3) by (auto simp: case_prod_unfold)
  have "List.find (\<lambda>(_, x). ce_event_id x = ce_event_id e \<and> ce_replay_session_id x = session) ?t = Some r"
  proof -
    have "x = r" if "x \<in> set ?t" "ce_event_id (snd x) = ce_event_id (snd r)" for x
      using dist \<open>r \<in> set ?t\<close> that by (simp add: distinct_map inj_on_def)
    with \<open>r \<in> set ?t\<close> \<open>ce_replay_session_id e = session\<close> r(3) show ?thesis
      unfolding case_prod_unfold by (intro find_unique) blast+
  qed
  moreover have "filter (\<lambda>(i, x). ce_replay_session_id x = session \<and> fst r < i) ?t = rs2"
  proof -
    have "filter (\<lambda>(i, x). ce_replay_session_id x = session \<and> fst r < i) ?t =
        filter (\<lambda>(i, x). fst r < i) (rs1 @ r # rs2)"
      unfolding r(1) [symmetric] by (simp add: filter_filter case_prod_unfold conj_commute)
    also have "\<dots> = rs2"
    proof -
      have "\<forall>x \<in> set rs1. \<not> fst r < fst x" "\<forall>x \<in> set rs2. fst r < fst x"
        using sr by (auto simp: sorted_wrt_append)
      then have "filter (\<lambda>(i, x). fst r < i) rs1 = []" "filter (\<lambda>(i, x). fst r < i) rs2 = rs2"
        by (simp_all add: filter_empty_conv filter_id_conv case_prod_unfold)
      then show ?thesis by (simp add: case_prod_unfold)
    qed
    finally show ?thesis .
  qed
  ultimately show "events_after db session (Some (ce_event_id e)) n = take n ys"
    using r(4) rows [of "\<lambda>(i, x). ce_replay_session_id x = session \<and> fst r < i"]
    by (cases r) (simp add: events_after_def Let_def log_sorted [OF sorted])
qed

lemma append_run_inv:
  assumes "console_inv db" "list_all ce_durable es" "fold_err append_console_event db es = Inr db'"
  shows "console_inv db'"
  using assms
  by (induction es arbitrary: db) (auto simp: err_simps dest: append_console_event_inv)

section \<open>Properties\<close>

definition sample_delivery :: "nat \<Rightarrow> uuid \<Rightarrow> bool \<Rightarrow> delivery" where
  "sample_delivery n session anomalous =
     (0, sample_env n, (sample_decision n anomalous)\<lparr>replay_session_id := session\<rparr>)"

lemmas eval_store = store_process_def load_session_def load_alert_state_def session_decisions_def
  commit_transition_def transition_step_def delivery_session_def record_decision_transition_def
  insert_decision_def ensure_session_exists_def persist_event_def upsert_runtime_state_def
  insert_ignore_def upsert_def upsert_alert_def insert_alert_event_def insert_evidence_def
  insert_outbox_def state_payload_inverse

lemma sample_store_run:
  "\<exists>db. fold_err (process_delivery (\<lambda>_. 0) sample_policy (sample_env 0) ''metropt3'') empty_db
     [sample_delivery 1 7 True, sample_delivery 2 8 True, sample_delivery 3 7 False] = Inr db"
  by (simp add: eval_store sample_delivery_def sample_defs eval_transition)

text \<open>
  C4 (refinement): alert processing through the database is per-session in-memory processing.  When
  a stream of decisions of arbitrarily interleaved replay sessions is processed from an empty
  database, each one by loading the session's state, running the transition and recording the
  result, the state loaded afterwards for any session is the fold of the transition function over
  exactly that session's decisions, from the empty state.
\<close>

theorem store_processing_is_per_session_fold:
  assumes "fold_err (process_delivery uuid5 policy env machine) empty_db es = Inr db"
  shows "load_session uuid5 policy env machine db k =
    fold_err (\<lambda>s (now, env', d). bind_err (transition uuid5 env' s d policy) (\<lambda>r. Inr (tr_state r)))
      (empty_state k machine) (filter (\<lambda>e. delivery_session e = k) es)"
proof -
  have "(\<lambda>s e. bind_err (transition_step uuid5 policy s e) (\<lambda>x. Inr ((tr_state \<circ> snd \<circ> snd) x))) =
      (\<lambda>s (now, env', d). bind_err (transition uuid5 env' s d policy) (\<lambda>r. Inr (tr_state r)))"
    by (auto simp: fun_eq_iff transition_step_def bind_err_def split: sum.splits)
  with alert_client.process_run [OF store_inv_empty assms, of k] show ?thesis
    by (simp add: load_session_inv(2) [OF store_inv_empty])
qed

theorem store_processing_is_per_session_fold_witness:
  "\<exists>db s. fold_err (process_delivery (\<lambda>_. 0) sample_policy (sample_env 0) ''metropt3'') empty_db
      [sample_delivery 1 7 True, sample_delivery 2 8 True, sample_delivery 3 7 False] = Inr db \<and>
    load_session (\<lambda>_. 0) sample_policy (sample_env 0) ''metropt3'' db 8 = Inr s \<and>
    anomaly_streak s = 1 \<and> last_decision_id s = Some 2"
proof -
  obtain db where db: "fold_err (process_delivery (\<lambda>_. 0) sample_policy (sample_env 0) ''metropt3'')
      empty_db [sample_delivery 1 7 True, sample_delivery 2 8 True, sample_delivery 3 7 False] = Inr db"
    using sample_store_run by (elim exE)
  have "load_session (\<lambda>_. 0) sample_policy (sample_env 0) ''metropt3'' db 8 =
      bind_err (transition (\<lambda>_. 0) (sample_env 2) (empty_state 8 ''metropt3'')
        ((sample_decision 2 True)\<lparr>replay_session_id := 8\<rparr>) sample_policy) (\<lambda>r. Inr (tr_state r))"
    unfolding store_processing_is_per_session_fold [OF db]
    by (simp add: sample_delivery_def delivery_session_def sample_decision_def bind_err_def
        split: sum.splits)
  with db show ?thesis
    by (intro exI [of _ db]) (simp add: sample_defs eval_transition)
qed



text \<open>
  C27 (equivalence): rebuilding the alert state of a session from the stored decisions alone, as is
  done for databases without runtime-state rows, gives the state that was stored, provided that a
  decision id identifies its decision.
\<close>

theorem legacy_reconstruction:
  assumes run: "fold_err (process_delivery uuid5 policy env machine) empty_db es = Inr db"
    and ident: "\<And>d d'. d \<in> set (map (snd \<circ> snd) es) \<Longrightarrow> d' \<in> set (map (snd \<circ> snd) es) \<Longrightarrow>
      decision_id d' = decision_id d \<Longrightarrow> d' = d"
  shows "reconstruct_alert_state uuid5 env db k machine policy =
    load_session uuid5 policy env machine db k"
proof -
  have inv: "replay_inv uuid5 env policy machine db"
    by (rule replay_inv_run [OF replay_inv_empty run]) (use ident in simp)
  then have "store_inv machine db" by (simp add: replay_inv_def)
  from load_session_inv(2) [OF this] obtain s where
    s: "load_session uuid5 policy env machine db k = Inr s" by blast
  note last = last_state_of [OF inv s refl]
  show ?thesis
    using last(6) by (simp add: reconstruct_alert_state_def sort_key_strictly_sorted [OF last(5)]
        replay_decisions_def s)
qed

theorem legacy_reconstruction_witness:
  "\<exists>db. fold_err (process_delivery (\<lambda>_. 0) sample_policy (sample_env 0) ''metropt3'') empty_db
      [sample_delivery 1 7 True, sample_delivery 2 8 True, sample_delivery 3 7 False] = Inr db \<and>
    reconstruct_alert_state (\<lambda>_. 0) (sample_env 0) db 7 ''metropt3'' sample_policy =
      load_session (\<lambda>_. 0) sample_policy (sample_env 0) ''metropt3'' db 7"
proof -
  obtain db where db: "fold_err (process_delivery (\<lambda>_. 0) sample_policy (sample_env 0) ''metropt3'')
      empty_db [sample_delivery 1 7 True, sample_delivery 2 8 True, sample_delivery 3 7 False] = Inr db"
    using sample_store_run by (elim exE)
  have "reconstruct_alert_state (\<lambda>_. 0) (sample_env 0) db 7 ''metropt3'' sample_policy =
      load_session (\<lambda>_. 0) sample_policy (sample_env 0) ''metropt3'' db 7"
    by (rule legacy_reconstruction [OF db]) (auto simp: sample_delivery_def sample_decision_def)
  with db show ?thesis by (intro exI [of _ db] conjI)
qed

text \<open>
  The JSON encoding of an alert state loses nothing: decoding the stored payload
  gives back the state, for every combination of present and absent fields.
\<close>

theorem alert_state_payload_roundtrip:
  "state_from_payload (state_payload s) = Inr s"
  by (rule state_payload_inverse)

text \<open>
  Paging through the console log.  After any sequence of durable events is
  appended to an empty log, the log of a session holds each event id once; reading from the start
  gives its first events, and reading after the cursor of an event gives exactly the events that
  follow it, with no gap and no repetition.
\<close>

theorem console_log_paging:
  assumes "console_events db = []" "list_all ce_durable es"
    and "fold_err append_console_event db es = Inr db'" "session_log db' session = xs @ e # ys"
  shows "events_after db' session None n = take n (xs @ e # ys) \<and>
    events_after db' session (Some (ce_event_id e)) n = take n ys \<and>
    distinct (map ce_event_id (session_log db' session))"
proof -
  have "console_inv db" using assms(1) by (simp add: console_inv_def keys_def)
  then have inv: "console_inv db'" using append_run_inv assms(2,3) by blast
  then have "distinct (map ce_event_id (map snd (console_events db')))"
    by (simp add: console_inv_def)
  then have "distinct (map ce_event_id (session_log db' session))"
    by (simp only: session_log_def distinct_map_filter)
  with events_after_log [OF inv assms(4)] show ?thesis by blast
qed

definition sample_console_db :: RuntimeDB where
  "sample_console_db = record_replay_status empty_db 0 (sample_status 1)"

theorem console_log_paging_witness:
  "\<exists>db. fold_err append_console_event sample_console_db (map sample_console_event [1, 2, 1, 3]) = Inr db \<and>
     events_after db 7 (Some (ce_event_id (sample_console_event 2))) 10 = [sample_console_event 3]"
proof -
  let ?es = "map sample_console_event [1, 2, 1, 3]"
  obtain db where db: "fold_err append_console_event sample_console_db ?es = Inr db"
    and log: "session_log db 7 = [sample_console_event 1] @ sample_console_event 2 # [sample_console_event 3]"
    by (simp add: sample_console_db_def record_replay_status_def append_console_event_def upsert_def
        sample_console_event_def decode_console_def sample_status_def session_log_def)
  have "events_after db 7 (Some (ce_event_id (sample_console_event 2))) 10 =
      take 10 [sample_console_event 3]"
    using console_log_paging [OF _ _ db log, of 10]
    by (simp add: sample_console_db_def record_replay_status_def sample_console_event_def
        decode_console_def)
  with db show ?thesis by (intro exI [of _ db] conjI) simp_all
qed

end
