(* ===== verification/Alert_Consumer.thy ===== *)
theory Alert_Consumer
  imports Runtime_Store
begin

text \<open>
  \<open>alert_consumer.py\<close> and the consumer loop of \<open>alert_service.py\<close>.  The consumer's world is its
  database, its set of failed sessions, the messages it sent and the offsets it committed; a method
  returns its result or exception together with the world it leaves.  \<open>decode_message\<close> (Pydantic) and
  SHA-256 are the arguments \<open>decode\<close> and \<open>sha\<close>; \<open>consumer.getmany\<close> is the list of the batches that
  its successive calls return.
\<close>

section \<open>Consumer\<close>

datatype ProcessOutcome = OUT_COMMITTED | OUT_SESSION_FAILED | OUT_QUARANTINED | OUT_SKIPPED

record 'b ConsumerRecord =
  rec_topic :: string
  rec_partition :: int
  rec_offset :: int
  rec_value :: 'b

datatype kafka_message =
    StatusMessage ReplayStatusV1
  | QuarantineMessage QuarantineRecordV1
  | AlertMessage OutboxRow

record consumer_config =
  cc_policy :: LockedAlertPolicyV1
  cc_machine_id :: string
  cc_has_producer :: bool

record consumer_world =
  w_db :: RuntimeDB
  w_failed_sessions :: "uuid set"
  w_sent :: "kafka_message list"
  w_offsets :: "(string \<times> int, int) table"

text \<open>What a call of \<open>process\<close> takes from outside: clock readings and fresh message ids.\<close>

record process_env =
  pe_now :: datetime
  pe_uuid :: uuid
  pe_call :: call_env

definition assert_identity :: "LockedAlertPolicyV1 \<Rightarrow> ScoreDecisionV1 \<Rightarrow> exn + unit" where
  "assert_identity policy d =
     run_checks
       [(source_dataset_sha256 d \<noteq> pol_source_dataset_sha256 policy,
           ValueError ''Source dataset SHA mismatch''),
        (contract_sha256 d \<noteq> pol_contract_sha256 policy, ValueError ''Contract SHA mismatch''),
        (model_version d \<noteq> pol_model_version policy, ValueError ''Model version mismatch'')] ()"

definition failed_status ::
  "LockedAlertPolicyV1 \<Rightarrow> process_env \<Rightarrow> uuid \<Rightarrow> datetime \<Rightarrow> string \<Rightarrow> exn + ReplayStatusV1"
where
  "failed_status policy env session source_ts error_code =
     validate_status runtime_tz
       \<lparr>message_id = pe_uuid env, replay_session_id = session,
        source_dataset_sha256 = pol_source_dataset_sha256 policy,
        contract_sha256 = pol_contract_sha256 policy, source_timestamp = source_ts,
        emitted_at = pe_now env, status_state = FAILED, status_last_sequence = Some 0,
        status_error_code = Some error_code\<rparr>"

definition fail_session ::
  "consumer_config \<Rightarrow> process_env \<Rightarrow> uuid \<Rightarrow> datetime \<Rightarrow> string \<Rightarrow> (consumer_world, unit) io"
where
  "fail_session cfg env session source_ts error_code w =
     (let w1 = w\<lparr>w_failed_sessions := insert session (w_failed_sessions w)\<rparr> in
      case failed_status (cc_policy cfg) env session source_ts error_code of
        Inl e \<Rightarrow> (Inl e, w1)
      | Inr status \<Rightarrow>
          (let w2 = w1\<lparr>w_db := record_replay_status (w_db w1) (pe_now env) status\<rparr>
           in (Inr (), if cc_has_producer cfg
                       then w2\<lparr>w_sent := w_sent w2 @ [StatusMessage status]\<rparr> else w2)))"

definition publish_quarantine ::
  "('b \<Rightarrow> sha256) \<Rightarrow> consumer_config \<Rightarrow> process_env \<Rightarrow> 'b ConsumerRecord \<Rightarrow> string
     \<Rightarrow> (consumer_world, unit) io"
where
  "publish_quarantine sha cfg env rec detail w =
     (if \<not> cc_has_producer cfg
      then (Inl (RuntimeError ''Kafka producer is required to quarantine invalid scores''), w)
      else
        (case validate_quarantine runtime_tz
            \<lparr>q_message_id = pe_uuid env, q_replay_session_id = None,
             q_source_dataset_sha256 = zero_sha, q_contract_sha256 = zero_sha,
             q_source_timestamp = 1577836800 * 1000000, q_emitted_at = pe_now env,
             q_original_topic = rec_topic rec, q_partition = rec_partition rec,
             q_offset = rec_offset rec, q_payload_sha256 = sha (rec_value rec),
             q_error_code = ''INVALID_SCORE_PAYLOAD'', q_error_detail = take 1000 detail\<rparr> of
           Inl e \<Rightarrow> (Inl e, w)
         | Inr q \<Rightarrow> (Inr (), w\<lparr>w_sent := w_sent w @ [QuarantineMessage q]\<rparr>)))"

text \<open>\<open>decode\<close> returns the decision, or the text of the decoding error.\<close>

definition process ::
  "(uuid_name \<Rightarrow> uuid) \<Rightarrow> ('b \<Rightarrow> sha256) \<Rightarrow> ('b \<Rightarrow> string + ScoreDecisionV1) \<Rightarrow> consumer_config
     \<Rightarrow> process_env \<Rightarrow> 'b ConsumerRecord \<Rightarrow> (consumer_world, ProcessOutcome) io"
where
  "process uuid5 sha decode cfg env rec w =
     (case decode (rec_value rec) of
        Inl detail \<Rightarrow>
          (case publish_quarantine sha cfg env rec detail w of
             (Inl e, w') \<Rightarrow> (Inl e, w') | (Inr _, w') \<Rightarrow> (Inr OUT_QUARANTINED, w'))
      | Inr d \<Rightarrow>
          (if replay_session_id d \<in> w_failed_sessions w then (Inr OUT_SKIPPED, w)
           else case assert_identity (cc_policy cfg) d of
               Inl _ \<Rightarrow>
                 (case fail_session cfg env (replay_session_id d) (source_timestamp d)
                     ''CONTRACT_MISMATCH'' w of
                    (Inl e, w') \<Rightarrow> (Inl e, w') | (Inr _, w') \<Rightarrow> (Inr OUT_SESSION_FAILED, w'))
             | Inr _ \<Rightarrow>
                 (case load_alert_state uuid5 (pe_call env) (w_db w) (replay_session_id d)
                     (cc_machine_id cfg) (Some (cc_policy cfg)) of
                    Inl e \<Rightarrow> (Inl e, w)
                  | Inr (db1, s) \<Rightarrow>
                      (let w1 = w\<lparr>w_db := db1\<rparr> in
                       case bind_err (transition uuid5 (pe_call env) s d (cc_policy cfg))
                           (record_decision_transition db1 (pe_now env) d) of
                         Inl e \<Rightarrow> (Inl e, w1)
                       | Inr db2 \<Rightarrow> (Inr OUT_COMMITTED, w1\<lparr>w_db := db2\<rparr>)))))"

section \<open>The consumer loop\<close>

text \<open>One partition's records of a batch: commit after each record, stop at a failed session.\<close>

fun process_records ::
  "(process_env \<Rightarrow> 'r \<Rightarrow> (consumer_world, ProcessOutcome) io) \<Rightarrow> ('r \<Rightarrow> int) \<Rightarrow> string \<times> int
     \<Rightarrow> (process_env \<times> 'r) list \<Rightarrow> (consumer_world, bool) io"
where
  "process_records proc offset tp [] w = (Inr False, w)"
| "process_records proc offset tp ((env, rec) # recs) w =
     (case proc env rec w of
        (Inl e, w') \<Rightarrow> (Inl e, w')
      | (Inr outcome, w') \<Rightarrow>
          (if outcome = OUT_SESSION_FAILED then (Inr True, w')
           else process_records proc offset tp recs
                  (w'\<lparr>w_offsets := AList.update tp (offset rec + 1) (w_offsets w')\<rparr>)))"

fun process_consumer_batch ::
  "(process_env \<Rightarrow> 'r \<Rightarrow> (consumer_world, ProcessOutcome) io) \<Rightarrow> ('r \<Rightarrow> int)
     \<Rightarrow> ((string \<times> int) \<times> (process_env \<times> 'r) list) list \<Rightarrow> (consumer_world, bool) io"
where
  "process_consumer_batch proc offset [] w = (Inr False, w)"
| "process_consumer_batch proc offset ((tp, recs) # batch) w =
     (case process_records proc offset tp recs w of
        (Inl e, w') \<Rightarrow> (Inl e, w')
      | (Inr halt, w') \<Rightarrow>
          (if halt then (Inr True, w') else process_consumer_batch proc offset batch w'))"

text \<open>
  \<open>_run_consumer_loop\<close> over the batches that \<open>getmany\<close> returns: an exception is logged and the loop
  goes on with the next batch; a halt ends it.
\<close>

fun run_consumer_loop ::
  "(process_env \<Rightarrow> 'r \<Rightarrow> (consumer_world, ProcessOutcome) io) \<Rightarrow> ('r \<Rightarrow> int)
     \<Rightarrow> ((string \<times> int) \<times> (process_env \<times> 'r) list) list list \<Rightarrow> consumer_world \<Rightarrow> bool \<times> consumer_world"
where
  "run_consumer_loop proc offset [] w = (True, w)"
| "run_consumer_loop proc offset (batch # batches) w =
     (case process_consumer_batch proc offset batch w of
        (Inl _, w') \<Rightarrow> run_consumer_loop proc offset batches w'
      | (Inr halt, w') \<Rightarrow>
          (if halt then (False, w') else run_consumer_loop proc offset batches w'))"

section \<open>Outbox dispatcher\<close>

definition dispatch_one :: "datetime \<Rightarrow> (consumer_world, bool) io" where
  "dispatch_one now w =
     (case next_unpublished_outbox (w_db w) of
        None \<Rightarrow> (Inr False, w)
      | Some row \<Rightarrow>
          (Inr True, w\<lparr>w_sent := w_sent w @ [AlertMessage row],
             w_db := mark_outbox_published (w_db w) now (ob_message_id row)\<rparr>))"

definition pending_outbox :: "RuntimeDB \<Rightarrow> OutboxRow set" where
  "pending_outbox db = {row. \<exists>i. (i, row, None) \<in> set (alert_outbox db)}"

text \<open>Primary key: the key of a row is its message id, and keys are distinct.\<close>

definition outbox_inv :: "RuntimeDB \<Rightarrow> bool" where
  "outbox_inv db \<longleftrightarrow> distinct (keys (alert_outbox db)) \<and>
     list_all (\<lambda>x. fst x = ob_message_id (fst (snd x))) (alert_outbox db)"

lemma outbox_inv_key: "outbox_inv db \<Longrightarrow> (i, row, p) \<in> set (alert_outbox db) \<Longrightarrow> i = ob_message_id row"
  by (auto simp: outbox_inv_def list_all_iff)

lemma next_unpublished_outbox_cases:
  "case next_unpublished_outbox db of
     None \<Rightarrow> pending_outbox db = {}
   | Some row \<Rightarrow> row \<in> pending_outbox db \<and> (outbox_inv db \<longrightarrow>
       (\<forall>row' \<in> pending_outbox db. ob_message_id row \<le> ob_message_id row'))"
proof (cases "sort_key fst (filter (\<lambda>(_, _, p). p = None) (alert_outbox db))")
  case Nil
  then have "filter (\<lambda>(_, _, p). p = None) (alert_outbox db) = []"
    by (metis set_empty2 set_sort)
  then show ?thesis
    by (auto simp: next_unpublished_outbox_def pending_outbox_def filter_empty_conv)
next
  case (Cons x xs)
  obtain i row p where x: "x = (i, row, p)" by (cases x)
  have set: "set (x # xs) = {y \<in> set (alert_outbox db). snd (snd y) = None}"
    using arg_cong [OF Cons, of set] by (auto simp: case_prod_unfold)
  then have "x \<in> set (alert_outbox db)" "snd (snd x) = None" by (metis (mono_tags) CollectD list.set_intros(1))+
  then have p: "(i, row, p) \<in> set (alert_outbox db)" "p = None" by (simp_all add: x)
  have "sorted (map fst (x # xs))" using sorted_sort_key Cons by metis
  then have least: "i \<le> fst y" if "y \<in> set (x # xs)" for y using that x by auto
  have "ob_message_id row \<le> ob_message_id row'"
    if inv: "outbox_inv db" and row': "row' \<in> pending_outbox db" for row'
  proof -
    from row' obtain i' where i': "(i', row', None) \<in> set (alert_outbox db)"
      by (auto simp: pending_outbox_def)
    with set have "(i', row', None) \<in> set (x # xs)" by auto
    with least have "i \<le> i'" by fastforce
    with outbox_inv_key [OF inv p(1)] outbox_inv_key [OF inv i'] show ?thesis by simp
  qed
  with p x Cons show ?thesis by (auto simp: next_unpublished_outbox_def pending_outbox_def)
qed

lemma pending_mark:
  assumes "outbox_inv db" "row \<in> pending_outbox db"
  shows "pending_outbox (mark_outbox_published db now (ob_message_id row)) = pending_outbox db - {row}"
    and "outbox_inv (mark_outbox_published db now (ob_message_id row))"
proof -
  have keyed: "i = ob_message_id r" if "(i, r, p) \<in> set (alert_outbox db)" for i r p
    using outbox_inv_key [OF assms(1) that] .
  have uniq: "v = v'" if "(i, v) \<in> set (alert_outbox db)" "(i, v') \<in> set (alert_outbox db)" for i v v'
    using assms(1) that by (auto simp: outbox_inv_def keys_def dest: eq_key_imp_eq_value)
  show "pending_outbox (mark_outbox_published db now (ob_message_id row)) = pending_outbox db - {row}"
  proof -
    have "pending_outbox (mark_outbox_published db now (ob_message_id row)) =
        {r. \<exists>i. (i, r, None) \<in> set (alert_outbox db) \<and> i \<noteq> ob_message_id row}"
      by (force simp: pending_outbox_def mark_outbox_published_def update_row_def)
    also have "\<dots> = {r \<in> pending_outbox db. ob_message_id r \<noteq> ob_message_id row}"
      using keyed by (auto simp: pending_outbox_def)
    also have "\<dots> = pending_outbox db - {row}"
    proof -
      have "r = row" if r: "r \<in> pending_outbox db" and eq: "ob_message_id r = ob_message_id row" for r
      proof -
        from r assms(2) obtain i j where ij: "(i, r, None) \<in> set (alert_outbox db)"
          "(j, row, None) \<in> set (alert_outbox db)" by (auto simp: pending_outbox_def)
        with keyed eq have "i = j" by metis
        with ij uniq show ?thesis by blast
      qed
      then show ?thesis by auto
    qed
    finally show ?thesis .
  qed
  show "outbox_inv (mark_outbox_published db now (ob_message_id row))"
    using assms(1)
    by (simp add: outbox_inv_def mark_outbox_published_def keys_update_row)
      (simp add: update_row_def list_all_iff case_prod_unfold)
qed

interpretation alert_outbox: outbox next_unpublished_outbox
  "\<lambda>db row. mark_outbox_published db now (ob_message_id row)" pending_outbox outbox_inv
  "\<lambda>a b. ob_message_id a \<le> ob_message_id b"
proof unfold_locales
  fix db m m'
  show "finite (pending_outbox db)"
  proof (rule finite_subset)
    show "pending_outbox db \<subseteq> (fst \<circ> snd) ` set (alert_outbox db)"
      by (force simp: pending_outbox_def)
  qed simp
  show "next_unpublished_outbox db = None \<longleftrightarrow> pending_outbox db = {}"
    using next_unpublished_outbox_cases [of db] by (auto split: option.splits)
  show "next_unpublished_outbox db = Some m \<Longrightarrow> m \<in> pending_outbox db"
    using next_unpublished_outbox_cases [of db] by simp
  show "outbox_inv db \<Longrightarrow> next_unpublished_outbox db = Some m \<Longrightarrow> m' \<in> pending_outbox db \<Longrightarrow>
      ob_message_id m \<le> ob_message_id m'"
    using next_unpublished_outbox_cases [of db] by simp
qed (simp_all add: pending_mark)

section \<open>Lemmas on the consumer\<close>

lemma process_offsets:
  "process uuid5 sha decode cfg env rec (w\<lparr>w_offsets := x\<rparr>) =
     (let (r, w') = process uuid5 sha decode cfg env rec w in (r, w'\<lparr>w_offsets := x\<rparr>))"
  by (simp add: process_def publish_quarantine_def fail_session_def Let_def
      split: sum.splits prod.splits)

lemma process_offsets_fst:
  "fst (process uuid5 sha decode cfg env rec (w\<lparr>w_offsets := x\<rparr>)) =
     fst (process uuid5 sha decode cfg env rec w)"
  by (simp add: process_offsets Let_def split: prod.splits)

lemma process_keeps_offsets:
  "process uuid5 sha decode cfg env rec w = (r, w') \<Longrightarrow> w_offsets w' = w_offsets w"
  by (auto simp: process_def publish_quarantine_def fail_session_def Let_def
      split: sum.splits prod.splits if_splits)

lemma process_failed_mono:
  "process uuid5 sha decode cfg env rec w = (r, w') \<Longrightarrow> w_failed_sessions w \<subseteq> w_failed_sessions w'"
  by (auto simp: process_def publish_quarantine_def fail_session_def Let_def
      split: sum.splits prod.splits if_splits)

text \<open>Processing records in sequence, without committing offsets.\<close>

fun run_records ::
  "(process_env \<Rightarrow> 'r \<Rightarrow> (consumer_world, ProcessOutcome) io) \<Rightarrow> (process_env \<times> 'r) list
     \<Rightarrow> (consumer_world, ProcessOutcome list) io"
where
  "run_records proc [] w = (Inr [], w)"
| "run_records proc ((env, rec) # recs) w =
     (case proc env rec w of
        (Inl e, w') \<Rightarrow> (Inl e, w')
      | (Inr out, w') \<Rightarrow>
          (case run_records proc recs w' of
             (Inl e, w'') \<Rightarrow> (Inl e, w'') | (Inr outs, w'') \<Rightarrow> (Inr (out # outs), w'')))"

lemma run_records_failed_mono:
  "run_records (process uuid5 sha decode cfg) recs w = (r, w') \<Longrightarrow>
     w_failed_sessions w \<subseteq> w_failed_sessions w'"
  by (induction recs arbitrary: w r)
    (fastforce split: sum.splits prod.splits dest: process_failed_mono)+

lemma run_records_offsets:
  "run_records (process uuid5 sha decode cfg) recs (w\<lparr>w_offsets := x\<rparr>) =
     (let (r, w') = run_records (process uuid5 sha decode cfg) recs w in (r, w'\<lparr>w_offsets := x\<rparr>))"
proof (induction recs arbitrary: w)
  case (Cons y recs)
  obtain env rec where y: "y = (env, rec)" by (cases y)
  obtain r w1 where p: "process uuid5 sha decode cfg env rec w = (r, w1)"
    by (cases "process uuid5 sha decode cfg env rec w")
  show ?case
    using Cons.IH [of w1]
    by (cases r) (auto simp: y p process_offsets Let_def split: prod.splits sum.splits)
qed simp

lemma process_on_store:
  assumes "decode (rec_value rec) = Inr d" "replay_session_id d \<notin> w_failed_sessions w"
    and "assert_identity (cc_policy cfg) d = Inr ()" "store_inv (cc_machine_id cfg) (w_db w)"
  shows "process uuid5 sha decode cfg env rec w =
    (case process_delivery uuid5 (cc_policy cfg) (pe_call env) (cc_machine_id cfg) (w_db w)
        (pe_now env, pe_call env, d) of
       Inl e \<Rightarrow> (Inl e, w) | Inr db \<Rightarrow> (Inr OUT_COMMITTED, w\<lparr>w_db := db\<rparr>))"
  using assms
  by (simp add: process_def load_session_inv store_process_def delivery_session_def
      transition_step_def commit_transition_def Let_def bind_err_def split: sum.splits)

lemma process_records_split:
  assumes "process_records (process uuid5 sha decode cfg) offset tp recs w = (res, w')"
  shows "\<exists>pre rest outs wd. recs = pre @ rest \<and>
    run_records (process uuid5 sha decode cfg) pre w = (Inr outs, wd) \<and>
    OUT_SESSION_FAILED \<notin> set outs \<and>
    map_of (w_offsets w') tp = (if pre = [] then map_of (w_offsets w) tp
      else Some (offset (snd (last pre)) + 1)) \<and>
    (case rest of [] \<Rightarrow> res = Inr False
     | (env, rec) # _ \<Rightarrow> fst (process uuid5 sha decode cfg env rec wd) =
         (case res of Inl e \<Rightarrow> Inl e | Inr _ \<Rightarrow> Inr OUT_SESSION_FAILED) \<and> res \<noteq> Inr False)"
  using assms
proof (induction recs arbitrary: w)
  case Nil
  then show ?case by auto
next
  case (Cons x recs)
  obtain env rec where x: "x = (env, rec)" by (cases x)
  obtain r w1 where p: "process uuid5 sha decode cfg env rec w = (r, w1)"
    by (cases "process uuid5 sha decode cfg env rec w")
  have off: "w_offsets w1 = w_offsets w" using process_keeps_offsets [OF p] .
  show ?case
  proof (cases "\<exists>out. r = Inr out \<and> out \<noteq> OUT_SESSION_FAILED")
    case False
    with Cons.prems p off have "(\<exists>e. r = Inl e \<and> res = Inl e) \<or> (r = Inr OUT_SESSION_FAILED \<and> res = Inr True)"
      "w_offsets w' = w_offsets w"
      by (auto simp: x split: sum.splits)
    with p show ?thesis
      by (intro exI [of _ "[]"] exI [of _ "x # recs"] exI [of _ w]) (auto simp: x)
  next
    case True
    then obtain out where r: "r = Inr out" "out \<noteq> OUT_SESSION_FAILED" by blast
    let ?w2 = "w1\<lparr>w_offsets := AList.update tp (offset rec + 1) (w_offsets w1)\<rparr>"
    from Cons.prems p r have "process_records (process uuid5 sha decode cfg) offset tp recs ?w2 = (res, w')"
      by (simp add: x)
    from Cons.IH [OF this] obtain pre rest outs wd where ih: "recs = pre @ rest"
      "run_records (process uuid5 sha decode cfg) pre ?w2 = (Inr outs, wd)"
      "OUT_SESSION_FAILED \<notin> set outs"
      "map_of (w_offsets w') tp = (if pre = [] then map_of (w_offsets ?w2) tp
        else Some (offset (snd (last pre)) + 1))"
      "case rest of [] \<Rightarrow> res = Inr False
       | (env, rec) # _ \<Rightarrow> fst (process uuid5 sha decode cfg env rec wd) =
           (case res of Inl e \<Rightarrow> Inl e | Inr _ \<Rightarrow> Inr OUT_SESSION_FAILED) \<and> res \<noteq> Inr False"
      by blast
    have "\<exists>wd'. run_records (process uuid5 sha decode cfg) pre w1 = (Inr outs, wd') \<and>
        (\<forall>env rec. fst (process uuid5 sha decode cfg env rec wd') =
           fst (process uuid5 sha decode cfg env rec wd))"
      using ih(2)
      by (cases "run_records (process uuid5 sha decode cfg) pre w1")
        (auto simp: run_records_offsets process_offsets_fst)
    then obtain wd' where wd': "run_records (process uuid5 sha decode cfg) pre w1 = (Inr outs, wd')"
      "\<And>env rec. fst (process uuid5 sha decode cfg env rec wd') =
         fst (process uuid5 sha decode cfg env rec wd)" by blast
    show ?thesis
      using ih wd' p r
      by (intro exI [of _ "x # pre"] exI [of _ rest] exI [of _ "out # outs"] exI [of _ wd'])
        (auto simp: x update_conv' split: list.splits)
  qed
qed

text \<open>The dispatch loop: up to \<open>n\<close> calls of \<open>dispatch_one\<close>, until one finds nothing to send.\<close>

fun dispatch_n :: "datetime \<Rightarrow> nat \<Rightarrow> consumer_world \<Rightarrow> consumer_world" where
  "dispatch_n now 0 w = w"
| "dispatch_n now (Suc n) w =
     (case dispatch_one now w of (Inr True, w') \<Rightarrow> dispatch_n now n w' | (_, w') \<Rightarrow> w')"

lemma dispatch_n_drain:
  "drain next_unpublished_outbox (\<lambda>db row. mark_outbox_published db now (ob_message_id row)) n (w_db w) =
     (rows, db') \<Longrightarrow>
   dispatch_n now n w = w\<lparr>w_sent := w_sent w @ map AlertMessage rows, w_db := db'\<rparr>"
proof (induction n arbitrary: w rows)
  case (Suc n)
  show ?case
  proof (cases "next_unpublished_outbox (w_db w)")
    case None
    with Suc.prems show ?thesis by (simp add: dispatch_one_def)
  next
    case (Some row)
    let ?w = "w\<lparr>w_sent := w_sent w @ [AlertMessage row],
      w_db := mark_outbox_published (w_db w) now (ob_message_id row)\<rparr>"
    from Some Suc.prems obtain rows' where rows: "rows = row # rows'"
      "drain next_unpublished_outbox (\<lambda>db row. mark_outbox_published db now (ob_message_id row)) n
         (w_db ?w) = (rows', db')"
      by (auto simp: Let_def split: prod.splits)
    from Suc.IH [OF rows(2)] Some rows(1) show ?thesis by (simp add: dispatch_one_def)
  qed
qed simp

section \<open>Properties\<close>

definition sample_config :: consumer_config where
  "sample_config = \<lparr>cc_policy = sample_policy, cc_machine_id = ''metropt3'', cc_has_producer = True\<rparr>"

definition sample_world :: consumer_world where
  "sample_world = \<lparr>w_db = empty_db, w_failed_sessions = {}, w_sent = [], w_offsets = []\<rparr>"

text \<open>Sample records carry a decision as their value; \<open>Inr\<close> is then a decoder.\<close>

definition sample_record :: "nat \<Rightarrow> ScoreDecisionV1 \<Rightarrow> process_env \<times> ScoreDecisionV1 ConsumerRecord" where
  "sample_record off d =
     (\<lparr>pe_now = 0, pe_uuid = 100 + off, pe_call = sample_env off\<rparr>,
      \<lparr>rec_topic = ''irp.scores.v1'', rec_partition = 0, rec_offset = int off, rec_value = d\<rparr>)"

abbreviation sample_process ::
  "process_env \<Rightarrow> ScoreDecisionV1 ConsumerRecord \<Rightarrow> (consumer_world, ProcessOutcome) io"
where
  "sample_process \<equiv> process (\<lambda>_. 0) (\<lambda>_. zero_sha) Inr sample_config"

lemmas eval_process = process_def assert_identity_def fail_session_def failed_status_def
  validate_status_def eval_store eval_transition sample_config_def sample_world_def
  sample_record_def sample_defs

text \<open>
  C29 (safety): offsets are committed for processed records only.  Whatever happens while the records
  of one partition are processed, they split into a prefix that was processed without exception and
  without a failed session, and the rest; the committed offset is one past the last record of the
  prefix (unchanged when the prefix is empty); and the first record of the rest is the one that
  raised or failed its session.
\<close>

theorem batch_commits_processed_prefix:
  assumes "process_records (process uuid5 sha decode cfg) offset tp recs w = (res, w')"
  shows "\<exists>pre rest outs wd. recs = pre @ rest \<and>
    run_records (process uuid5 sha decode cfg) pre w = (Inr outs, wd) \<and>
    OUT_SESSION_FAILED \<notin> set outs \<and>
    map_of (w_offsets w') tp = (if pre = [] then map_of (w_offsets w) tp
      else Some (offset (snd (last pre)) + 1)) \<and>
    (case rest of [] \<Rightarrow> res = Inr False
     | (env, rec) # _ \<Rightarrow> fst (process uuid5 sha decode cfg env rec wd) =
         (case res of Inl e \<Rightarrow> Inl e | Inr _ \<Rightarrow> Inr OUT_SESSION_FAILED) \<and> res \<noteq> Inr False)"
  by (rule process_records_split [OF assms])

theorem batch_commits_processed_prefix_witness:
  "\<exists>res w pre rest. process_records sample_process rec_offset (''irp.scores.v1'', 0)
      [sample_record 0 (sample_decision 1 False), sample_record 1 (sample_decision 0 True)]
      sample_world = (res, w) \<and>
    [sample_record 0 (sample_decision 1 False), sample_record 1 (sample_decision 0 True)] = pre @ rest \<and>
    map_of (w_offsets w) (''irp.scores.v1'', 0) = (if pre = [] then None
      else Some (rec_offset (snd (last pre)) + 1))"
proof -
  let ?recs = "[sample_record 0 (sample_decision 1 False), sample_record 1 (sample_decision 0 True)]"
  obtain res w where run: "process_records sample_process rec_offset (''irp.scores.v1'', 0) ?recs
      sample_world = (res, w)" by fastforce
  from batch_commits_processed_prefix [OF run] obtain pre rest where
    "?recs = pre @ rest" "map_of (w_offsets w) (''irp.scores.v1'', 0) =
      (if pre = [] then map_of (w_offsets sample_world) (''irp.scores.v1'', 0)
       else Some (rec_offset (snd (last pre)) + 1))"
    by (elim exE conjE)
  with run show ?thesis
    by (intro exI [of _ res] exI [of _ w] exI [of _ pre] exI [of _ rest])
      (simp add: sample_world_def)
qed

text \<open>
  C28 (refinement): on a decoded decision of a live session that matches the policy's identity, the
  consumer does exactly the database processing of the store (load, transition, record), reports it
  as committed when it succeeds, and on an exception leaves its world unchanged.
\<close>

theorem consumer_refines_store:
  assumes "decode (rec_value rec) = Inr d" "replay_session_id d \<notin> w_failed_sessions w"
    and "assert_identity (cc_policy cfg) d = Inr ()" "store_inv (cc_machine_id cfg) (w_db w)"
  shows "process uuid5 sha decode cfg env rec w =
    (case process_delivery uuid5 (cc_policy cfg) (pe_call env) (cc_machine_id cfg) (w_db w)
        (pe_now env, pe_call env, d) of
       Inl e \<Rightarrow> (Inl e, w) | Inr db \<Rightarrow> (Inr OUT_COMMITTED, w\<lparr>w_db := db\<rparr>))"
  using assms by (rule process_on_store)

theorem consumer_refines_store_witness:
  "\<exists>db. process_delivery (\<lambda>_. 0) sample_policy (sample_env 0) ''metropt3'' empty_db
      (0, sample_env 0, sample_decision 1 True) = Inr db \<and>
    sample_process (fst (sample_record 0 (sample_decision 1 True)))
      (snd (sample_record 0 (sample_decision 1 True))) sample_world =
    (Inr OUT_COMMITTED, sample_world\<lparr>w_db := db\<rparr>)"
proof -
  obtain db where db: "process_delivery (\<lambda>_. 0) sample_policy (sample_env 0) ''metropt3'' empty_db
      (0, sample_env 0, sample_decision 1 True) = Inr db"
    by (simp add: eval_store sample_defs eval_transition)
  have "sample_process (fst (sample_record 0 (sample_decision 1 True)))
      (snd (sample_record 0 (sample_decision 1 True))) sample_world =
    (Inr OUT_COMMITTED, sample_world\<lparr>w_db := db\<rparr>)"
    using consumer_refines_store [of Inr "snd (sample_record 0 (sample_decision 1 True))"
        "sample_decision 1 True" sample_world sample_config "\<lambda>_. 0" "\<lambda>_. zero_sha"
        "fst (sample_record 0 (sample_decision 1 True))"] db store_inv_empty
    by (simp add: sample_record_def sample_world_def sample_config_def assert_identity_def
        sample_decision_def sample_policy_def)
  with db show ?thesis by (intro exI [of _ db] conjI)
qed

text \<open>
  A session that failed the identity check is recorded as FAILED and stays failed:
  after any further processing, every decision of that session is skipped and changes nothing.
\<close>

theorem failed_session_is_skipped:
  assumes "process uuid5 sha decode cfg env rec w = (Inr OUT_SESSION_FAILED, w1)"
    and "decode (rec_value rec) = Inr d"
    and "run_records (process uuid5 sha decode cfg) recs w1 = (res, w2)"
    and "decode (rec_value rec') = Inr d'" "replay_session_id d' = replay_session_id d"
  shows "(\<exists>r. get_replay (w_db w1) (replay_session_id d) = Some r \<and> rs_state r = FAILED \<and>
      rs_error_code r = Some ''CONTRACT_MISMATCH'') \<and>
    process uuid5 sha decode cfg env' rec' w2 = (Inr OUT_SKIPPED, w2)"
proof -
  from assms(1,2) obtain w' where fail: "fail_session cfg env (replay_session_id d)
      (source_timestamp d) ''CONTRACT_MISMATCH'' w = (Inr w', w1)"
    by (auto simp: process_def Let_def split: if_splits sum.splits prod.splits)
  then have "replay_session_id d \<in> w_failed_sessions w1"
    by (auto simp: fail_session_def Let_def split: sum.splits if_splits)
  then have "replay_session_id d \<in> w_failed_sessions w2"
    using run_records_failed_mono [OF assms(3)] by blast
  then have "process uuid5 sha decode cfg env' rec' w2 = (Inr OUT_SKIPPED, w2)"
    using assms(4,5) by (simp add: process_def)
  moreover have "\<exists>r. get_replay (w_db w1) (replay_session_id d) = Some r \<and> rs_state r = FAILED \<and>
      rs_error_code r = Some ''CONTRACT_MISMATCH''"
    using fail
    by (auto simp: fail_session_def failed_status_def validate_status_runtime Let_def get_replay_def
        record_replay_status_def map_of_upsert split: sum.splits if_splits option.splits)
  ultimately show ?thesis by blast
qed

theorem failed_session_is_skipped_witness:
  "\<exists>w1. sample_process (fst (sample_record 0 (sample_decision 1 True)))
      (snd (sample_record 0 ((sample_decision 1 True)\<lparr>model_version := ''other''\<rparr>))) sample_world =
      (Inr OUT_SESSION_FAILED, w1) \<and>
    sample_process (fst (sample_record 1 (sample_decision 2 True)))
      (snd (sample_record 1 (sample_decision 2 True))) w1 = (Inr OUT_SKIPPED, w1)"
proof -
  obtain w1 where w1: "sample_process (fst (sample_record 0 (sample_decision 1 True)))
      (snd (sample_record 0 ((sample_decision 1 True)\<lparr>model_version := ''other''\<rparr>))) sample_world =
      (Inr OUT_SESSION_FAILED, w1)"
    by (simp add: eval_process)
  have "sample_process (fst (sample_record 1 (sample_decision 2 True)))
      (snd (sample_record 1 (sample_decision 2 True))) w1 = (Inr OUT_SKIPPED, w1)"
    using failed_session_is_skipped [OF w1 refl run_records.simps(1) refl,
        of "snd (sample_record 1 (sample_decision 2 True))"]
    by (simp add: sample_record_def sample_decision_def)
  with w1 show ?thesis by (intro exI [of _ w1] conjI)
qed


definition sample_event :: "uuid \<Rightarrow> AlertEventV1" where
  "sample_event n =
     \<lparr>message_id = n, replay_session_id = 7, source_dataset_sha256 = zero_sha,
      contract_sha256 = zero_sha, source_timestamp = 0, emitted_at = 0, ae_alert_id = 3,
      ae_machine_id = ''metropt3'', ae_action = UPDATED, ae_first_detection = 0,
      ae_last_detection = 0, ae_decision_ids = [1], ae_policy_sha256 = zero_sha\<rparr>"

definition sample_outbox :: RuntimeDB where
  "sample_outbox = empty_db\<lparr>alert_outbox := map (\<lambda>n. (n, \<lparr>ob_message_id = n,
     ob_topic = ''irp.alerts.v1'', ob_message_key = 3, ob_payload = sample_event n\<rparr>, None)) [5, 2]\<rparr>"


text \<open>
  A run of the consumer loop that loses a decision.  The second record of the first batch is out of
  order, its exception ends the batch, and the loop goes on with the next batch.  The third record
  of the first batch was never processed, yet the offset committed by the second batch lies beyond
  it.
\<close>

theorem consumer_loop_skips_rest_of_failed_batch:
  "case run_consumer_loop sample_process rec_offset
      [[((''irp.scores.v1'', 0), [sample_record 0 (sample_decision 2 False),
          sample_record 1 (sample_decision 1 False), sample_record 2 (sample_decision 3 True)])],
       [((''irp.scores.v1'', 0), [sample_record 3 (sample_decision 4 False)])]] sample_world of
     (running, w) \<Rightarrow> running \<and> map_of (w_offsets w) (''irp.scores.v1'', 0) = Some 4 \<and>
       keys (score_decisions (w_db w)) = [2, 4]"
  by (simp add: eval_process keys_def)

end
