(* ===== verification/Feature_Windows.thy ===== *)
theory Feature_Windows
  imports Runtime_Messages Tables
begin

text \<open>
  \<open>causal_features.py\<close> and the window generation of \<open>phase1b_features.py\<close>: the statistics of a
  window, the five-minute bins, and the batch generator of feature windows.  Sample values are
  reals (telemetry is validated to be finite); a dictionary is an association list in insertion
  order.  Of the contract only the fields the generator reads are kept.
\<close>

declare map_of_append [simp del]

section \<open>Statistics\<close>

record TelemetrySample =
  ts_timestamp :: datetime
  ts_analog :: "real list"
  ts_digital :: "int list"

definition ANALOG_STATS :: "string list" where
  "ANALOG_STATS = [''last'', ''mean'', ''std'', ''min'', ''max'', ''delta'']"

definition DIGITAL_STATS :: "string list" where
  "DIGITAL_STATS = [''last'', ''active_ratio'', ''transition_count'']"

definition get_candidate_feature_names :: "string list \<Rightarrow> string list \<Rightarrow> string list" where
  "get_candidate_feature_names analog_columns digital_columns =
     concat (map (\<lambda>col. map (\<lambda>stat. col @ ''_'' @ stat) ANALOG_STATS) analog_columns)
     @ concat (map (\<lambda>col. map (\<lambda>stat. col @ ''_'' @ stat) DIGITAL_STATS) digital_columns)"

definition mean :: "real list \<Rightarrow> real" where
  "mean xs = sum_list xs / real (length xs)"

text \<open>\<open>np.std(series, ddof=0)\<close>.\<close>

definition std :: "real list \<Rightarrow> real" where
  "std xs = sqrt (mean (map (\<lambda>x. (x - mean xs)\<^sup>2) xs))"

definition transitions :: "int list \<Rightarrow> nat" where
  "transitions xs = length (filter (\<lambda>(a, b). a \<noteq> b) (zip (tl xs) (butlast xs)))"

definition analog_statistics :: "string \<Rightarrow> real list \<Rightarrow> (string, real) table" where
  "analog_statistics col series =
     [(col @ ''_last'', last series), (col @ ''_mean'', mean series), (col @ ''_std'', std series),
      (col @ ''_min'', Min (set series)), (col @ ''_max'', Max (set series)),
      (col @ ''_delta'', last series - hd series)]"

definition digital_statistics :: "string \<Rightarrow> int list \<Rightarrow> (string, real) table" where
  "digital_statistics col series =
     [(col @ ''_last'', real_of_int (last series)),
      (col @ ''_active_ratio'', mean (map (\<lambda>v. if v = 1 then 1 else 0) series)),
      (col @ ''_transition_count'', real (transitions series))]"

definition all_candidate_statistics ::
  "TelemetrySample list \<Rightarrow> string list \<Rightarrow> string list \<Rightarrow> (string, real) table"
where
  "all_candidate_statistics samples analog_cols digital_cols =
     concat (map (\<lambda>(idx, col). analog_statistics col (map (\<lambda>s. ts_analog s ! idx) samples))
       (enumerate 0 analog_cols))
     @ concat (map (\<lambda>(idx, col). digital_statistics col (map (\<lambda>s. ts_digital s ! idx) samples))
       (enumerate 0 digital_cols))"

text \<open>A dictionary built by assignment keeps the last value of a key, hence \<open>rev\<close>.\<close>

definition compute_feature_values ::
  "TelemetrySample list \<Rightarrow> string list \<Rightarrow> string list \<Rightarrow> string list \<Rightarrow> exn + real list"
where
  "compute_feature_values samples feature_names analog_cols digital_cols =
     (if samples = [] then Inl (ValueError ''Cannot compute features on empty samples'')
      else
        (let all_stats = all_candidate_statistics samples analog_cols digital_cols
         in map_err (\<lambda>name. case map_of (rev all_stats) name of
              None \<Rightarrow> Inl (KeyError name) | Some v \<Rightarrow> Inr v) feature_names))"

lemma keys_all_candidate_statistics:
  "map fst (all_candidate_statistics samples analog_cols digital_cols) =
     get_candidate_feature_names analog_cols digital_cols"
proof -
  have a: "map fst (analog_statistics col xs) = map (\<lambda>stat. col @ ''_'' @ stat) ANALOG_STATS" for col xs
    by (simp add: analog_statistics_def ANALOG_STATS_def)
  have d: "map fst (digital_statistics col xs) = map (\<lambda>stat. col @ ''_'' @ stat) DIGITAL_STATS" for col xs
    by (simp add: digital_statistics_def DIGITAL_STATS_def)
  have e: "map (\<lambda>x. f (snd x)) (enumerate n cols) = map f cols" for f :: "string \<Rightarrow> string list" and n cols
    by (induction cols arbitrary: n) simp_all
  show ?thesis
    by (simp add: all_candidate_statistics_def get_candidate_feature_names_def map_concat o_def
        case_prod_unfold a d e [where f = "\<lambda>col. map (\<lambda>stat. col @ CHR ''_'' # stat) ANALOG_STATS"]
        e [where f = "\<lambda>col. map (\<lambda>stat. col @ CHR ''_'' # stat) DIGITAL_STATS"])
qed

lemma compute_feature_values_ok:
  assumes "samples \<noteq> []" "set names \<subseteq> set (get_candidate_feature_names analog_cols digital_cols)"
  shows "\<exists>vals. compute_feature_values samples names analog_cols digital_cols = Inr vals \<and>
    length vals = length names"
proof -
  let ?st = "all_candidate_statistics samples analog_cols digital_cols"
  have "map_of (rev ?st) n \<noteq> None" if "n \<in> set names" for n
    using that assms(2) keys_all_candidate_statistics [of samples analog_cols digital_cols]
    by (auto simp: map_of_eq_None_iff image_set)
  then have "map_err (\<lambda>name. case map_of (rev ?st) name of
      None \<Rightarrow> Inl (KeyError name) | Some v \<Rightarrow> Inr v) names =
      Inr (map (\<lambda>name. the (map_of (rev ?st) name)) names)"
    by (intro map_err_Inr) (auto split: option.splits)
  with assms(1) show ?thesis by (simp add: compute_feature_values_def)
qed

section \<open>Bins\<close>

definition minute_us :: int where "minute_us = 60 * 1000000"

text \<open>\<open>ts.minute\<close>; seconds and microseconds together are \<open>ts mod minute_us\<close>.\<close>

definition minute_of :: "datetime \<Rightarrow> int" where
  "minute_of ts = (ts div minute_us) mod 60"

definition compute_bin_end :: "datetime \<Rightarrow> datetime" where
  "compute_bin_end ts =
     (let minute_rem = minute_of ts mod 5 in
      if minute_rem = 0 \<and> ts mod minute_us = 0 then ts
      else (ts - ts mod minute_us) + (5 - minute_rem) * minute_us)"

lemma neg_div_bin:
  assumes "ts = (5 * q + j) * 60000000 + r" "0 \<le> r" "r < 60000000" "0 \<le> j" "j \<le> 4" "0 < j \<or> 0 < (r :: int)"
  shows "(- ts) div 300000000 = - q - 1"
proof (rule int_div_pos_eq [where r = "300000000 - j * 60000000 - r"])
qed (use assms in auto)

lemma bin_arith:
  "m = 5 * q + j \<Longrightarrow> (m * 60000000 + (5 - j) * 60000000 :: int) = - (- q - 1) * 300000000"
  by simp

lemma compute_bin_end_ceiling:
  "compute_bin_end ts = - ((- ts) div 300000000) * 300000000"
proof -
  let ?m = "ts div 60000000" and ?r = "ts mod 60000000"
  have ts: "ts = ?m * 60000000 + ?r" "0 \<le> ?r" "?r < 60000000" by simp_all
  have rem: "minute_of ts mod 5 = ?m mod 5"
    by (simp add: minute_of_def minute_us_def mod_mod_cancel)
  show ?thesis
  proof (cases "?m mod 5 = 0 \<and> ?r = 0")
    case True
    then obtain q where "?m = 5 * q" by (auto simp: mod_eq_0_iff_dvd)
    with True ts(1) have q: "ts = 300000000 * q" by simp
    with True rem show ?thesis
      by (simp add: compute_bin_end_def minute_us_def Let_def)
  next
    case False
    have m5: "?m = 5 * (?m div 5) + ?m mod 5" by simp
    have "(- ts) div 300000000 = - (?m div 5) - 1"
    proof (rule neg_div_bin)
      show "ts = (5 * (?m div 5) + ?m mod 5) * 60000000 + ?r" using ts(1) m5 by simp
      show "0 < ?m mod 5 \<or> 0 < ?r" using False ts(2) by (simp add: less_le)
      show "?m mod 5 \<le> 4" using pos_mod_bound [of 5 ?m] by simp
    qed (use ts in simp_all)
    moreover have "compute_bin_end ts = ?m * 60000000 + (5 - ?m mod 5) * 60000000"
      using False rem
      by (auto simp: compute_bin_end_def Let_def minute_us_def minus_mod_eq_div_mult)
    ultimately show ?thesis using bin_arith [OF m5] by simp
  qed
qed

lemma compute_bin_end_ge: "ts \<le> compute_bin_end ts \<and> compute_bin_end ts < ts + 300000000"
  unfolding compute_bin_end_ceiling
  using pos_mod_bound [of 300000000 "- ts"] pos_mod_sign [of 300000000 "- ts"]
    div_mult_mod_eq [of "- ts" 300000000] by linarith

lemma compute_bin_end_mono: "a \<le> b \<Longrightarrow> compute_bin_end a \<le> compute_bin_end b"
  unfolding compute_bin_end_ceiling by (simp add: zdiv_mono1)

section \<open>Batch windows\<close>

type_synonym bin = "datetime \<times> TelemetrySample list"

record split =
  split_start :: datetime
  split_end :: datetime

datatype split_name = TRAIN | CALIBRATION | HOLDOUT

record Phase1BContract =
  analog_columns :: "string list"
  digital_columns :: "string list"
  predictor_columns :: "string list"
  train :: split
  calibration :: split
  holdout :: split
  min_bin_observations :: nat
  lookback_bins :: nat
  stride_seconds :: int

fun split_of :: "Phase1BContract \<Rightarrow> split_name \<Rightarrow> split" where
  "split_of c TRAIN = train c"
| "split_of c CALIBRATION = calibration c"
| "split_of c HOLDOUT = holdout c"

record Phase1BWindow =
  win_split :: split_name
  win_start :: datetime
  win_end :: datetime
  win_feature_names :: "string list"
  win_feature_values :: "real list"
  win_bin_ends :: "datetime list"
  win_observations_by_bin :: "int list"

definition add_to_bins :: "(datetime, TelemetrySample list) table \<Rightarrow> TelemetrySample
    \<Rightarrow> (datetime, TelemetrySample list) table" where
  "add_to_bins bin_map s =
     (let b_end = compute_bin_end (ts_timestamp s)
      in upsert b_end [s] (\<lambda>old. old @ [s]) bin_map)"

definition group_samples_into_bins :: "TelemetrySample list \<Rightarrow> (datetime, TelemetrySample list) table" where
  "group_samples_into_bins samples = foldl add_to_bins [] samples"

definition create_window_from_buffer ::
  "bin list \<Rightarrow> split_name \<Rightarrow> string list \<Rightarrow> string list \<Rightarrow> string list \<Rightarrow> Phase1BContract \<Rightarrow> exn + Phase1BWindow"
where
  "create_window_from_buffer buffer sp candidate_names analog_cols digital_cols contract =
     bind_err (compute_feature_values (concat (map snd buffer)) candidate_names analog_cols digital_cols)
       (\<lambda>vals. Inr
         \<lparr>win_split = sp, win_start = fst (hd buffer) - seconds (stride_seconds contract),
          win_end = fst (last buffer), win_feature_names = candidate_names,
          win_feature_values = vals, win_bin_ends = map fst buffer,
          win_observations_by_bin = map (\<lambda>b. int (length (snd b))) buffer\<rparr>)"

definition window_is_within_split :: "Phase1BWindow \<Rightarrow> split \<Rightarrow> bool" where
  "window_is_within_split w sp \<longleftrightarrow> split_start sp \<le> win_start w \<and> win_end w \<le> split_end sp"

definition match_split :: "Phase1BContract \<Rightarrow> datetime \<Rightarrow> datetime \<Rightarrow> split_name option" where
  "match_split contract window_start window_end =
     List.find (\<lambda>n. split_start (split_of contract n) \<le> window_start
                    \<and> window_end \<le> split_end (split_of contract n)) [TRAIN, CALIBRATION, HOLDOUT]"

record batch_state =
  bs_buffer :: "bin list"
  bs_prev_bin_end :: "datetime option"
  bs_invalid_bins_skipped :: nat
  bs_cross_split_windows_skipped :: nat
  bs_windows :: "Phase1BWindow list"

definition predictor_digital :: "Phase1BContract \<Rightarrow> string list" where
  "predictor_digital c = filter (\<lambda>col. col \<in> set (predictor_columns c)) (digital_columns c)"

text \<open>The contract the runtime uses; datetimes count from 1970-01-01.\<close>

definition PHASE1C :: Phase1BContract where
  "PHASE1C =
     \<lparr>analog_columns = [''tp2'', ''tp3'', ''h1'', ''dv_pressure'', ''reservoirs'', ''oil_temperature'',
        ''motor_current''],
      digital_columns = [''comp'', ''dv_electric'', ''towers'', ''mpg'', ''pressure_switch'', ''oil_level'',
        ''caudal_impulses'', ''lps''],
      predictor_columns = [''tp2'', ''tp3'', ''h1'', ''dv_pressure'', ''reservoirs'', ''oil_temperature'',
        ''motor_current'', ''comp'', ''dv_electric'', ''towers'', ''mpg'', ''pressure_switch'', ''oil_level'',
        ''caudal_impulses''],
      train = \<lparr>split_start = seconds 1580515200, split_end = seconds 1582329600\<rparr>,
      calibration = \<lparr>split_start = seconds 1582329600, split_end = seconds 1583020800\<rparr>,
      holdout = \<lparr>split_start = seconds 1583020800, split_end = seconds 1598932800\<rparr>,
      min_bin_observations = 24, lookback_bins = 6, stride_seconds = 300\<rparr>"

text \<open>The body of the loop over the sorted bin ends.\<close>

definition batch_bin :: "Phase1BContract \<Rightarrow> batch_state \<Rightarrow> bin \<Rightarrow> exn + batch_state" where
  "batch_bin contract st = (\<lambda>(b_end, bin_samples).
     if length bin_samples < min_bin_observations contract then
       Inr (st\<lparr>bs_invalid_bins_skipped := bs_invalid_bins_skipped st + 1, bs_buffer := [],
               bs_prev_bin_end := None\<rparr>)
     else
       (let buffer0 = (case bs_prev_bin_end st of
              Some prev \<Rightarrow> if b_end - prev \<noteq> seconds (stride_seconds contract) then [] else bs_buffer st
            | None \<Rightarrow> bs_buffer st);
            buffer = push_bounded (lookback_bins contract) (b_end, bin_samples) buffer0;
            st1 = st\<lparr>bs_buffer := buffer, bs_prev_bin_end := Some b_end\<rparr>
        in if length buffer = lookback_bins contract then
             (let window_end = fst (last buffer);
                  window_start = fst (hd buffer) - seconds (stride_seconds contract)
              in case match_split contract window_start window_end of
                   None \<Rightarrow> Inr (st1\<lparr>bs_cross_split_windows_skipped :=
                             bs_cross_split_windows_skipped st1 + 1\<rparr>)
                 | Some sp \<Rightarrow>
                     bind_err (create_window_from_buffer buffer sp
                        (get_candidate_feature_names (analog_columns contract) (predictor_digital contract))
                        (analog_columns contract) (predictor_digital contract) contract)
                       (\<lambda>w. if window_is_within_split w (split_of contract sp)
                            then Inr (st1\<lparr>bs_windows := bs_windows st1 @ [w]\<rparr>)
                            else Inr (st1\<lparr>bs_cross_split_windows_skipped :=
                                   bs_cross_split_windows_skipped st1 + 1\<rparr>)))
           else Inr st1))"

definition batch_init :: batch_state where
  "batch_init = \<lparr>bs_buffer = [], bs_prev_bin_end = None, bs_invalid_bins_skipped = 0,
     bs_cross_split_windows_skipped = 0, bs_windows = []\<rparr>"

definition iter_phase1b_windows_with_stats ::
  "TelemetrySample list \<Rightarrow> Phase1BContract \<Rightarrow> exn + Phase1BWindow list \<times> nat \<times> nat"
where
  "iter_phase1b_windows_with_stats samples contract =
     (if samples = [] then Inr ([], 0, 0)
      else
        (let bin_map = group_samples_into_bins samples;
             sorted_bin_ends = sort (keys bin_map)
         in bind_err
              (fold_err (batch_bin contract) batch_init
                 (map (\<lambda>b_end. (b_end, the (map_of bin_map b_end))) sorted_bin_ends))
              (\<lambda>st. Inr (bs_windows st, bs_invalid_bins_skipped st,
                 bs_cross_split_windows_skipped st))))"

definition iter_phase1b_windows ::
  "TelemetrySample list \<Rightarrow> Phase1BContract \<Rightarrow> exn + Phase1BWindow list"
where
  "iter_phase1b_windows samples contract =
     bind_err (iter_phase1b_windows_with_stats samples contract) (\<lambda>(ws, _, _). Inr ws)"

text \<open>\<open>nunique(dropna=False).eq(1)\<close>: a column is constant when its train values are one value.\<close>

definition fit_active_feature_names ::
  "(string \<Rightarrow> real list) \<Rightarrow> string list \<Rightarrow> exn + string list \<times> string list"
where
  "fit_active_feature_names train_column candidate_names =
     (let constant = (\<lambda>name. card (set (train_column name)) = 1);
          active = filter (\<lambda>name. \<not> constant name) candidate_names;
          removed = filter constant candidate_names
      in if active = []
         then Inl (ValueError ''train contains no non-constant predictive features'')
         else Inr (active, removed))"

section \<open>Lemmas on the bins\<close>

text \<open>The shared core of the batch and the online generator: what one finished bin does to the
  buffer of valid bins, and whether a window is due.\<close>

definition bin_push :: "nat \<Rightarrow> nat \<Rightarrow> int \<Rightarrow> bin list \<Rightarrow> bin \<Rightarrow> bin list" where
  "bin_push min_obs lookback stride buf = (\<lambda>(b_end, ss).
     if length ss < min_obs then []
     else push_bounded lookback (b_end, ss)
       (if buf \<noteq> [] \<and> b_end - fst (last buf) \<noteq> seconds stride then [] else buf))"

definition buffer_ok :: "nat \<Rightarrow> nat \<Rightarrow> int \<Rightarrow> bin list \<Rightarrow> bool" where
  "buffer_ok min_obs lookback stride buf \<longleftrightarrow> length buf \<le> lookback \<and>
     chain (\<lambda>a b. fst b = fst a + seconds stride) buf \<and>
     list_all (\<lambda>b. min_obs \<le> length (snd b)) buf"

lemma bin_push_ok:
  assumes "0 < lookback" "buffer_ok min_obs lookback stride buf"
  shows "buffer_ok min_obs lookback stride (bin_push min_obs lookback stride buf b)"
proof -
  obtain e ss where b: "b = (e, ss)" by (cases b)
  show ?thesis
  proof (cases "length ss < min_obs")
    case True
    then show ?thesis by (simp add: bin_push_def b buffer_ok_def)
  next
    case False
    let ?buf = "if buf \<noteq> [] \<and> e - fst (last buf) \<noteq> seconds stride then [] else buf"
    have buf: "length ?buf \<le> lookback" "chain (\<lambda>a b. fst b = fst a + seconds stride) ?buf"
      "list_all (\<lambda>b. min_obs \<le> length (snd b)) ?buf"
      "?buf = [] \<or> fst (e, ss) = fst (last ?buf) + seconds stride"
      using assms(2) by (auto simp: buffer_ok_def)
    have "set (push_bounded lookback (e, ss) ?buf) \<subseteq> insert (e, ss) (set ?buf)"
      by (rule set_push_bounded)
    with buf(3) False have "list_all (\<lambda>b. min_obs \<le> length (snd b)) (push_bounded lookback (e, ss) ?buf)"
      by (force simp: list_all_iff)
    with buf False show ?thesis
      unfolding bin_push_def buffer_ok_def b
      by (simp add: length_push_bounded chain_push_bounded)
  qed
qed

text \<open>In a stream with nondecreasing timestamps the dictionary of bins is in increasing order and
  only its last bin grows.\<close>

lemma group_snoc: "group_samples_into_bins (ss @ [s]) = add_to_bins (group_samples_into_bins ss) s"
  by (simp add: group_samples_into_bins_def)

lemma update_last_key:
  "distinct (map fst (t @ [(k, v)])) \<Longrightarrow> AList.update k w (t @ [(k, v)]) = t @ [(k, w)]"
  by (induction t) auto

lemma group_samples_sorted:
  assumes "sorted (map ts_timestamp ss)" "ss \<noteq> []"
  shows "group_samples_into_bins ss \<noteq> [] \<and> sorted_wrt (<) (keys (group_samples_into_bins ss)) \<and>
    fst (last (group_samples_into_bins ss)) = compute_bin_end (ts_timestamp (last ss))"
  using assms
proof (induction ss rule: rev_induct)
  case (snoc s ss)
  show ?case
  proof (cases "ss = []")
    case True
    then show ?thesis
      by (simp add: group_snoc add_to_bins_def upsert_def group_samples_into_bins_def keys_def Let_def)
  next
    case False
    let ?g = "group_samples_into_bins ss" and ?e = "compute_bin_end (ts_timestamp s)"
    from snoc False have ih: "?g \<noteq> []" "sorted_wrt (<) (keys ?g)"
      "fst (last ?g) = compute_bin_end (ts_timestamp (last ss))"
      by (auto simp: sorted_append)
    have le: "fst (last ?g) \<le> ?e"
      using snoc.prems(1) False by (simp add: ih(3) sorted_append compute_bin_end_mono)
    obtain t k v where g: "?g = t @ [(k, v)]" using ih(1) by (metis prod.exhaust rev_exhaust)
    show ?thesis
    proof (cases "?e = k")
      case True
      have "distinct (map fst (t @ [(k, v)]))"
        using ih(2) by (simp add: g keys_def strict_sorted_iff)
      then have "add_to_bins ?g s = t @ [(k, v @ [s])]"
        using True
        by (auto simp: add_to_bins_def upsert_def g Let_def map_of_append_new map_of_eq_None_iff
            update_last_key split: option.splits)
      with True ih(2) g show ?thesis by (simp add: group_snoc keys_def)
    next
      case False
      with le g have "k < ?e" by simp
      with ih(2) have "\<forall>x \<in> set (keys ?g). x < ?e" by (auto simp: g keys_def sorted_wrt_append)
      then have "map_of ?g ?e = None" by (auto simp: map_of_eq_None_iff keys_def)
      then have "add_to_bins ?g s = ?g @ [(?e, [s])]" by (simp add: add_to_bins_def upsert_def Let_def)
      with \<open>\<forall>x \<in> set (keys ?g). x < ?e\<close> ih(2) show ?thesis
        by (simp add: group_snoc keys_def sorted_wrt_append)
    qed
  qed
qed simp

text \<open>
  A timestamp is assigned to the right-closed five-minute bin it lies in.  The
  minute-and-second arithmetic of the code returns the least multiple of 300 seconds that is not
  before the timestamp.
\<close>

theorem compute_bin_end_least_boundary:
  "ts \<le> compute_bin_end ts \<and> compute_bin_end ts mod seconds 300 = 0 \<and>
   compute_bin_end ts < ts + seconds 300"
  using compute_bin_end_ge [of ts] by (simp add: compute_bin_end_ceiling)

section \<open>Every batch window is causal and complete\<close>

text \<open>What a window promises: it covers \<open>lookback_bins\<close> consecutive bins, each with enough
  observations, ends at its last bin and lies inside its split.\<close>

definition window_ok :: "Phase1BContract \<Rightarrow> Phase1BWindow \<Rightarrow> bool" where
  "window_ok c w \<longleftrightarrow> length (win_bin_ends w) = lookback_bins c \<and>
     chain (\<lambda>a b. b = a + seconds (stride_seconds c)) (win_bin_ends w) \<and>
     win_start w = hd (win_bin_ends w) - seconds (stride_seconds c) \<and>
     win_end w = last (win_bin_ends w) \<and>
     list_all (\<lambda>n. int (min_bin_observations c) \<le> n) (win_observations_by_bin w) \<and>
     length (win_observations_by_bin w) = lookback_bins c \<and>
     window_is_within_split w (split_of c (win_split w))"

definition batch_inv :: "Phase1BContract \<Rightarrow> batch_state \<Rightarrow> bool" where
  "batch_inv c st \<longleftrightarrow> 0 < lookback_bins c \<and>
     buffer_ok (min_bin_observations c) (lookback_bins c) (stride_seconds c) (bs_buffer st) \<and>
     bs_prev_bin_end st = (if bs_buffer st = [] then None else Some (fst (last (bs_buffer st)))) \<and>
     list_all (window_ok c) (bs_windows st)"

lemma chain_steps:
  "chain (\<lambda>a b. b = a + d) (x # xs) \<Longrightarrow> last (x # xs) = x + int (length xs) * (d :: int)"
  by (induction xs arbitrary: x) (auto simp: algebra_simps)

lemma window_ok_span:
  assumes "window_ok c w" "0 < lookback_bins c"
  shows "win_end w - win_start w = int (lookback_bins c) * seconds (stride_seconds c)"
proof -
  from assms obtain x xs where xs: "win_bin_ends w = x # xs"
    by (cases "win_bin_ends w") (auto simp: window_ok_def)
  then have "last (x # xs) = x + int (length xs) * seconds (stride_seconds c)"
    using assms(1) by (intro chain_steps) (simp add: window_ok_def)
  moreover have "int (lookback_bins c) = int (length xs) + 1"
    using assms(1) xs by (simp add: window_ok_def)
  ultimately show ?thesis
    using assms(1) xs by (simp add: window_ok_def algebra_simps)
qed

lemma create_window_ok:
  assumes "buffer_ok (min_bin_observations c) (lookback_bins c) (stride_seconds c) buf"
    and "length buf = lookback_bins c" "0 < lookback_bins c"
    and "create_window_from_buffer buf sp names analog digital c = Inr w"
    and "window_is_within_split w (split_of c sp)"
  shows "window_ok c w"
proof -
  have "buf \<noteq> []" using assms(2,3) by auto
  moreover from assms(4) obtain vals where "w = \<lparr>win_split = sp,
      win_start = fst (hd buf) - seconds (stride_seconds c), win_end = fst (last buf),
      win_feature_names = names, win_feature_values = vals, win_bin_ends = map fst buf,
      win_observations_by_bin = map (\<lambda>b. int (length (snd b))) buf\<rparr>"
    by (auto simp: create_window_from_buffer_def err_simps)
  ultimately show ?thesis
    using assms by (simp add: window_ok_def buffer_ok_def chain_map hd_map last_map list_all_iff)
qed

lemma batch_bin_inv:
  assumes inv: "batch_inv c st" and step: "batch_bin c st b = Inr st'"
  shows "batch_inv c st'"
proof -
  have look: "0 < lookback_bins c" using inv by (simp add: batch_inv_def)
  obtain e ss where b: "b = (e, ss)" by (cases b)
  show ?thesis
  proof (cases "length ss < min_bin_observations c")
    case True
    with step inv show ?thesis by (auto simp: b batch_bin_def batch_inv_def buffer_ok_def)
  next
    case False
    define buf where "buf = bin_push (min_bin_observations c) (lookback_bins c) (stride_seconds c) (bs_buffer st) b"
    have buf: "push_bounded (lookback_bins c) (e, ss)
        (case bs_prev_bin_end st of
           Some prev \<Rightarrow> if e - prev \<noteq> seconds (stride_seconds c) then [] else bs_buffer st
         | None \<Rightarrow> bs_buffer st) = buf"
      using False inv by (auto simp: buf_def bin_push_def b batch_inv_def)
    have ok: "buffer_ok (min_bin_observations c) (lookback_bins c) (stride_seconds c) buf"
      unfolding buf_def using look inv by (intro bin_push_ok) (auto simp: batch_inv_def)
    have ne: "buf \<noteq> []" "last buf = (e, ss)"
      using push_bounded_last [OF look, of "(e, ss)"] buf by auto
    note step' = step [unfolded b batch_bin_def, simplified, unfolded buf Let_def]
    have win: "window_ok c w" if "length buf = lookback_bins c" "window_is_within_split w (split_of c sp)"
      "create_window_from_buffer buf sp names analog digital c = Inr w" for w sp names analog digital
      using create_window_ok [OF ok that(1) look that(3,2)] .
    from step' False ok ne inv show ?thesis
      by (auto simp: batch_inv_def err_simps look Let_def buf split: if_splits option.splits
          dest: win)
  qed
qed

text \<open>The loop over the bins is a machine with this invariant.\<close>

interpretation batch_loop: inv_machine "batch_bin c" "batch_inv c"
  by unfold_locales (rule batch_bin_inv)

text \<open>
  C33 (safety): no feature window leaks or mixes splits.  Every window the batch generator returns
  covers exactly \<open>lookback_bins\<close> consecutive bins up to its own end, every bin has at least the
  minimum number of observations, its span is the lookback times the stride, and it lies completely
  inside the split it is labelled with.
\<close>

theorem batch_windows_causal:
  assumes "0 < lookback_bins c" "iter_phase1b_windows samples c = Inr ws" "w \<in> set ws"
  shows "length (win_bin_ends w) = lookback_bins c \<and>
    chain (\<lambda>a b. b = a + seconds (stride_seconds c)) (win_bin_ends w) \<and>
    win_end w = last (win_bin_ends w) \<and>
    win_end w - win_start w = int (lookback_bins c) * seconds (stride_seconds c) \<and>
    (\<forall>n \<in> set (win_observations_by_bin w). int (min_bin_observations c) \<le> n) \<and>
    split_start (split_of c (win_split w)) \<le> win_start w \<and>
    win_end w \<le> split_end (split_of c (win_split w))"
proof -
  have init: "batch_inv c batch_init"
    using assms(1) by (simp add: batch_inv_def batch_init_def buffer_ok_def)
  have "window_ok c w"
    using assms(2,3) batch_loop.run_inv [OF init]
    by (auto simp: iter_phase1b_windows_def iter_phase1b_windows_with_stats_def err_simps Let_def
        batch_inv_def list_all_iff split: if_splits)
  with window_ok_span [OF this assms(1)] show ?thesis
    by (simp add: window_ok_def window_is_within_split_def list_all_iff)
qed

definition small_contract :: Phase1BContract where
  "small_contract =
     \<lparr>analog_columns = [], digital_columns = [''comp''], predictor_columns = [''comp''],
      train = \<lparr>split_start = 0, split_end = seconds 1000\<rparr>,
      calibration = \<lparr>split_start = seconds 1000, split_end = seconds 2000\<rparr>,
      holdout = \<lparr>split_start = seconds 2000, split_end = seconds 3000\<rparr>,
      min_bin_observations = 1, lookback_bins = 2, stride_seconds = 300\<rparr>"

definition small_samples :: "TelemetrySample list" where
  "small_samples = map (\<lambda>t. \<lparr>ts_timestamp = seconds t, ts_analog = [], ts_digital = [1]\<rparr>) [200, 500]"

theorem batch_windows_causal_witness:
  "\<exists>w. iter_phase1b_windows small_samples small_contract = Inr [w] \<and> win_end w - win_start w = seconds 600"
proof -
  have "\<exists>w. iter_phase1b_windows small_samples small_contract = Inr [w]"
    by (simp add: small_samples_def small_contract_def iter_phase1b_windows_def
        iter_phase1b_windows_with_stats_def group_samples_into_bins_def add_to_bins_def upsert_def
        compute_bin_end_ceiling keys_def batch_bin_def batch_init_def push_bounded_def Let_def
        match_split_def create_window_from_buffer_def compute_feature_values_def
        predictor_digital_def window_is_within_split_def all_candidate_statistics_def
        get_candidate_feature_names_def DIGITAL_STATS_def digital_statistics_def enumerate_eq_zip)
  then obtain w where w: "iter_phase1b_windows small_samples small_contract = Inr [w]" by blast
  have "0 < lookback_bins small_contract" by (simp add: small_contract_def)
  from batch_windows_causal [OF this w, of w] w show ?thesis
    by (auto simp: small_contract_def)
qed

end
