(* ===== verification/Online_Features.thy ===== *)
theory Online_Features
  imports Feature_Windows
begin

text \<open>
  \<open>online_features.py\<close>: the streaming feature builder.  The builder is a record; its methods return
  the new builder and their result, or the exception.  SHA-256 of the formatted payload is the
  argument \<open>hash_payload\<close>, \<open>uuid5\<close> and \<open>isoformat\<close> are arguments too, and the clock reading is \<open>now\<close>.

  Shown here: the builder's invariant, that a gap-free ordered stream produces exactly the windows
  of the batch generator of \<open>phase1b_features.py\<close>, and a stream with a gap on which it drops a window
  the batch generator produces.
\<close>

section \<open>Builder\<close>

datatype SegmentCloseReason =
    sequence_gap | conflicting_duplicate | timestamp_regression | invalid_bin | split_boundary

record BuilderResult =
  features :: "FeatureVectorV1 list"
  segment_closed_reason :: "SegmentCloseReason option"

definition lookup_column :: "(string \<times> 'a) list \<Rightarrow> string \<Rightarrow> exn + 'a" where
  "lookup_column t col =
     (case map_of t col of None \<Rightarrow> Inl (RuntimeError ''AttributeError'') | Some v \<Rightarrow> Inr v)"

definition extract_sample ::
  "TelemetryEventV1 \<Rightarrow> string list \<Rightarrow> string list \<Rightarrow> exn + TelemetrySample"
where
  "extract_sample event analog_cols digital_cols =
     bind_err (map_err (lookup_column (analog_fields event)) analog_cols) (\<lambda>analog.
     bind_err (map_err (lookup_column (digital_fields event)) digital_cols) (\<lambda>digital.
       Inr \<lparr>ts_timestamp = source_timestamp event, ts_analog = map the_fin analog,
            ts_digital = digital\<rparr>))"

type_synonym payload_text = "int \<times> datetime \<times> pyfloat list \<times> int list"

definition hash_event_payload :: "(payload_text \<Rightarrow> sha256) \<Rightarrow> TelemetryEventV1 \<Rightarrow> sha256" where
  "hash_event_payload hash_payload event =
     hash_payload (sequence event, source_timestamp event, map snd (analog_fields event),
       map snd (digital_fields event))"

record OnlineFeatureBuilder =
  fb_replay_session_id :: uuid
  fb_machine_id :: string
  fb_source_dataset_sha256 :: sha256
  fb_contract_sha256 :: sha256
  fb_feature_names :: "string list"
  fb_stride_seconds :: int
  fb_lookback_bins :: nat
  fb_min_bin_observations :: nat
  fb_analog_cols :: "string list"
  fb_digital_cols :: "string list"
  fb_last_sequence :: "int option"
  fb_last_timestamp :: "datetime option"
  fb_last_event_id :: "uuid option"
  fb_last_payload_hash :: "sha256 option"
  fb_current_bin_end :: "datetime option"
  fb_current_bin_samples :: "TelemetrySample list"
  fb_valid_bin_buffer :: "bin list"
  fb_is_complete :: bool

definition reset_segment :: "OnlineFeatureBuilder \<Rightarrow> OnlineFeatureBuilder" where
  "reset_segment b = b\<lparr>fb_current_bin_end := None, fb_current_bin_samples := [],
     fb_valid_bin_buffer := []\<rparr>"

text \<open>What the builder is given from outside.\<close>

record online_env =
  oe_uuid5 :: "uuid_name \<Rightarrow> uuid"
  oe_iso :: "datetime \<Rightarrow> string"
  oe_hash :: "payload_text \<Rightarrow> sha256"

definition emit_window ::
  "online_env \<Rightarrow> datetime \<Rightarrow> OnlineFeatureBuilder \<Rightarrow> bin list \<Rightarrow> exn + FeatureVectorV1"
where
  "emit_window env now b buffer =
     (let window_end = fst (last buffer);
          window_start = fst (hd buffer) - seconds (fb_stride_seconds b)
      in bind_err
           (validate_coverage (\<lambda>_. False)
              \<lparr>observations_by_bin = map (\<lambda>x. int (length (snd x))) buffer,
               bin_ends = map fst buffer\<rparr>) (\<lambda>coverage.
         bind_err
           (compute_feature_values (concat (map snd buffer)) (fb_feature_names b) (fb_analog_cols b)
              (fb_digital_cols b)) (\<lambda>vals.
         bind_err
           (runtime_id (oe_uuid5 env) ''window'' (fb_replay_session_id b) (oe_iso env window_end))
           (\<lambda>wid.
         validate_feature_vector runtime_tz
           \<lparr>message_id = wid, replay_session_id = fb_replay_session_id b,
            source_dataset_sha256 = fb_source_dataset_sha256 b,
            contract_sha256 = fb_contract_sha256 b, source_timestamp = window_end, emitted_at = now,
            fv_window_id = wid, fv_machine_id = fb_machine_id b, fv_window_start = window_start,
            fv_window_end = window_end, fv_feature_names = fb_feature_names b,
            fv_feature_values = map Fin vals, fv_coverage = coverage\<rparr>))))"

definition finalize_current_bin ::
  "online_env \<Rightarrow> datetime \<Rightarrow> OnlineFeatureBuilder \<Rightarrow> exn + OnlineFeatureBuilder \<times> FeatureVectorV1 list"
where
  "finalize_current_bin env now b =
     (case fb_current_bin_end b of
        None \<Rightarrow> Inr (b, [])
      | Some cur_end \<Rightarrow>
          (if length (fb_current_bin_samples b) \<ge> fb_min_bin_observations b then
             (let buf0 = fb_valid_bin_buffer b;
                  buf1 = (if buf0 \<noteq> [] \<and> cur_end - fst (last buf0) \<noteq> seconds (fb_stride_seconds b)
                          then [] else buf0);
                  buf = push_bounded (fb_lookback_bins b) (cur_end, fb_current_bin_samples b) buf1;
                  b' = b\<lparr>fb_valid_bin_buffer := buf, fb_current_bin_samples := []\<rparr>
              in if length buf = fb_lookback_bins b
                 then bind_err (emit_window env now b buf) (\<lambda>w. Inr (b', [w]))
                 else Inr (b', []))
           else Inr (b\<lparr>fb_valid_bin_buffer := [], fb_current_bin_samples := []\<rparr>, [])))"

definition check_sequence_and_ordering ::
  "OnlineFeatureBuilder \<Rightarrow> TelemetryEventV1 \<Rightarrow> sha256
     \<Rightarrow> bool \<times> SegmentCloseReason option \<times> OnlineFeatureBuilder"
where
  "check_sequence_and_ordering b event payload_hash =
     (if fb_last_sequence b = Some (sequence event) then
        (if fb_last_event_id b = Some (message_id event) \<and> fb_last_payload_hash b = Some payload_hash
         then (True, None, b)
         else (True, Some conflicting_duplicate, reset_segment b))
      else if fb_last_sequence b \<noteq> None \<and> sequence event \<noteq> the (fb_last_sequence b) + 1
      then (False, Some sequence_gap, reset_segment b)
      else if fb_last_timestamp b \<noteq> None \<and> source_timestamp event < the (fb_last_timestamp b)
      then (False, Some timestamp_regression, reset_segment b)
      else (False, None, b))"

definition push ::
  "online_env \<Rightarrow> datetime \<Rightarrow> OnlineFeatureBuilder \<Rightarrow> TelemetryEventV1
     \<Rightarrow> exn + OnlineFeatureBuilder \<times> BuilderResult"
where
  "push env now b event =
     (let payload_hash = hash_event_payload (oe_hash env) event;
          (should_ignore, close_reason, b) = check_sequence_and_ordering b event payload_hash
      in if should_ignore
         then Inr (b, \<lparr>features = [], segment_closed_reason = close_reason\<rparr>)
         else
           (let event_bin_end = compute_bin_end (source_timestamp event) in
            bind_err
              (case fb_current_bin_end b of
                 None \<Rightarrow> Inr (b\<lparr>fb_current_bin_end := Some event_bin_end\<rparr>, [], close_reason)
               | Some cur_end \<Rightarrow>
                   (if event_bin_end = cur_end then Inr (b, [], close_reason)
                    else if event_bin_end < cur_end then
                      Inr ((reset_segment b)\<lparr>fb_current_bin_end := Some event_bin_end\<rparr>, [],
                           Some timestamp_regression)
                    else if event_bin_end - cur_end > seconds (fb_stride_seconds b) then
                      bind_err (finalize_current_bin env now b) (\<lambda>(b, _).
                        Inr (b\<lparr>fb_valid_bin_buffer := [], fb_current_bin_end := Some event_bin_end\<rparr>,
                             [], Some invalid_bin))
                    else
                      bind_err (finalize_current_bin env now b) (\<lambda>(b, emitted).
                        Inr (b\<lparr>fb_current_bin_end := Some event_bin_end\<rparr>, emitted, close_reason))))
              (\<lambda>(b, emitted, reason).
                 bind_err (extract_sample event (fb_analog_cols b) (fb_digital_cols b)) (\<lambda>sample.
                   Inr (b\<lparr>fb_current_bin_samples := fb_current_bin_samples b @ [sample],
                          fb_last_sequence := Some (sequence event),
                          fb_last_timestamp := Some (source_timestamp event),
                          fb_last_event_id := Some (message_id event),
                          fb_last_payload_hash := Some payload_hash\<rparr>,
                        \<lparr>features = emitted, segment_closed_reason = reason\<rparr>)))))"

definition complete ::
  "online_env \<Rightarrow> datetime \<Rightarrow> OnlineFeatureBuilder \<Rightarrow> datetime \<Rightarrow> exn + OnlineFeatureBuilder \<times> BuilderResult"
where
  "complete env now b source_ts =
     (if fb_last_timestamp b \<noteq> None \<and> source_ts < the (fb_last_timestamp b)
      then Inl (ValueError ''completion timestamp cannot precede last received telemetry'')
      else bind_err (finalize_current_bin env now b) (\<lambda>(b, emitted).
        Inr (b\<lparr>fb_is_complete := True\<rparr>, \<lparr>features = emitted, segment_closed_reason = None\<rparr>)))"

section \<open>Invariant\<close>

definition builder_inv :: "OnlineFeatureBuilder \<Rightarrow> bool" where
  "builder_inv b \<longleftrightarrow> 0 < fb_lookback_bins b \<and>
     buffer_ok (fb_min_bin_observations b) (fb_lookback_bins b) (fb_stride_seconds b)
       (fb_valid_bin_buffer b) \<and>
     (fb_current_bin_end b = None \<longrightarrow> fb_current_bin_samples b = [])"

lemma finalize_buffer:
  assumes "finalize_current_bin env now b = Inr (b', out)" "fb_current_bin_end b = Some e"
  shows "b' = b\<lparr>fb_valid_bin_buffer := bin_push (fb_min_bin_observations b) (fb_lookback_bins b)
      (fb_stride_seconds b) (fb_valid_bin_buffer b) (e, fb_current_bin_samples b),
      fb_current_bin_samples := []\<rparr>"
  using assms
  by (auto simp: finalize_current_bin_def bin_push_def Let_def err_simps split: if_splits)

lemma finalize_inv:
  assumes "builder_inv b" "finalize_current_bin env now b = Inr (b', out)"
  shows "builder_inv b' \<and> fb_current_bin_end b' = fb_current_bin_end b \<and> fb_current_bin_samples b' = []"
proof (cases "fb_current_bin_end b")
  case None
  with assms show ?thesis by (auto simp: finalize_current_bin_def builder_inv_def)
next
  case (Some e)
  from finalize_buffer [OF assms(2) this] assms(1) Some show ?thesis
    by (simp add: builder_inv_def bin_push_ok)
qed

lemma reset_segment_inv: "builder_inv b \<Longrightarrow> builder_inv (reset_segment b)"
  by (simp add: builder_inv_def reset_segment_def buffer_ok_def)

lemma check_sequence_inv:
  "builder_inv b \<Longrightarrow> check_sequence_and_ordering b event h = (ign, reason, b') \<Longrightarrow> builder_inv b'"
  by (auto simp: check_sequence_and_ordering_def reset_segment_inv split: if_splits)

definition push_step :: "online_env \<Rightarrow> OnlineFeatureBuilder \<Rightarrow> datetime \<times> TelemetryEventV1 \<Rightarrow> exn + OnlineFeatureBuilder" where
  "push_step env b = (\<lambda>(now, event). bind_err (push env now b event) (\<lambda>(b', _). Inr b'))"

lemma push_inv:
  assumes "builder_inv b" "push env now b event = Inr (b', r)"
  shows "builder_inv b'"
proof -
  let ?h = "hash_event_payload (oe_hash env) event" and ?e = "compute_bin_end (source_timestamp event)"
  obtain ign reason b1 where chk: "check_sequence_and_ordering b event ?h = (ign, reason, b1)"
    by (cases "check_sequence_and_ordering b event ?h")
  note inv1 = check_sequence_inv [OF assms(1) chk]
  have set_end: "builder_inv (x\<lparr>fb_current_bin_end := Some ?e\<rparr>)" if "builder_inv x" for x
    using that by (simp add: builder_inv_def)
  have clear: "builder_inv (x\<lparr>fb_valid_bin_buffer := [], fb_current_bin_end := Some ?e\<rparr>)"
    if "builder_inv x" for x
    using that by (simp add: builder_inv_def buffer_ok_def)
  have final: "builder_inv (x\<lparr>fb_current_bin_samples := s, fb_last_sequence := q,
      fb_last_timestamp := t, fb_last_event_id := i, fb_last_payload_hash := p\<rparr>)"
    if "builder_inv x" "fb_current_bin_end x \<noteq> None" for x s q t i p
    using that by (auto simp: builder_inv_def)
  show ?thesis
  proof (cases ign)
    case True
    with assms(2) chk inv1 show ?thesis by (simp add: push_def)
  next
    case False
    with assms(2) chk obtain b2 em rs s where
      b2: "(case fb_current_bin_end b1 of
                 None \<Rightarrow> Inr (b1\<lparr>fb_current_bin_end := Some ?e\<rparr>, [], reason)
               | Some cur_end \<Rightarrow>
                   (if ?e = cur_end then Inr (b1, [], reason)
                    else if ?e < cur_end then
                      Inr ((reset_segment b1)\<lparr>fb_current_bin_end := Some ?e\<rparr>, [],
                           Some timestamp_regression)
                    else if ?e - cur_end > seconds (fb_stride_seconds b1) then
                      bind_err (finalize_current_bin env now b1) (\<lambda>(b, _).
                        Inr (b\<lparr>fb_valid_bin_buffer := [], fb_current_bin_end := Some ?e\<rparr>,
                             [], Some invalid_bin))
                    else
                      bind_err (finalize_current_bin env now b1) (\<lambda>(b, emitted).
                        Inr (b\<lparr>fb_current_bin_end := Some ?e\<rparr>, emitted, reason)))) = Inr (b2, em, rs)"
      and b': "b' = b2\<lparr>fb_current_bin_samples := fb_current_bin_samples b2 @ [s],
          fb_last_sequence := Some (sequence event), fb_last_timestamp := Some (source_timestamp event),
          fb_last_event_id := Some (message_id event), fb_last_payload_hash := Some ?h\<rparr>"
      by (auto simp: push_def Let_def err_simps)
    from b2 inv1 have "builder_inv b2 \<and> fb_current_bin_end b2 \<noteq> None"
      by (auto simp: err_simps set_end clear reset_segment_inv split: option.splits if_splits
          dest: finalize_inv)
    then show ?thesis unfolding b' by (blast intro: final)
  qed
qed

interpretation online_builder: inv_machine "push_step env" builder_inv
  by unfold_locales (auto simp: push_step_def err_simps dest: push_inv)

section \<open>Parity with the batch generator\<close>

text \<open>The buffers at which a window is due, while a list of finished bins is pushed.\<close>

definition due_step ::
  "nat \<Rightarrow> nat \<Rightarrow> int \<Rightarrow> bin list \<times> bin list list \<Rightarrow> bin \<Rightarrow> bin list \<times> bin list list"
where
  "due_step min_obs lookback stride = (\<lambda>(buf, snaps) b.
     let buf' = bin_push min_obs lookback stride buf b
     in (buf', if length buf' = lookback then snaps @ [buf'] else snaps))"

definition due_windows :: "nat \<Rightarrow> nat \<Rightarrow> int \<Rightarrow> bin list \<Rightarrow> bin list \<times> bin list list" where
  "due_windows min_obs lookback stride bins = foldl (due_step min_obs lookback stride) ([], []) bins"

lemma due_windows_snoc:
  "due_windows min_obs lookback stride (bins @ [b]) =
     due_step min_obs lookback stride (due_windows min_obs lookback stride bins) b"
  by (simp add: due_windows_def)

lemma due_windows_ok:
  assumes "0 < lookback" "due_windows min_obs lookback stride bins = (buf, snaps)"
  shows "buffer_ok min_obs lookback stride buf \<and>
    (\<forall>s \<in> set snaps. buffer_ok min_obs lookback stride s \<and> length s = lookback)"
  using assms(2)
proof (induction bins arbitrary: buf snaps rule: rev_induct)
  case Nil
  then show ?case by (simp add: due_windows_def buffer_ok_def)
next
  case (snoc b bins)
  obtain buf0 snaps0 where "due_windows min_obs lookback stride bins = (buf0, snaps0)"
    by (cases "due_windows min_obs lookback stride bins")
  with snoc.IH [OF this] snoc.prems bin_push_ok [OF assms(1), of min_obs stride buf0 b]
  show ?case by (auto simp: due_windows_snoc due_step_def Let_def split: if_splits)
qed

text \<open>The observable part of a window, on both sides.\<close>

type_synonym window_view =
  "datetime \<times> datetime \<times> string list \<times> real list \<times> datetime list \<times> int list"

definition fv_view :: "FeatureVectorV1 \<Rightarrow> window_view" where
  "fv_view f = (fv_window_start f, fv_window_end f, fv_feature_names f,
     map the_fin (fv_feature_values f), bin_ends (fv_coverage f), observations_by_bin (fv_coverage f))"

definition win_view :: "Phase1BWindow \<Rightarrow> window_view" where
  "win_view w = (win_start w, win_end w, win_feature_names w, win_feature_values w, win_bin_ends w,
     win_observations_by_bin w)"

definition buffer_view :: "string list \<Rightarrow> string list \<Rightarrow> string list \<Rightarrow> bin list \<Rightarrow> window_view" where
  "buffer_view names analog digital buf =
     (fst (hd buf) - seconds 300, fst (last buf), names,
      projr (compute_feature_values (concat (map snd buf)) names analog digital),
      map fst buf, map (\<lambda>b. int (length (snd b))) buf)"

text \<open>A builder with the contract's window shape and identity fields that pass validation.\<close>

definition builder_config :: "online_env \<Rightarrow> OnlineFeatureBuilder \<Rightarrow> bool" where
  "builder_config env b \<longleftrightarrow>
     fb_stride_seconds b = 300 \<and> fb_lookback_bins b = 6 \<and> fb_min_bin_observations b = 24 \<and>
     is_hex64 (fb_source_dataset_sha256 b) \<and> is_hex64 (fb_contract_sha256 b) \<and>
     fb_machine_id b \<noteq> [] \<and> length (fb_machine_id b) \<le> 128 \<and>
     fb_feature_names b \<noteq> [] \<and> distinct (fb_feature_names b) \<and>
     set (fb_feature_names b) \<subseteq> set (get_candidate_feature_names (fb_analog_cols b) (fb_digital_cols b)) \<and>
     (\<forall>t. oe_iso env t \<noteq> [])"

lemma chain_nth_hd:
  assumes "chain (\<lambda>a b. fst b = fst a + d) buf" "i < length buf"
  shows "fst (buf ! i) = fst (hd buf) + int i * (d :: int)"
  using assms(2)
proof (induction i)
  case 0
  then show ?case by (simp add: hd_conv_nth)
next
  case (Suc i)
  then have "fst (buf ! Suc i) = fst (buf ! i) + d"
    using assms(1) adjacent_indices [of buf "\<lambda>a b. fst b = fst a + d"] by auto
  with Suc show ?case by (simp add: algebra_simps)
qed

lemma emit_window_ok:
  assumes cfg: "builder_config env b" and ok: "buffer_ok 24 6 300 buf" and len: "length buf = 6"
  shows "\<exists>f. emit_window env now b buf = Inr f \<and>
    fv_view f = buffer_view (fb_feature_names b) (fb_analog_cols b) (fb_digital_cols b) buf"
proof -
  have chain: "chain (\<lambda>a b. fst b = fst a + seconds 300) buf"
    and obs: "\<forall>x \<in> set buf. 24 \<le> length (snd x)"
    using ok by (simp_all add: buffer_ok_def list_all_iff)
  have cov: "validate_coverage (\<lambda>_. False)
      \<lparr>observations_by_bin = map (\<lambda>x. int (length (snd x))) buf, bin_ends = map fst buf\<rparr> =
    Inr \<lparr>observations_by_bin = map (\<lambda>x. int (length (snd x))) buf, bin_ends = map fst buf\<rparr>"
    using len obs chain_nth_hd [OF chain]
    by (auto simp: validate_coverage_def err_simps)
  have ne: "concat (map snd buf) \<noteq> []" using len obs by (cases buf) auto
  have names: "set (fb_feature_names b) \<subseteq>
      set (get_candidate_feature_names (fb_analog_cols b) (fb_digital_cols b))"
    using cfg by (simp add: builder_config_def)
  obtain vals where vals: "compute_feature_values (concat (map snd buf)) (fb_feature_names b)
      (fb_analog_cols b) (fb_digital_cols b) = Inr vals" "length vals = length (fb_feature_names b)"
    using compute_feature_values_ok [OF ne names] by blast
  have last: "fst (last buf) = fst (hd buf) + 5 * seconds 300"
  proof -
    have "last buf = buf ! 5" using len by (subst last_conv_nth) auto
    with chain_nth_hd [OF chain, of 5] len show ?thesis by simp
  qed
  have id: "runtime_id (oe_uuid5 env) ''window'' (fb_replay_session_id b) (oe_iso env t) =
      Inr (oe_uuid5 env (RuntimeName ''window'' (fb_replay_session_id b) (oe_iso env t)))" for t
    using cfg by (simp add: builder_config_def runtime_id_def)
  have "vals \<noteq> []" using vals(2) cfg by (auto simp: builder_config_def)
  with cfg vals show ?thesis
    by (simp add: emit_window_def Let_def cov id builder_config_def validate_feature_vector_def
        err_simps check_defs last distinct_card fv_view_def buffer_view_def o_def Suc_le_eq)
qed

text \<open>The batch loop visits the same due windows.  All of them lie in the train split here.\<close>

definition batch_contract :: "Phase1BContract \<Rightarrow> bool" where
  "batch_contract c \<longleftrightarrow> stride_seconds c = 300 \<and> lookback_bins c = 6 \<and> min_bin_observations c = 24"

definition in_train :: "Phase1BContract \<Rightarrow> bin list \<Rightarrow> bool" where
  "in_train c buf \<longleftrightarrow> split_start (train c) \<le> fst (hd buf) - seconds 300 \<and>
     fst (last buf) \<le> split_end (train c)"

definition candidate_names :: "Phase1BContract \<Rightarrow> string list" where
  "candidate_names c = get_candidate_feature_names (analog_columns c) (predictor_digital c)"

lemma create_window_view:
  assumes "stride_seconds c = 300" "buffer_ok 24 6 300 buf" "length buf = 6"
  shows "\<exists>w. create_window_from_buffer buf sp (candidate_names c) (analog_columns c)
      (predictor_digital c) c = Inr w \<and>
    win_view w = buffer_view (candidate_names c) (analog_columns c) (predictor_digital c) buf \<and>
    win_start w = fst (hd buf) - seconds 300 \<and> win_end w = fst (last buf)"
proof -
  have ne: "concat (map snd buf) \<noteq> []" using assms(2,3) by (cases buf) (auto simp: buffer_ok_def)
  obtain vals where "compute_feature_values (concat (map snd buf)) (candidate_names c)
      (analog_columns c) (predictor_digital c) = Inr vals"
    using compute_feature_values_ok [OF ne, of "candidate_names c"] by (auto simp: candidate_names_def)
  with assms(1) show ?thesis
    by (simp add: create_window_from_buffer_def win_view_def buffer_view_def)
qed

lemma batch_bin_due:
  assumes c: "batch_contract c" and buf: "buffer_ok 24 6 300 (bs_buffer st)"
    and prev: "bs_prev_bin_end st = (if bs_buffer st = [] then None else Some (fst (last (bs_buffer st))))"
    and due: "buf' = bin_push 24 6 300 (bs_buffer st) b"
    and train: "length buf' = 6 \<Longrightarrow> in_train c buf'"
  shows "\<exists>st'. batch_bin c st b = Inr st' \<and> bs_buffer st' = buf' \<and>
    bs_prev_bin_end st' = (if buf' = [] then None else Some (fst (last buf'))) \<and>
    map win_view (bs_windows st') = map win_view (bs_windows st) @
      (if length buf' = 6
       then [buffer_view (candidate_names c) (analog_columns c) (predictor_digital c) buf'] else [])"
proof -
  obtain e ss where b: "b = (e, ss)" by (cases b)
  have ok': "buffer_ok 24 6 300 buf'" using bin_push_ok [of 6 24 300, OF _ buf, of b] due by simp
  note cc = c [unfolded batch_contract_def]
  show ?thesis
  proof (cases "length ss < 24")
    case True
    with cc due show ?thesis by (simp add: batch_bin_def b bin_push_def)
  next
    case False
    let ?buf0 = "case bs_prev_bin_end st of
              Some prev \<Rightarrow> if e - prev \<noteq> seconds (stride_seconds c) then [] else bs_buffer st
            | None \<Rightarrow> bs_buffer st"
    have buf': "buf' = push_bounded 6 (e, ss) ?buf0"
      using False due cc prev by (auto simp: bin_push_def b)
    have ne: "buf' \<noteq> []" "last buf' = (e, ss)"
      using push_bounded_last [of 6 "(e, ss)"] buf' by simp_all
    show ?thesis
    proof (cases "length buf' = 6")
      case short: False
      with False cc buf' ne show ?thesis by (simp add: batch_bin_def b Let_def)
    next
      case True
      from create_window_view [OF _ ok' True] cc obtain w where
        w: "create_window_from_buffer buf' TRAIN (candidate_names c) (analog_columns c)
          (predictor_digital c) c = Inr w"
        "win_view w = buffer_view (candidate_names c) (analog_columns c) (predictor_digital c) buf'"
        "win_start w = fst (hd buf') - seconds 300" "win_end w = fst (last buf')" by blast
      have "match_split c (fst (hd buf') - seconds 300) (fst (last buf')) = Some TRAIN"
        using train [OF True] by (simp add: match_split_def in_train_def)
      moreover have "window_is_within_split w (train c)"
        using train [OF True] w(3,4) by (simp add: window_is_within_split_def in_train_def)
      ultimately show ?thesis
        using True False cc buf' ne w
        by (simp add: batch_bin_def b Let_def candidate_names_def)
    qed
  qed
qed

lemma batch_run_due:
  assumes c: "batch_contract c" and due: "due_windows 24 6 300 bins = (buf, snaps)"
    and train: "\<forall>s \<in> set snaps. in_train c s"
  shows "\<exists>st. fold_err (batch_bin c) batch_init bins = Inr st \<and> bs_buffer st = buf \<and>
    bs_prev_bin_end st = (if buf = [] then None else Some (fst (last buf))) \<and>
    map win_view (bs_windows st) =
      map (buffer_view (candidate_names c) (analog_columns c) (predictor_digital c)) snaps"
  using due train
proof (induction bins arbitrary: buf snaps rule: rev_induct)
  case Nil
  then show ?case by (simp add: due_windows_def batch_init_def)
next
  case (snoc b bins)
  obtain buf0 snaps0 where due0: "due_windows 24 6 300 bins = (buf0, snaps0)"
    by (cases "due_windows 24 6 300 bins")
  let ?buf' = "bin_push 24 6 300 buf0 b"
  have step: "buf = ?buf'" "snaps = (if length ?buf' = 6 then snaps0 @ [?buf'] else snaps0)"
    using snoc.prems(1) by (auto simp: due_windows_snoc due0 due_step_def Let_def)
  have "\<forall>s \<in> set snaps0. in_train c s" using snoc.prems(2) step(2) by (auto split: if_splits)
  from snoc.IH [OF due0 this] obtain st where st: "fold_err (batch_bin c) batch_init bins = Inr st"
    "bs_buffer st = buf0" "bs_prev_bin_end st = (if buf0 = [] then None else Some (fst (last buf0)))"
    "map win_view (bs_windows st) =
      map (buffer_view (candidate_names c) (analog_columns c) (predictor_digital c)) snaps0"
    by blast
  have "buffer_ok 24 6 300 (bs_buffer st)" using due_windows_ok [OF _ due0] st(2) by simp
  from batch_bin_due [OF c this _ refl, of b] st snoc.prems(2) step
  show ?case by (auto simp: fold_err_append split: if_splits)
qed

lemma finalize_valid:
  assumes "fb_current_bin_end b = Some e"
    "\<not> length (fb_current_bin_samples b) < fb_min_bin_observations b"
    "buf = bin_push (fb_min_bin_observations b) (fb_lookback_bins b) (fb_stride_seconds b)
       (fb_valid_bin_buffer b) (e, fb_current_bin_samples b)"
  shows "finalize_current_bin env now b =
    (if length buf = fb_lookback_bins b
     then bind_err (emit_window env now b buf)
       (\<lambda>w. Inr (b\<lparr>fb_valid_bin_buffer := buf, fb_current_bin_samples := []\<rparr>, [w]))
     else Inr (b\<lparr>fb_valid_bin_buffer := buf, fb_current_bin_samples := []\<rparr>, []))"
  using assms by (simp add: finalize_current_bin_def bin_push_def Let_def)

lemma finalize_ok:
  assumes cfg: "builder_config env b" and inv: "builder_inv b" and cur: "fb_current_bin_end b = Some e"
    and buf': "buf' = bin_push 24 6 300 (fb_valid_bin_buffer b) (e, fb_current_bin_samples b)"
  shows "\<exists>out. finalize_current_bin env now b =
      Inr (b\<lparr>fb_valid_bin_buffer := buf', fb_current_bin_samples := []\<rparr>, out) \<and>
    map fv_view out = (if length buf' = 6
      then [buffer_view (fb_feature_names b) (fb_analog_cols b) (fb_digital_cols b) buf'] else [])"
proof -
  have par: "fb_stride_seconds b = 300" "fb_lookback_bins b = 6" "fb_min_bin_observations b = 24"
    using cfg by (simp_all add: builder_config_def)
  have ok: "buffer_ok 24 6 300 buf'"
    using inv bin_push_ok [of 6 24 300] by (simp add: buf' builder_inv_def par)
  show ?thesis
  proof (cases "length (fb_current_bin_samples b) < 24")
    case True
    with par cur buf' show ?thesis by (simp add: finalize_current_bin_def bin_push_def)
  next
    case False
    with par have valid: "\<not> length (fb_current_bin_samples b) < fb_min_bin_observations b" by simp
    note fin = finalize_valid [OF cur valid, unfolded par, OF buf', of env now]
    show ?thesis
    proof (cases "length buf' = 6")
      case True
      from emit_window_ok [OF cfg ok True, of now] fin True show ?thesis by auto
    next
      case False
      with fin show ?thesis by simp
    qed
  qed
qed

lemma builder_config_updates [simp]:
  "builder_config env (b\<lparr>fb_current_bin_samples := x1\<rparr>) = builder_config env b"
  "builder_config env (b\<lparr>fb_current_bin_end := x2\<rparr>) = builder_config env b"
  "builder_config env (b\<lparr>fb_valid_bin_buffer := x3\<rparr>) = builder_config env b"
  "builder_config env (b\<lparr>fb_last_sequence := x4\<rparr>) = builder_config env b"
  "builder_config env (b\<lparr>fb_last_timestamp := x5\<rparr>) = builder_config env b"
  "builder_config env (b\<lparr>fb_last_event_id := x6\<rparr>) = builder_config env b"
  "builder_config env (b\<lparr>fb_last_payload_hash := x7\<rparr>) = builder_config env b"
  by (simp_all add: builder_config_def)

lemma builder_inv_updates [simp]:
  "builder_inv (b\<lparr>fb_last_sequence := x4\<rparr>) = builder_inv b"
  "builder_inv (b\<lparr>fb_last_timestamp := x5\<rparr>) = builder_inv b"
  "builder_inv (b\<lparr>fb_last_event_id := x6\<rparr>) = builder_inv b"
  "builder_inv (b\<lparr>fb_last_payload_hash := x7\<rparr>) = builder_inv b"
  by (simp_all add: builder_inv_def)

lemma builder_inv_samples:
  "builder_inv b \<Longrightarrow> fb_current_bin_end b = Some e \<Longrightarrow>
     builder_inv (b\<lparr>fb_current_bin_samples := x\<rparr>)"
  "builder_inv b \<Longrightarrow> builder_inv (b\<lparr>fb_current_bin_end := Some e, fb_current_bin_samples := x\<rparr>)"
  by (simp_all add: builder_inv_def)

definition push_io ::
  "online_env \<Rightarrow> OnlineFeatureBuilder \<Rightarrow> datetime \<times> TelemetryEventV1 \<Rightarrow> exn + OnlineFeatureBuilder \<times> BuilderResult"
where
  "push_io env b = (\<lambda>(now, event). push env now b event)"

lemma push_io_pair: "push_io env b (now, e) = push env now b e"
  by (simp add: push_io_def)

text \<open>The features a run of the builder emitted.\<close>

definition emitted :: "(OnlineFeatureBuilder \<times> BuilderResult) list \<Rightarrow> FeatureVectorV1 list" where
  "emitted outs = concat (map (\<lambda>x. features (snd x)) outs)"

lemma emitted_simps [simp]:
  "emitted [] = []" "emitted [x] = features (snd x)" "emitted (xs @ ys) = emitted xs @ emitted ys"
  by (simp_all add: emitted_def)

definition sample_of :: "OnlineFeatureBuilder \<Rightarrow> TelemetryEventV1 \<Rightarrow> TelemetrySample" where
  "sample_of b e = projr (extract_sample e (fb_analog_cols b) (fb_digital_cols b))"

text \<open>An event that follows another one without a sequence, time or bin gap.\<close>

definition follows :: "TelemetryEventV1 \<Rightarrow> TelemetryEventV1 \<Rightarrow> bool" where
  "follows a e \<longleftrightarrow> sequence e = sequence a + 1 \<and> source_timestamp a \<le> source_timestamp e \<and>
     compute_bin_end (source_timestamp e) - compute_bin_end (source_timestamp a) \<le> seconds 300"

definition fresh_builder :: "OnlineFeatureBuilder \<Rightarrow> bool" where
  "fresh_builder b \<longleftrightarrow> fb_last_sequence b = None \<and> fb_last_timestamp b = None \<and>
     fb_current_bin_end b = None \<and> fb_current_bin_samples b = [] \<and> fb_valid_bin_buffer b = []"

text \<open>The builder after a gap-free stream: its current bin is the last bin of the batch dictionary,
  the earlier bins have been pushed.\<close>

definition tracks ::
  "online_env \<Rightarrow> OnlineFeatureBuilder \<Rightarrow> TelemetryEventV1 list \<Rightarrow> OnlineFeatureBuilder \<Rightarrow> window_view list \<Rightarrow> bool"
where
  "tracks env b0 es b views \<longleftrightarrow>
     (let bins = group_samples_into_bins (map (sample_of b0) es);
          (buf, snaps) = due_windows 24 6 300 (butlast bins)
      in builder_config env b \<and> builder_inv b \<and> fb_feature_names b = fb_feature_names b0 \<and>
         fb_analog_cols b = fb_analog_cols b0 \<and> fb_digital_cols b = fb_digital_cols b0 \<and>
         fb_current_bin_end b = Some (fst (last bins)) \<and>
         fb_current_bin_samples b = snd (last bins) \<and> fb_valid_bin_buffer b = buf \<and>
         fb_last_sequence b = Some (sequence (last es)) \<and>
         fb_last_timestamp b = Some (source_timestamp (last es)) \<and>
         views = map (buffer_view (fb_feature_names b0) (fb_analog_cols b0) (fb_digital_cols b0)) snaps)"

lemma sample_of_timestamp:
  "\<exists>s. extract_sample e (fb_analog_cols b) (fb_digital_cols b) = Inr s \<Longrightarrow>
     ts_timestamp (sample_of b e) = source_timestamp e"
  by (auto simp: sample_of_def extract_sample_def err_simps)

lemma push_first:
  assumes cfg: "builder_config env b" "fresh_builder b"
    and ex: "extract_sample e (fb_analog_cols b) (fb_digital_cols b) = Inr s"
  shows "\<exists>b' r. push env now b e = Inr (b', r) \<and> features r = [] \<and> tracks env b [e] b' []"
proof -
  have ts: "ts_timestamp s = source_timestamp e" using ex by (auto simp: extract_sample_def err_simps)
  have g: "group_samples_into_bins [s] = [(compute_bin_end (source_timestamp e), [s])]"
    by (simp add: group_samples_into_bins_def add_to_bins_def upsert_def Let_def ts)
  show ?thesis
    using assms
    by (simp add: push_def check_sequence_and_ordering_def fresh_builder_def Let_def tracks_def
        sample_of_def g due_windows_def builder_config_def builder_inv_def buffer_ok_def)
qed

lemma push_next:
  assumes tr: "tracks env b0 es b views" and es: "es \<noteq> []" and fol: "follows (last es) e"
    and sorted: "sorted (map (ts_timestamp \<circ> sample_of b0) (es @ [e]))"
    and last_ts: "ts_timestamp (sample_of b0 (last es)) = source_timestamp (last es)"
    and ex: "extract_sample e (fb_analog_cols b0) (fb_digital_cols b0) = Inr s"
  shows "\<exists>b' r. push env now b e = Inr (b', r) \<and>
    tracks env b0 (es @ [e]) b' (views @ map fv_view (features r))"
proof -
  let ?bins = "group_samples_into_bins (map (sample_of b0) es)"
  let ?e = "compute_bin_end (source_timestamp e)"
  obtain buf snaps where due: "due_windows 24 6 300 (butlast ?bins) = (buf, snaps)"
    by (cases "due_windows 24 6 300 (butlast ?bins)")
  note t = tr [unfolded tracks_def Let_def due, simplified]
  have samp: "sample_of b0 e = s" "ts_timestamp s = source_timestamp e"
    using ex by (auto simp: sample_of_def extract_sample_def err_simps)
  have sort_es: "sorted (map ts_timestamp (map (sample_of b0) es))"
    using sorted by (simp add: sorted_append)
  from group_samples_sorted [OF this] es last_ts have bins: "?bins \<noteq> []"
    "sorted_wrt (<) (keys ?bins)" "fst (last ?bins) = compute_bin_end (source_timestamp (last es))"
    by (simp_all add: last_map)
  obtain bs k ss where kb: "?bins = bs @ [(k, ss)]" using bins(1) by (metis prod.exhaust rev_exhaust)
  have k: "k = compute_bin_end (source_timestamp (last es))" using bins(3) kb by simp
  have le: "k \<le> ?e" "?e - k \<le> seconds 300"
    using fol by (auto simp: k follows_def intro: compute_bin_end_mono)
  have chk: "check_sequence_and_ordering b e h = (False, None, b)" for h
    using t fol by (auto simp: check_sequence_and_ordering_def follows_def)
  have ex_b: "extract_sample e (fb_analog_cols b) (fb_digital_cols b) = Inr s" using ex t by simp
  have cur: "fb_current_bin_end b = Some k" "fb_current_bin_samples b = ss"
    "fb_valid_bin_buffer b = buf" using t kb by simp_all
  have bins': "group_samples_into_bins (map (sample_of b0) es @ [s]) = add_to_bins ?bins s"
    by (simp add: group_snoc)
  show ?thesis
  proof (cases "?e = k")
    case True
    have "distinct (map fst (bs @ [(k, ss)]))"
      using bins(2) by (simp add: kb keys_def strict_sorted_iff)
    then have "add_to_bins ?bins s = bs @ [(k, ss @ [s])]"
      using True
      by (auto simp: add_to_bins_def upsert_def kb Let_def samp map_of_append_new map_of_eq_None_iff
          update_last_key split: option.splits)
    with True chk ex_b cur t due kb show ?thesis
      by (simp add: push_def Let_def tracks_def bins' samp(1) builder_inv_samples)
  next
    case False
    with le have lt: "k < ?e" by simp
    have "\<forall>x \<in> set (keys ?bins). x < ?e"
      using bins(2) lt by (auto simp: kb keys_def sorted_wrt_append)
    then have "map_of ?bins ?e = None" by (auto simp: map_of_eq_None_iff keys_def)
    then have add: "add_to_bins ?bins s = ?bins @ [(?e, [s])]"
      by (simp add: add_to_bins_def upsert_def Let_def samp)
    let ?buf' = "bin_push 24 6 300 buf (k, ss)"
    have cfg: "builder_config env b" and inv: "builder_inv b" using t by simp_all
    from finalize_ok [OF cfg inv cur(1) refl, of now] cur(2,3) obtain out where
      fin: "finalize_current_bin env now b =
        Inr (b\<lparr>fb_valid_bin_buffer := ?buf', fb_current_bin_samples := []\<rparr>, out)"
      "map fv_view out = (if length ?buf' = 6
        then [buffer_view (fb_feature_names b) (fb_analog_cols b) (fb_digital_cols b) ?buf'] else [])"
      by auto
    have due': "due_windows 24 6 300 ?bins =
        (?buf', if length ?buf' = 6 then snaps @ [?buf'] else snaps)"
      using due by (simp add: kb due_windows_snoc due_step_def Let_def)
    have inv': "builder_inv (b\<lparr>fb_valid_bin_buffer := ?buf', fb_current_bin_samples := []\<rparr>)"
      using finalize_inv [OF inv fin(1)] by simp
    have stride: "fb_stride_seconds b = 300" using cfg by (simp add: builder_config_def)
    show ?thesis
      using chk ex_b cur(1) lt le(2) fin t due' cfg builder_inv_samples(2) [OF inv', where e = ?e and x = "[s]"]
      by (simp add: push_def Let_def stride tracks_def bins' samp(1) add)
  qed
qed

lemma online_run_tracks:
  assumes cfg: "builder_config env b0" "fresh_builder b0"
    and chain: "chain follows (map snd xs)" "xs \<noteq> []"
    and ex: "\<forall>e \<in> set (map snd xs). \<exists>s. extract_sample e (fb_analog_cols b0) (fb_digital_cols b0) = Inr s"
  shows "\<exists>b outs. run_err (push_io env) b0 xs = Inr (b, outs) \<and>
    tracks env b0 (map snd xs) b (map fv_view (emitted outs))"
  using chain ex
proof (induction xs rule: rev_induct)
  case (snoc x xs)
  obtain now e where x: "x = (now, e)" by (cases x)
  from snoc.prems(3) obtain s where s: "extract_sample e (fb_analog_cols b0) (fb_digital_cols b0) = Inr s"
    by (auto simp: x)
  show ?case
  proof (cases "xs = []")
    case True
    with push_first [OF cfg s, of now] show ?thesis by (auto simp: x push_io_pair)
  next
    case False
    from snoc.prems False have ch: "chain follows (map snd xs)" "follows (last (map snd xs)) e"
      by (simp_all add: chain_snoc x last_map)
    from snoc.IH [OF ch(1) False] snoc.prems(3) obtain b outs where
      run: "run_err (push_io env) b0 xs = Inr (b, outs)"
      "tracks env b0 (map snd xs) b (map fv_view (emitted outs))"
      by auto
    have ts: "ts_timestamp (sample_of b0 y) = source_timestamp y" if "y \<in> set (map snd (xs @ [x]))" for y
      using snoc.prems(3) that sample_of_timestamp by blast
    have "chain (\<lambda>a e. source_timestamp a \<le> source_timestamp e) (map snd (xs @ [x]))"
      using snoc.prems(1) by (rule chain_mono) (simp add: follows_def)
    then have "sorted (map source_timestamp (map snd (xs @ [x])))"
      by (simp add: chain_map [symmetric] chain_sorted_wrt o_def)
    moreover have "map (ts_timestamp \<circ> sample_of b0) (map snd (xs @ [x])) =
        map source_timestamp (map snd (xs @ [x]))"
      using ts by simp
    ultimately have "sorted (map (ts_timestamp \<circ> sample_of b0) (map snd (xs @ [x])))"
      by (simp only:)
    then have sorted: "sorted (map (ts_timestamp \<circ> sample_of b0) (map snd xs @ [e]))"
      by (simp add: x)
    have lt: "ts_timestamp (sample_of b0 (last (map snd xs))) = source_timestamp (last (map snd xs))"
      using False by (intro ts) (simp add: last_map)
    from push_next [OF run(2) _ ch(2) sorted lt s, of now] False obtain b' r where
      "push env now b e = Inr (b', r)"
      "tracks env b0 (map snd xs @ [e]) b'
        (map fv_view (emitted outs) @ map fv_view (features r))" by auto
    with run(1) show ?thesis by (auto simp: run_err_snoc x push_io_pair)
  qed
qed simp

lemma due_windows_subset:
  "due_windows min_obs lookback stride bins = (buf, snaps) \<Longrightarrow>
     set buf \<subseteq> set bins \<and> (\<forall>s \<in> set snaps. set s \<subseteq> set bins)"
proof (induction bins arbitrary: buf snaps rule: rev_induct)
  case Nil
  then show ?case by (simp add: due_windows_def)
next
  case (snoc b bins)
  obtain buf0 snaps0 where due0: "due_windows min_obs lookback stride bins = (buf0, snaps0)"
    by (cases "due_windows min_obs lookback stride bins")
  have "set (bin_push min_obs lookback stride buf0 b) \<subseteq> insert b (set buf0)"
    using set_push_bounded [of lookback b "[]"] set_push_bounded [of lookback b buf0]
    by (auto simp: bin_push_def split: prod.splits)
  with snoc.IH [OF due0] snoc.prems show ?case
    by (fastforce simp: due_windows_snoc due0 due_step_def Let_def split: if_splits)
qed

lemma group_keys:
  "k \<in> set (keys (group_samples_into_bins ss)) \<Longrightarrow> k \<in> (compute_bin_end \<circ> ts_timestamp) ` set ss"
proof (induction ss rule: rev_induct)
  case Nil
  then show ?case by (simp add: group_samples_into_bins_def keys_def)
next
  case (snoc s ss)
  then show ?case by (auto simp: group_snoc add_to_bins_def Let_def keys_upsert split: if_splits)
qed

lemma table_from_keys:
  "distinct (keys t) \<Longrightarrow> map (\<lambda>k. (k, the (map_of t k))) (keys t) = t"
  by (auto simp: keys_def o_def intro!: map_idI)

lemma batch_windows_sorted:
  assumes c: "batch_contract c" and ss: "ss \<noteq> []" "sorted (map ts_timestamp ss)"
    and train: "\<forall>s \<in> set ss. split_start (train c) + seconds 300 \<le> ts_timestamp s \<and>
      compute_bin_end (ts_timestamp s) \<le> split_end (train c)"
    and due: "due_windows 24 6 300 (group_samples_into_bins ss) = (buf, snaps)"
  shows "\<exists>ws. iter_phase1b_windows ss c = Inr ws \<and>
    map win_view ws =
      map (buffer_view (candidate_names c) (analog_columns c) (predictor_digital c)) snaps"
proof -
  let ?bins = "group_samples_into_bins ss"
  have sorted: "sorted_wrt (<) (keys ?bins)" using group_samples_sorted [OF ss(2,1)] by simp
  then have keys: "sort (keys ?bins) = keys ?bins" "distinct (keys ?bins)"
    by (simp_all add: strict_sorted_iff sorted_sort_id)
  have bound: "split_start (train c) \<le> fst b - seconds 300 \<and> fst b \<le> split_end (train c)"
    if "b \<in> set ?bins" for b
  proof -
    have "fst b \<in> set (keys ?bins)" using that by (simp add: keys_def)
    from group_keys [OF this] obtain s where s: "s \<in> set ss" "fst b = compute_bin_end (ts_timestamp s)"
      by auto
    have "ts_timestamp s \<le> compute_bin_end (ts_timestamp s)"
      using compute_bin_end_ge by blast
    with s train show ?thesis by force
  qed
  have "in_train c s" if "s \<in> set snaps" for s
  proof -
    from that due_windows_ok [OF _ due] due_windows_subset [OF due]
    have "length s = 6" "set s \<subseteq> set ?bins" by auto
    then have "hd s \<in> set ?bins" "last s \<in> set ?bins" by (cases s; auto)+
    with bound show ?thesis by (simp add: in_train_def)
  qed
  with batch_run_due [OF c due] obtain st where
    "fold_err (batch_bin c) batch_init ?bins = Inr st"
    "map win_view (bs_windows st) =
      map (buffer_view (candidate_names c) (analog_columns c) (predictor_digital c)) snaps"
    by blast
  with ss(1) show ?thesis
    by (simp add: iter_phase1b_windows_def iter_phase1b_windows_with_stats_def Let_def keys
        table_from_keys)
qed

section \<open>Properties\<close>

lemma online_batch_run:
  assumes cfg: "builder_config env b0" "fresh_builder b0"
    and stream: "chain follows (map snd xs)" "xs \<noteq> []"
    and ex: "\<forall>e \<in> set (map snd xs). \<exists>s. extract_sample e (fb_analog_cols b0) (fb_digital_cols b0) = Inr s"
    and c: "batch_contract c" "analog_columns c = fb_analog_cols b0"
      "predictor_digital c = fb_digital_cols b0" "fb_feature_names b0 = candidate_names c"
    and train: "\<forall>e \<in> set (map snd xs). split_start (train c) + seconds 300 \<le> source_timestamp e \<and>
      compute_bin_end (source_timestamp e) \<le> split_end (train c)"
    and done_at: "source_timestamp (snd (last xs)) \<le> t"
  shows "\<exists>b outs b' r ws. run_err (push_io env) b0 xs = Inr (b, outs) \<and>
    complete env now b t = Inr (b', r) \<and>
    iter_phase1b_windows (map (sample_of b0) (map snd xs)) c = Inr ws \<and>
    map fv_view (emitted outs @ features r) = map win_view ws"
proof -
  let ?ss = "map (sample_of b0) (map snd xs)"
  let ?bins = "group_samples_into_bins ?ss"
  from online_run_tracks [OF cfg stream ex] obtain b outs where
    run: "run_err (push_io env) b0 xs = Inr (b, outs)"
    and tr: "tracks env b0 (map snd xs) b (map fv_view (emitted outs))" by blast
  obtain buf snaps where due: "due_windows 24 6 300 (butlast ?bins) = (buf, snaps)"
    by (cases "due_windows 24 6 300 (butlast ?bins)")
  note t = tr [unfolded tracks_def Let_def due, simplified]
  have ts: "ts_timestamp (sample_of b0 e) = source_timestamp e" if "e \<in> set (map snd xs)" for e
    using ex that sample_of_timestamp by blast
  have "chain (\<lambda>a e. source_timestamp a \<le> source_timestamp e) (map snd xs)"
    using stream(1) by (rule chain_mono) (simp add: follows_def)
  then have "sorted (map source_timestamp (map snd xs))"
    by (simp add: chain_map [symmetric] chain_sorted_wrt o_def)
  moreover have "map ts_timestamp ?ss = map source_timestamp (map snd xs)" using ts by simp
  ultimately have sorted: "sorted (map ts_timestamp ?ss)" by (simp only:)
  have ne: "?bins \<noteq> []" using group_samples_sorted [OF sorted] stream(2) by simp
  let ?buf' = "bin_push 24 6 300 buf (last ?bins)"
  have due': "due_windows 24 6 300 ?bins =
      (?buf', if length ?buf' = 6 then snaps @ [?buf'] else snaps)"
    using due due_windows_snoc [of 24 6 300 "butlast ?bins" "last ?bins"] ne
    by (simp add: due_step_def Let_def)
  have "\<forall>s \<in> set ?ss. split_start (train c) + seconds 300 \<le> ts_timestamp s \<and>
      compute_bin_end (ts_timestamp s) \<le> split_end (train c)"
    using train ts by simp
  from batch_windows_sorted [OF c(1) _ sorted this due'] stream(2) obtain ws where
    ws: "iter_phase1b_windows ?ss c = Inr ws"
    "map win_view ws = map (buffer_view (candidate_names c) (analog_columns c) (predictor_digital c))
       (if length ?buf' = 6 then snaps @ [?buf'] else snaps)" by auto
  from finalize_ok [of env b "fst (last ?bins)" ?buf' now] t obtain out where
    fin: "finalize_current_bin env now b =
      Inr (b\<lparr>fb_valid_bin_buffer := ?buf', fb_current_bin_samples := []\<rparr>, out)"
    "map fv_view out = (if length ?buf' = 6
      then [buffer_view (fb_feature_names b) (fb_analog_cols b) (fb_digital_cols b) ?buf'] else [])"
    by auto
  have "complete env now b t = Inr (b\<lparr>fb_valid_bin_buffer := ?buf', fb_current_bin_samples := [],
      fb_is_complete := True\<rparr>, \<lparr>features = out, segment_closed_reason = None\<rparr>)"
    using fin(1) t done_at stream(2) by (simp add: complete_def last_map)
  moreover have "map fv_view (emitted outs @ out) = map win_view ws"
    using ws(2) fin(2) t c by simp
  ultimately show ?thesis using run ws(1) by auto
qed


definition sample_event_at :: "nat \<Rightarrow> TelemetryEventV1" where
  "sample_event_at i =
     \<lparr>message_id = i, replay_session_id = 7, source_dataset_sha256 = zero_sha,
      contract_sha256 = zero_sha, source_timestamp = seconds 3600 + seconds (10 * int i),
      emitted_at = 0, te_machine_id = ''metropt3'', sequence = int i + 1,
      tp2 = Fin (real i), tp3 = Fin 8, h1 = Fin 8, dv_pressure = Fin 0, reservoirs = Fin 8,
      oil_temperature = Fin 60, motor_current = Fin 4, te_comp = 1, dv_electric = 0, towers = 1,
      mpg = 1, lps = 0, pressure_switch = 1, oil_level = 1, caudal_impulses = 1\<rparr>"

definition sample_builder :: OnlineFeatureBuilder where
  "sample_builder =
     \<lparr>fb_replay_session_id = 7, fb_machine_id = ''metropt3'', fb_source_dataset_sha256 = zero_sha,
      fb_contract_sha256 = zero_sha,
      fb_feature_names = get_candidate_feature_names [''tp2''] [''comp''],
      fb_stride_seconds = 300, fb_lookback_bins = 6, fb_min_bin_observations = 24,
      fb_analog_cols = [''tp2''], fb_digital_cols = [''comp''], fb_last_sequence = None,
      fb_last_timestamp = None, fb_last_event_id = None, fb_last_payload_hash = None,
      fb_current_bin_end = None, fb_current_bin_samples = [], fb_valid_bin_buffer = [],
      fb_is_complete = False\<rparr>"

definition sample_online_env :: online_env where
  "sample_online_env = \<lparr>oe_uuid5 = (\<lambda>_. 0), oe_iso = (\<lambda>_. ''t''), oe_hash = (\<lambda>_. zero_sha)\<rparr>"

definition sample_contract :: Phase1BContract where
  "sample_contract =
     \<lparr>analog_columns = [''tp2''], digital_columns = [''comp'', ''towers''],
      predictor_columns = [''tp2'', ''comp''], train = \<lparr>split_start = 0, split_end = seconds 100000\<rparr>,
      calibration = \<lparr>split_start = 0, split_end = 0\<rparr>, holdout = \<lparr>split_start = 0, split_end = 0\<rparr>,
      min_bin_observations = 24, lookback_bins = 6, stride_seconds = 300\<rparr>"

lemma sample_builder_config: "builder_config sample_online_env sample_builder"
  by (simp add: builder_config_def sample_online_env_def sample_builder_def
      get_candidate_feature_names_def ANALOG_STATS_def DIGITAL_STATS_def)

lemma sample_extract:
  "\<exists>s. extract_sample (sample_event_at i) (fb_analog_cols sample_builder)
     (fb_digital_cols sample_builder) = Inr s"
  by (simp add: extract_sample_def lookup_column_def analog_fields_def digital_fields_def
      sample_builder_def)

lemma sample_follows: "follows (sample_event_at i) (sample_event_at (Suc i))"
proof -
  let ?a = "source_timestamp (sample_event_at i)"
  have "source_timestamp (sample_event_at (Suc i)) \<le> ?a + 300000000"
    by (simp add: sample_event_at_def)
  then have "compute_bin_end (source_timestamp (sample_event_at (Suc i))) \<le>
      compute_bin_end (?a + 300000000)"
    by (rule compute_bin_end_mono)
  also have "\<dots> = compute_bin_end ?a + 300000000"
    unfolding compute_bin_end_ceiling
    using div_mult_self3 [of 300000000 "- 1" "- ?a"] by (simp add: algebra_simps)
  finally show ?thesis by (simp add: follows_def sample_event_at_def)
qed

lemma sample_chain: "chain follows (map sample_event_at [0 ..< n])"
proof (induction n)
  case (Suc n)
  have split: "map sample_event_at [0 ..< Suc n] = map sample_event_at [0 ..< n] @ [sample_event_at n]" by simp
  have "n = 0 \<or> follows (last (map sample_event_at [0 ..< n])) (sample_event_at n)"
    using sample_follows by (cases n) simp_all
  with Suc show ?case unfolding split chain_snoc by simp
qed simp


text \<open>
  C34 (error): the builder drops a completed window before a gap.  When the current bin completes a
  full window and the next event in sequence lies more than one bin later, the window that closing
  the bin produces is computed and discarded: the push reports \<open>invalid_bin\<close> and no feature, while
  the batch generator, on the same bin and the same buffer, produces that window.
\<close>

theorem gap_drops_completed_window:
  assumes cfg: "builder_config env b" and inv: "builder_inv b"
    and cur: "fb_current_bin_end b = Some k" "24 \<le> length (fb_current_bin_samples b)"
    and buf: "length (fb_valid_bin_buffer b) = 5" "fst (last (fb_valid_bin_buffer b)) = k - seconds 300"
    and seq: "fb_last_sequence b = Some n" "sequence e = n + 1"
      "fb_last_timestamp b = Some t" "t \<le> source_timestamp e"
    and gap: "k + seconds 300 < compute_bin_end (source_timestamp e)"
    and ex: "extract_sample e (fb_analog_cols b) (fb_digital_cols b) = Inr s"
    and c: "batch_contract c" "bs_buffer st = fb_valid_bin_buffer b"
      "bs_prev_bin_end st = Some (k - seconds 300)"
      "in_train c (fb_valid_bin_buffer b @ [(k, fb_current_bin_samples b)])"
  shows "\<exists>w b1 b' r st'. finalize_current_bin env now b = Inr (b1, [w]) \<and>
    push env now b e = Inr (b', r) \<and> features r = [] \<and> segment_closed_reason r = Some invalid_bin \<and>
    batch_bin c st (k, fb_current_bin_samples b) = Inr st' \<and>
    map win_view (bs_windows st') = map win_view (bs_windows st) @
      [buffer_view (candidate_names c) (analog_columns c) (predictor_digital c)
        (fb_valid_bin_buffer b @ [(k, fb_current_bin_samples b)])]"
proof -
  let ?buf = "fb_valid_bin_buffer b @ [(k, fb_current_bin_samples b)]"
  have push: "bin_push 24 6 300 (fb_valid_bin_buffer b) (k, fb_current_bin_samples b) = ?buf"
    using cur(2) buf by (simp add: bin_push_def push_bounded_def)
  have par: "fb_stride_seconds b = 300" "fb_lookback_bins b = 6" "fb_min_bin_observations b = 24"
    using cfg by (simp_all add: builder_config_def)
  have ok: "buffer_ok 24 6 300 (fb_valid_bin_buffer b)" using inv by (simp add: builder_inv_def par)
  have len: "length ?buf = 6" using buf(1) by simp
  from finalize_ok [OF cfg inv cur(1) push [symmetric], of now] len obtain w where
    fin: "finalize_current_bin env now b =
      Inr (b\<lparr>fb_valid_bin_buffer := ?buf, fb_current_bin_samples := []\<rparr>, [w])"
    by (auto simp: map_eq_Cons_conv)
  have chk: "check_sequence_and_ordering b e h = (False, None, b)" for h
    using seq by (simp add: check_sequence_and_ordering_def)
  have "\<exists>b' r. push env now b e = Inr (b', r) \<and> features r = [] \<and>
      segment_closed_reason r = Some invalid_bin"
    using chk cur(1) gap fin ex par(1) by (simp add: push_def Let_def)
  moreover have "\<exists>st'. batch_bin c st (k, fb_current_bin_samples b) = Inr st' \<and>
    map win_view (bs_windows st') = map win_view (bs_windows st) @
      [buffer_view (candidate_names c) (analog_columns c) (predictor_digital c) ?buf]"
  proof -
    have "fb_valid_bin_buffer b \<noteq> []" using buf(1) by auto
    then have "\<exists>st'. batch_bin c st (k, fb_current_bin_samples b) = Inr st' \<and> bs_buffer st' = ?buf \<and>
        bs_prev_bin_end st' = (if ?buf = [] then None else Some (fst (last ?buf))) \<and>
        map win_view (bs_windows st') = map win_view (bs_windows st) @
          (if length ?buf = 6
           then [buffer_view (candidate_names c) (analog_columns c) (predictor_digital c) ?buf] else [])"
      using c buf(2) ok push by (intro batch_bin_due) simp_all
    then show ?thesis using len by auto
  qed
  ultimately show ?thesis using fin by blast
qed

definition gap_bin :: "int \<Rightarrow> bin" where
  "gap_bin i = (seconds (300 * i), replicate 24
     \<lparr>ts_timestamp = seconds (300 * i), ts_analog = [1], ts_digital = [1]\<rparr>)"

definition gap_builder :: OnlineFeatureBuilder where
  "gap_builder = sample_builder
     \<lparr>fb_valid_bin_buffer := map gap_bin [7, 8, 9, 10, 11],
      fb_current_bin_end := Some (seconds 3600), fb_current_bin_samples := snd (gap_bin 12),
      fb_last_sequence := Some 200, fb_last_timestamp := Some (seconds 3600)\<rparr>"

theorem gap_drops_completed_window_witness:
  "\<exists>w b1 b' r. finalize_current_bin sample_online_env 0 gap_builder = Inr (b1, [w]) \<and>
     push sample_online_env 0 gap_builder (sample_event_at 200) = Inr (b', r) \<and> features r = []"
proof -
  have cfg: "builder_config sample_online_env gap_builder"
    using sample_builder_config by (simp add: gap_builder_def)
  have inv: "builder_inv gap_builder"
    by (simp add: builder_inv_def gap_builder_def sample_builder_def buffer_ok_def gap_bin_def)
  have ex: "\<exists>s. extract_sample (sample_event_at 200) (fb_analog_cols gap_builder)
      (fb_digital_cols gap_builder) = Inr s"
    using sample_extract by (simp add: gap_builder_def)
  then obtain s where s: "extract_sample (sample_event_at 200) (fb_analog_cols gap_builder)
      (fb_digital_cols gap_builder) = Inr s" by blast
  let ?st = "batch_init\<lparr>bs_buffer := fb_valid_bin_buffer gap_builder,
    bs_prev_bin_end := Some (seconds 3600 - seconds 300)\<rparr>"
  have "seconds 3600 + seconds 300 < compute_bin_end (source_timestamp (sample_event_at 200))"
    by (simp add: compute_bin_end_ceiling sample_event_at_def)
  from gap_drops_completed_window [OF cfg inv _ _ _ _ _ _ _ _ this s, where c = sample_contract
      and st = ?st and n = 200 and t = "seconds 3600" and now = 0]
  show ?thesis
    by (auto simp: gap_builder_def gap_bin_def sample_event_at_def batch_contract_def
        sample_contract_def in_train_def)
qed

end
