(* ===== verification/Replay.thy ===== *)
theory Replay
  imports Runtime_Messages
begin

text \<open>
  \<open>replay.py\<close>: the session controller (a frozen dataclass, so every method returns a new record) and
  the telemetry source.  \<open>iter_events\<close> is a generator: its model returns the events it yields together
  with the exception that ended it, if one did.  The prepared parquet file is the list of its rows;
  the clock that stamps the \<open>n\<close>-th event is the argument \<open>clock n\<close>.
\<close>

section \<open>Text of numbers and states\<close>

definition digit :: "nat \<Rightarrow> char" where
  "digit d = char_of (48 + d)"

fun str_nat :: "nat \<Rightarrow> string" where
  "str_nat n = (if n < 10 then [digit n] else str_nat (n div 10) @ [digit (n mod 10)])"

declare str_nat.simps [simp del]

definition str_int :: "int \<Rightarrow> string" where
  "str_int i = (if i < 0 then CHR ''-'' # str_nat (nat (- i)) else str_nat (nat i))"

definition digits_value :: "string \<Rightarrow> nat" where
  "digits_value s = foldl (\<lambda>a c. a * 10 + (of_char c - 48)) 0 s"

lemma digits_value_str_nat: "digits_value (str_nat n) = n"
proof (induction n rule: str_nat.induct)
  case (1 n)
  have digit: "of_char (digit d) - 48 = (d :: nat)" if "d < 10" for d
    using that by (simp add: digit_def)
  show ?case
  proof (cases "n < 10")
    case True
    then show ?thesis by (subst str_nat.simps) (simp add: digits_value_def digit)
  next
    case False
    with 1 show ?thesis by (subst str_nat.simps) (simp add: digits_value_def digit)
  qed
qed

lemma str_nat_inj: "str_nat m = str_nat n \<Longrightarrow> m = n"
  using digits_value_str_nat by metis

lemma str_nat_nonempty [simp]: "str_nat n \<noteq> []"
  by (subst str_nat.simps) simp

lemma str_int_nonempty [simp]: "str_int i \<noteq> []"
  by (simp add: str_int_def)

fun state_text :: "ReplayState \<Rightarrow> string" where
  "state_text CREATED = ''CREATED''"
| "state_text RUNNING = ''RUNNING''"
| "state_text PAUSED = ''PAUSED''"
| "state_text STOPPED = ''STOPPED''"
| "state_text COMPLETED = ''COMPLETED''"
| "state_text FAILED = ''FAILED''"

section \<open>Controller\<close>

fun ALLOWED_TRANSITIONS :: "ReplayState \<Rightarrow> ReplayAction set" where
  "ALLOWED_TRANSITIONS CREATED = {START}"
| "ALLOWED_TRANSITIONS RUNNING = {PAUSE, STOP}"
| "ALLOWED_TRANSITIONS PAUSED = {RESUME, STOP}"
| "ALLOWED_TRANSITIONS STOPPED = {}"
| "ALLOWED_TRANSITIONS COMPLETED = {}"
| "ALLOWED_TRANSITIONS FAILED = {}"

definition pace_seconds :: "datetime \<Rightarrow> datetime \<Rightarrow> int \<Rightarrow> exn + real" where
  "pace_seconds previous current spd =
     (if spd \<notin> {1, 100, 1000} \<or> current \<le> previous
      then Inl (ReplayContractError ''invalid speed or non-increasing source time'')
      else Inr (real_of_int (current - previous) / 1000000 / real_of_int spd))"

record ReplayController =
  rc_session_id :: uuid
  rc_source_dataset_sha256 :: sha256
  rc_contract_sha256 :: sha256
  rc_state :: ReplayState
  rc_speed :: int
  rc_range_start :: "datetime option"
  rc_range_end :: "datetime option"
  rc_current_source_timestamp :: "datetime option"
  rc_last_sequence :: "int option"
  rc_error_code :: "string option"

definition created :: "uuid \<Rightarrow> sha256 \<Rightarrow> sha256 \<Rightarrow> ReplayController" where
  "created session dataset_sha contract_sha =
     \<lparr>rc_session_id = session, rc_source_dataset_sha256 = dataset_sha,
      rc_contract_sha256 = contract_sha, rc_state = CREATED, rc_speed = 1, rc_range_start = None,
      rc_range_end = None, rc_current_source_timestamp = None, rc_last_sequence = None,
      rc_error_code = None\<rparr>"

definition apply_command :: "ReplayController \<Rightarrow> ReplayCommandV1 \<Rightarrow> exn + ReplayController" where
  "apply_command c cmd =
     (if replay_session_id cmd \<noteq> rc_session_id c
      then Inl (ReplayContractError ''Command replay_session_id does not match controller session'')
      else if action cmd \<notin> ALLOWED_TRANSITIONS (rc_state c)
      then Inl (ReplayContractError ''Transition is not allowed from state'')
      else Inr (case action cmd of
          START \<Rightarrow>
            \<lparr>rc_session_id = rc_session_id c,
             rc_source_dataset_sha256 = source_dataset_sha256 cmd,
             rc_contract_sha256 = contract_sha256 cmd, rc_state = RUNNING, rc_speed = speed cmd,
             rc_range_start = range_start cmd, rc_range_end = range_end cmd,
             rc_current_source_timestamp = Some (source_timestamp cmd),
             rc_last_sequence = Some 0, rc_error_code = None\<rparr>
        | PAUSE \<Rightarrow> c\<lparr>rc_state := PAUSED, rc_current_source_timestamp := Some (source_timestamp cmd),
                    rc_error_code := None\<rparr>
        | RESUME \<Rightarrow> c\<lparr>rc_state := RUNNING, rc_speed := speed cmd,
                     rc_current_source_timestamp := Some (source_timestamp cmd),
                     rc_error_code := None\<rparr>
        | STOP \<Rightarrow> c\<lparr>rc_state := STOPPED,
                   rc_current_source_timestamp := Some (source_timestamp cmd),
                   rc_last_sequence := Some (case rc_last_sequence c of None \<Rightarrow> 0 | Some n \<Rightarrow> n),
                   rc_error_code := None\<rparr>))"

definition mark_completed :: "ReplayController \<Rightarrow> int \<Rightarrow> datetime \<Rightarrow> ReplayController" where
  "mark_completed c last_seq source_ts =
     c\<lparr>rc_state := COMPLETED, rc_current_source_timestamp := Some source_ts,
       rc_last_sequence := Some last_seq, rc_error_code := None\<rparr>"

definition mark_failed :: "ReplayController \<Rightarrow> string \<Rightarrow> int \<Rightarrow> datetime \<Rightarrow> ReplayController" where
  "mark_failed c err last_seq source_ts =
     c\<lparr>rc_state := FAILED, rc_current_source_timestamp := Some source_ts,
       rc_last_sequence := Some last_seq, rc_error_code := Some err\<rparr>"

text \<open>\<open>datetime(2020, 1, 1)\<close>.\<close>

definition dt_2020 :: datetime where
  "dt_2020 = seconds 1577836800"

definition first_some :: "'a option \<Rightarrow> 'a option \<Rightarrow> 'a option" where
  "first_some x y = (case x of None \<Rightarrow> y | Some _ \<Rightarrow> x)"

definition controller_status ::
  "(uuid_name \<Rightarrow> uuid) \<Rightarrow> ReplayController \<Rightarrow> datetime \<Rightarrow> exn + ReplayStatusV1"
where
  "controller_status uuid5 c emitted =
     bind_err (runtime_id uuid5 ''status'' (rc_session_id c)
         (state_text (rc_state c) @ '':'' @
          (case rc_last_sequence c of None \<Rightarrow> ''None'' | Some n \<Rightarrow> str_int n))) (\<lambda>mid.
       validate_status runtime_tz
         \<lparr>message_id = mid, replay_session_id = rc_session_id c,
          source_dataset_sha256 = rc_source_dataset_sha256 c,
          contract_sha256 = rc_contract_sha256 c,
          source_timestamp = (case first_some (rc_current_source_timestamp c) (rc_range_start c) of
             Some t \<Rightarrow> t | None \<Rightarrow> dt_2020),
          emitted_at = emitted, status_state = rc_state c,
          status_last_sequence = rc_last_sequence c, status_error_code = rc_error_code c\<rparr>)"

section \<open>Source\<close>

record telemetry_row =
  row_timestamp :: datetime
  row_tp2 :: pyfloat
  row_tp3 :: pyfloat
  row_h1 :: pyfloat
  row_dv_pressure :: pyfloat
  row_reservoirs :: pyfloat
  row_oil_temperature :: pyfloat
  row_motor_current :: pyfloat
  row_comp :: int
  row_dv_electric :: int
  row_towers :: int
  row_mpg :: int
  row_lps :: int
  row_pressure_switch :: int
  row_oil_level :: int
  row_caudal_impulses :: int

text \<open>
  \<open>artifact_integrity.py\<close>.  A manifest is the table of its entries; \<open>text_of\<close> is \<open>str\<close> on a JSON value,
  \<open>digest\<close> the SHA-256 of the canonical JSON of a table and \<open>file_sha\<close> the digest of the parquet file.
\<close>

record PreparedArtifactIdentity =
  id_source_dataset_sha256 :: sha256
  id_contract_sha256 :: sha256
  id_parquet_sha256 :: sha256
  id_manifest_sha256 :: sha256

definition manifest_text :: "('v \<Rightarrow> string) \<Rightarrow> (string \<times> 'v) list \<Rightarrow> string \<Rightarrow> string" where
  "manifest_text text_of data key = (case map_of data key of None \<Rightarrow> [] | Some v \<Rightarrow> text_of v)"

definition load_self_hashed_manifest ::
  "('v \<Rightarrow> string) \<Rightarrow> ((string \<times> 'v) list \<Rightarrow> sha256) \<Rightarrow> (string \<times> 'v) list \<Rightarrow> exn + (string \<times> 'v) list"
where
  "load_self_hashed_manifest text_of digest data =
     run_checks
       [(manifest_text text_of data ''manifest_sha256''
           \<noteq> digest (filter (\<lambda>(key, _). key \<noteq> ''manifest_sha256'') data),
         ValueError ''manifest self-hash mismatch'')] data"

definition verify_file_sha256 :: "sha256 \<Rightarrow> sha256 \<Rightarrow> exn + sha256" where
  "verify_file_sha256 actual expected =
     run_checks [(actual \<noteq> expected, ValueError ''SHA-256 mismatch'')] actual"

definition verify_prepared_parquet ::
  "('v \<Rightarrow> string) \<Rightarrow> ((string \<times> 'v) list \<Rightarrow> sha256) \<Rightarrow> (string \<times> 'v) list \<Rightarrow> sha256 \<Rightarrow> sha256 \<Rightarrow> sha256
     \<Rightarrow> sha256 \<Rightarrow> exn + PreparedArtifactIdentity"
where
  "verify_prepared_parquet text_of digest data file_sha expected_contract expected_source expected_output =
     bind_err (load_self_hashed_manifest text_of digest data) (\<lambda>manifest.
     bind_err
       (run_checks
          [(manifest_text text_of manifest ''contract_sha256'' \<noteq> expected_contract,
              ValueError ''prepared contract SHA-256 mismatch''),
           (manifest_text text_of manifest ''archive_sha256'' \<noteq> expected_source,
              ValueError ''prepared source SHA-256 mismatch''),
           (manifest_text text_of manifest ''output_sha256'' \<noteq> expected_output,
              ValueError ''expected prepared output SHA-256'')] ()) (\<lambda>_.
     bind_err (verify_file_sha256 file_sha expected_output) (\<lambda>parquet_sha.
     bind_err (case map_of manifest ''manifest_sha256'' of
         None \<Rightarrow> Inl (KeyError ''manifest_sha256'') | Some v \<Rightarrow> Inr (text_of v)) (\<lambda>manifest_sha.
       Inr \<lparr>id_source_dataset_sha256 = manifest_text text_of manifest ''archive_sha256'',
            id_contract_sha256 = manifest_text text_of manifest ''contract_sha256'',
            id_parquet_sha256 = parquet_sha, id_manifest_sha256 = manifest_sha\<rparr>))))"

record ReplaySource =
  src_rows :: "telemetry_row list"
  src_source_dataset_sha256 :: sha256
  src_contract_sha256 :: sha256

text \<open>\<open>ReplaySource.__init__\<close> on an existing file with the given rows, manifest and digest.\<close>

definition open_source ::
  "('v \<Rightarrow> string) \<Rightarrow> ((string \<times> 'v) list \<Rightarrow> sha256) \<Rightarrow> telemetry_row list \<Rightarrow> (string \<times> 'v) list \<Rightarrow> sha256
     \<Rightarrow> sha256 \<Rightarrow> sha256 \<Rightarrow> sha256 \<Rightarrow> exn + ReplaySource"
where
  "open_source text_of digest rows data file_sha expected_contract expected_source expected_output =
     bind_err (verify_prepared_parquet text_of digest data file_sha expected_contract expected_source
         expected_output) (\<lambda>ident.
       Inr \<lparr>src_rows = rows, src_source_dataset_sha256 = id_source_dataset_sha256 ident,
            src_contract_sha256 = id_contract_sha256 ident\<rparr>)"

definition event_of_row ::
  "(uuid_name \<Rightarrow> uuid) \<Rightarrow> ReplaySource \<Rightarrow> ReplayCommandV1 \<Rightarrow> (int \<Rightarrow> datetime) \<Rightarrow> telemetry_row \<Rightarrow> int
     \<Rightarrow> exn + TelemetryEventV1"
where
  "event_of_row uuid5 src cmd clock row seq =
     bind_err (runtime_id uuid5 ''telemetry'' (replay_session_id cmd) (str_int seq)) (\<lambda>mid.
       validate_telemetry runtime_tz
         \<lparr>message_id = mid, replay_session_id = replay_session_id cmd,
          source_dataset_sha256 = src_source_dataset_sha256 src,
          contract_sha256 = src_contract_sha256 src, source_timestamp = row_timestamp row,
          emitted_at = clock seq, te_machine_id = ''metropt-compressor-01'', sequence = seq,
          tp2 = row_tp2 row, tp3 = row_tp3 row, h1 = row_h1 row,
          dv_pressure = row_dv_pressure row, reservoirs = row_reservoirs row,
          oil_temperature = row_oil_temperature row, motor_current = row_motor_current row,
          te_comp = row_comp row, dv_electric = row_dv_electric row, towers = row_towers row,
          mpg = row_mpg row, lps = row_lps row, pressure_switch = row_pressure_switch row,
          oil_level = row_oil_level row, caudal_impulses = row_caudal_impulses row\<rparr>)"

fun yield_events ::
  "(telemetry_row \<Rightarrow> int \<Rightarrow> exn + TelemetryEventV1) \<Rightarrow> telemetry_row list \<Rightarrow> int
     \<Rightarrow> TelemetryEventV1 list \<times> exn option"
where
  "yield_events f [] seq = ([], None)"
| "yield_events f (row # rows) seq =
     (case f row seq of
        Inl e \<Rightarrow> ([], Some e)
      | Inr event \<Rightarrow> (let (events, end) = yield_events f rows (seq + 1) in (event # events, end)))"

definition in_range :: "ReplayCommandV1 \<Rightarrow> datetime option \<Rightarrow> datetime \<Rightarrow> bool" where
  "in_range cmd resume_from ts \<longleftrightarrow>
     (case resume_from of None \<Rightarrow> the (range_start cmd) \<le> ts | Some lower \<Rightarrow> lower < ts) \<and>
     ts < the (range_end cmd)"

definition iter_events ::
  "(uuid_name \<Rightarrow> uuid) \<Rightarrow> ReplaySource \<Rightarrow> (int \<Rightarrow> datetime) \<Rightarrow> ReplayCommandV1 \<Rightarrow> int \<Rightarrow> datetime option
     \<Rightarrow> TelemetryEventV1 list \<times> exn option"
where
  "iter_events uuid5 src clock cmd start_sequence resume_from =
     (if range_start cmd = None \<or> range_end cmd = None
      then ([], Some (ReplayContractError ''ReplayCommand must specify range_start and range_end''))
      else
        (let df = filter (\<lambda>row. in_range cmd resume_from (row_timestamp row)) (src_rows src) in
         if df = [] then ([], None)
         else if \<not> chain (\<lambda>a b. row_timestamp a < row_timestamp b) df
         then ([], Some (ReplayContractError ''Non-increasing timestamp detected''))
         else yield_events (event_of_row uuid5 src cmd clock) df start_sequence))"

section \<open>Controller states\<close>

text \<open>What a status message requires of the controller.\<close>

definition controller_ok :: "ReplayController \<Rightarrow> bool" where
  "controller_ok c \<longleftrightarrow> is_hex64 (rc_source_dataset_sha256 c) \<and> is_hex64 (rc_contract_sha256 c) \<and>
     (rc_state c \<noteq> CREATED \<longrightarrow> (\<exists>n\<ge>0. rc_last_sequence c = Some n)) \<and>
     (if rc_state c = FAILED then \<exists>e. e \<noteq> [] \<and> rc_error_code c = Some e else rc_error_code c = None)"

definition apply_step :: "ReplayController \<Rightarrow> ReplayCommandV1 \<Rightarrow> exn + ReplayController" where
  "apply_step c cmd = bind_err (validate_command runtime_tz cmd) (apply_command c)"

lemma validate_command_hex: "validate_command tz cmd = Inr cmd' \<Longrightarrow> cmd' = cmd \<and> hex_envelope cmd"
  by (auto simp: validate_command_def validate_start_command_def validate_control_command_def
      hex_envelope_def err_simps check_defs split: if_splits)

lemma created_ok: "is_hex64 d \<Longrightarrow> is_hex64 k \<Longrightarrow> controller_ok (created s d k)"
  by (simp add: controller_ok_def created_def)

lemma apply_command_ok:
  "controller_ok c \<Longrightarrow> hex_envelope cmd \<Longrightarrow> apply_command c cmd = Inr c' \<Longrightarrow> controller_ok c'"
  by (cases "rc_state c"; cases "action cmd")
    (auto simp: apply_command_def controller_ok_def hex_envelope_def split: if_splits)

lemma mark_completed_ok: "controller_ok c \<Longrightarrow> 0 \<le> n \<Longrightarrow> controller_ok (mark_completed c n t)"
  by (auto simp: controller_ok_def mark_completed_def)

lemma mark_failed_ok: "controller_ok c \<Longrightarrow> 0 \<le> n \<Longrightarrow> e \<noteq> [] \<Longrightarrow> controller_ok (mark_failed c e n t)"
  by (auto simp: controller_ok_def mark_failed_def)

lemma controller_status_ok:
  assumes "controller_ok c"
  shows "\<exists>s. controller_status uuid5 c now = Inr s \<and> status_state s = rc_state c \<and>
    status_last_sequence s = rc_last_sequence c \<and> replay_session_id s = rc_session_id c"
  using assms
  by (auto simp: controller_status_def runtime_id_def validate_status_runtime controller_ok_def
      hex_envelope_def err_simps split: if_splits)

interpretation replay_controller: inv_machine apply_step controller_ok
  by unfold_locales (auto simp: apply_step_def err_simps intro: apply_command_ok dest: validate_command_hex)

text \<open>The controller's life cycle as an abstract transition table.\<close>

fun next_state :: "ReplayState \<Rightarrow> ReplayAction \<Rightarrow> ReplayState option" where
  "next_state CREATED START = Some RUNNING"
| "next_state RUNNING PAUSE = Some PAUSED"
| "next_state RUNNING STOP = Some STOPPED"
| "next_state PAUSED RESUME = Some RUNNING"
| "next_state PAUSED STOP = Some STOPPED"
| "next_state _ _ = None"

lemma apply_command_state:
  "replay_session_id cmd = rc_session_id c \<Longrightarrow>
     map_sum (\<lambda>_. ()) rc_state (apply_command c cmd) =
       (case next_state (rc_state c) (action cmd) of None \<Rightarrow> Inl () | Some s \<Rightarrow> Inr s)"
  by (cases "rc_state c"; cases "action cmd") (simp_all add: apply_command_def)

fun run_states :: "ReplayState \<Rightarrow> ReplayAction list \<Rightarrow> ReplayState option" where
  "run_states s [] = Some s"
| "run_states s (a # as) = (case next_state s a of None \<Rightarrow> None | Some s' \<Rightarrow> run_states s' as)"

lemma apply_step_next:
  assumes "apply_step c cmd = Inr c'"
  shows "next_state (rc_state c) (action cmd) = Some (rc_state c') \<and> rc_session_id c' = rc_session_id c"
proof -
  from assms have a: "apply_command c cmd = Inr c'"
    by (auto simp: apply_step_def err_simps dest: validate_command_hex)
  then have "replay_session_id cmd = rc_session_id c" by (auto simp: apply_command_def split: if_splits)
  from apply_command_state [OF this] a show ?thesis
    by (cases "action cmd") (auto simp: apply_command_def split: if_splits option.splits)
qed

lemma apply_run_states:
  "fold_err apply_step c cmds = Inr c' \<Longrightarrow>
     run_states (rc_state c) (map action cmds) = Some (rc_state c') \<and> rc_session_id c' = rc_session_id c"
proof (induction cmds arbitrary: c)
  case (Cons cmd cmds)
  from Cons.prems obtain c1 where "apply_step c cmd = Inr c1" "fold_err apply_step c1 cmds = Inr c'"
    by (auto simp: err_simps)
  with apply_step_next [OF this(1)] Cons.IH [OF this(2)] show ?case by simp
qed simp

text \<open>
  The replay controller implements the session life cycle.  Whatever validated
  commands a created controller accepts, its state is the one the life-cycle table gives for their
  actions, its session never changes, the status message it reports is valid and carries that state,
  and once it is stopped every further command is refused.
\<close>

theorem replay_controller_life_cycle:
  assumes "is_hex64 d" "is_hex64 k" "fold_err apply_step (created session d k) cmds = Inr c"
  shows "run_states CREATED (map action cmds) = Some (rc_state c) \<and> rc_session_id c = session \<and>
    (\<exists>s. controller_status uuid5 c now = Inr s \<and> status_state s = rc_state c \<and>
         replay_session_id s = session) \<and>
    (rc_state c = STOPPED \<longrightarrow> (\<forall>cmd. \<exists>e. apply_command c cmd = Inl e))"
proof -
  have ok: "controller_ok c"
    using replay_controller.run_inv [OF created_ok [OF assms(1,2)] assms(3)] .
  have run: "run_states CREATED (map action cmds) = Some (rc_state c) \<and> rc_session_id c = session"
    using apply_run_states [OF assms(3)] by (simp add: created_def)
  with controller_status_ok [OF ok, of uuid5 now] show ?thesis
    by (auto simp: apply_command_def)
qed

definition sample_command :: "ReplayAction \<Rightarrow> datetime \<Rightarrow> datetime option \<Rightarrow> datetime option \<Rightarrow> ReplayCommandV1" where
  "sample_command act ts lo hi =
     \<lparr>message_id = 1, replay_session_id = 7, source_dataset_sha256 = zero_sha,
      contract_sha256 = zero_sha, source_timestamp = ts, emitted_at = 0, command_id = 2,
      action = act, speed = 100, range_start = lo, range_end = hi\<rparr>"

definition sample_start :: ReplayCommandV1 where
  "sample_start = sample_command START 0 (Some 0) (Some (seconds 100))"

lemmas command_defs = sample_command_def sample_start_def validate_command_def
  validate_start_command_def validate_control_command_def check_defs

theorem replay_controller_life_cycle_witness:
  "\<exists>c. fold_err apply_step (created 7 zero_sha zero_sha)
      [sample_start, sample_command PAUSE 5 None None, sample_command STOP 6 None None] = Inr c \<and>
     run_states CREATED [START, PAUSE, STOP] = Some (rc_state c) \<and>
     (\<forall>cmd. \<exists>e. apply_command c cmd = Inl e)"
proof -
  let ?cmds = "[sample_start, sample_command PAUSE 5 None None, sample_command STOP 6 None None]"
  have "\<exists>c. fold_err apply_step (created 7 zero_sha zero_sha) ?cmds = Inr c \<and> rc_state c = STOPPED"
    by (simp add: apply_step_def apply_command_def created_def command_defs)
  then obtain c where c: "fold_err apply_step (created 7 zero_sha zero_sha) ?cmds = Inr c"
    "rc_state c = STOPPED" by blast
  from replay_controller_life_cycle [OF zero_sha_hex zero_sha_hex c(1)] c show ?thesis
    by (auto simp: sample_start_def sample_command_def)
qed

section \<open>The event stream\<close>

text \<open>An event without its emission time: what a replay of the same rows reproduces.\<close>

definition logical :: "TelemetryEventV1 \<Rightarrow> TelemetryEventV1" where
  "logical e = e\<lparr>emitted_at := 0\<rparr>"

lemma logical_fields [simp]:
  "message_id (logical e) = message_id e" "sequence (logical e) = sequence e"
  "source_timestamp (logical e) = source_timestamp e"
  by (simp_all add: logical_def)

lemma run_checks_map: "run_checks cs (f x) = map_sum id f (run_checks cs x)"
  by (induction cs) auto

lemma validate_telemetry_emitted:
  "validate_telemetry tz (e\<lparr>emitted_at := t\<rparr>) = map_sum id (\<lambda>e. e\<lparr>emitted_at := t\<rparr>) (validate_telemetry tz e)"
  unfolding validate_telemetry_def
  by (auto simp: sha_checks_def digital_fields_def analog_fields_def run_checks_append
      run_checks_map [where f = "\<lambda>e. e\<lparr>emitted_at := t\<rparr>"] bind_err_def split: sum.splits)

lemma event_of_row_clock:
  "event_of_row uuid5 src cmd clock row n =
   map_sum id (\<lambda>e. e\<lparr>emitted_at := clock n\<rparr>) (event_of_row uuid5 src cmd (\<lambda>_. 0) row n)"
  by (simp add: event_of_row_def runtime_id_def validate_telemetry_emitted [symmetric])

lemma event_of_row_logical:
  "map_sum id logical (event_of_row uuid5 src cmd clock row n) =
   map_sum id logical (event_of_row uuid5 src cmd clock' row n)"
  by (subst (1 2) event_of_row_clock) (simp add: sum.map_comp o_def logical_def)

lemma validate_telemetry_same: "validate_telemetry tz e = Inr e' \<Longrightarrow> e' = e"
  by (auto simp: validate_telemetry_def err_simps)

lemma event_of_row_fields:
  "event_of_row uuid5 src cmd clock row n = Inr e \<Longrightarrow> sequence e = n \<and>
     source_timestamp e = row_timestamp row \<and> replay_session_id e = replay_session_id cmd \<and>
     source_dataset_sha256 e = src_source_dataset_sha256 src \<and>
     contract_sha256 e = src_contract_sha256 src \<and> validate_telemetry runtime_tz e = Inr e \<and>
     message_id e = uuid5 (RuntimeName ''telemetry'' (replay_session_id cmd) (str_int n))"
  by (auto simp: event_of_row_def err_simps runtime_id_def dest: validate_telemetry_same)

lemma yield_events_logical:
  assumes "\<And>row n. map_sum id logical (f row n) = map_sum id logical (g row n)"
  shows "map_prod (map logical) id (yield_events f rows n) = map_prod (map logical) id (yield_events g rows n)"
proof (induction rows arbitrary: n)
  case (Cons row rows)
  show ?case
    using assms [of row n] Cons.IH [of "n + 1"]
    by (cases "f row n"; cases "g row n") (auto simp: map_prod_def split: prod.splits)
qed simp

lemma yield_events_nth:
  assumes "yield_events f rows n = (events, end)"
  shows "length events \<le> length rows \<and>
    (\<forall>i < length events. f (rows ! i) (n + int i) = Inr (events ! i))"
  using assms
proof (induction rows arbitrary: n events)
  case (Cons row rows)
  show ?case
  proof (cases "f row n")
    case (Inl e)
    with Cons.prems show ?thesis by simp
  next
    case (Inr ev)
    with Cons.prems obtain events' where ev': "yield_events f rows (n + 1) = (events', end)"
      "events = ev # events'" by (auto split: prod.splits)
    show ?thesis
      using Cons.IH [OF ev'(1)] Inr ev'(2)
      by (auto simp: nth_Cons algebra_simps split: nat.splits)
  qed
qed simp

lemma yield_events_drop:
  "yield_events f rows n = (events, end) \<Longrightarrow> k \<le> length events \<Longrightarrow>
     yield_events f (drop k rows) (n + int k) = (drop k events, end)"
proof (induction k arbitrary: rows n events)
  case (Suc k)
  then obtain row rows' where rows: "rows = row # rows'" by (cases rows) auto
  with Suc.prems obtain ev events' where "f row n = Inr ev"
    "yield_events f rows' (n + 1) = (events', end)" "events = ev # events'"
    by (auto split: sum.splits prod.splits)
  with Suc.IH [of rows' "n + 1" events'] Suc.prems rows show ?case by (simp add: algebra_simps)
qed simp

lemma yield_events_length: "yield_events f rows n = (events, None) \<Longrightarrow> length events = length rows"
  by (induction rows arbitrary: n events) (auto split: sum.splits prod.splits)

lemma filter_after_sorted:
  assumes "sorted_wrt (\<lambda>a b. key a < key b) xs" "k < length xs"
  shows "filter (\<lambda>x. key (xs ! k) < (key x :: 'a :: linorder)) xs = drop (Suc k) xs"
proof -
  have "filter (\<lambda>x. key (xs ! k) < key x) (take (Suc k) xs @ drop (Suc k) xs) = drop (Suc k) xs"
  proof -
    have "\<not> key (xs ! k) < key x" if "x \<in> set (take (Suc k) xs)" for x
    proof -
      from that obtain i where "i \<le> k" "x = xs ! i" by (auto simp: in_set_conv_nth less_Suc_eq_le)
      then show ?thesis
        using assms by (cases "i = k") (auto simp: sorted_wrt_iff_nth_less not_less intro: less_imp_le)
    qed
    moreover have "key (xs ! k) < key x" if "x \<in> set (drop (Suc k) xs)" for x
      using that assms by (auto simp: in_set_conv_nth sorted_wrt_iff_nth_less)
    ultimately show ?thesis by (simp add: filter_empty_conv del: append_take_drop_id)
  qed
  then show ?thesis by simp
qed

lemma iter_events_rows:
  assumes "iter_events uuid5 src clock cmd n r = (events, end)" "events \<noteq> [] \<or> end = None"
  obtains df where "df = filter (\<lambda>row. in_range cmd r (row_timestamp row)) (src_rows src)"
    "sorted_wrt (\<lambda>a b. row_timestamp a < row_timestamp b) df"
    "yield_events (event_of_row uuid5 src cmd clock) df n = (events, end)"
    "range_start cmd \<noteq> None" "range_end cmd \<noteq> None"
proof -
  let ?df = "filter (\<lambda>row. in_range cmd r (row_timestamp row)) (src_rows src)"
  have "chain (\<lambda>a b. row_timestamp a < row_timestamp b) ?df"
    using assms by (auto simp: iter_events_def Let_def split: if_splits)
  then have "sorted_wrt (\<lambda>a b. row_timestamp a < row_timestamp b) ?df"
    by (subst chain_sorted_wrt [symmetric]) (auto intro: transpI)
  then show thesis
    using assms by (intro that [of ?df]) (auto simp: iter_events_def Let_def split: if_splits)
qed

lemma iter_events_facts:
  assumes "iter_events uuid5 src clock cmd n r = (events, end)"
  shows "map sequence events = map (\<lambda>i. n + int i) [0 ..< length events] \<and>
    sorted_wrt (<) (map source_timestamp events) \<and>
    (\<forall>e \<in> set events. in_range cmd r (source_timestamp e) \<and>
       replay_session_id e = replay_session_id cmd \<and>
       source_dataset_sha256 e = src_source_dataset_sha256 src \<and>
       contract_sha256 e = src_contract_sha256 src \<and> validate_telemetry runtime_tz e = Inr e) \<and>
    (end = None \<longrightarrow> map source_timestamp events =
       map row_timestamp (filter (\<lambda>row. in_range cmd r (row_timestamp row)) (src_rows src)))"
proof (cases "events = [] \<and> end \<noteq> None")
  case False
  obtain df where df: "df = filter (\<lambda>row. in_range cmd r (row_timestamp row)) (src_rows src)"
    "sorted_wrt (\<lambda>a b. row_timestamp a < row_timestamp b) df"
    "yield_events (event_of_row uuid5 src cmd clock) df n = (events, end)"
    using iter_events_rows [OF assms] False by metis
  have nth: "length events \<le> length df"
    "\<And>i. i < length events \<Longrightarrow> event_of_row uuid5 src cmd clock (df ! i) (n + int i) = Inr (events ! i)"
    using yield_events_nth [OF df(3)] by auto
  note fields = event_of_row_fields [OF nth(2)]
  have len: "length events = length df" if "end = None"
    using df(3) that by (simp add: yield_events_length)
  have "map sequence events = map (\<lambda>i. n + int i) [0 ..< length events]"
    using fields by (auto intro!: nth_equalityI)
  moreover have "sorted_wrt (<) (map source_timestamp events)"
    using fields nth(1) df(2) by (auto simp: sorted_wrt_iff_nth_less)
  moreover have "df ! i \<in> set df" if "i < length events" for i using that nth(1) by simp
  then have "in_range cmd r (row_timestamp (df ! i))" if "i < length events" for i
    using that df(1) by auto
  then have "\<forall>e \<in> set events. in_range cmd r (source_timestamp e) \<and>
       replay_session_id e = replay_session_id cmd \<and>
       source_dataset_sha256 e = src_source_dataset_sha256 src \<and>
       contract_sha256 e = src_contract_sha256 src \<and> validate_telemetry runtime_tz e = Inr e"
    using fields by (auto simp: in_set_conv_nth)
  moreover have "map source_timestamp events = map row_timestamp df" if "end = None"
    using fields len [OF that] by (auto intro!: nth_equalityI)
  ultimately show ?thesis using df(1) by blast
qed auto

lemma iter_events_resume:
  assumes "iter_events uuid5 src clock cmd n r = (pre @ e # suf, end)"
  shows "map_prod (map logical) id
      (iter_events uuid5 src clock' cmd (sequence e + 1) (Some (source_timestamp e))) =
    (map logical suf, end)"
proof -
  obtain df where df: "df = filter (\<lambda>row. in_range cmd r (row_timestamp row)) (src_rows src)"
    "sorted_wrt (\<lambda>a b. row_timestamp a < row_timestamp b) df"
    "yield_events (event_of_row uuid5 src cmd clock) df n = (pre @ e # suf, end)"
    "range_start cmd \<noteq> None" "range_end cmd \<noteq> None"
    using iter_events_rows [OF assms] by blast
  let ?k = "length pre"
  have k: "?k < length df" "event_of_row uuid5 src cmd clock (df ! ?k) (n + int ?k) = Inr e"
    using yield_events_nth [OF df(3)] by (auto dest: spec [of _ ?k])
  note e = event_of_row_fields [OF k(2)]
  have "df ! ?k \<in> set df" using k(1) by simp
  then have "in_range cmd r (source_timestamp e)" using df(1) e by auto
  then have "in_range cmd (Some (source_timestamp e)) t \<longleftrightarrow> in_range cmd r t \<and> source_timestamp e < t" for t
    by (auto simp: in_range_def split: option.splits)
  then have "filter (\<lambda>row. in_range cmd (Some (source_timestamp e)) (row_timestamp row)) (src_rows src) =
      filter (\<lambda>row. row_timestamp (df ! ?k) < row_timestamp row) df"
    using e df(1) by (simp add: conj_commute)
  also have "\<dots> = drop (Suc ?k) df" by (rule filter_after_sorted [OF df(2) k(1)])
  finally have rest: "filter (\<lambda>row. in_range cmd (Some (source_timestamp e)) (row_timestamp row)) (src_rows src) =
      drop (Suc ?k) df" .
  have chain: "chain (\<lambda>a b. row_timestamp a < row_timestamp b) (drop (Suc ?k) df)"
    by (subst chain_sorted_wrt) (auto intro: transpI sorted_wrt_drop df(2))
  have "yield_events (event_of_row uuid5 src cmd clock) (drop (Suc ?k) df) (sequence e + 1) = (suf, end)"
    using yield_events_drop [OF df(3), of "Suc ?k"] e by (simp add: algebra_simps)
  then have "map_prod (map logical) id
      (yield_events (event_of_row uuid5 src cmd clock') (drop (Suc ?k) df) (sequence e + 1)) =
    (map logical suf, end)"
    using yield_events_logical [where f = "event_of_row uuid5 src cmd clock'"
        and g = "event_of_row uuid5 src cmd clock", OF event_of_row_logical] by simp
  moreover have "iter_events uuid5 src clock' cmd (sequence e + 1) (Some (source_timestamp e)) =
      yield_events (event_of_row uuid5 src cmd clock') (drop (Suc ?k) df) (sequence e + 1)"
    using df(4,5) chain by (auto simp: iter_events_def rest Let_def)
  ultimately show ?thesis by simp
qed

text \<open>
  The replayed stream.  Whatever part of a stream is yielded, its events carry
  consecutive sequence numbers from the start number, strictly increasing source times inside the
  requested range, the session of the command and the identity of the source, and each event passes
  its schema validation; a stream that ends without an exception has one event per row of the range.
\<close>

theorem replay_stream_well_formed:
  assumes "iter_events uuid5 src clock cmd n r = (events, end)"
  shows "map sequence events = map (\<lambda>i. n + int i) [0 ..< length events] \<and>
    sorted_wrt (<) (map source_timestamp events) \<and>
    (\<forall>e \<in> set events. in_range cmd r (source_timestamp e) \<and>
       replay_session_id e = replay_session_id cmd \<and>
       source_dataset_sha256 e = src_source_dataset_sha256 src \<and>
       contract_sha256 e = src_contract_sha256 src \<and> validate_telemetry runtime_tz e = Inr e) \<and>
    (end = None \<longrightarrow> map source_timestamp events =
       map row_timestamp (filter (\<lambda>row. in_range cmd r (row_timestamp row)) (src_rows src)))"
  using assms by (rule iter_events_facts)

text \<open>
  C23 (equivalence): crash recovery continues the same stream.  Resuming after any event that was
  delivered, from its sequence number and its source time, yields exactly the events that followed
  it in the uninterrupted stream (up to the emission clock), and ends the same way.
\<close>

theorem resumed_replay_is_suffix:
  assumes "iter_events uuid5 src clock cmd n r = (pre @ e # suf, end)"
  shows "map_prod (map logical) id
      (iter_events uuid5 src clock' cmd (sequence e + 1) (Some (source_timestamp e))) =
    (map logical suf, end)"
  using assms by (rule iter_events_resume)

definition sample_row :: "int \<Rightarrow> telemetry_row" where
  "sample_row t =
     \<lparr>row_timestamp = seconds t, row_tp2 = Fin 1, row_tp3 = Fin 8, row_h1 = Fin 8,
      row_dv_pressure = Fin 0, row_reservoirs = Fin 8, row_oil_temperature = Fin 60,
      row_motor_current = Fin 4, row_comp = 1, row_dv_electric = 0, row_towers = 1, row_mpg = 1,
      row_lps = 0, row_pressure_switch = 1, row_oil_level = 1, row_caudal_impulses = 1\<rparr>"

definition sample_source :: ReplaySource where
  "sample_source = \<lparr>src_rows = map sample_row [0, 10, 20, 150], src_source_dataset_sha256 = zero_sha,
     src_contract_sha256 = zero_sha\<rparr>"

lemmas eval_stream = iter_events_def in_range_def sample_source_def sample_row_def sample_start_def
  sample_command_def event_of_row_def runtime_id_def validate_telemetry_def digital_fields_def
  analog_fields_def check_defs validate_analog_value_def ANALOG_SIGNAL_BY_NAME_def Let_def

lemma sample_stream:
  "\<exists>a b c. iter_events (\<lambda>_. 0) sample_source (\<lambda>_. 0) sample_start 1 None = ([a, b, c], None) \<and>
     source_timestamp a = 0 \<and> sequence a = 1 \<and> source_timestamp b = seconds 10 \<and> source_timestamp c = seconds 20"
  by (simp add: eval_stream)

theorem replay_stream_well_formed_witness:
  "\<exists>a b c. iter_events (\<lambda>_. 0) sample_source (\<lambda>_. 0) sample_start 1 None = ([a, b, c], None) \<and>
     [sequence a, sequence b, sequence c] = [1, 2, 3]"
proof -
  obtain a b c where s: "iter_events (\<lambda>_. 0) sample_source (\<lambda>_. 0) sample_start 1 None = ([a, b, c], None)"
    using sample_stream by blast
  from replay_stream_well_formed [OF this] have "map sequence [a, b, c] = map (\<lambda>i. 1 + int i) [0 ..< length [a, b, c]]"
    by blast
  then show ?thesis using s by simp
qed

theorem resumed_replay_is_suffix_witness:
  "\<exists>a b c. iter_events (\<lambda>_. 0) sample_source (\<lambda>_. 0) sample_start 1 None = ([a, b, c], None) \<and>
     map_prod (map logical) id (iter_events (\<lambda>_. 0) sample_source (\<lambda>n. n) sample_start 2 (Some 0)) =
       ([logical b, logical c], None)"
proof -
  obtain a b c where s: "iter_events (\<lambda>_. 0) sample_source (\<lambda>_. 0) sample_start 1 None = ([a, b, c], None)"
    "source_timestamp a = 0" "sequence a = 1" using sample_stream by blast
  from s(1) have "iter_events (\<lambda>_. 0) sample_source (\<lambda>_. 0) sample_start 1 None = ([] @ a # [b, c], None)" by simp
  from resumed_replay_is_suffix [OF this, of "\<lambda>n. n"] s show ?thesis by auto
qed

end
