(* ===== verification/Replay_Service.thy ===== *)
theory Replay_Service
  imports Replay Runtime_Store
begin

text \<open>
  \<open>replay_service.py\<close>: the command handlers, the replay task and the recovery at start-up.

  The service is one asyncio process: a handler or a task runs until its next \<open>await\<close>.  The world of
  the service is its database, what its Kafka producer wrote and the running session.  A handler is a
  function on the world; the task is advanced by \<open>task_step\<close>, from one suspension point to the next:
  waiting for the pause event before an event is sent, and waiting for the acknowledgement of the
  event being sent.  A \<open>slot\<close> is what the outside contributes to such a step: the clock, fresh UUIDs
  and the outcome of the Kafka send, which may raise whether or not the broker stored the message.
\<close>

declare map_of_append [simp del]

section \<open>State\<close>

datatype send_outcome = Acked | SendFailed bool

record slot =
  sl_now :: datetime
  sl_uuid :: uuid
  sl_command_uuid :: uuid
  sl_clock :: "int \<Rightarrow> datetime"
  sl_send :: send_outcome

text \<open>The coroutine's local variables: \<open>tk_rest\<close> and \<open>tk_end\<close> are what its generator has still to
  yield, \<open>tk_current\<close> the event it is sending.\<close>

record session_task =
  tk_ctrl :: ReplayController
  tk_command :: "ReplayCommandV1 option"
  tk_rest :: "TelemetryEventV1 list"
  tk_end :: "exn option"
  tk_current :: "TelemetryEventV1 option"
  tk_prev_ts :: "datetime option"
  tk_last_seq :: int
  tk_last_ts :: "datetime option"
  tk_resumed :: bool
  tk_done :: bool

record RunningSession =
  ss_controller :: ReplayController
  ss_task :: session_task
  ss_pause_event :: bool
  ss_stop_event :: bool

record replay_service =
  rv_source :: ReplaySource
  rv_enable_pacing :: bool
  rv_uuid5 :: "uuid_name \<Rightarrow> uuid"

record replay_world =
  rw_db :: "RuntimeDB option"
  rw_telemetry :: "TelemetryEventV1 list"
  rw_statuses :: "ReplayStatusV1 list"
  rw_quarantine :: "QuarantineRecordV1 list"
  rw_active :: "RunningSession option"

definition checkpoint_state :: "bool \<Rightarrow> bool \<Rightarrow> ReplayState" where
  "checkpoint_state pause_event stop_event =
     (if stop_event then STOPPED else if \<not> pause_event then PAUSED else RUNNING)"

section \<open>Producer and store\<close>

definition kafka_error :: exn where "kafka_error = RuntimeError ''KafkaError''"

definition send :: "slot \<Rightarrow> (replay_world \<Rightarrow> replay_world) \<Rightarrow> (replay_world, unit) io" where
  "send sl deliver w =
     (case sl_send sl of
        Acked \<Rightarrow> (Inr (), deliver w)
      | SendFailed stored \<Rightarrow> (Inl kafka_error, if stored then deliver w else w))"

definition publish_telemetry :: "slot \<Rightarrow> TelemetryEventV1 \<Rightarrow> (replay_world, unit) io" where
  "publish_telemetry sl event = send sl (\<lambda>w. w\<lparr>rw_telemetry := rw_telemetry w @ [event]\<rparr>)"

definition publish_status :: "slot \<Rightarrow> ReplayStatusV1 \<Rightarrow> (replay_world, unit) io" where
  "publish_status sl status = send sl (\<lambda>w. w\<lparr>rw_statuses := rw_statuses w @ [status]\<rparr>)"

definition publish_quarantine_record :: "slot \<Rightarrow> QuarantineRecordV1 \<Rightarrow> (replay_world, unit) io" where
  "publish_quarantine_record sl record = send sl (\<lambda>w. w\<lparr>rw_quarantine := rw_quarantine w @ [record]\<rparr>)"

definition publish_controller :: "replay_service \<Rightarrow> slot \<Rightarrow> ReplayController \<Rightarrow> (replay_world, unit) io" where
  "publish_controller sv sl ctrl =
     bind_io (lift_io (controller_status (rv_uuid5 sv) ctrl (sl_now sl))) (publish_status sl)"

text \<open>\<open>if self.store is not None: self.store.\<dots>\<close>\<close>

definition with_store :: "(RuntimeDB \<Rightarrow> exn + RuntimeDB) \<Rightarrow> (replay_world, unit) io" where
  "with_store f w =
     (case rw_db w of
        None \<Rightarrow> (Inr (), w)
      | Some db \<Rightarrow> (case f db of Inl e \<Rightarrow> (Inl e, w) | Inr db' \<Rightarrow> (Inr (), w\<lparr>rw_db := Some db'\<rparr>)))"

definition save_checkpoint ::
  "slot \<Rightarrow> ReplayCommandV1 \<Rightarrow> ReplayState \<Rightarrow> int \<Rightarrow> datetime option \<Rightarrow> (replay_world, unit) io"
where
  "save_checkpoint sl command st last_seq source_ts =
     with_store (\<lambda>db. record_replay_checkpoint db (sl_now sl) command st last_seq source_ts)"

section \<open>The replay task\<close>

definition start_command :: "slot \<Rightarrow> ReplayController \<Rightarrow> exn + ReplayCommandV1" where
  "start_command sl ctrl =
     validate_command runtime_tz
       \<lparr>message_id = sl_uuid sl, replay_session_id = rc_session_id ctrl,
        source_dataset_sha256 = rc_source_dataset_sha256 ctrl,
        contract_sha256 = rc_contract_sha256 ctrl,
        source_timestamp = (case rc_range_start ctrl of None \<Rightarrow> dt_2020 | Some t \<Rightarrow> t),
        emitted_at = sl_now sl, command_id = sl_command_uuid sl, action = START,
        speed = rc_speed ctrl, range_start = rc_range_start ctrl, range_end = rc_range_end ctrl\<rparr>"

text \<open>\<open>_run_replay_session\<close> up to its first suspension point.\<close>

definition run_replay_session :: "replay_service \<Rightarrow> slot \<Rightarrow> ReplayController \<Rightarrow> session_task" where
  "run_replay_session sv sl ctrl =
     (let t = \<lparr>tk_ctrl = ctrl, tk_command = None, tk_rest = [], tk_end = None, tk_current = None,
               tk_prev_ts = None, tk_last_seq = 0,
               tk_last_ts = Some (case rc_range_start ctrl of None \<Rightarrow> dt_2020 | Some t \<Rightarrow> t),
               tk_resumed = False, tk_done = False\<rparr>
      in case start_command sl ctrl of
           Inl e \<Rightarrow> t\<lparr>tk_end := Some e\<rparr>
         | Inr cmd \<Rightarrow>
             (let (events, end) = iter_events (rv_uuid5 sv) (rv_source sv) (sl_clock sl) cmd 1 None
              in t\<lparr>tk_command := Some cmd, tk_rest := events, tk_end := end\<rparr>))"

text \<open>\<open>resume_checkpoint\<close> up to its first suspension point; \<open>ctrl\<close> is the controller it rebuilds.\<close>

definition resume_checkpoint ::
  "replay_service \<Rightarrow> slot \<Rightarrow> ReplayController \<Rightarrow> ReplayCheckpoint \<Rightarrow> session_task"
where
  "resume_checkpoint sv sl ctrl cp =
     (let (events, end) = iter_events (rv_uuid5 sv) (rv_source sv) (sl_clock sl) (cp_command cp)
            (cp_last_sequence cp + 1) (cp_source_timestamp cp)
      in \<lparr>tk_ctrl = ctrl, tk_command = Some (cp_command cp), tk_rest = events, tk_end = end,
          tk_current = None, tk_prev_ts = None, tk_last_seq = cp_last_sequence cp,
          tk_last_ts = cp_source_timestamp cp, tk_resumed = True, tk_done = False\<rparr>)"

definition terminal_timestamp :: "session_task \<Rightarrow> datetime" where
  "terminal_timestamp t =
     (case tk_last_ts t of
        Some ts \<Rightarrow> ts
      | None \<Rightarrow> (case tk_command t of
            None \<Rightarrow> dt_2020
          | Some cmd \<Rightarrow> (case range_start cmd of Some ts \<Rightarrow> ts | None \<Rightarrow> source_timestamp cmd)))"

definition set_task :: "RunningSession \<Rightarrow> session_task \<Rightarrow> replay_world \<Rightarrow> replay_world" where
  "set_task s t w = w\<lparr>rw_active := Some (s\<lparr>ss_task := t\<rparr>)\<rparr>"

definition end_task :: "RunningSession \<Rightarrow> session_task \<Rightarrow> replay_world \<Rightarrow> replay_world" where
  "end_task s t w = set_task s (t\<lparr>tk_done := True\<rparr>) w"

text \<open>
  The \<open>except Exception\<close> branch.  When the start command itself could not be built, the variable
  \<open>start_cmd\<close> is unbound and the checkpoint raises in the handler: the task ends without a status.
\<close>

definition fail_task :: "replay_service \<Rightarrow> slot \<Rightarrow> RunningSession \<Rightarrow> session_task \<Rightarrow> replay_world \<Rightarrow> replay_world" where
  "fail_task sv sl s t w =
     end_task s t (snd (bind_io
       (case tk_command t of
          None \<Rightarrow> with_store (\<lambda>_. Inl (RuntimeError ''UnboundLocalError''))
        | Some cmd \<Rightarrow> save_checkpoint sl cmd FAILED (tk_last_seq t) (Some (terminal_timestamp t)))
       (\<lambda>_. publish_controller sv sl
          (mark_failed (tk_ctrl t) ''REPLAY_STREAM_ERROR'' (tk_last_seq t) (terminal_timestamp t))) w))"

text \<open>After the loop: \<open>COMPLETED\<close>, or the exception branch when the status cannot be published.\<close>

definition complete_task :: "replay_service \<Rightarrow> slot \<Rightarrow> RunningSession \<Rightarrow> session_task \<Rightarrow> replay_world \<Rightarrow> replay_world" where
  "complete_task sv sl s t w =
     (case bind_io (save_checkpoint sl (the (tk_command t)) COMPLETED (tk_last_seq t)
                      (Some (terminal_timestamp t)))
             (\<lambda>_. publish_controller sv sl
                (mark_completed (tk_ctrl t) (tk_last_seq t) (terminal_timestamp t))) w of
        (Inl _, w') \<Rightarrow> fail_task sv sl s t w'
      | (Inr _, w') \<Rightarrow> end_task s t w')"

definition pacing_error :: "replay_service \<Rightarrow> session_task \<Rightarrow> TelemetryEventV1 \<Rightarrow> exn option" where
  "pacing_error sv t event =
     (case tk_prev_ts t of
        Some prev \<Rightarrow>
          (if rv_enable_pacing sv \<and> source_timestamp event > prev then
             (case pace_seconds prev (source_timestamp event) (rc_speed (tk_ctrl t)) of
                Inl e \<Rightarrow> Some e | Inr _ \<Rightarrow> None)
           else None)
      | None \<Rightarrow> None)"

definition advance :: "TelemetryEventV1 \<Rightarrow> session_task \<Rightarrow> session_task" where
  "advance event t = t\<lparr>tk_last_seq := sequence event, tk_last_ts := Some (source_timestamp event)\<rparr>"

text \<open>
  The send completes: the event is in the topic, then the checkpoint is written with the state the
  two events show now.  A fresh session has already advanced \<open>last_seq\<close> and \<open>last_ts\<close> before it sends,
  a resumed one advances them only after the acknowledgement.
\<close>

definition send_step ::
  "replay_service \<Rightarrow> slot \<Rightarrow> RunningSession \<Rightarrow> session_task \<Rightarrow> TelemetryEventV1 \<Rightarrow> replay_world \<Rightarrow> replay_world"
where
  "send_step sv sl s t event w =
     (case publish_telemetry sl event w of
        (Inl _, w') \<Rightarrow> fail_task sv sl s t w'
      | (Inr _, w') \<Rightarrow>
          (let t' = (advance event t)\<lparr>tk_current := None\<rparr> in
           case save_checkpoint sl (the (tk_command t))
                  (checkpoint_state (ss_pause_event s) (ss_stop_event s)) (tk_last_seq t')
                  (tk_last_ts t') w' of
             (Inl _, w'') \<Rightarrow> fail_task sv sl s t' w''
           | (Inr _, w'') \<Rightarrow> set_task s t' w''))"

definition wait_step ::
  "replay_service \<Rightarrow> slot \<Rightarrow> RunningSession \<Rightarrow> session_task \<Rightarrow> replay_world \<Rightarrow> replay_world"
where
  "wait_step sv sl s t w =
     (case tk_rest t of
        [] \<Rightarrow>
          (case tk_end t of
             Some _ \<Rightarrow> fail_task sv sl s t w
           | None \<Rightarrow>
               (if \<not> ss_pause_event s then w
                else if ss_stop_event s then end_task s t w
                else complete_task sv sl s t w))
      | event # rest \<Rightarrow>
          (if \<not> tk_resumed t \<and> ss_stop_event s then end_task s t w
           else if \<not> ss_pause_event s then w
           else if ss_stop_event s then end_task s t w
           else if tk_resumed t
           then set_task s (t\<lparr>tk_rest := rest, tk_current := Some event\<rparr>) w
           else
             (case pacing_error sv t event of
                Some _ \<Rightarrow> fail_task sv sl s t w
              | None \<Rightarrow> set_task s ((advance event t)\<lparr>tk_rest := rest, tk_current := Some event,
                            tk_prev_ts := Some (source_timestamp event)\<rparr>) w)))"

definition task_step :: "replay_service \<Rightarrow> slot \<Rightarrow> replay_world \<Rightarrow> replay_world" where
  "task_step sv sl w =
     (case rw_active w of
        None \<Rightarrow> w
      | Some s \<Rightarrow>
          (let t = ss_task s in
           if tk_done t then w
           else case tk_current t of
               Some event \<Rightarrow> send_step sv sl s t event w
             | None \<Rightarrow> wait_step sv sl s t w))"

section \<open>Commands\<close>

definition session_running :: "replay_world \<Rightarrow> bool" where
  "session_running w \<longleftrightarrow> (case rw_active w of None \<Rightarrow> False | Some s \<Rightarrow> \<not> tk_done (ss_task s))"

definition handle_start_command :: "replay_service \<Rightarrow> slot \<Rightarrow> ReplayCommandV1 \<Rightarrow> (replay_world, unit) io" where
  "handle_start_command sv sl cmd w =
     (if session_running w then
        publish_controller sv sl
          (mark_failed (created (replay_session_id cmd) (source_dataset_sha256 cmd) (contract_sha256 cmd))
             ''REPLAY_ALREADY_ACTIVE'' 0 (source_timestamp cmd)) w
      else if source_dataset_sha256 cmd \<noteq> src_source_dataset_sha256 (rv_source sv)
              \<or> contract_sha256 cmd \<noteq> src_contract_sha256 (rv_source sv) then
        publish_controller sv sl
          (mark_failed (created (replay_session_id cmd) (src_source_dataset_sha256 (rv_source sv))
             (src_contract_sha256 (rv_source sv)))
             ''REPLAY_SOURCE_IDENTITY_MISMATCH'' 0 (source_timestamp cmd)) w
      else
        bind_io (save_checkpoint sl cmd RUNNING 0 None) (\<lambda>_.
        bind_io (lift_io (apply_command (created (replay_session_id cmd) (source_dataset_sha256 cmd)
            (contract_sha256 cmd)) cmd)) (\<lambda>ctrl w.
          publish_controller sv sl ctrl
            (w\<lparr>rw_active := Some \<lparr>ss_controller = ctrl, ss_task = run_replay_session sv sl ctrl,
                 ss_pause_event = True, ss_stop_event = False\<rparr>\<rparr>))) w)"

text \<open>The guard and the effect the three control handlers share.\<close>

definition handle_control ::
  "replay_service \<Rightarrow> slot \<Rightarrow> ReplayCommandV1 \<Rightarrow> ReplayState \<Rightarrow> (RunningSession \<Rightarrow> RunningSession)
     \<Rightarrow> (replay_world, unit) io"
where
  "handle_control sv sl cmd st effect w =
     (case rw_active w of
        Some s \<Rightarrow>
          (if rc_session_id (ss_controller s) = replay_session_id cmd \<and> \<not> tk_done (ss_task s) then
             bind_io (lift_io (apply_command (ss_controller s) cmd)) (\<lambda>ctrl.
             bind_io (with_store (\<lambda>db. update_replay_checkpoint_state db (sl_now sl) (rc_session_id ctrl) st))
               (\<lambda>_ w. publish_controller sv sl ctrl
                  (w\<lparr>rw_active := Some (effect (s\<lparr>ss_controller := ctrl\<rparr>))\<rparr>))) w
           else (Inr (), w))
      | None \<Rightarrow> (Inr (), w))"

definition handle_pause_command :: "replay_service \<Rightarrow> slot \<Rightarrow> ReplayCommandV1 \<Rightarrow> (replay_world, unit) io" where
  "handle_pause_command sv sl cmd =
     handle_control sv sl cmd PAUSED (\<lambda>s. s\<lparr>ss_pause_event := False\<rparr>)"

definition handle_resume_command :: "replay_service \<Rightarrow> slot \<Rightarrow> ReplayCommandV1 \<Rightarrow> (replay_world, unit) io" where
  "handle_resume_command sv sl cmd =
     handle_control sv sl cmd RUNNING (\<lambda>s. s\<lparr>ss_pause_event := True\<rparr>)"

definition handle_stop_command :: "replay_service \<Rightarrow> slot \<Rightarrow> ReplayCommandV1 \<Rightarrow> (replay_world, unit) io" where
  "handle_stop_command sv sl cmd =
     handle_control sv sl cmd STOPPED (\<lambda>s. s\<lparr>ss_stop_event := True, ss_pause_event := True\<rparr>)"

definition handle_command :: "replay_service \<Rightarrow> slot \<Rightarrow> ReplayCommandV1 \<Rightarrow> (replay_world, unit) io" where
  "handle_command sv sl cmd =
     (case action cmd of
        START \<Rightarrow> handle_start_command sv sl cmd
      | PAUSE \<Rightarrow> handle_pause_command sv sl cmd
      | RESUME \<Rightarrow> handle_resume_command sv sl cmd
      | STOP \<Rightarrow> handle_stop_command sv sl cmd)"

record 'b command_record =
  cr_value :: 'b
  cr_topic :: string
  cr_partition :: int
  cr_offset :: int

definition handle_command_record ::
  "('b \<Rightarrow> sha256) \<Rightarrow> ('b \<Rightarrow> string + ReplayCommandV1) \<Rightarrow> replay_service \<Rightarrow> slot \<Rightarrow> 'b command_record
     \<Rightarrow> (replay_world, unit) io"
where
  "handle_command_record sha decode sv sl rec =
     (case decode (cr_value rec) of
        Inl detail \<Rightarrow>
          bind_io (lift_io (validate_quarantine runtime_tz
            \<lparr>q_message_id = sl_uuid sl, q_replay_session_id = None,
             q_source_dataset_sha256 = zero_sha, q_contract_sha256 = zero_sha,
             q_source_timestamp = dt_2020, q_emitted_at = sl_now sl,
             q_original_topic = cr_topic rec, q_partition = cr_partition rec,
             q_offset = cr_offset rec, q_payload_sha256 = sha (cr_value rec),
             q_error_code = ''INVALID_COMMAND_PAYLOAD'', q_error_detail = take 1000 detail\<rparr>))
            (publish_quarantine_record sl)
      | Inr cmd \<Rightarrow> handle_command sv sl cmd)"

section \<open>Start-up, shut-down and the command loop\<close>

definition start_service :: "replay_service \<Rightarrow> slot \<Rightarrow> (replay_world, unit) io" where
  "start_service sv sl w =
     (case rw_db w of
        None \<Rightarrow> (Inr (), w)
      | Some db \<Rightarrow>
          (case load_incomplete_replays db of
             [] \<Rightarrow> (Inr (), w)
           | [cp] \<Rightarrow>
               (if cp_state cp \<notin> {RUNNING, PAUSED}
                then (Inl (RuntimeError ''cannot resume checkpoint in state''), w)
                else case apply_command (created (cp_replay_session_id cp)
                    (source_dataset_sha256 (cp_command cp)) (contract_sha256 (cp_command cp)))
                    (cp_command cp) of
                  Inl e \<Rightarrow> (Inl e, w)
                | Inr ctrl \<Rightarrow>
                    (Inr (), w\<lparr>rw_active := Some
                       \<lparr>ss_controller = ctrl\<lparr>rc_state := cp_state cp,
                          rc_last_sequence := Some (cp_last_sequence cp),
                          rc_current_source_timestamp := cp_source_timestamp cp\<rparr>,
                        ss_task = resume_checkpoint sv sl ctrl cp,
                        ss_pause_event = (cp_state cp = RUNNING), ss_stop_event = False\<rparr>\<rparr>))
           | _ \<Rightarrow> (Inl (RuntimeError ''multiple incomplete replay sessions require operator resolution''), w)))"

text \<open>The process dies: what is left is the database and the topics.  A restart runs \<open>start\<close>.\<close>

definition restart :: "replay_service \<Rightarrow> slot \<Rightarrow> (replay_world, unit) io" where
  "restart sv sl w = start_service sv sl (w\<lparr>rw_active := None\<rparr>)"

text \<open>\<open>stop()\<close>: both events are set; the task then gets its last steps.\<close>

definition stop_service :: "replay_world \<Rightarrow> replay_world" where
  "stop_service w =
     (case rw_active w of
        Some s \<Rightarrow> (if tk_done (ss_task s) then w
                   else w\<lparr>rw_active := Some (s\<lparr>ss_stop_event := True, ss_pause_event := True\<rparr>)\<rparr>)
      | None \<Rightarrow> w)"

text \<open>\<open>run\<close>: a handled record is committed; an exception leaves the loop, uncommitted.  The result is
  the number of committed records.\<close>

fun run_commands ::
  "('b \<Rightarrow> sha256) \<Rightarrow> ('b \<Rightarrow> string + ReplayCommandV1) \<Rightarrow> replay_service \<Rightarrow> (slot \<times> 'b command_record) list
     \<Rightarrow> replay_world \<Rightarrow> nat \<times> exn option \<times> replay_world"
where
  "run_commands sha decode sv [] w = (0, None, w)"
| "run_commands sha decode sv ((sl, rec) # recs) w =
     (case handle_command_record sha decode sv sl rec w of
        (Inl e, w') \<Rightarrow> (0, Some e, stop_service w')
      | (Inr _, w') \<Rightarrow> (let (n, r) = run_commands sha decode sv recs w' in (Suc n, r)))"

end
