(* ===== verification/Replay_Recovery.thy ===== *)
theory Replay_Recovery
  imports Replay_Service
begin

text \<open>
  Delivery guarantees of the replay service across pauses, failed sends and crashes of the process.

  \<open>replay_step\<close> is what can happen to a running service: the task takes a step, an accepted pause or
  resume command, a start command while a session is active, or a crash followed by a restart; the
  crash may hit between the broker storing an event and the service recording the checkpoint.  The
  invariant \<open>stream_inv\<close> relates the telemetry topic, the checkpoint row and the task to the stream
  the session was started for.
\<close>

declare map_of_append [simp del]
declare map_of_eq_Some_iff [simp del]

section \<open>Steps of a running service\<close>

definition deliver :: "TelemetryEventV1 \<Rightarrow> replay_world \<Rightarrow> replay_world" where
  "deliver event w = w\<lparr>rw_telemetry := rw_telemetry w @ [event]\<rparr>"

inductive replay_step :: "replay_service \<Rightarrow> replay_world \<Rightarrow> replay_world \<Rightarrow> bool" for sv where
  task: "replay_step sv w (task_step sv sl w)"
| control: "action cmd \<in> {PAUSE, RESUME} \<Longrightarrow> handle_command sv sl cmd w = (Inr (), w') \<Longrightarrow>
    replay_step sv w w'"
| busy: "action cmd = START \<Longrightarrow> session_running w \<Longrightarrow> handle_command sv sl cmd w = (Inr (), w') \<Longrightarrow>
    replay_step sv w w'"
| crash: "restart sv sl w = (Inr (), w') \<Longrightarrow> replay_step sv w w'"
| crash_sent: "rw_active w = Some s \<Longrightarrow> \<not> tk_done (ss_task s) \<Longrightarrow> tk_current (ss_task s) = Some event \<Longrightarrow>
    restart sv sl (deliver event w) = (Inr (), w') \<Longrightarrow> replay_step sv w w'"

section \<open>Checkpoint rows\<close>

lemma filter_unique_key:
  assumes "distinct (map fst t)" "map_of t k = Some v"
    and "\<And>k' v'. k' \<noteq> k \<Longrightarrow> map_of t k' = Some v' \<Longrightarrow> \<not> P v'"
  shows "filter (\<lambda>(_, v). P v) t = (if P v then [(k, v)] else [])"
  using assms
proof (induction t)
  case (Cons a t)
  obtain k1 v1 where a: "a = (k1, v1)" by (cases a)
  show ?case
  proof (cases "k1 = k")
    case True
    with Cons.prems a have v: "v = v1" by simp
    have "\<not> P v'" if "(k', v') \<in> set t" for k' v'
    proof -
      have "k' \<noteq> k" using that Cons.prems(1) True a by (force simp: image_iff)
      moreover have "map_of t k' = Some v'" using that Cons.prems(1) by (simp add: a map_of_eq_Some_iff)
      ultimately show ?thesis using Cons.prems(3) [of k' v'] True a by simp
    qed
    then have "filter (\<lambda>(_, v). P v) t = []" by (auto simp: filter_empty_conv)
    with True v a show ?thesis by simp
  next
    case False
    have "\<not> P v'" if "k' \<noteq> k" "map_of t k' = Some v'" for k' v'
    proof (cases "k' = k1")
      case True
      with that Cons.prems(1) a show ?thesis by (auto dest!: map_of_SomeD simp: image_iff)
    next
      case False
      with that Cons.prems(3) [of k' v'] a show ?thesis by simp
    qed
    with Cons False a have "filter (\<lambda>(_, v). P v) t = (if P v then [(k, v)] else [])" by simp
    moreover have "\<not> P v1" using Cons.prems(3) [of k1 v1] False a by simp
    ultimately show ?thesis using a by simp
  qed
qed simp

definition active_state :: "ReplayState \<Rightarrow> bool" where
  "active_state st \<longleftrightarrow> st \<in> {RUNNING, PAUSED}"

text \<open>The session's checkpoint row, in a table where no other session is incomplete.\<close>

definition checkpoint_row :: "RuntimeDB \<Rightarrow> uuid \<Rightarrow> ReplayCheckpoint \<Rightarrow> bool" where
  "checkpoint_row db sid c \<longleftrightarrow> distinct (map fst (replay_checkpoints db)) \<and>
     (\<exists>tm. map_of (replay_checkpoints db) sid = Some (c, tm)) \<and>
     (\<forall>k c' tm. k \<noteq> sid \<longrightarrow> map_of (replay_checkpoints db) k = Some (c', tm) \<longrightarrow> \<not> active_state (cp_state c'))"

lemma load_incomplete_active:
  "load_incomplete_replays db = map fst (sort_key snd (map snd
     (filter (\<lambda>(_, v). active_state (cp_state (fst v))) (replay_checkpoints db))))"
  unfolding load_incomplete_replays_def
  by (rule arg_cong [where f = "\<lambda>xs. map fst (sort_key snd (map snd xs))"], rule filter_cong)
    (auto simp: active_state_def)

lemma load_incomplete_row:
  assumes "checkpoint_row db sid c"
  shows "load_incomplete_replays db = (if active_state (cp_state c) then [c] else [])"
proof -
  from assms obtain tm where tm: "distinct (map fst (replay_checkpoints db))"
    "map_of (replay_checkpoints db) sid = Some (c, tm)" by (auto simp: checkpoint_row_def)
  have "filter (\<lambda>(_, v). active_state (cp_state (fst v))) (replay_checkpoints db) =
      (if active_state (cp_state (fst (c, tm))) then [(sid, c, tm)] else [])"
    using tm assms by (intro filter_unique_key) (auto simp: checkpoint_row_def)
  then show ?thesis by (simp add: load_incomplete_active)
qed

lemma distinct_fst_upsert: "distinct (map fst t) \<Longrightarrow> distinct (map fst (upsert k v f t))"
  using keys_upsert [of k v f t] by (simp add: keys_def)

lemma distinct_fst_update_row: "distinct (map fst t) \<Longrightarrow> distinct (map fst (update_row k f t))"
  using keys_update_row [of k f t] by (simp add: keys_def)

lemma record_checkpoint_row:
  assumes "checkpoint_row db (replay_session_id cmd) c \<or>
      (distinct (map fst (replay_checkpoints db)) \<and> load_incomplete_replays db = [])"
    and "st \<noteq> CREATED"
  shows "\<exists>db'. record_replay_checkpoint db now cmd st n ts = Inr db' \<and>
    checkpoint_row db' (replay_session_id cmd)
      \<lparr>cp_replay_session_id = replay_session_id cmd, cp_command = cmd, cp_state = st,
       cp_last_sequence = n, cp_source_timestamp = ts\<rparr>"
proof -
  have "\<not> active_state (cp_state c')" if "k \<noteq> replay_session_id cmd"
    "map_of (replay_checkpoints db) k = Some (c', tm)" for k c' tm
    using assms(1)
  proof
    assume "checkpoint_row db (replay_session_id cmd) c"
    with that show ?thesis by (auto simp: checkpoint_row_def)
  next
    assume "distinct (map fst (replay_checkpoints db)) \<and> load_incomplete_replays db = []"
    then have "set (map fst (sort_key snd (map snd
        (filter (\<lambda>(_, v). active_state (cp_state (fst v))) (replay_checkpoints db))))) = {}"
      by (simp add: load_incomplete_active [symmetric])
    with map_of_SomeD [OF that(2)] show ?thesis
      by (auto simp: filter_empty_conv split_beta)
  qed
  with assms show ?thesis
    by (auto simp: record_replay_checkpoint_def Let_def checkpoint_row_def table_simps
        distinct_fst_upsert split: option.splits)
qed

lemma update_checkpoint_row:
  assumes "checkpoint_row db sid c" "st \<noteq> CREATED"
  shows "\<exists>db'. update_replay_checkpoint_state db now sid st = Inr db' \<and>
    checkpoint_row db' sid (c\<lparr>cp_state := st\<rparr>)"
  using assms
  by (auto simp: update_replay_checkpoint_state_def checkpoint_row_def table_simps
      distinct_fst_update_row)

section \<open>The stream of a session\<close>

definition session_stream :: "replay_service \<Rightarrow> ReplayCommandV1 \<Rightarrow> TelemetryEventV1 list \<Rightarrow> bool" where
  "session_stream sv cmd L \<longleftrightarrow>
     map_prod (map logical) id (iter_events (rv_uuid5 sv) (rv_source sv) (\<lambda>_. 0) cmd 1 None) = (L, None)"

text \<open>A valid start command for the same session and the same rows.\<close>

definition same_replay :: "ReplayCommandV1 \<Rightarrow> ReplayCommandV1 \<Rightarrow> bool" where
  "same_replay cmd cmd0 \<longleftrightarrow> validate_command runtime_tz cmd = Inr cmd \<and> action cmd = START \<and>
     replay_session_id cmd = replay_session_id cmd0 \<and> range_start cmd = range_start cmd0 \<and>
     range_end cmd = range_end cmd0"

lemma iter_events_same:
  assumes "same_replay cmd cmd0"
  shows "iter_events uuid5 src clock cmd n r = iter_events uuid5 src clock cmd0 n r"
proof -
  have "event_of_row uuid5 src cmd clock = event_of_row uuid5 src cmd0 clock"
    using assms by (simp add: event_of_row_def same_replay_def fun_eq_iff)
  moreover have "in_range cmd r = in_range cmd0 r"
    using assms by (simp add: in_range_def same_replay_def fun_eq_iff split: option.split)
  moreover have "range_start cmd = range_start cmd0" "range_end cmd = range_end cmd0"
    using assms by (simp_all add: same_replay_def)
  ultimately show ?thesis by (simp only: iter_events_def)
qed

lemma iter_events_clock:
  "map_prod (map logical) id (iter_events uuid5 src clock cmd n r) =
   map_prod (map logical) id (iter_events uuid5 src clock' cmd n r)"
  using yield_events_logical [where f = "event_of_row uuid5 src cmd clock"
      and g = "event_of_row uuid5 src cmd clock'", OF event_of_row_logical]
  by (simp add: iter_events_def Let_def)

lemma stream_sequence:
  assumes "session_stream sv cmd L" "i < length L"
  shows "sequence (L ! i) = int i + 1"
proof -
  from assms(1) obtain events where ev: "iter_events (rv_uuid5 sv) (rv_source sv) (\<lambda>_. 0) cmd 1 None = (events, None)"
    "L = map logical events" by (auto simp: session_stream_def map_prod_def split: prod.splits)
  have "map sequence events ! i = map (\<lambda>i. 1 + int i) [0 ..< length events] ! i"
    using iter_events_facts [OF ev(1)] by simp
  with assms(2) ev(2) show ?thesis by simp
qed

lemma stream_distinct: "session_stream sv cmd L \<Longrightarrow> distinct L"
  unfolding distinct_conv_nth using stream_sequence by (metis add_right_cancel of_nat_eq_iff)

definition position_ts :: "TelemetryEventV1 list \<Rightarrow> nat \<Rightarrow> datetime option" where
  "position_ts L n = (if n = 0 then None else Some (source_timestamp (L ! (n - 1))))"

text \<open>Resuming at a checkpointed position yields the rest of the stream.\<close>

lemma resume_at_position:
  assumes "session_stream sv cmd0 L" "same_replay cmd cmd0" "n \<le> length L"
  shows "map_prod (map logical) id
    (iter_events (rv_uuid5 sv) (rv_source sv) clock cmd (int n + 1) (position_ts L n)) = (drop n L, None)"
proof (cases n)
  case 0
  with assms show ?thesis
    by (simp add: session_stream_def position_ts_def iter_events_same
        iter_events_clock [where clock = clock and clock' = "\<lambda>_. 0"])
next
  case (Suc k)
  from assms(1) obtain events where ev: "iter_events (rv_uuid5 sv) (rv_source sv) (\<lambda>_. 0) cmd0 1 None = (events, None)"
    "L = map logical events" by (auto simp: session_stream_def map_prod_def split: prod.splits)
  have k: "k < length events" using assms(3) Suc ev(2) by simp
  then have split: "events = take k events @ events ! k # drop (Suc k) events" by (simp add: id_take_nth_drop)
  have seq: "sequence (events ! k) = int k + 1"
    using stream_sequence [OF assms(1), of k] k ev(2) by simp
  have ts: "position_ts L n = Some (source_timestamp (events ! k))"
    using k Suc ev(2) by (simp add: position_ts_def)
  have "map_prod (map logical) id (iter_events (rv_uuid5 sv) (rv_source sv) clock cmd0
      (sequence (events ! k) + 1) (Some (source_timestamp (events ! k)))) = (map logical (drop (Suc k) events), None)"
    by (rule iter_events_resume [where pre = "take k events"]) (use ev(1) split in simp)
  then show ?thesis
    using seq ts Suc ev(2) iter_events_same [OF assms(2)] by (simp add: drop_map algebra_simps)
qed

lemma remdups_adj_snoc:
  "remdups_adj (xs @ [x]) =
     (if xs \<noteq> [] \<and> last xs = x then remdups_adj xs else remdups_adj xs @ [x])"
  by (induction xs rule: remdups_adj.induct) auto

text \<open>Sending the next event of the stream, once more or for the first time.\<close>

lemma collapse_next:
  assumes "distinct L" "remdups_adj xs = take m L" "m = n \<or> m = Suc n" "n < length L"
  shows "remdups_adj (xs @ [L ! n]) = take (Suc n) L"
proof -
  have nxt: "take (Suc n) L = take n L @ [L ! n]" using assms(4) by (rule take_Suc_conv_app_nth)
  show ?thesis
  proof (cases "xs = []")
    case True
    with assms(2-4) have "n = 0" by (auto simp: take_eq_Nil)
    with True nxt show ?thesis by simp
  next
    case False
    then have last: "last xs = last (take m L)" using assms(2) last_remdups_adj by metis
    show ?thesis
    proof (cases "m = Suc n")
      case True
      with last nxt False assms(2) show ?thesis by (simp add: remdups_adj_snoc)
    next
      case mn: False
      with assms(3) have m: "m = n" by simp
      have "n \<noteq> 0" using False assms(2) m by (cases n) auto
      then have "last (take n L) = L ! (n - 1)"
        using assms(4) by (subst last_conv_nth) auto
      then have "last xs \<noteq> L ! n"
        using last m assms(1,4) \<open>n \<noteq> 0\<close> by (auto simp: nth_eq_iff_index_eq)
      with m nxt assms(2) show ?thesis by (simp add: remdups_adj_snoc)
    qed
  qed
qed

section \<open>The invariant\<close>

text \<open>A session at position \<open>n\<close>: \<open>n\<close> events are checkpointed, the task has the others ahead of it.\<close>

definition running_at :: "ReplayCommandV1 \<Rightarrow> TelemetryEventV1 list \<Rightarrow> nat \<Rightarrow> ReplayCheckpoint \<Rightarrow> RunningSession \<Rightarrow> bool" where
  "running_at cmd0 L n c s \<longleftrightarrow>
     (let t = ss_task s in
      \<not> tk_done t \<and> tk_end t = None \<and> (\<exists>cmd. tk_command t = Some cmd \<and> same_replay cmd cmd0) \<and>
      \<not> ss_stop_event s \<and> cp_state c = checkpoint_state (ss_pause_event s) False \<and>
      map logical (case tk_current t of None \<Rightarrow> tk_rest t | Some e \<Rightarrow> e # tk_rest t) = drop n L \<and>
      (tk_current t = None \<longrightarrow> tk_last_seq t = int n) \<and> 0 \<le> tk_last_seq t \<and>
      controller_ok (tk_ctrl t) \<and> rc_speed (tk_ctrl t) \<in> {1, 100, 1000} \<and>
      controller_ok (ss_controller s) \<and> rc_session_id (ss_controller s) = replay_session_id cmd0)"

definition position_ok ::
  "ReplayCommandV1 \<Rightarrow> TelemetryEventV1 list \<Rightarrow> ReplayCheckpoint \<Rightarrow> nat \<Rightarrow> replay_world \<Rightarrow> bool"
where
  "position_ok cmd0 L c m w \<longleftrightarrow>
     (cp_state c = FAILED \<and> \<not> session_running w) \<or>
     (cp_state c = COMPLETED \<and> m = length L \<and> \<not> session_running w) \<or>
     (\<exists>n s. (m = n \<or> m = Suc n) \<and> n \<le> length L \<and> cp_last_sequence c = int n \<and>
        cp_source_timestamp c = position_ts L n \<and> rw_active w = Some s \<and> running_at cmd0 L n c s)"

definition stream_inv ::
  "ReplayCommandV1 \<Rightarrow> TelemetryEventV1 list \<Rightarrow> TelemetryEventV1 list \<Rightarrow> replay_world \<Rightarrow> bool"
where
  "stream_inv cmd0 L log0 w \<longleftrightarrow>
     (\<exists>db c out m. rw_db w = Some db \<and> checkpoint_row db (replay_session_id cmd0) c \<and>
        rw_telemetry w = log0 @ out \<and> remdups_adj (map logical out) = take m L \<and> m \<le> length L \<and>
        cp_replay_session_id c = replay_session_id cmd0 \<and> same_replay (cp_command c) cmd0 \<and>
        position_ok cmd0 L c m w)"

lemmas io_defs = bind_io_def lift_io_def send_def with_store_def publish_controller_def
  publish_status_def publish_telemetry_def save_checkpoint_def

lemma publish_controller_statuses:
  "\<exists>r sts. publish_controller sv sl ctrl w = (r, w\<lparr>rw_statuses := sts\<rparr>)"
proof -
  have "\<exists>sts. w = w\<lparr>rw_statuses := sts\<rparr>" by (rule exI [of _ "rw_statuses w"]) simp
  then show ?thesis
    by (auto simp: io_defs split: sum.splits send_outcome.splits)
qed

lemma publish_controller_acked:
  "controller_ok ctrl \<Longrightarrow> sl_send sl = Acked \<Longrightarrow>
     \<exists>sts. publish_controller sv sl ctrl w = (Inr (), w\<lparr>rw_statuses := sts\<rparr>)"
  using controller_status_ok [of ctrl "rv_uuid5 sv" "sl_now sl"] by (auto simp: io_defs)

definition new_checkpoint :: "ReplayCommandV1 \<Rightarrow> ReplayState \<Rightarrow> int \<Rightarrow> datetime option \<Rightarrow> ReplayCheckpoint" where
  "new_checkpoint cmd st n ts =
     \<lparr>cp_replay_session_id = replay_session_id cmd, cp_command = cmd, cp_state = st,
      cp_last_sequence = n, cp_source_timestamp = ts\<rparr>"

lemma new_checkpoint_simps [simp]:
  "cp_replay_session_id (new_checkpoint cmd st n ts) = replay_session_id cmd"
  "cp_command (new_checkpoint cmd st n ts) = cmd" "cp_state (new_checkpoint cmd st n ts) = st"
  "cp_last_sequence (new_checkpoint cmd st n ts) = n"
  "cp_source_timestamp (new_checkpoint cmd st n ts) = ts"
  by (simp_all add: new_checkpoint_def)

lemma save_checkpoint_row:
  assumes "rw_db w = Some db" "checkpoint_row db (replay_session_id cmd) c" "st \<noteq> CREATED"
  shows "\<exists>db'. save_checkpoint sl cmd st n ts w = (Inr (), w\<lparr>rw_db := Some db'\<rparr>) \<and>
    checkpoint_row db' (replay_session_id cmd) (new_checkpoint cmd st n ts)"
  using record_checkpoint_row [of db cmd c st "sl_now sl" n ts] assms
  by (auto simp: save_checkpoint_def with_store_def new_checkpoint_def)

lemma fail_task_row:
  assumes "rw_db w = Some db" "checkpoint_row db (replay_session_id cmd) c" "tk_command t = Some cmd"
  obtains db' sts where
    "fail_task sv sl s t w = w\<lparr>rw_db := Some db', rw_statuses := sts,
       rw_active := Some (s\<lparr>ss_task := t\<lparr>tk_done := True\<rparr>\<rparr>)\<rparr>"
    "checkpoint_row db' (replay_session_id cmd)
       (new_checkpoint cmd FAILED (tk_last_seq t) (Some (terminal_timestamp t)))"
proof -
  obtain db' where db': "save_checkpoint sl cmd FAILED (tk_last_seq t) (Some (terminal_timestamp t)) w =
      (Inr (), w\<lparr>rw_db := Some db'\<rparr>)"
    "checkpoint_row db' (replay_session_id cmd)
       (new_checkpoint cmd FAILED (tk_last_seq t) (Some (terminal_timestamp t)))"
    using save_checkpoint_row [OF assms(1,2), of FAILED sl "tk_last_seq t" "Some (terminal_timestamp t)"]
    by auto
  obtain r sts where "publish_controller sv sl
      (mark_failed (tk_ctrl t) ''REPLAY_STREAM_ERROR'' (tk_last_seq t) (terminal_timestamp t))
      (w\<lparr>rw_db := Some db'\<rparr>) = (r, w\<lparr>rw_db := Some db', rw_statuses := sts\<rparr>)"
    using publish_controller_statuses by metis
  with db' assms(3) show thesis
    by (intro that [of sts db']) (simp_all add: fail_task_def bind_io_def end_task_def set_task_def)
qed

lemma fail_task_inv:
  assumes "rw_db w = Some db" "checkpoint_row db (replay_session_id cmd0) c"
    and "tk_command t = Some cmd" "same_replay cmd cmd0"
    and "rw_telemetry w = log0 @ out" "remdups_adj (map logical out) = take m L" "m \<le> length L"
  shows "stream_inv cmd0 L log0 (fail_task sv sl s t w)"
proof -
  have sid: "replay_session_id cmd = replay_session_id cmd0" using assms(4) by (simp add: same_replay_def)
  obtain db' sts where "fail_task sv sl s t w = w\<lparr>rw_db := Some db', rw_statuses := sts,
       rw_active := Some (s\<lparr>ss_task := t\<lparr>tk_done := True\<rparr>\<rparr>)\<rparr>"
    "checkpoint_row db' (replay_session_id cmd)
       (new_checkpoint cmd FAILED (tk_last_seq t) (Some (terminal_timestamp t)))"
    by (rule fail_task_row [OF assms(1) _ assms(3)]) (use assms(2) sid in simp_all)
  with assms sid show ?thesis
    by (auto simp: stream_inv_def position_ok_def session_running_def intro!: exI [of _ m])
qed

lemma pacing_error_None: "rc_speed (tk_ctrl t) \<in> {1, 100, 1000} \<Longrightarrow> pacing_error sv t event = None"
  by (auto simp: pacing_error_def pace_seconds_def split: option.splits)

lemma running_next:
  assumes "session_stream sv cmd0 L" "n \<le> length L" "map logical (event # rest) = drop n L"
  shows "n < length L" "logical event = L ! n" "map logical rest = drop (Suc n) L"
    "sequence event = int n + 1" "position_ts L (Suc n) = Some (source_timestamp event)"
proof -
  from assms(3) have "drop n L \<noteq> []" by (metis list.distinct(1) list.map(2))
  then show n: "n < length L" by simp
  then have "drop n L = L ! n # drop (Suc n) L" by (simp add: Cons_nth_drop_Suc)
  with assms(3) show ev: "logical event = L ! n" "map logical rest = drop (Suc n) L" by simp_all
  show "sequence event = int n + 1"
    using stream_sequence [OF assms(1) n] ev(1) by (metis logical_fields(2))
  show "position_ts L (Suc n) = Some (source_timestamp event)"
    using ev(1) by (metis diff_Suc_1 logical_fields(3) nat.distinct(1) position_ts_def)
qed

lemma send_step_inv:
  assumes stream: "session_stream sv cmd0 L" and n: "n \<le> length L" "m = n \<or> m = Suc n"
    and w: "rw_db w = Some db" "checkpoint_row db (replay_session_id cmd0) c"
      "rw_telemetry w = log0 @ out" "remdups_adj (map logical out) = take m L" "m \<le> length L"
    and s: "running_at cmd0 L n c s" "tk_current (ss_task s) = Some event"
  shows "stream_inv cmd0 L log0 (send_step sv sl s (ss_task s) event w)"
proof -
  let ?t = "ss_task s"
  obtain cmd where cmd: "tk_command ?t = Some cmd" "same_replay cmd cmd0"
    using s(1) by (auto simp: running_at_def Let_def)
  have sid: "replay_session_id cmd = replay_session_id cmd0" using cmd(2) by (simp add: same_replay_def)
  have ahead: "map logical (event # tk_rest ?t) = drop n L" using s by (simp add: running_at_def Let_def)
  note nxt = running_next [OF stream n(1) ahead]
  have sent: "remdups_adj (map logical (out @ [event])) = take (Suc n) L"
    using collapse_next [OF stream_distinct [OF stream] w(4) n(2) nxt(1)] nxt(2) by simp
  show ?thesis
  proof (cases "sl_send sl")
    case (SendFailed stored)
    show ?thesis
    proof (cases stored)
      case True
      let ?w = "w\<lparr>rw_telemetry := rw_telemetry w @ [event]\<rparr>"
      have "stream_inv cmd0 L log0 (fail_task sv sl s ?t ?w)"
        by (rule fail_task_inv [OF _ _ cmd, where out = "out @ [event]" and m = "Suc n"]) (use w sent nxt(1) in simp_all)
      with SendFailed True show ?thesis by (simp add: send_step_def io_defs)
    next
      case False
      have "stream_inv cmd0 L log0 (fail_task sv sl s ?t w)"
        using fail_task_inv [OF w(1,2) cmd w(3-5)] .
      with SendFailed False show ?thesis by (simp add: send_step_def io_defs)
    qed
  next
    case Acked
    let ?w = "w\<lparr>rw_telemetry := rw_telemetry w @ [event]\<rparr>"
      and ?st = "checkpoint_state (ss_pause_event s) (ss_stop_event s)"
      and ?t' = "(advance event ?t)\<lparr>tk_current := None\<rparr>"
    have "?st \<noteq> CREATED" by (simp add: checkpoint_state_def)
    then obtain db' where db': "save_checkpoint sl cmd ?st (sequence event) (Some (source_timestamp event)) ?w =
        (Inr (), ?w\<lparr>rw_db := Some db'\<rparr>)"
      "checkpoint_row db' (replay_session_id cmd) (new_checkpoint cmd ?st (sequence event) (Some (source_timestamp event)))"
      using save_checkpoint_row [of ?w db cmd c ?st sl "sequence event" "Some (source_timestamp event)"] w sid
      by auto
    have step: "send_step sv sl s ?t event w = set_task s ?t' (?w\<lparr>rw_db := Some db'\<rparr>)"
      using Acked db'(1) cmd by (simp add: send_step_def publish_telemetry_def send_def advance_def)
    have "running_at cmd0 L (Suc n) (new_checkpoint cmd ?st (sequence event) (Some (source_timestamp event)))
        (s\<lparr>ss_task := ?t'\<rparr>)"
      using s cmd nxt by (auto simp: running_at_def Let_def advance_def)
    then have "position_ok cmd0 L (new_checkpoint cmd ?st (sequence event) (Some (source_timestamp event)))
        (Suc n) (send_step sv sl s ?t event w)"
      unfolding position_ok_def step set_task_def using nxt
      by (intro disjI2 exI [of _ "Suc n"]) simp
    then show ?thesis
      unfolding stream_inv_def using db'(2) sid cmd(2) sent nxt(1) w(3) step
      by (intro exI [of _ db'] exI [of _ "new_checkpoint cmd ?st (sequence event) (Some (source_timestamp event))"]
          exI [of _ "out @ [event]"] exI [of _ "Suc n"]) (simp add: set_task_def)
  qed
qed

lemma stream_invI:
  assumes "rw_db w = Some db" "checkpoint_row db (replay_session_id cmd0) c"
    "rw_telemetry w = log0 @ out" "remdups_adj (map logical out) = take m L" "m \<le> length L"
    "cp_replay_session_id c = replay_session_id cmd0" "same_replay (cp_command c) cmd0"
    "position_ok cmd0 L c m w"
  shows "stream_inv cmd0 L log0 w"
  using assms unfolding stream_inv_def by blast

lemma position_runningI:
  assumes "m = n \<or> m = Suc n" "n \<le> length L" "cp_last_sequence c = int n"
    "cp_source_timestamp c = position_ts L n" "rw_active w = Some s" "running_at cmd0 L n c s"
  shows "position_ok cmd0 L c m w"
  using assms unfolding position_ok_def by blast

lemma complete_task_inv:
  assumes w: "rw_db w = Some db" "checkpoint_row db (replay_session_id cmd0) c"
      "rw_telemetry w = log0 @ out" "remdups_adj (map logical out) = L"
    and cmd: "tk_command t = Some cmd" "same_replay cmd cmd0"
  shows "stream_inv cmd0 L log0 (complete_task sv sl s t w)"
proof -
  have sid: "replay_session_id cmd = replay_session_id cmd0" using cmd(2) by (simp add: same_replay_def)
  let ?c = "new_checkpoint cmd COMPLETED (tk_last_seq t) (Some (terminal_timestamp t))"
  obtain db' where db': "save_checkpoint sl cmd COMPLETED (tk_last_seq t) (Some (terminal_timestamp t)) w =
      (Inr (), w\<lparr>rw_db := Some db'\<rparr>)" "checkpoint_row db' (replay_session_id cmd) ?c"
    using save_checkpoint_row [of w db cmd c COMPLETED sl "tk_last_seq t" "Some (terminal_timestamp t)"] w sid
    by auto
  obtain r sts where pub: "publish_controller sv sl
      (mark_completed (tk_ctrl t) (tk_last_seq t) (terminal_timestamp t)) (w\<lparr>rw_db := Some db'\<rparr>) =
      (r, w\<lparr>rw_db := Some db', rw_statuses := sts\<rparr>)"
    using publish_controller_statuses by metis
  let ?w = "w\<lparr>rw_db := Some db', rw_statuses := sts\<rparr>"
  have step: "complete_task sv sl s t w = (case r of Inl _ \<Rightarrow> fail_task sv sl s t ?w | Inr _ \<Rightarrow> end_task s t ?w)"
    using db'(1) cmd(1) pub by (auto simp: complete_task_def bind_io_def split: sum.splits)
  show ?thesis
  proof (cases r)
    case (Inl e)
    have "stream_inv cmd0 L log0 (fail_task sv sl s t ?w)"
      by (rule fail_task_inv [OF _ _ cmd, where out = out and m = "length L" and c = ?c])
        (use w db'(2) sid in simp_all)
    with Inl step show ?thesis by simp
  next
    case (Inr u)
    have "stream_inv cmd0 L log0 (end_task s t ?w)"
      by (rule stream_invI [where db = db' and c = ?c and out = out and m = "length L"])
        (use w db'(2) sid cmd(2) in
          \<open>simp_all add: end_task_def set_task_def position_ok_def session_running_def\<close>)
    with Inr step show ?thesis by simp
  qed
qed

lemma wait_step_inv:
  assumes stream: "session_stream sv cmd0 L" and n: "n \<le> length L" "m = n \<or> m = Suc n"
    and w: "rw_db w = Some db" "checkpoint_row db (replay_session_id cmd0) c"
      "rw_telemetry w = log0 @ out" "remdups_adj (map logical out) = take m L" "m \<le> length L"
    and c: "cp_replay_session_id c = replay_session_id cmd0" "same_replay (cp_command c) cmd0"
      "cp_last_sequence c = int n" "cp_source_timestamp c = position_ts L n"
    and s: "rw_active w = Some s" "running_at cmd0 L n c s" "tk_current (ss_task s) = None"
  shows "stream_inv cmd0 L log0 (wait_step sv sl s (ss_task s) w)"
proof -
  let ?t = "ss_task s"
  have same: "stream_inv cmd0 L log0 w"
    by (rule stream_invI [OF w c(1,2)], rule position_runningI [OF n(2,1) c(3,4) s(1,2)])
  obtain cmd where cmd: "tk_command ?t = Some cmd" "same_replay cmd cmd0"
    using s(2) by (auto simp: running_at_def Let_def)
  have t: "tk_end ?t = None" "\<not> ss_stop_event s" "map logical (tk_rest ?t) = drop n L"
    "rc_speed (tk_ctrl ?t) \<in> {1, 100, 1000}"
    using s(2,3) by (simp_all add: running_at_def Let_def)
  show ?thesis
  proof (cases "tk_rest ?t")
    case Nil
    with t(3) n w(5) have "m = length L" by auto
    then have "stream_inv cmd0 L log0 (complete_task sv sl s ?t w)"
      using complete_task_inv [OF w(1-3) _ cmd, of L] w(4) by simp
    with Nil t same show ?thesis by (simp add: wait_step_def)
  next
    case (Cons event rest)
    with t(3) have ahead: "map logical (event # rest) = drop n L" by simp
    note nxt = running_next [OF stream n(1) ahead]
    have inv: "stream_inv cmd0 L log0 (set_task s t' w)" if "running_at cmd0 L n c (s\<lparr>ss_task := t'\<rparr>)" for t'
      by (rule stream_invI [where db = db and c = c and out = out and m = m],
          (use w c in \<open>simp_all add: set_task_def\<close>)[7])
        (rule position_runningI [OF n(2,1) c(3,4) _ that], simp add: set_task_def)
    have "running_at cmd0 L n c (s\<lparr>ss_task := ?t\<lparr>tk_rest := rest, tk_current := Some event\<rparr>\<rparr>)"
      using s(2,3) Cons by (simp add: running_at_def Let_def)
    moreover have "running_at cmd0 L n c (s\<lparr>ss_task := (advance event ?t)\<lparr>tk_rest := rest,
        tk_current := Some event, tk_prev_ts := Some (source_timestamp event)\<rparr>\<rparr>)"
      using s(2,3) Cons nxt(4) by (simp add: running_at_def Let_def advance_def)
    ultimately show ?thesis
      using Cons t(2) same pacing_error_None [OF t(4), of sv event] by (simp add: wait_step_def inv)
  qed
qed

lemma task_step_inv:
  assumes stream: "session_stream sv cmd0 L" and inv: "stream_inv cmd0 L log0 w"
  shows "stream_inv cmd0 L log0 (task_step sv sl w)"
proof -
  from inv obtain db c out m where w: "rw_db w = Some db" "checkpoint_row db (replay_session_id cmd0) c"
      "rw_telemetry w = log0 @ out" "remdups_adj (map logical out) = take m L" "m \<le> length L"
      "cp_replay_session_id c = replay_session_id cmd0" "same_replay (cp_command c) cmd0"
    and pos: "position_ok cmd0 L c m w" by (auto simp: stream_inv_def)
  show ?thesis
  proof (cases "session_running w")
    case False
    then have "task_step sv sl w = w"
      by (auto simp: task_step_def session_running_def Let_def split: option.splits)
    with inv show ?thesis by simp
  next
    case True
    with pos obtain n s where n: "n \<le> length L" "m = n \<or> m = Suc n" "cp_last_sequence c = int n"
        "cp_source_timestamp c = position_ts L n"
      and s: "rw_active w = Some s" "running_at cmd0 L n c s" by (auto simp: position_ok_def)
    have "\<not> tk_done (ss_task s)" using s(2) by (simp add: running_at_def Let_def)
    with s show ?thesis
      using send_step_inv [OF stream n(1,2) w(1-5) s(2)]
        wait_step_inv [OF stream n(1,2) w n(3,4) s]
      by (simp add: task_step_def Let_def split: option.split)
  qed
qed

lemma stream_inv_statuses: "stream_inv cmd0 L log0 (w\<lparr>rw_statuses := x\<rparr>) \<longleftrightarrow> stream_inv cmd0 L log0 w"
  by (simp add: stream_inv_def position_ok_def session_running_def)

lemma apply_control_ok:
  assumes "action cmd \<in> {PAUSE, RESUME}" "controller_ok c" "apply_command c cmd = Inr c'"
  shows "controller_ok c' \<and> rc_session_id c' = rc_session_id c"
  using assms by (auto simp: apply_command_def controller_ok_def split: if_splits)

lemma handle_control_inv:
  assumes inv: "stream_inv cmd0 L log0 w" and ok: "handle_control sv sl cmd st effect w = (Inr (), w')"
    and act: "action cmd \<in> {PAUSE, RESUME}" "st = checkpoint_state p False"
    and effect: "effect = ss_pause_event_update (\<lambda>_. p)"
  shows "stream_inv cmd0 L log0 w'"
proof (cases "session_running w")
  case False
  then have "w' = w" using ok
    by (auto simp: handle_control_def session_running_def split: option.splits if_splits)
  with inv show ?thesis by simp
next
  case True
  from inv obtain db c out m where w: "rw_db w = Some db" "checkpoint_row db (replay_session_id cmd0) c"
      "rw_telemetry w = log0 @ out" "remdups_adj (map logical out) = take m L" "m \<le> length L"
      "cp_replay_session_id c = replay_session_id cmd0" "same_replay (cp_command c) cmd0"
    and pos: "position_ok cmd0 L c m w" by (auto simp: stream_inv_def)
  from pos True obtain n s where n: "m = n \<or> m = Suc n" "n \<le> length L" "cp_last_sequence c = int n"
      "cp_source_timestamp c = position_ts L n"
    and s: "rw_active w = Some s" "running_at cmd0 L n c s" by (auto simp: position_ok_def)
  have sid: "rc_session_id (ss_controller s) = replay_session_id cmd0" "controller_ok (ss_controller s)"
    using s(2) by (simp_all add: running_at_def Let_def)
  show ?thesis
  proof (cases "replay_session_id cmd = replay_session_id cmd0")
    case False
    then have "w' = w" using ok s sid by (simp add: handle_control_def)
    with inv show ?thesis by simp
  next
    case same: True
    have "\<not> tk_done (ss_task s)" using s(2) by (simp add: running_at_def Let_def)
    with ok s(1) sid same obtain ctrl where ctrl: "apply_command (ss_controller s) cmd = Inr ctrl"
      by (auto simp: handle_control_def bind_io_def lift_io_def split: sum.splits)
    from apply_control_ok [OF act(1) sid(2) ctrl] sid(1)
    have ctrl': "controller_ok ctrl" "rc_session_id ctrl = replay_session_id cmd0" by simp_all
    have "st \<noteq> CREATED" using act(2) by (simp add: checkpoint_state_def)
    from update_checkpoint_row [OF w(2) this] obtain db' where
      db': "update_replay_checkpoint_state db (sl_now sl) (replay_session_id cmd0) st = Inr db'"
        "checkpoint_row db' (replay_session_id cmd0) (c\<lparr>cp_state := st\<rparr>)" by blast
    let ?s = "effect (s\<lparr>ss_controller := ctrl\<rparr>)" and ?w = "w\<lparr>rw_db := Some db'\<rparr>"
    obtain r sts where "publish_controller sv sl ctrl (?w\<lparr>rw_active := Some ?s\<rparr>) =
        (r, ?w\<lparr>rw_active := Some ?s, rw_statuses := sts\<rparr>)"
      using publish_controller_statuses by metis
    with ok s(1) sid same ctrl ctrl' db' w(1) \<open>\<not> tk_done (ss_task s)\<close>
    have w': "w' = ?w\<lparr>rw_active := Some ?s, rw_statuses := sts\<rparr>"
      by (simp add: handle_control_def bind_io_def lift_io_def with_store_def)
    have run: "running_at cmd0 L n (c\<lparr>cp_state := st\<rparr>) ?s"
      using s(2) ctrl' effect act(2) by (simp add: running_at_def Let_def)
    have "stream_inv cmd0 L log0 (?w\<lparr>rw_active := Some ?s\<rparr>)"
      by (rule stream_invI [where db = db' and c = "c\<lparr>cp_state := st\<rparr>" and out = out and m = m],
          (use w db'(2) in simp_all)[7])
        (rule position_runningI [OF n(1,2) _ _ _ run], use n(3,4) in simp_all)
    then show ?thesis using w' stream_inv_statuses by metis
  qed
qed

lemma handle_pause_resume_inv:
  assumes "stream_inv cmd0 L log0 w" "handle_command sv sl cmd w = (Inr (), w')" "action cmd \<in> {PAUSE, RESUME}"
  shows "stream_inv cmd0 L log0 w'"
  using assms(3)
proof (elim insertE emptyE)
  assume a: "action cmd = PAUSE"
  with assms show ?thesis
    by (intro handle_control_inv [OF assms(1), where st = PAUSED and p = False])
      (auto simp: handle_command_def handle_pause_command_def checkpoint_state_def)
next
  assume a: "action cmd = RESUME"
  with assms show ?thesis
    by (intro handle_control_inv [OF assms(1), where st = RUNNING and p = True])
      (auto simp: handle_command_def handle_resume_command_def checkpoint_state_def)
qed

lemma handle_busy_inv:
  assumes "stream_inv cmd0 L log0 w" "handle_command sv sl cmd w = (Inr (), w')" "action cmd = START"
    "session_running w"
  shows "stream_inv cmd0 L log0 w'"
proof -
  let ?ctrl = "mark_failed (created (replay_session_id cmd) (source_dataset_sha256 cmd) (contract_sha256 cmd))
             ''REPLAY_ALREADY_ACTIVE'' 0 (source_timestamp cmd)"
  obtain r sts where "publish_controller sv sl ?ctrl w = (r, w\<lparr>rw_statuses := sts\<rparr>)"
    using publish_controller_statuses by metis
  with assms have "w' = w\<lparr>rw_statuses := sts\<rparr>" by (simp add: handle_command_def handle_start_command_def)
  with assms(1) show ?thesis by (simp add: stream_inv_statuses)
qed

lemma deliver_inv:
  assumes stream: "session_stream sv cmd0 L" and inv: "stream_inv cmd0 L log0 w"
    and s: "rw_active w = Some s" "\<not> tk_done (ss_task s)" "tk_current (ss_task s) = Some event"
  shows "stream_inv cmd0 L log0 (deliver event w)"
proof -
  from inv obtain db c out m where w: "rw_db w = Some db" "checkpoint_row db (replay_session_id cmd0) c"
      "rw_telemetry w = log0 @ out" "remdups_adj (map logical out) = take m L" "m \<le> length L"
      "cp_replay_session_id c = replay_session_id cmd0" "same_replay (cp_command c) cmd0"
    and pos: "position_ok cmd0 L c m w" by (auto simp: stream_inv_def)
  have "session_running w" using s by (simp add: session_running_def)
  with pos s(1) obtain n where n: "m = n \<or> m = Suc n" "n \<le> length L" "cp_last_sequence c = int n"
      "cp_source_timestamp c = position_ts L n" and run: "running_at cmd0 L n c s" by (auto simp: position_ok_def)
  have ahead: "map logical (event # tk_rest (ss_task s)) = drop n L"
    using run s(3) by (simp add: running_at_def Let_def)
  note nxt = running_next [OF stream n(2) ahead]
  have "remdups_adj (map logical (out @ [event])) = take (Suc n) L"
    using collapse_next [OF stream_distinct [OF stream] w(4) n(1) nxt(1)] nxt(2) by simp
  moreover have "position_ok cmd0 L c (Suc n) (deliver event w)"
    by (rule position_runningI [OF _ n(2-4) _ run]) (use s(1) in \<open>simp_all add: deliver_def\<close>)
  ultimately show ?thesis
    by (intro stream_invI [where db = db and c = c and out = "out @ [event]" and m = "Suc n"])
      (use w nxt(1) in \<open>simp_all add: deliver_def\<close>)
qed

lemma validate_start_facts:
  assumes "validate_command runtime_tz cmd = Inr cmd" "action cmd = START"
  obtains lo hi where "range_start cmd = Some lo" "range_end cmd = Some hi" "lo < hi"
    "source_timestamp cmd = lo" "hex_envelope cmd" "speed cmd \<in> {1, 100, 1000}"
  using assms validate_command_hex [OF assms(1)]
  by (auto simp: validate_command_def validate_start_command_def err_simps not_le split: if_splits)

lemma apply_start:
  assumes "validate_command runtime_tz cmd = Inr cmd" "action cmd = START"
  obtains ctrl where "apply_command (created (replay_session_id cmd) d k) cmd = Inr ctrl"
    "controller_ok ctrl" "rc_speed ctrl \<in> {1, 100, 1000}" "rc_session_id ctrl = replay_session_id cmd"
    "rc_range_start ctrl = range_start cmd" "rc_range_end ctrl = range_end cmd"
    "rc_source_dataset_sha256 ctrl = source_dataset_sha256 cmd"
    "rc_contract_sha256 ctrl = contract_sha256 cmd" "rc_speed ctrl = speed cmd"
proof -
  obtain lo hi where "hex_envelope cmd" "speed cmd \<in> {1, 100, 1000}"
    using validate_start_facts [OF assms] by metis
  with assms(2) show thesis
    by (intro that [of "case apply_command (created (replay_session_id cmd) d k) cmd of Inr c \<Rightarrow> c"])
      (auto simp: apply_command_def created_def controller_ok_def hex_envelope_def)
qed

lemma restart_inv:
  assumes stream: "session_stream sv cmd0 L" and inv: "stream_inv cmd0 L log0 w"
  obtains w' where "restart sv sl w = (Inr (), w')" "stream_inv cmd0 L log0 w'" "rw_db w' = rw_db w"
    "rw_telemetry w' = rw_telemetry w"
proof -
  from inv obtain db c out m where w: "rw_db w = Some db" "checkpoint_row db (replay_session_id cmd0) c"
      "rw_telemetry w = log0 @ out" "remdups_adj (map logical out) = take m L" "m \<le> length L"
      "cp_replay_session_id c = replay_session_id cmd0" "same_replay (cp_command c) cmd0"
    and pos: "position_ok cmd0 L c m w" by (auto simp: stream_inv_def)
  let ?w = "w\<lparr>rw_active := None\<rparr>"
  show thesis
  proof (cases "session_running w")
    case False
    with pos have c: "cp_state c = FAILED \<or> cp_state c = COMPLETED \<and> m = length L"
      by (auto simp: position_ok_def session_running_def running_at_def Let_def)
    then have "load_incomplete_replays db = []" using load_incomplete_row [OF w(2)] by (auto simp: active_state_def)
    moreover have "stream_inv cmd0 L log0 ?w"
      by (rule stream_invI [where db = db and c = c and out = out and m = m])
        (use w c in \<open>auto simp: position_ok_def session_running_def\<close>)
    ultimately show thesis by (intro that [of ?w]) (simp_all add: restart_def start_service_def w(1))
  next
    case True
    with pos obtain n s where n: "m = n \<or> m = Suc n" "n \<le> length L" "cp_last_sequence c = int n"
        "cp_source_timestamp c = position_ts L n"
      and run: "running_at cmd0 L n c s" by (auto simp: position_ok_def)
    have st: "cp_state c = checkpoint_state (ss_pause_event s) False" using run by (simp add: running_at_def Let_def)
    then have inc: "load_incomplete_replays db = [c]"
      using load_incomplete_row [OF w(2)] by (simp add: active_state_def checkpoint_state_def)
    have cmd: "validate_command runtime_tz (cp_command c) = Inr (cp_command c)" "action (cp_command c) = START"
      "replay_session_id (cp_command c) = replay_session_id cmd0" using w(7) by (simp_all add: same_replay_def)
    obtain ctrl where ctrl: "apply_command (created (replay_session_id (cp_command c))
        (source_dataset_sha256 (cp_command c)) (contract_sha256 (cp_command c))) (cp_command c) = Inr ctrl"
      "controller_ok ctrl" "rc_speed ctrl \<in> {1, 100, 1000}" "rc_session_id ctrl = replay_session_id (cp_command c)"
      by (rule apply_start [OF cmd(1,2)])
    obtain events where ev: "iter_events (rv_uuid5 sv) (rv_source sv) (sl_clock sl) (cp_command c) (int n + 1) (position_ts L n) = (events, None)"
      "map logical events = drop n L"
      using resume_at_position [OF stream w(7) n(2), of "sl_clock sl"]
      by (auto simp: map_prod_def split: prod.splits)
    let ?s = "\<lparr>ss_controller = ctrl\<lparr>rc_state := cp_state c, rc_last_sequence := Some (cp_last_sequence c),
                  rc_current_source_timestamp := cp_source_timestamp c\<rparr>,
               ss_task = resume_checkpoint sv sl ctrl c, ss_pause_event = (cp_state c = RUNNING),
               ss_stop_event = False\<rparr>"
    have "rc_error_code ctrl = None"
      using ctrl(1) cmd(2) by (auto simp: apply_command_def split: if_splits)
    then have "running_at cmd0 L n c ?s"
      using st ctrl ev n(3,4) w(6,7) cmd(3)
      by (auto simp: running_at_def Let_def resume_checkpoint_def checkpoint_state_def controller_ok_def)
    then have "stream_inv cmd0 L log0 (?w\<lparr>rw_active := Some ?s\<rparr>)"
      by (intro stream_invI [where db = db and c = c and out = out and m = m]
          position_runningI [OF n, of _ ?s]) (use w in simp_all)
    moreover have "restart sv sl w = (Inr (), ?w\<lparr>rw_active := Some ?s\<rparr>)"
      using inc ctrl(1) st w(1,6) cmd(3)
      by (simp add: restart_def start_service_def checkpoint_state_def)
    ultimately show thesis by (intro that [of "?w\<lparr>rw_active := Some ?s\<rparr>"]) simp_all
  qed
qed

lemma replay_step_inv:
  assumes "replay_step sv w w'" "session_stream sv cmd0 L" "stream_inv cmd0 L log0 w"
  shows "stream_inv cmd0 L log0 w'"
  using assms
proof (cases rule: replay_step.cases)
  case (task sl)
  with assms task_step_inv show ?thesis by simp
next
  case (control cmd sl)
  with assms handle_pause_resume_inv show ?thesis by blast
next
  case (busy cmd sl)
  with assms handle_busy_inv show ?thesis by blast
next
  case (crash sl)
  with restart_inv [OF assms(2,3), of sl] show ?thesis by auto
next
  case (crash_sent s event sl)
  from deliver_inv [OF assms(2,3) crash_sent(1-3)] have "stream_inv cmd0 L log0 (deliver event w)" .
  with restart_inv [OF assms(2) this, of sl] crash_sent(4) show ?thesis by auto
qed

lemma replay_steps_inv:
  assumes "(replay_step sv)\<^sup>*\<^sup>* w w'" "session_stream sv cmd0 L" "stream_inv cmd0 L log0 w"
  shows "stream_inv cmd0 L log0 w'"
  using assms by (induction rule: rtranclp_induct) (auto intro: replay_step_inv)

lemma start_inv:
  assumes cmd: "validate_command runtime_tz cmd = Inr cmd" "action cmd = START"
    and src: "source_dataset_sha256 cmd = src_source_dataset_sha256 (rv_source sv)"
      "contract_sha256 cmd = src_contract_sha256 (rv_source sv)"
    and w: "\<not> session_running w" "rw_db w = Some db" "distinct (map fst (replay_checkpoints db))"
      "load_incomplete_replays db = []"
    and stream: "session_stream sv cmd L" and ok: "handle_command sv sl cmd w = (Inr (), w')"
  shows "stream_inv cmd L (rw_telemetry w) w'"
proof -
  obtain db' where db': "save_checkpoint sl cmd RUNNING 0 None w = (Inr (), w\<lparr>rw_db := Some db'\<rparr>)"
    "checkpoint_row db' (replay_session_id cmd) (new_checkpoint cmd RUNNING 0 None)"
    using record_checkpoint_row [of db cmd _ RUNNING "sl_now sl" 0 None] w
    by (auto simp: save_checkpoint_def with_store_def new_checkpoint_def)
  obtain ctrl where ctrl: "apply_command (created (replay_session_id cmd) (source_dataset_sha256 cmd)
      (contract_sha256 cmd)) cmd = Inr ctrl" "controller_ok ctrl" "rc_speed ctrl \<in> {1, 100, 1000}"
      "rc_session_id ctrl = replay_session_id cmd" "rc_range_start ctrl = range_start cmd"
      "rc_range_end ctrl = range_end cmd" "rc_source_dataset_sha256 ctrl = source_dataset_sha256 cmd"
      "rc_contract_sha256 ctrl = contract_sha256 cmd" "rc_speed ctrl = speed cmd"
    by (rule apply_start [OF cmd])
  obtain cmd' where cmd': "start_command sl ctrl = Inr cmd'" "same_replay cmd' cmd"
  proof (rule that)
    let ?cmd = "\<lparr>message_id = sl_uuid sl, replay_session_id = replay_session_id cmd,
        source_dataset_sha256 = source_dataset_sha256 cmd, contract_sha256 = contract_sha256 cmd,
        source_timestamp = source_timestamp cmd, emitted_at = sl_now sl,
        command_id = sl_command_uuid sl, action = START, speed = speed cmd,
        range_start = range_start cmd, range_end = range_end cmd\<rparr>"
    obtain lo hi where lohi: "range_start cmd = Some lo" "range_end cmd = Some hi" "lo < hi"
      "source_timestamp cmd = lo" "hex_envelope cmd" "speed cmd \<in> {1, 100, 1000}"
      by (rule validate_start_facts [OF cmd])
    have v: "validate_command runtime_tz ?cmd = Inr ?cmd"
      using lohi by (simp add: validate_command_def validate_start_command_def check_defs
          hex_envelope_def del: insert_iff)
    then show "start_command sl ctrl = Inr ?cmd" using ctrl lohi by (simp add: start_command_def)
    show "same_replay ?cmd cmd" using v by (simp add: same_replay_def)
  qed
  obtain events where ev: "iter_events (rv_uuid5 sv) (rv_source sv) (sl_clock sl) cmd' 1 None = (events, None)"
    "map logical events = L"
    using resume_at_position [OF stream cmd'(2), of 0 "sl_clock sl"]
    by (auto simp: position_ts_def map_prod_def split: prod.splits)
  let ?s = "\<lparr>ss_controller = ctrl, ss_task = run_replay_session sv sl ctrl, ss_pause_event = True,
             ss_stop_event = False\<rparr>" and ?w = "w\<lparr>rw_db := Some db'\<rparr>"
  obtain r sts where "publish_controller sv sl ctrl (?w\<lparr>rw_active := Some ?s\<rparr>) =
      (r, ?w\<lparr>rw_active := Some ?s, rw_statuses := sts\<rparr>)"
    using publish_controller_statuses by metis
  with ok cmd(2) src w(1) db' ctrl(1) have w': "w' = ?w\<lparr>rw_active := Some ?s, rw_statuses := sts\<rparr>"
    by (simp add: handle_command_def handle_start_command_def bind_io_def lift_io_def)
  have "running_at cmd L 0 (new_checkpoint cmd RUNNING 0 None) ?s"
    using cmd' ev ctrl(2-4) by (simp add: running_at_def Let_def run_replay_session_def checkpoint_state_def)
  then have "stream_inv cmd L (rw_telemetry w) (?w\<lparr>rw_active := Some ?s\<rparr>)"
    by (intro stream_invI [where db = db' and c = "new_checkpoint cmd RUNNING 0 None" and out = "[]" and m = 0]
        position_runningI [where n = 0 and s = ?s])
      (use db'(2) cmd in \<open>simp_all add: same_replay_def position_ts_def\<close>)
  then show ?thesis using w' stream_inv_statuses by metis
qed

lemma running_at_state:
  "running_at cmd0 L n c s \<Longrightarrow> cp_state c = (if ss_pause_event s then RUNNING else PAUSED) \<and> \<not> tk_done (ss_task s)"
  by (simp add: running_at_def Let_def checkpoint_state_def)

section \<open>Progress\<close>

text \<open>The steps an unpaused task still needs.\<close>

definition task_work :: "session_task \<Rightarrow> nat" where
  "task_work t = (if tk_done t then 0
     else 2 * length (tk_rest t) + (case tk_current t of None \<Rightarrow> 1 | Some _ \<Rightarrow> 2))"

definition completed :: "ReplayCommandV1 \<Rightarrow> replay_world \<Rightarrow> bool" where
  "completed cmd0 w \<longleftrightarrow> \<not> session_running w \<and> (\<exists>db c. rw_db w = Some db \<and>
     load_replay_checkpoint db (replay_session_id cmd0) = Some c \<and> cp_state c = COMPLETED)"

definition unpaused :: "nat \<Rightarrow> replay_world \<Rightarrow> bool" where
  "unpaused k w \<longleftrightarrow> (\<exists>s. rw_active w = Some s \<and> \<not> tk_done (ss_task s) \<and> ss_pause_event s \<and>
     task_work (ss_task s) \<le> k)"

lemma acked_step:
  assumes inv: "stream_inv cmd0 L log0 w" and run: "unpaused (Suc k) w" and send: "sl_send sl = Acked"
  shows "unpaused k (task_step sv sl w) \<or> completed cmd0 (task_step sv sl w)"
proof -
  from run obtain s where s: "rw_active w = Some s" "\<not> tk_done (ss_task s)" "ss_pause_event s"
    "task_work (ss_task s) \<le> Suc k" by (auto simp: unpaused_def)
  from inv s obtain db c n where w: "rw_db w = Some db" "checkpoint_row db (replay_session_id cmd0) c"
    "running_at cmd0 L n c s"
    by (auto simp: stream_inv_def position_ok_def session_running_def)
  let ?t = "ss_task s"
  obtain cmd where cmd: "tk_command ?t = Some cmd" "replay_session_id cmd = replay_session_id cmd0"
    using w(3) by (auto simp: running_at_def Let_def same_replay_def)
  have t: "tk_end ?t = None" "\<not> ss_stop_event s" "rc_speed (tk_ctrl ?t) \<in> {1, 100, 1000}"
    "controller_ok (tk_ctrl ?t)" "0 \<le> tk_last_seq ?t"
    using w(3) by (simp_all add: running_at_def Let_def)
  show ?thesis
  proof (cases "tk_current ?t")
    case (Some event)
    let ?w = "w\<lparr>rw_telemetry := rw_telemetry w @ [event]\<rparr>"
    obtain db' where "save_checkpoint sl cmd RUNNING (sequence event) (Some (source_timestamp event)) ?w =
        (Inr (), ?w\<lparr>rw_db := Some db'\<rparr>)"
      using save_checkpoint_row [of ?w db cmd c RUNNING sl] w cmd by auto
    then have "unpaused k (task_step sv sl w)"
      using s Some send cmd t
      by (simp add: task_step_def Let_def send_step_def publish_telemetry_def send_def checkpoint_state_def
          advance_def set_task_def unpaused_def task_work_def)
    then show ?thesis by blast
  next
    case None
    show ?thesis
    proof (cases "tk_rest ?t")
      case (Cons event rest)
      with s None t pacing_error_None [OF t(3), of sv event] have "unpaused k (task_step sv sl w)"
        by (simp add: task_step_def Let_def wait_step_def set_task_def unpaused_def task_work_def advance_def)
      then show ?thesis by blast
    next
      case Nil
      obtain db' where db': "save_checkpoint sl cmd COMPLETED (tk_last_seq ?t) (Some (terminal_timestamp ?t)) w =
          (Inr (), w\<lparr>rw_db := Some db'\<rparr>)" "checkpoint_row db' (replay_session_id cmd)
          (new_checkpoint cmd COMPLETED (tk_last_seq ?t) (Some (terminal_timestamp ?t)))"
        using save_checkpoint_row [of w db cmd c COMPLETED sl] w cmd by auto
      obtain sts where "publish_controller sv sl
          (mark_completed (tk_ctrl ?t) (tk_last_seq ?t) (terminal_timestamp ?t)) (w\<lparr>rw_db := Some db'\<rparr>) =
          (Inr (), w\<lparr>rw_db := Some db', rw_statuses := sts\<rparr>)"
        using publish_controller_acked [OF mark_completed_ok [OF t(4,5)] send] by metis
      with db'(1) s Nil None t cmd have "task_step sv sl w = end_task s ?t (w\<lparr>rw_db := Some db', rw_statuses := sts\<rparr>)"
        by (simp add: task_step_def Let_def wait_step_def complete_task_def bind_io_def)
      with db'(2) cmd(2) have "completed cmd0 (task_step sv sl w)"
        by (auto simp: completed_def end_task_def set_task_def session_running_def checkpoint_row_def
            load_replay_checkpoint_def)
      then show ?thesis by blast
    qed
  qed
qed

lemma completed_task_step: "completed cmd0 w \<Longrightarrow> task_step sv sl w = w"
  by (auto simp: completed_def task_step_def session_running_def Let_def split: option.splits)

lemma acked_run:
  assumes "session_stream sv cmd0 L" "stream_inv cmd0 L log0 w" "unpaused k w \<or> completed cmd0 w"
    "k \<le> length sls" "\<forall>sl \<in> set sls. sl_send sl = Acked"
  shows "completed cmd0 (foldl (\<lambda>w sl. task_step sv sl w) w sls) \<and>
    stream_inv cmd0 L log0 (foldl (\<lambda>w sl. task_step sv sl w) w sls)"
  using assms(2-)
proof (induction sls arbitrary: w k)
  case Nil
  then show ?case by (auto simp: unpaused_def task_work_def split: if_splits option.splits)
next
  case (Cons sl sls)
  have inv: "stream_inv cmd0 L log0 (task_step sv sl w)" by (rule task_step_inv [OF assms(1) Cons.prems(1)])
  show ?case
  proof (cases "completed cmd0 w")
    case True
    with Cons.IH [OF Cons.prems(1), of 0] Cons.prems show ?thesis by (simp add: completed_task_step)
  next
    case False
    with Cons.prems(2) have "unpaused k w" by blast
    then obtain j where j: "k = Suc j"
      by (cases k) (auto simp: unpaused_def task_work_def split: option.splits)
    with \<open>unpaused k w\<close> acked_step [OF Cons.prems(1)] Cons.prems(4)
    have "unpaused j (task_step sv sl w) \<or> completed cmd0 (task_step sv sl w)" by auto
    with Cons.IH [OF inv this] Cons.prems j show ?thesis by simp
  qed
qed

section \<open>Delivery\<close>

text \<open>What a session is started from: a valid command for the service's own source, no other session
  running or incomplete, and a stream without invalid rows.\<close>

definition starts :: "replay_service \<Rightarrow> slot \<Rightarrow> ReplayCommandV1 \<Rightarrow> TelemetryEventV1 list \<Rightarrow> replay_world \<Rightarrow> replay_world \<Rightarrow> bool" where
  "starts sv sl cmd L w w' \<longleftrightarrow> validate_command runtime_tz cmd = Inr cmd \<and> action cmd = START \<and>
     source_dataset_sha256 cmd = src_source_dataset_sha256 (rv_source sv) \<and>
     contract_sha256 cmd = src_contract_sha256 (rv_source sv) \<and> \<not> session_running w \<and>
     (\<exists>db. rw_db w = Some db \<and> distinct (map fst (replay_checkpoints db)) \<and> load_incomplete_replays db = []) \<and>
     session_stream sv cmd L \<and> handle_command sv sl cmd w = (Inr (), w')"

lemma delivered_prefix:
  assumes "starts sv sl cmd L w0 w1" "(replay_step sv)\<^sup>*\<^sup>* w1 w"
  shows "\<exists>db c out m. rw_db w = Some db \<and> load_replay_checkpoint db (replay_session_id cmd) = Some c \<and>
    rw_telemetry w = rw_telemetry w0 @ out \<and> remdups_adj (map logical out) = take m L \<and> m \<le> length L \<and>
    (cp_state c = COMPLETED \<longrightarrow> m = length L) \<and>
    (cp_state c \<in> {RUNNING, PAUSED} \<longrightarrow> int m = cp_last_sequence c \<or> int m = cp_last_sequence c + 1)"
proof -
  have "stream_inv cmd L (rw_telemetry w0) w1"
    using assms(1) start_inv unfolding starts_def by metis
  moreover have "session_stream sv cmd L" using assms(1) by (simp add: starts_def)
  ultimately have "stream_inv cmd L (rw_telemetry w0) w" using replay_steps_inv [OF assms(2)] by blast
  then obtain db c out m where w: "rw_db w = Some db" "checkpoint_row db (replay_session_id cmd) c"
      "rw_telemetry w = rw_telemetry w0 @ out" "remdups_adj (map logical out) = take m L" "m \<le> length L"
    and pos: "position_ok cmd L c m w" by (auto simp: stream_inv_def)
  from w(2) have "load_replay_checkpoint db (replay_session_id cmd) = Some c"
    by (auto simp: checkpoint_row_def load_replay_checkpoint_def)
  moreover from pos have "(cp_state c = COMPLETED \<longrightarrow> m = length L) \<and>
    (cp_state c \<in> {RUNNING, PAUSED} \<longrightarrow> int m = cp_last_sequence c \<or> int m = cp_last_sequence c + 1)"
    by (auto simp: position_ok_def dest: running_at_state split: if_splits)
  ultimately show ?thesis using w by blast
qed

text \<open>
  C7 (safety): at-least-once delivery in order.  From the start of a session on, through any
  interleaving of task steps (with sends that succeed or fail), pauses, resumes, competing start
  commands and crashes with recovery, what the session has written to the telemetry topic is, after
  collapsing adjacent repetitions of one event, a prefix of the session's stream; no event is skipped
  or reordered.  A session whose checkpoint is \<open>COMPLETED\<close> has delivered the whole stream, and an
  incomplete session has at most one delivered event beyond its checkpoint.
\<close>

theorem replay_delivers_in_order:
  assumes "starts sv sl cmd L w0 w1" "(replay_step sv)\<^sup>*\<^sup>* w1 w"
  shows "\<exists>db c out m. rw_db w = Some db \<and> load_replay_checkpoint db (replay_session_id cmd) = Some c \<and>
    rw_telemetry w = rw_telemetry w0 @ out \<and> remdups_adj (map logical out) = take m L \<and> m \<le> length L \<and>
    (cp_state c = COMPLETED \<longrightarrow> m = length L) \<and>
    (cp_state c \<in> {RUNNING, PAUSED} \<longrightarrow> int m = cp_last_sequence c \<or> int m = cp_last_sequence c + 1)"
  using assms by (rule delivered_prefix)

lemma recovery_completes:
  assumes "starts sv sl cmd L w0 w1" "(replay_step sv)\<^sup>*\<^sup>* w1 w"
    and "rw_db w = Some db" "load_replay_checkpoint db (replay_session_id cmd) = Some c" "cp_state c = RUNNING"
    and "2 * length L + 1 \<le> length sls" "\<forall>s \<in> set sls. sl_send s = Acked"
  shows "\<exists>w2 w' db' c' out. restart sv sl' w = (Inr (), w2) \<and>
    w' = foldl (\<lambda>w s. task_step sv s w) w2 sls \<and> rw_db w' = Some db' \<and>
    load_replay_checkpoint db' (replay_session_id cmd) = Some c' \<and> cp_state c' = COMPLETED \<and>
    rw_telemetry w' = rw_telemetry w0 @ out \<and> remdups_adj (map logical out) = L"
proof -
  have stream: "session_stream sv cmd L" using assms(1) by (simp add: starts_def)
  have "stream_inv cmd L (rw_telemetry w0) w1"
    using assms(1) start_inv unfolding starts_def by metis
  from replay_steps_inv [OF assms(2) stream this] have "stream_inv cmd L (rw_telemetry w0) w" .
  from restart_inv [OF stream this, of sl'] obtain w2 where
    w2: "restart sv sl' w = (Inr (), w2)" "stream_inv cmd L (rw_telemetry w0) w2" "rw_db w2 = rw_db w" by metis
  from w2(2,3) assms(3-5) obtain n s where s: "rw_active w2 = Some s" "running_at cmd L n c s"
    by (auto simp: stream_inv_def position_ok_def checkpoint_row_def load_replay_checkpoint_def)
  have "length (case tk_current (ss_task s) of None \<Rightarrow> tk_rest (ss_task s) | Some e \<Rightarrow> e # tk_rest (ss_task s)) \<le> length L"
    using s(2) by (metis (no_types, lifting) diff_le_self length_drop length_map running_at_def)
  with s assms(5) have "unpaused (2 * length L + 1) w2"
    by (auto simp: unpaused_def task_work_def dest!: running_at_state split: option.splits if_splits)
  from acked_run [OF stream w2(2) _ assms(6,7)] this
  have "completed cmd (foldl (\<lambda>w s. task_step sv s w) w2 sls)"
    "stream_inv cmd L (rw_telemetry w0) (foldl (\<lambda>w s. task_step sv s w) w2 sls)" by blast+
  then show ?thesis
    using w2(1)
    by (auto simp: completed_def stream_inv_def position_ok_def checkpoint_row_def
        load_replay_checkpoint_def session_running_def dest: running_at_state)
qed


section \<open>Concrete session\<close>

definition sample_slot :: slot where
  "sample_slot = \<lparr>sl_now = 0, sl_uuid = 3, sl_command_uuid = 4, sl_clock = (\<lambda>n. n), sl_send = Acked\<rparr>"

definition sample_service :: replay_service where
  "sample_service = \<lparr>rv_source = sample_source, rv_enable_pacing = True, rv_uuid5 = (\<lambda>_. 0)\<rparr>"

definition idle_world :: replay_world where
  "idle_world = \<lparr>rw_db = Some empty_db, rw_telemetry = [], rw_statuses = [], rw_quarantine = [], rw_active = None\<rparr>"

lemma sample_session_stream:
  "\<exists>a b c. session_stream sample_service sample_start [a, b, c] \<and>
     map source_timestamp [a, b, c] = [0, seconds 10, seconds 20]"
  using sample_stream by (auto simp: session_stream_def sample_service_def)

lemma sample_handled: "\<exists>w1 db c. handle_command sample_service sample_slot sample_start idle_world = (Inr (), w1) \<and>
   rw_db w1 = Some db \<and> load_replay_checkpoint db 7 = Some c \<and> cp_state c = RUNNING"
  by (simp add: handle_command_def handle_start_command_def idle_world_def session_running_def
      sample_service_def sample_source_def sample_slot_def command_defs io_defs apply_command_def created_def
      record_replay_checkpoint_def upsert_def load_replay_checkpoint_def controller_status_def
      runtime_id_def validate_status_def Let_def)

lemma sample_starts:
  obtains L w1 db c where "starts sample_service sample_slot sample_start L idle_world w1"
    "map source_timestamp L = [0, seconds 10, seconds 20]"
    "rw_db w1 = Some db" "load_replay_checkpoint db (replay_session_id sample_start) = Some c" "cp_state c = RUNNING"
proof -
  obtain a b d where L: "session_stream sample_service sample_start [a, b, d]"
    "map source_timestamp [a, b, d] = [0, seconds 10, seconds 20]"
    using sample_session_stream by (elim exE conjE)
  obtain w1 db c where w1: "handle_command sample_service sample_slot sample_start idle_world = (Inr (), w1)"
    "rw_db w1 = Some db" "load_replay_checkpoint db 7 = Some c" "cp_state c = RUNNING"
    using sample_handled by blast
  have "validate_command runtime_tz sample_start = Inr sample_start" by (simp add: command_defs)
  then have "starts sample_service sample_slot sample_start [a, b, d] idle_world w1"
    using L(1) w1(1)
    by (simp add: starts_def session_running_def idle_world_def load_incomplete_replays_def
        sample_service_def sample_source_def sample_start_def sample_command_def)
  moreover have "load_replay_checkpoint db (replay_session_id sample_start) = Some c"
    using w1(3) by (simp add: sample_start_def sample_command_def)
  ultimately show thesis by (rule that [OF _ L(2) w1(2) _ w1(4)])
qed

theorem replay_delivers_in_order_witness:
  "\<exists>L w1 w out m. starts sample_service sample_slot sample_start L idle_world w1 \<and>
     replay_step sample_service w1 w \<and> rw_telemetry w = out \<and> remdups_adj (map logical out) = take m L"
proof -
  obtain L w1 where st: "starts sample_service sample_slot sample_start L idle_world w1"
    by (rule sample_starts)
  let ?w = "task_step sample_service sample_slot w1"
  have step: "replay_step sample_service w1 ?w" by (rule replay_step.task)
  then have "(replay_step sample_service)\<^sup>*\<^sup>* w1 ?w" by blast
  from replay_delivers_in_order [OF st this] obtain out m where
    "rw_telemetry ?w = rw_telemetry idle_world @ out" "remdups_adj (map logical out) = take m L" by blast
  with st step show ?thesis by (auto simp: idle_world_def)
qed


text \<open>The same session with a crash right after the start, run to completion.\<close>

lemma task_steps: "(replay_step sv)\<^sup>*\<^sup>* w (foldl (\<lambda>w s. task_step sv s w) w sls)"
  by (induction sls arbitrary: w) (auto intro: converse_rtranclp_into_rtranclp replay_step.task)

lemma sample_completed:
  obtains L w1 w db c where "starts sample_service sample_slot sample_start L idle_world w1"
    "map source_timestamp L = [0, seconds 10, seconds 20]" "(replay_step sample_service)\<^sup>*\<^sup>* w1 w"
    "rw_db w = Some db" "load_replay_checkpoint db (replay_session_id sample_start) = Some c" "cp_state c = COMPLETED"
proof -
  obtain L w1 db c where st: "starts sample_service sample_slot sample_start L idle_world w1"
      "map source_timestamp L = [0, seconds 10, seconds 20]"
    and c: "rw_db w1 = Some db" "load_replay_checkpoint db (replay_session_id sample_start) = Some c"
      "cp_state c = RUNNING"
    by (rule sample_starts)
  let ?sls = "replicate 7 sample_slot"
  have sls: "2 * length L + 1 \<le> length ?sls" using arg_cong [OF st(2), of length] by simp
  have acked: "\<forall>s \<in> set ?sls. sl_send s = Acked" by (simp add: sample_slot_def)
  from recovery_completes [OF st(1) rtranclp.rtrancl_refl c sls acked, of sample_slot] obtain w2 w' db' c' where
    w': "restart sample_service sample_slot w1 = (Inr (), w2)"
      "w' = foldl (\<lambda>w s. task_step sample_service s w) w2 ?sls" "rw_db w' = Some db'"
      "load_replay_checkpoint db' (replay_session_id sample_start) = Some c'" "cp_state c' = COMPLETED" by blast
  have "(replay_step sample_service)\<^sup>*\<^sup>* w1 w'"
    using replay_step.crash [OF w'(1)] task_steps unfolding w'(2) by (rule converse_rtranclp_into_rtranclp)
  with st show thesis by (rule that) (use w' in simp_all)
qed

section \<open>Where the service loses a session\<close>

text \<open>
  A repeated pause command stops the service for good.  A pause for a session that is
  already paused raises out of the handler, so the record is not committed; the shut-down keeps the
  checkpoint, the restart recovers the session as paused, and the redelivered command raises again.
\<close>

theorem repeated_pause_is_fatal:
  assumes w: "rw_active w = Some s" "\<not> tk_done (ss_task s)" "tk_current (ss_task s) = None"
      "tk_end (ss_task s) = None" "rc_session_id (ss_controller s) = replay_session_id cmd"
      "rc_state (ss_controller s) = PAUSED"
    and db: "rw_db w = Some db" "checkpoint_row db (replay_session_id cmd) c" "cp_state c = PAUSED"
      "cp_replay_session_id c = replay_session_id cmd" "same_replay (cp_command c) (cp_command c)"
      "replay_session_id (cp_command c) = replay_session_id cmd"
    and cmd: "action cmd = PAUSE" and decode: "decode (cr_value rec) = Inr cmd"
  shows "\<exists>w1 w2 e. run_commands sha decode sv [(sl, rec)] w = (0, Some e, w1) \<and>
    restart sv sl2 (task_step sv sl1 w1) = (Inr (), w2) \<and>
    (\<exists>e' w3. run_commands sha decode sv [(sl3, rec)] w2 = (0, Some e', w3))"
proof -
  have raise1: "\<exists>e. handle_command sv sl' cmd w' = (Inl e, w')"
    if "rw_active w' = Some s'" "\<not> tk_done (ss_task s')" "rc_session_id (ss_controller s') = replay_session_id cmd"
      "rc_state (ss_controller s') = PAUSED" for w' s' sl'
    using that cmd
    by (auto simp: handle_command_def handle_pause_command_def handle_control_def apply_command_def
        bind_io_def lift_io_def)
  from raise1 [OF w(1,2,5,6), of sl] decode obtain e where
    run: "run_commands sha decode sv [(sl, rec)] w = (0, Some e, stop_service w)"
    by (auto simp: handle_command_record_def)
  let ?w = "task_step sv sl1 (stop_service w)"
  have "rw_db ?w = Some db"
    using w db(1)
    by (auto simp: stop_service_def task_step_def Let_def wait_step_def end_task_def set_task_def
        split: list.splits)
  obtain ctrl where ctrl: "apply_command (created (replay_session_id (cp_command c))
      (source_dataset_sha256 (cp_command c)) (contract_sha256 (cp_command c))) (cp_command c) = Inr ctrl"
    "rc_session_id ctrl = replay_session_id (cp_command c)"
    using db(5) by (auto simp: same_replay_def elim: apply_start)
  have "load_incomplete_replays db = [c]"
    using load_incomplete_row [OF db(2)] db(3) by (simp add: active_state_def)
  with \<open>rw_db ?w = Some db\<close> ctrl(1) db(3,4,6) obtain w2 s2 where
    w2: "restart sv sl2 ?w = (Inr (), w2)" "rw_active w2 = Some s2" "\<not> tk_done (ss_task s2)"
      "rc_session_id (ss_controller s2) = replay_session_id cmd" "rc_state (ss_controller s2) = PAUSED"
    using ctrl(2) by (auto simp: restart_def start_service_def resume_checkpoint_def split: prod.splits)
  from raise1 [OF w2(2-5), of sl3] decode
  have "\<exists>e' w3. run_commands sha decode sv [(sl3, rec)] w2 = (0, Some e', w3)"
    by (auto simp: handle_command_record_def)
  with run w2(1) show ?thesis by blast
qed

text \<open>
  A graceful shut-down can end a session that a crash would have resumed.  When the
  service is stopped while an event is being sent, the checkpoint written after the acknowledgement
  is \<open>STOPPED\<close>; the next start finds no incomplete session, whatever is left of the stream.
\<close>

theorem graceful_stop_abandons_session:
  assumes w: "rw_active w = Some s" "\<not> tk_done (ss_task s)" "tk_current (ss_task s) = Some event"
      "tk_command (ss_task s) = Some cmd"
    and db: "rw_db w = Some db" "checkpoint_row db (replay_session_id cmd) c" and send: "sl_send sl = Acked"
  shows "\<exists>db' c' w2. rw_db (task_step sv sl (stop_service w)) = Some db' \<and>
    load_replay_checkpoint db' (replay_session_id cmd) = Some c' \<and> cp_state c' = STOPPED \<and>
    restart sv sl2 (task_step sv sl (stop_service w)) = (Inr (), w2) \<and> rw_active w2 = None"
proof -
  let ?w = "(stop_service w)\<lparr>rw_telemetry := rw_telemetry w @ [event]\<rparr>"
  have "rw_db ?w = Some db" using w db by (simp add: stop_service_def)
  with save_checkpoint_row [of ?w db cmd c STOPPED sl "sequence event" "Some (source_timestamp event)"] db(2)
  obtain db' where db': "save_checkpoint sl cmd STOPPED (sequence event) (Some (source_timestamp event)) ?w =
      (Inr (), ?w\<lparr>rw_db := Some db'\<rparr>)"
    "checkpoint_row db' (replay_session_id cmd) (new_checkpoint cmd STOPPED (sequence event) (Some (source_timestamp event)))"
    by auto
  have "rw_db (task_step sv sl (stop_service w)) = Some db'"
    using w send db'(1)
    by (simp add: task_step_def stop_service_def send_step_def publish_telemetry_def send_def
        checkpoint_state_def advance_def set_task_def)
  moreover have "load_incomplete_replays db' = []"
    using load_incomplete_row [OF db'(2)] by (simp add: active_state_def)
  moreover have "load_replay_checkpoint db' (replay_session_id cmd) =
      Some (new_checkpoint cmd STOPPED (sequence event) (Some (source_timestamp event)))"
    using db'(2) by (auto simp: checkpoint_row_def load_replay_checkpoint_def)
  ultimately show ?thesis by (auto simp: restart_def start_service_def)
qed

text \<open>
  A redelivered start command reports a running session as failed.  The start command is
  committed only after it was handled; when it is delivered again while its own session is running,
  the service publishes a \<open>FAILED\<close> status for that session, which goes on running.
\<close>

theorem redelivered_start_reports_failure:
  assumes "starts sv sl cmd L w0 w" "sl_send sl2 = Acked"
  shows "\<exists>w' st. handle_command sv sl2 cmd w = (Inr (), w') \<and> rw_statuses w' = rw_statuses w @ [st] \<and>
    status_state st = FAILED \<and> replay_session_id st = replay_session_id cmd \<and>
    rw_active w' = rw_active w \<and> session_running w'"
proof -
  have "stream_inv cmd L (rw_telemetry w0) w"
    using assms(1) start_inv unfolding starts_def by metis
  have cmd: "validate_command runtime_tz cmd = Inr cmd" "action cmd = START" using assms(1) by (simp_all add: starts_def)
  have run: "session_running w"
    using assms(1)
    by (auto simp: starts_def handle_command_def handle_start_command_def session_running_def io_defs
        run_replay_session_def Let_def split: sum.splits option.splits prod.splits send_outcome.splits if_splits)
  let ?ctrl = "mark_failed (created (replay_session_id cmd) (source_dataset_sha256 cmd) (contract_sha256 cmd))
             ''REPLAY_ALREADY_ACTIVE'' 0 (source_timestamp cmd)"
  have "is_hex64 (source_dataset_sha256 cmd)" "is_hex64 (contract_sha256 cmd)"
    using validate_command_hex [OF cmd(1)] by (simp_all add: hex_envelope_def)
  then have "controller_ok ?ctrl" by (simp add: mark_failed_ok created_ok)
  from controller_status_ok [OF this, of "rv_uuid5 sv" "sl_now sl2"] obtain st where
    "controller_status (rv_uuid5 sv) ?ctrl (sl_now sl2) = Inr st" "status_state st = FAILED"
    "replay_session_id st = replay_session_id cmd" by (auto simp: mark_failed_def created_def)
  with run cmd(2) assms(2) show ?thesis
    by (auto simp: handle_command_def handle_start_command_def io_defs session_running_def)
qed

text \<open>A session of the sample service, paused or sending its first event.\<close>

definition sample_checkpoint :: "ReplayState \<Rightarrow> ReplayCheckpoint" where
  "sample_checkpoint st = new_checkpoint sample_start st 0 None"

definition sample_db :: "ReplayState \<Rightarrow> RuntimeDB" where
  "sample_db st = empty_db\<lparr>replay_checkpoints := [(7, sample_checkpoint st, 0)]\<rparr>"

definition sample_task :: "TelemetryEventV1 option \<Rightarrow> session_task" where
  "sample_task cur = \<lparr>tk_ctrl = created 7 zero_sha zero_sha, tk_command = Some sample_start, tk_rest = [],
     tk_end = None, tk_current = cur, tk_prev_ts = None, tk_last_seq = 0, tk_last_ts = Some 0,
     tk_resumed = False, tk_done = False\<rparr>"

definition sample_running :: "ReplayState \<Rightarrow> TelemetryEventV1 option \<Rightarrow> replay_world" where
  "sample_running st cur = idle_world\<lparr>rw_db := Some (sample_db st), rw_active := Some
     \<lparr>ss_controller = (created 7 zero_sha zero_sha)\<lparr>rc_state := st\<rparr>, ss_task = sample_task cur,
      ss_pause_event = (st = RUNNING), ss_stop_event = False\<rparr>\<rparr>"

lemmas sample_running_defs = sample_running_def sample_task_def created_def sample_db_def

lemma sample_checkpoint_row: "checkpoint_row (sample_db st) 7 (sample_checkpoint st)"
  by (simp add: checkpoint_row_def sample_db_def)

lemma sample_same_replay: "same_replay sample_start sample_start"
  by (simp add: same_replay_def command_defs)

theorem repeated_pause_is_fatal_witness:
  "\<exists>w1 e. run_commands (\<lambda>_. zero_sha) (\<lambda>_. Inr (sample_command PAUSE 5 None None)) sample_service
     [(sample_slot, \<lparr>cr_value = (), cr_topic = ''t'', cr_partition = 0, cr_offset = 9\<rparr>)]
     (sample_running PAUSED None) = (0, Some e, w1)"
proof -
  let ?cmd = "sample_command PAUSE 5 None None"
  have "replay_session_id ?cmd = 7" "action ?cmd = PAUSE" "replay_session_id sample_start = 7"
    by (simp_all add: sample_command_def sample_start_def)
  note sid = this
  obtain s where s: "rw_active (sample_running PAUSED None) = Some s" "\<not> tk_done (ss_task s)"
    "tk_current (ss_task s) = None" "tk_end (ss_task s) = None"
    "rc_session_id (ss_controller s) = replay_session_id ?cmd" "rc_state (ss_controller s) = PAUSED"
    by (auto simp: sample_running_defs sid)
  have db: "rw_db (sample_running PAUSED None) = Some (sample_db PAUSED)"
    "checkpoint_row (sample_db PAUSED) (replay_session_id ?cmd) (sample_checkpoint PAUSED)"
    "cp_state (sample_checkpoint PAUSED) = PAUSED"
    "cp_replay_session_id (sample_checkpoint PAUSED) = replay_session_id ?cmd"
    "same_replay (cp_command (sample_checkpoint PAUSED)) (cp_command (sample_checkpoint PAUSED))"
    "replay_session_id (cp_command (sample_checkpoint PAUSED)) = replay_session_id ?cmd"
    using sample_checkpoint_row sample_same_replay sid
    by (simp_all add: sample_running_def sample_checkpoint_def)
  from repeated_pause_is_fatal [OF s db sid(2), where decode = "\<lambda>_. Inr ?cmd" and sv = sample_service
      and sl = sample_slot and sha = "\<lambda>_. zero_sha", OF refl]
  show ?thesis by blast
qed

theorem graceful_stop_abandons_session_witness:
  "\<exists>event w2. restart sample_service sample_slot
      (task_step sample_service sample_slot (stop_service (sample_running RUNNING (Some event)))) = (Inr (), w2) \<and>
     rw_active w2 = None"
proof -
  have sid: "replay_session_id sample_start = 7" by (simp add: sample_command_def sample_start_def)
  obtain s event where s: "rw_active (sample_running RUNNING (Some event)) = Some s" "\<not> tk_done (ss_task s)"
    "tk_current (ss_task s) = Some event" "tk_command (ss_task s) = Some sample_start"
    by (auto simp: sample_running_defs)
  have db: "rw_db (sample_running RUNNING (Some event)) = Some (sample_db RUNNING)"
    by (simp add: sample_running_def)
  have row: "checkpoint_row (sample_db RUNNING) (replay_session_id sample_start) (sample_checkpoint RUNNING)"
    using sample_checkpoint_row sid by simp
  have "sl_send sample_slot = Acked" by (simp add: sample_slot_def)
  from graceful_stop_abandons_session [OF s db row this, of sample_service sample_slot] show ?thesis by blast
qed

theorem redelivered_start_reports_failure_witness:
  "\<exists>L w w' st. starts sample_service sample_slot sample_start L idle_world w \<and>
     handle_command sample_service sample_slot sample_start w = (Inr (), w') \<and>
     rw_statuses w' = rw_statuses w @ [st] \<and> status_state st = FAILED"
proof -
  obtain L w where st: "starts sample_service sample_slot sample_start L idle_world w"
    by (rule sample_starts)
  have "sl_send sample_slot = Acked" by (simp add: sample_slot_def)
  from redelivered_start_reports_failure [OF st this] st show ?thesis by blast
qed

end
