(* ===== verification/Scoring_Client.thy ===== *)
theory Scoring_Client
  imports Runtime_Messages
begin

text \<open>
  \<open>scoring_client.py\<close>: the retrying client of the scoring API.  The transport is the argument
  \<open>post n\<close>, the outcome of the \<open>n\<close>-th request; \<open>decode_ok\<close> parses a response body as \<open>ScoreResponseV1\<close>
  and \<open>decode_error\<close> as \<open>ErrorResponseV1\<close> (Pydantic).  The result of \<open>score\<close> comes with the delays that
  were slept, in order.
\<close>

record RetryPolicy =
  attempts :: nat
  delays_seconds :: "real list"

definition default_retry_policy :: RetryPolicy where
  "default_retry_policy = \<lparr>attempts = 3, delays_seconds = [1 / 4, 1]\<rparr>"

datatype 'b http_outcome =
    HttpResponse int 'b
  | NetworkFailure
  | TransportError exn

record 'b ScoringClient =
  sc_model_version :: string
  sc_retry_policy :: RetryPolicy
  sc_decode_ok :: "'b \<Rightarrow> string + ScoreDecisionV1"
  sc_decode_error :: "'b \<Rightarrow> ApiErrorV1 option"
  sc_text :: "'b \<Rightarrow> string"

definition retryable_statuses :: "int list" where
  "retryable_statuses = [429, 500, 502, 503, 504]"

definition validated_decision ::
  "'b ScoringClient \<Rightarrow> int \<Rightarrow> 'b \<Rightarrow> FeatureVectorV1 \<Rightarrow> exn + ScoreDecisionV1"
where
  "validated_decision c status body feature =
     (if status = 200 then
        (case sc_decode_ok c body of
           Inl err \<Rightarrow> Inl (PermanentScoringError (''Scoring API returned invalid ScoreResponseV1: '' @ err))
         | Inr decision \<Rightarrow>
             run_checks
               [(model_version decision \<noteq> sc_model_version c,
                   PermanentScoringError ''Scoring API model_version mismatch''),
                (window_id decision \<noteq> fv_window_id feature,
                   PermanentScoringError ''Scoring API window_id mismatch''),
                (replay_session_id decision \<noteq> replay_session_id feature,
                   PermanentScoringError ''Scoring API replay_session_id mismatch''),
                (source_dataset_sha256 decision \<noteq> source_dataset_sha256 feature,
                   PermanentScoringError ''Scoring API source_dataset_sha256 mismatch''),
                (contract_sha256 decision \<noteq> contract_sha256 feature,
                   PermanentScoringError ''Scoring API contract_sha256 mismatch'')] decision)
      else if status \<in> set retryable_statuses then Inl RetryableScoringError
      else Inl (PermanentScoringError
        (case sc_decode_error c body of
           Some err \<Rightarrow> code err @ '': '' @ api_message err
         | None \<Rightarrow> take 200 (sc_text c body))))"

text \<open>One pass of the \<open>for\<close> loop: the exceptions it catches and what the handlers do.\<close>

definition attempt_outcome ::
  "'b ScoringClient \<Rightarrow> 'b http_outcome \<Rightarrow> FeatureVectorV1 \<Rightarrow> exn + ScoreDecisionV1"
where
  "attempt_outcome c outcome feature =
     (case outcome of
        HttpResponse status body \<Rightarrow> validated_decision c status body feature
      | NetworkFailure \<Rightarrow> Inl RetryableScoringError
      | TransportError e \<Rightarrow> Inl e)"

text \<open>\<open>left\<close> is how many passes the loop still has.\<close>

fun score_loop ::
  "'b ScoringClient \<Rightarrow> (nat \<Rightarrow> 'b http_outcome) \<Rightarrow> FeatureVectorV1 \<Rightarrow> nat \<Rightarrow> nat
     \<Rightarrow> (exn + ScoreDecisionV1) \<times> real list"
where
  "score_loop c post feature attempt 0 = (Inl AssertionError, [])"
| "score_loop c post feature attempt (Suc left) =
     (case attempt_outcome c (post attempt) feature of
        Inr decision \<Rightarrow> (Inr decision, [])
      | Inl e \<Rightarrow>
          (if e \<noteq> RetryableScoringError then (Inl e, [])
           else if attempt + 1 \<ge> attempts (sc_retry_policy c) then (Inl RetryableScoringError, [])
           else if attempt < length (delays_seconds (sc_retry_policy c)) then
             (let (r, slept) = score_loop c post feature (attempt + 1) left
              in (r, delays_seconds (sc_retry_policy c) ! attempt # slept))
           else (Inl IndexError, [])))"

definition score_feature ::
  "'b ScoringClient \<Rightarrow> (nat \<Rightarrow> 'b http_outcome) \<Rightarrow> FeatureVectorV1 \<Rightarrow> (exn + ScoreDecisionV1) \<times> real list"
where
  "score_feature c post feature =
     (case validate_score_request \<lparr>sr_model_version = sc_model_version c, sr_feature_vector = feature\<rparr> of
        Inl e \<Rightarrow> (Inl e, [])
      | Inr _ \<Rightarrow> score_loop c post feature 0 (attempts (sc_retry_policy c)))"

section \<open>Retry behaviour\<close>

definition transient :: "'b ScoringClient \<Rightarrow> FeatureVectorV1 \<Rightarrow> 'b http_outcome \<Rightarrow> bool" where
  "transient c feature outcome \<longleftrightarrow> attempt_outcome c outcome feature = Inl RetryableScoringError"

definition matches_feature :: "'b ScoringClient \<Rightarrow> FeatureVectorV1 \<Rightarrow> ScoreDecisionV1 \<Rightarrow> bool" where
  "matches_feature c feature d \<longleftrightarrow> model_version d = sc_model_version c \<and>
     window_id d = fv_window_id feature \<and> replay_session_id d = replay_session_id feature \<and>
     source_dataset_sha256 d = source_dataset_sha256 feature \<and>
     contract_sha256 d = contract_sha256 feature"

lemma attempt_outcome_matches:
  assumes "attempt_outcome c outcome feature = Inr d"
  shows "matches_feature c feature d \<and> (\<exists>body. outcome = HttpResponse 200 body \<and> sc_decode_ok c body = Inr d)"
  using assms
  by (auto simp: attempt_outcome_def validated_decision_def err_simps matches_feature_def
      split: http_outcome.splits if_splits sum.splits)

text \<open>The loop from pass \<open>n\<close> on: it sleeps before every retry and stops at the first outcome that is
  not transient, or after the last pass.\<close>

lemma score_loop_spec:
  assumes "n + left = attempts (sc_retry_policy c)" "0 < left"
    and "attempts (sc_retry_policy c) \<le> Suc (length (delays_seconds (sc_retry_policy c)))"
    and "score_loop c post feature n left = (r, slept)"
  shows "length slept < left \<and>
    slept = take (length slept) (drop n (delays_seconds (sc_retry_policy c))) \<and>
    (\<forall>i < length slept. transient c feature (post (n + i))) \<and>
    r = attempt_outcome c (post (n + length slept)) feature \<and>
    (r = Inl RetryableScoringError \<longrightarrow> Suc (length slept) = left)"
  using assms
proof (induction left arbitrary: n slept)
  case (Suc left)
  let ?ds = "delays_seconds (sc_retry_policy c)"
  show ?case
  proof (cases "transient c feature (post n) \<and> 0 < left")
    case False
    with Suc.prems show ?thesis by (auto simp: transient_def split: sum.splits if_splits)
  next
    case True
    with Suc.prems obtain slept' where rest: "score_loop c post feature (n + 1) left = (r, slept')"
      "slept = ?ds ! n # slept'" and n: "n < length ?ds"
      by (auto simp: transient_def split: prod.splits if_splits)
    from Suc.IH [of "n + 1" slept'] Suc.prems True rest(1)
    have ih: "length slept' < left" "slept' = take (length slept') (drop (n + 1) ?ds)"
      "\<forall>i < length slept'. transient c feature (post (n + 1 + i))"
      "r = attempt_outcome c (post (n + 1 + length slept')) feature"
      "r = Inl RetryableScoringError \<longrightarrow> Suc (length slept') = left" by auto
    have "drop n ?ds = ?ds ! n # drop (n + 1) ?ds" using n by (simp add: Cons_nth_drop_Suc)
    with ih rest(2) True show ?thesis by (auto simp: less_Suc_eq_0_disj)
  qed
qed simp

text \<open>
  C35 (bounds): retries are bounded and never change the answer.  With a delay configured for every
  retry, a score call makes at most \<open>attempts\<close> requests, sleeps exactly the configured delays in order
  before each retry, retries after transient failures only, and returns the outcome of its last
  request: a decision it returns answers the feature vector it was asked for (model, window, session
  and both digests), and it gives up with \<open>RetryableScoringError\<close> only after the last attempt.
\<close>

theorem scoring_retries_bounded:
  assumes "0 < attempts (sc_retry_policy c)"
    and "attempts (sc_retry_policy c) \<le> Suc (length (delays_seconds (sc_retry_policy c)))"
    and "sc_model_version c \<noteq> []" "length (sc_model_version c) \<le> 200"
    and "score_feature c post feature = (r, slept)"
  shows "length slept < attempts (sc_retry_policy c) \<and>
    slept = take (length slept) (delays_seconds (sc_retry_policy c)) \<and>
    (\<forall>i < length slept. transient c feature (post i)) \<and>
    r = attempt_outcome c (post (length slept)) feature \<and>
    (\<forall>d. r = Inr d \<longrightarrow> matches_feature c feature d) \<and>
    (r = Inl RetryableScoringError \<longrightarrow> Suc (length slept) = attempts (sc_retry_policy c))"
proof -
  have "score_loop c post feature 0 (attempts (sc_retry_policy c)) = (r, slept)"
    using assms(3-5) by (auto simp: score_feature_def validate_score_request_def check_defs split: sum.splits)
  from score_loop_spec [OF _ assms(1,2) this] show ?thesis
    using attempt_outcome_matches [of c "post (length slept)" feature] by auto
qed

definition sample_client :: "unit ScoringClient" where
  "sample_client = \<lparr>sc_model_version = ''m1'', sc_retry_policy = default_retry_policy,
     sc_decode_ok = (\<lambda>_. Inl ''bad''), sc_decode_error = (\<lambda>_. None), sc_text = (\<lambda>_. [])\<rparr>"

definition sample_feature :: FeatureVectorV1 where
  "sample_feature = \<lparr>message_id = 5, replay_session_id = 7, source_dataset_sha256 = zero_sha,
     contract_sha256 = zero_sha, source_timestamp = seconds 1800, emitted_at = 0, fv_window_id = 5,
     fv_machine_id = ''metropt3'', fv_window_start = 0, fv_window_end = seconds 1800,
     fv_feature_names = [''tp2_last''], fv_feature_values = [Fin 1],
     fv_coverage = \<lparr>observations_by_bin = replicate 6 30, bin_ends = map (\<lambda>i. seconds (300 * i)) [1, 2, 3, 4, 5, 6]\<rparr>\<rparr>"

theorem scoring_retries_bounded_witness:
  "\<exists>slept. score_feature sample_client (\<lambda>_. HttpResponse 503 ()) sample_feature =
      (Inl RetryableScoringError, slept) \<and> slept = [1 / 4, 1]"
proof -
  obtain r slept where r: "score_feature sample_client (\<lambda>_. HttpResponse 503 ()) sample_feature = (r, slept)"
    by (cases "score_feature sample_client (\<lambda>_. HttpResponse 503 ()) sample_feature")
  have c: "0 < attempts (sc_retry_policy sample_client)"
    "attempts (sc_retry_policy sample_client) \<le> Suc (length (delays_seconds (sc_retry_policy sample_client)))"
    "sc_model_version sample_client \<noteq> []" "length (sc_model_version sample_client) \<le> 200"
    by (simp_all add: sample_client_def default_retry_policy_def)
  from scoring_retries_bounded [OF c r] have s: "r = Inl RetryableScoringError" "length slept = 2"
    "slept = take (length slept) [1 / 4, 1]"
    by (auto simp: attempt_outcome_def validated_decision_def retryable_statuses_def sample_client_def
        default_retry_policy_def)
  from s(3) have "slept = [1 / 4, 1]" unfolding s(2) by simp
  with r s(1) show ?thesis by blast
qed

end
