(* ===== verification/Worker.thy ===== *)
theory Worker
  imports Scoring_Client Online_Features
begin

text \<open>
  \<open>worker.py\<close>: the streaming worker, which feeds the telemetry topic to one feature builder per
  replay session, scores every completed window and commits the offsets of a session when it is over.

  The world of the worker is its dictionaries and sets, and what it sent and committed.  A handler
  returns its result or exception with the world it leaves: an exception leaves \<open>run\<close> and ends the
  process, and what was sent before it stays sent.  \<open>Sends\<close> are taken to succeed; the scoring client,
  the decoder, SHA-256 and the drift indicator are arguments.  Prometheus counters are not modelled,
  except that computing the drift indicator can raise.
\<close>

record WorkerSettings =
  ws_model_version :: string
  ws_source_dataset_sha256 :: sha256
  ws_contract_sha256 :: sha256
  ws_feature_names :: "string list"

type_synonym topic_partition = "string \<times> int"

record StreamingWorker =
  wk_builders :: "uuid \<rightharpoonup> OnlineFeatureBuilder"
  wk_terminal_status :: "uuid \<rightharpoonup> ReplayStatusV1"
  wk_last_sequence :: "uuid \<rightharpoonup> int"
  wk_session_offsets :: "uuid \<Rightarrow> (topic_partition, int) table"
  wk_rolling_features :: "uuid \<Rightarrow> (string, pyfloat list) table"
  wk_failed_sessions :: "uuid set"
  wk_blocked_partitions :: "topic_partition set"
  wk_self_emitted_status_ids :: "uuid set"
  wk_features :: "FeatureVectorV1 list"
  wk_scores :: "ScoreDecisionV1 list"
  wk_statuses :: "ReplayStatusV1 list"
  wk_quarantine :: "QuarantineRecordV1 list"
  wk_commits :: "(topic_partition, int) table list"

definition new_worker :: StreamingWorker where
  "new_worker =
     \<lparr>wk_builders = (\<lambda>_. None), wk_terminal_status = (\<lambda>_. None), wk_last_sequence = (\<lambda>_. None),
      wk_session_offsets = (\<lambda>_. []), wk_rolling_features = (\<lambda>_. []), wk_failed_sessions = {},
      wk_blocked_partitions = {}, wk_self_emitted_status_ids = {}, wk_features = [], wk_scores = [],
      wk_statuses = [], wk_quarantine = [], wk_commits = []\<rparr>"

text \<open>What a call takes from outside.\<close>

record 'b worker_env =
  we_settings :: WorkerSettings
  we_online :: online_env
  we_score :: "FeatureVectorV1 \<Rightarrow> exn + ScoreDecisionV1"
  we_psi :: "((string, pyfloat list) table \<Rightarrow> exn + real) option"
  we_decode_telemetry :: "'b \<Rightarrow> string + TelemetryEventV1"
  we_decode_status :: "'b \<Rightarrow> string + ReplayStatusV1"
  we_sha :: "'b \<Rightarrow> sha256"
  we_now :: datetime
  we_uuid :: uuid

record 'b worker_record =
  wr_topic :: string
  wr_partition :: int
  wr_offset :: int
  wr_value :: 'b

definition modify :: "(StreamingWorker \<Rightarrow> StreamingWorker) \<Rightarrow> (StreamingWorker, unit) io" where
  "modify f w = (Inr (), f w)"

section \<open>Sending\<close>

definition worker_quarantine ::
  "'b worker_env \<Rightarrow> 'b worker_record \<Rightarrow> string \<Rightarrow> string \<Rightarrow> (StreamingWorker, unit) io"
where
  "worker_quarantine env rec error_code error_detail =
     bind_io (lift_io (validate_quarantine runtime_tz
       \<lparr>q_message_id = we_uuid env, q_replay_session_id = None, q_source_dataset_sha256 = zero_sha,
        q_contract_sha256 = zero_sha, q_source_timestamp = seconds 1577836800,
        q_emitted_at = we_now env, q_original_topic = wr_topic rec, q_partition = wr_partition rec,
        q_offset = wr_offset rec, q_payload_sha256 = we_sha env (wr_value rec),
        q_error_code = error_code, q_error_detail = take 1000 error_detail\<rparr>))
       (\<lambda>q. modify (\<lambda>w. w\<lparr>wk_quarantine := wk_quarantine w @ [q]\<rparr>))"

definition worker_fail_session ::
  "'b worker_env \<Rightarrow> uuid \<Rightarrow> string \<Rightarrow> int \<Rightarrow> datetime \<Rightarrow> (StreamingWorker, unit) io"
where
  "worker_fail_session env session error_code last_seq source_ts =
     bind_io (modify (\<lambda>w. w\<lparr>wk_failed_sessions := insert session (wk_failed_sessions w),
         wk_self_emitted_status_ids := insert (we_uuid env) (wk_self_emitted_status_ids w)\<rparr>)) (\<lambda>_.
     bind_io (lift_io (validate_status runtime_tz
         \<lparr>message_id = we_uuid env, replay_session_id = session,
          source_dataset_sha256 = ws_source_dataset_sha256 (we_settings env),
          contract_sha256 = ws_contract_sha256 (we_settings env), source_timestamp = source_ts,
          emitted_at = we_now env, status_state = FAILED, status_last_sequence = Some last_seq,
          status_error_code = Some error_code\<rparr>)) (\<lambda>st.
       modify (\<lambda>w. w\<lparr>wk_statuses := wk_statuses w @ [st]\<rparr>)))"

section \<open>Features\<close>

text \<open>\<open>session_feats[name].append(val)\<close> on the default dictionary, with the bound of 36.\<close>

definition roll_feature ::
  "(string, pyfloat list) table \<Rightarrow> string \<times> pyfloat \<Rightarrow> (string, pyfloat list) table"
where
  "roll_feature feats = (\<lambda>(name, val). upsert name [val] (push_bounded 36 val) feats)"

definition roll_features ::
  "(string, pyfloat list) table \<Rightarrow> FeatureVectorV1 \<Rightarrow> (string, pyfloat list) table"
where
  "roll_features feats feature =
     foldl roll_feature feats (zip (fv_feature_names feature) (fv_feature_values feature))"

definition drift_check :: "'b worker_env \<Rightarrow> (string, pyfloat list) table \<Rightarrow> exn + unit" where
  "drift_check env feats =
     (case we_psi env of
        None \<Rightarrow> Inr ()
      | Some psi \<Rightarrow>
          (if (case feats of [] \<Rightarrow> 0 | (_, vals) # _ \<Rightarrow> length vals) \<ge> 12
           then bind_err (psi feats) (\<lambda>_. Inr ()) else Inr ()))"

definition scoring_error_code :: "exn \<Rightarrow> string" where
  "scoring_error_code e = (if e = RetryableScoringError then ''SCORING_RETRY_EXHAUSTED''
     else ''SCORING_CONTRACT_MISMATCH'')"

definition is_scoring_error :: "exn \<Rightarrow> bool" where
  "is_scoring_error e \<longleftrightarrow> (case e of RetryableScoringError \<Rightarrow> True | PermanentScoringError _ \<Rightarrow> True | _ \<Rightarrow> False)"

definition process_feature :: "'b worker_env \<Rightarrow> FeatureVectorV1 \<Rightarrow> (StreamingWorker, unit) io" where
  "process_feature env feature w =
     (let session = replay_session_id feature;
          feats = roll_features (wk_rolling_features w session) feature;
          w1 = w\<lparr>wk_rolling_features := (wk_rolling_features w)(session := feats)\<rparr>
      in case drift_check env feats of
           Inl e \<Rightarrow> (Inl e, w1)
         | Inr _ \<Rightarrow>
             (let w2 = w1\<lparr>wk_features := wk_features w1 @ [feature]\<rparr> in
              case we_score env feature of
                Inr decision \<Rightarrow> (Inr (), w2\<lparr>wk_scores := wk_scores w2 @ [decision]\<rparr>)
              | Inl err \<Rightarrow>
                  (if is_scoring_error err then
                     bind_io (worker_fail_session env session (scoring_error_code err)
                         (case wk_last_sequence w2 session of None \<Rightarrow> 0 | Some n \<Rightarrow> n)
                         (source_timestamp feature))
                       (\<lambda>_. lift_io (Inl SessionFailedError)) w2
                   else (Inl err, w2))))"

fun process_features :: "'b worker_env \<Rightarrow> FeatureVectorV1 list \<Rightarrow> (StreamingWorker, unit) io" where
  "process_features env [] = lift_io (Inr ())"
| "process_features env (f # fs) = bind_io (process_feature env f) (\<lambda>_. process_features env fs)"

section \<open>Records\<close>

definition complete_session :: "'b worker_env \<Rightarrow> ReplayStatusV1 \<Rightarrow> (StreamingWorker, unit) io" where
  "complete_session env status w =
     (let session = replay_session_id status in
      if session \<in> wk_failed_sessions w then (Inr (), w)
      else
        bind_io
          (\<lambda>w. case wk_builders w session of
              None \<Rightarrow> (Inr (), w)
            | Some b \<Rightarrow>
                (if fb_is_complete b then (Inr (), w)
                 else case Online_Features.complete (we_online env) (we_now env) b (source_timestamp status) of
                     Inl e \<Rightarrow> (Inl e, w)
                   | Inr (b', res) \<Rightarrow>
                       process_features env (features res)
                         (w\<lparr>wk_builders := (wk_builders w)(session \<mapsto> b')\<rparr>)))
          (\<lambda>_. modify (\<lambda>w. if wk_session_offsets w session = [] then w
             else w\<lparr>wk_commits := wk_commits w @ [wk_session_offsets w session]\<rparr>)) w)"

definition DEFAULT_ANALOG_COLS :: "string list" where
  "DEFAULT_ANALOG_COLS = [''tp2'', ''tp3'', ''h1'', ''dv_pressure'', ''reservoirs'', ''oil_temperature'',
     ''motor_current'']"

definition new_builder :: "WorkerSettings \<Rightarrow> uuid \<Rightarrow> string \<Rightarrow> OnlineFeatureBuilder" where
  "new_builder settings session machine =
     \<lparr>fb_replay_session_id = session, fb_machine_id = machine,
      fb_source_dataset_sha256 = ws_source_dataset_sha256 settings,
      fb_contract_sha256 = ws_contract_sha256 settings, fb_feature_names = ws_feature_names settings,
      fb_stride_seconds = 300, fb_lookback_bins = 6, fb_min_bin_observations = 24,
      fb_analog_cols = DEFAULT_ANALOG_COLS, fb_digital_cols = predictor_digital PHASE1C,
      fb_last_sequence = None, fb_last_timestamp = None, fb_last_event_id = None,
      fb_last_payload_hash = None, fb_current_bin_end = None, fb_current_bin_samples = [],
      fb_valid_bin_buffer = [], fb_is_complete = False\<rparr>"

definition track_offset :: "uuid \<Rightarrow> topic_partition \<Rightarrow> int \<Rightarrow> StreamingWorker \<Rightarrow> StreamingWorker" where
  "track_offset session tp offset w =
     w\<lparr>wk_session_offsets := (wk_session_offsets w)(session :=
         upsert tp (offset + 1) (\<lambda>_. offset + 1) (wk_session_offsets w session))\<rparr>"

definition accept_telemetry :: "'b worker_env \<Rightarrow> TelemetryEventV1 \<Rightarrow> (StreamingWorker, unit) io" where
  "accept_telemetry env event w =
     (let session = replay_session_id event;
          builder = (case wk_builders w session of
             Some b \<Rightarrow> b | None \<Rightarrow> new_builder (we_settings env) session (te_machine_id event));
          w1 = w\<lparr>wk_builders := (wk_builders w)(session \<mapsto> builder)\<rparr>
      in case push (we_online env) (we_now env) builder event of
           Inl e \<Rightarrow> (Inl e, w1)
         | Inr (b', res) \<Rightarrow>
             bind_io (process_features env (features res))
               (\<lambda>_ w. case wk_terminal_status w session of
                   Some term \<Rightarrow>
                     (if status_state term = COMPLETED \<and> status_last_sequence term = Some (sequence event)
                      then complete_session env term w else (Inr (), w))
                 | None \<Rightarrow> (Inr (), w))
               (w1\<lparr>wk_builders := (wk_builders w1)(session \<mapsto> b'),
                   wk_last_sequence := (wk_last_sequence w1)(session \<mapsto> sequence event),
                   wk_rolling_features :=
                     (if segment_closed_reason res \<noteq> None then (wk_rolling_features w1)(session := [])
                      else wk_rolling_features w1)\<rparr>))"

definition handle_telemetry_record :: "'b worker_env \<Rightarrow> 'b worker_record \<Rightarrow> (StreamingWorker, unit) io" where
  "handle_telemetry_record env rec w =
     (let tp = (wr_topic rec, wr_partition rec) in
      if tp \<in> wk_blocked_partitions w then (Inr (), w)
      else case we_decode_telemetry env (wr_value rec) of
          Inl detail \<Rightarrow>
            worker_quarantine env rec ''INVALID_TELEMETRY_PAYLOAD'' detail
              (w\<lparr>wk_blocked_partitions := insert tp (wk_blocked_partitions w)\<rparr>)
        | Inr event \<Rightarrow>
            (let session = replay_session_id event in
             if session \<in> wk_failed_sessions w then (Inr (), w)
             else if source_dataset_sha256 event \<noteq> ws_source_dataset_sha256 (we_settings env)
                  \<or> contract_sha256 event \<noteq> ws_contract_sha256 (we_settings env) then
               bind_io (worker_quarantine env rec ''TELEMETRY_IDENTITY_MISMATCH''
                   ''telemetry identity does not match scoring package'')
                 (\<lambda>_. worker_fail_session env session ''TELEMETRY_IDENTITY_MISMATCH''
                    (case wk_last_sequence w session of None \<Rightarrow> 0 | Some n \<Rightarrow> n)
                    (source_timestamp event)) w
             else accept_telemetry env event (track_offset session tp (wr_offset rec) w)))"

definition handle_status_record :: "'b worker_env \<Rightarrow> 'b worker_record \<Rightarrow> (StreamingWorker, unit) io" where
  "handle_status_record env rec w =
     (let tp = (wr_topic rec, wr_partition rec) in
      case we_decode_status env (wr_value rec) of
        Inl detail \<Rightarrow>
          worker_quarantine env rec ''INVALID_STATUS_PAYLOAD'' detail
            (w\<lparr>wk_blocked_partitions := insert tp (wk_blocked_partitions w)\<rparr>)
      | Inr status \<Rightarrow>
          (let session = replay_session_id status in
           if message_id status \<in> wk_self_emitted_status_ids w then (Inr (), w)
           else
             (let w1 = track_offset session tp (wr_offset rec) w in
              if status_state status = FAILED
              then (Inr (), w1\<lparr>wk_failed_sessions := insert session (wk_failed_sessions w1)\<rparr>)
              else if status_state status \<in> {COMPLETED, STOPPED} then
                (let w2 = w1\<lparr>wk_terminal_status := (wk_terminal_status w1)(session \<mapsto> status)\<rparr>;
                     current_seq = (case wk_last_sequence w2 session of None \<Rightarrow> 0 | Some n \<Rightarrow> n)
                 in case status_last_sequence status of
                      Some n \<Rightarrow> (if current_seq \<ge> n then complete_session env status w2 else (Inr (), w2))
                    | None \<Rightarrow> (Inr (), w2))
              else (Inr (), w1))))"

definition TELEMETRY_TOPIC :: string where "TELEMETRY_TOPIC = ''irp.telemetry.v1''"
definition REPLAY_STATUS_TOPIC :: string where "REPLAY_STATUS_TOPIC = ''irp.replay.status.v1''"

definition handle_record :: "'b worker_env \<Rightarrow> 'b worker_record \<Rightarrow> (StreamingWorker, unit) io" where
  "handle_record env rec =
     (if wr_topic rec = TELEMETRY_TOPIC then handle_telemetry_record env rec
      else if wr_topic rec = REPLAY_STATUS_TOPIC then handle_status_record env rec
      else lift_io (Inr ()))"

fun run_worker :: "('b worker_env \<times> 'b worker_record) list \<Rightarrow> (StreamingWorker, unit) io" where
  "run_worker [] = lift_io (Inr ())"
| "run_worker ((env, rec) # recs) = bind_io (handle_record env rec) (\<lambda>_. run_worker recs)"

section \<open>Sessions do not interfere\<close>

text \<open>A record with a telemetry event of the worker's own identity.\<close>

definition telemetry_of :: "'b worker_env \<Rightarrow> 'b worker_record \<Rightarrow> TelemetryEventV1 \<Rightarrow> bool" where
  "telemetry_of env rec e \<longleftrightarrow> wr_topic rec = TELEMETRY_TOPIC \<and>
     we_decode_telemetry env (wr_value rec) = Inr e \<and>
     source_dataset_sha256 e = ws_source_dataset_sha256 (we_settings env) \<and>
     contract_sha256 e = ws_contract_sha256 (we_settings env)"

text \<open>The environment of a run: one configuration, a scorer that answers, no drift reference.\<close>

definition steady ::
  "WorkerSettings \<Rightarrow> online_env \<Rightarrow> (FeatureVectorV1 \<Rightarrow> ScoreDecisionV1) \<Rightarrow> 'b worker_env \<Rightarrow> bool"
where
  "steady settings online answer env \<longleftrightarrow> we_settings env = settings \<and> we_online env = online \<and>
     we_psi env = None \<and> we_score env = (\<lambda>f. Inr (answer f))"

definition clean :: "StreamingWorker \<Rightarrow> bool" where
  "clean w \<longleftrightarrow> wk_failed_sessions w = {} \<and> wk_blocked_partitions w = {} \<and>
     wk_terminal_status w = (\<lambda>_. None) \<and>
     (\<forall>s b. wk_builders w s = Some b \<longrightarrow> fb_replay_session_id b = s)"

definition builder_of :: "WorkerSettings \<Rightarrow> string \<Rightarrow> StreamingWorker \<Rightarrow> uuid \<Rightarrow> OnlineFeatureBuilder" where
  "builder_of settings machine w s =
     (case wk_builders w s of Some b \<Rightarrow> b | None \<Rightarrow> new_builder settings s machine)"

definition timed_event :: "'b worker_env \<times> 'b worker_record \<Rightarrow> datetime \<times> TelemetryEventV1" where
  "timed_event = (\<lambda>(env, rec). (we_now env, projr (we_decode_telemetry env (wr_value rec))))"

definition session_events ::
  "uuid \<Rightarrow> ('b worker_env \<times> 'b worker_record) list \<Rightarrow> (datetime \<times> TelemetryEventV1) list"
where
  "session_events s recs = filter (\<lambda>(_, e). replay_session_id e = s) (map timed_event recs)"

lemma emit_window_session:
  "emit_window env now b buf = Inr f \<Longrightarrow> replay_session_id f = fb_replay_session_id b"
  by (auto simp: emit_window_def Let_def err_simps validate_feature_vector_def)

lemma finalize_session:
  "finalize_current_bin env now b = Inr (b', fs) \<Longrightarrow> fb_replay_session_id b' = fb_replay_session_id b \<and>
     (\<forall>f \<in> set fs. replay_session_id f = fb_replay_session_id b)"
  by (auto simp: finalize_current_bin_def Let_def err_simps dest: emit_window_session
      split: option.splits if_splits)

lemma check_sequence_session:
  "check_sequence_and_ordering b e h = (ig, cr, b') \<Longrightarrow> fb_replay_session_id b' = fb_replay_session_id b"
  by (auto simp: check_sequence_and_ordering_def reset_segment_def split: if_splits)

lemma push_session:
  assumes "push env now b e = Inr (b', r)"
  shows "fb_replay_session_id b' = fb_replay_session_id b \<and>
    (\<forall>f \<in> set (features r). replay_session_id f = fb_replay_session_id b)"
proof -
  obtain ig cr b1 where c: "check_sequence_and_ordering b e (hash_event_payload (oe_hash env) e) = (ig, cr, b1)"
    by (metis prod_cases3)
  have b1: "fb_replay_session_id b1 = fb_replay_session_id b" using check_sequence_session [OF c] .
  show ?thesis
  proof (cases ig)
    case True
    with assms c b1 show ?thesis by (auto simp: push_def Let_def)
  next
    case False
    show ?thesis
    proof (cases "fb_current_bin_end b1")
      case None
      with False assms c b1 show ?thesis by (auto simp: push_def Let_def err_simps)
    next
      case (Some k)
      with False assms c b1 show ?thesis
        by (auto simp: push_def Let_def err_simps reset_segment_def dest: finalize_session split: if_splits)
    qed
  qed
qed

text \<open>With a scorer that answers, the features of one result are published and scored in order.\<close>

lemma process_features_steady:
  assumes "steady settings online answer env"
  shows "\<exists>roll. process_features env fs w = (Inr (), w\<lparr>wk_features := wk_features w @ fs,
    wk_scores := wk_scores w @ map answer fs, wk_rolling_features := roll\<rparr>)"
proof (induction fs arbitrary: w)
  case Nil
  have "w = w\<lparr>wk_features := wk_features w @ [], wk_scores := wk_scores w @ map answer [],
      wk_rolling_features := wk_rolling_features w\<rparr>" by simp
  then show ?case unfolding process_features.simps lift_io_def by metis
next
  case (Cons f fs)
  let ?roll = "(wk_rolling_features w)(replay_session_id f :=
      roll_features (wk_rolling_features w (replay_session_id f)) f)"
  let ?w = "w\<lparr>wk_features := wk_features w @ [f], wk_scores := wk_scores w @ [answer f],
      wk_rolling_features := ?roll\<rparr>"
  have p: "process_feature env f w = (Inr (), ?w)"
    using assms by (simp add: process_feature_def Let_def drift_check_def steady_def)
  obtain roll where "process_features env fs ?w = (Inr (), ?w\<lparr>wk_features := wk_features ?w @ fs,
      wk_scores := wk_scores ?w @ map answer fs, wk_rolling_features := roll\<rparr>)"
    using Cons.IH by blast
  with p have "process_features env (f # fs) w = (Inr (), w\<lparr>wk_features := wk_features w @ f # fs,
      wk_scores := wk_scores w @ map answer (f # fs), wk_rolling_features := roll\<rparr>)"
    by (simp add: bind_io_def)
  then show ?case by blast
qed

lemma handle_telemetry_steady:
  assumes env: "steady settings online answer env" "telemetry_of env rec e" and w: "clean w"
    and ok: "handle_record env rec w = (Inr (), w')"
  obtains b' res where
    "push online (we_now env) (builder_of settings (te_machine_id e) w (replay_session_id e)) e = Inr (b', res)"
    "clean w'" "wk_builders w' = (wk_builders w)(replay_session_id e \<mapsto> b')"
    "wk_features w' = wk_features w @ features res" "wk_scores w' = wk_scores w @ map answer (features res)"
    "wk_commits w' = wk_commits w"
proof -
  let ?s = "replay_session_id e" and ?b = "builder_of settings (te_machine_id e) w (replay_session_id e)"
  let ?w0 = "track_offset ?s (wr_topic rec, wr_partition rec) (wr_offset rec) w"
  have acc: "handle_record env rec w = accept_telemetry env e ?w0"
    using env(2) w by (simp add: handle_record_def handle_telemetry_record_def telemetry_of_def clean_def Let_def)
  have b: "(case wk_builders ?w0 ?s of Some b \<Rightarrow> b
      | None \<Rightarrow> new_builder (we_settings env) ?s (te_machine_id e)) = ?b"
    using env(1) by (simp add: builder_of_def track_offset_def steady_def split: option.split)
  from ok acc obtain b' res where push: "push online (we_now env) ?b e = Inr (b', res)"
    using env(1) b by (auto simp: accept_telemetry_def Let_def steady_def split: sum.splits)
  let ?w1 = "?w0\<lparr>wk_builders := (wk_builders ?w0)(?s \<mapsto> b'),
      wk_last_sequence := (wk_last_sequence ?w0)(?s \<mapsto> sequence e),
      wk_rolling_features := (if segment_closed_reason res \<noteq> None
        then (wk_rolling_features ?w0)(?s := []) else wk_rolling_features ?w0)\<rparr>"
  obtain roll where pf: "process_features env (features res) ?w1 = (Inr (), ?w1\<lparr>wk_features := wk_features ?w1 @ features res,
      wk_scores := wk_scores ?w1 @ map answer (features res), wk_rolling_features := roll\<rparr>)"
    using process_features_steady [OF env(1)] by blast
  have push': "push (we_online env) (we_now env) ?b e = Inr (b', res)" using push env(1) by (simp add: steady_def)
  have w': "w' = ?w1\<lparr>wk_features := wk_features ?w1 @ features res,
      wk_scores := wk_scores ?w1 @ map answer (features res), wk_rolling_features := roll\<rparr>"
    using ok acc push' b pf w
    by (cases "segment_closed_reason res")
      (simp_all add: accept_telemetry_def Let_def bind_io_def clean_def track_offset_def)
  have "fb_replay_session_id ?b = ?s"
    using w by (auto simp: builder_of_def clean_def new_builder_def split: option.splits)
  with push_session [OF push] have "fb_replay_session_id b' = ?s" by simp
  with w w' have "clean w'" by (simp add: clean_def track_offset_def)
  with push w' show thesis by (intro that [of b' res]) (simp_all add: track_offset_def)
qed

lemma filter_session_features:
  "(\<forall>f \<in> set fs. replay_session_id f = k) \<Longrightarrow>
     filter (\<lambda>f. replay_session_id f = s) fs = (if k = s then fs else [])"
  by (induction fs) auto

lemma worker_run_steady:
  assumes "\<forall>(env, rec) \<in> set recs. steady settings online answer env \<and>
      (\<exists>e. telemetry_of env rec e \<and> te_machine_id e = machine)"
    and "clean w" "run_worker recs w = (Inr (), w')"
  shows "clean w' \<and> (\<exists>new. wk_features w' = wk_features w @ new \<and> wk_scores w' = wk_scores w @ map answer new \<and>
    wk_commits w' = wk_commits w \<and>
    (\<forall>s. \<exists>outs. run_err (push_io online) (builder_of settings machine w s) (session_events s recs) =
        Inr (builder_of settings machine w' s, outs) \<and>
      emitted outs = filter (\<lambda>f. replay_session_id f = s) new))"
  using assms
proof (induction recs arbitrary: w)
  case Nil
  then show ?case by (simp add: lift_io_def session_events_def)
next
  case (Cons x recs)
  obtain env rec where x: "x = (env, rec)" by (cases x)
  from Cons.prems(1) obtain e where env: "steady settings online answer env" "telemetry_of env rec e"
    "te_machine_id e = machine" by (auto simp: x)
  from Cons.prems(3) obtain w1 where w1: "handle_record env rec w = (Inr (), w1)" "run_worker recs w1 = (Inr (), w')"
    by (auto simp: x bind_io_def split: prod.splits sum.splits)
  let ?k = "replay_session_id e"
  obtain b' res where step: "push online (we_now env) (builder_of settings machine w ?k) e = Inr (b', res)"
    "clean w1" "wk_builders w1 = (wk_builders w)(?k \<mapsto> b')" "wk_features w1 = wk_features w @ features res"
    "wk_scores w1 = wk_scores w @ map answer (features res)" "wk_commits w1 = wk_commits w"
    using handle_telemetry_steady [OF env(1,2) Cons.prems(2) w1(1)] env(3) by metis
  from Cons.IH [OF _ step(2) w1(2)] Cons.prems(1) obtain new where
    ih: "clean w'" "wk_features w' = wk_features w1 @ new" "wk_scores w' = wk_scores w1 @ map answer new"
      "wk_commits w' = wk_commits w1"
      "\<And>s. \<exists>outs. run_err (push_io online) (builder_of settings machine w1 s) (session_events s recs) =
        Inr (builder_of settings machine w' s, outs) \<and> emitted outs = filter (\<lambda>f. replay_session_id f = s) new"
    by auto
  have bk: "fb_replay_session_id (builder_of settings machine w ?k) = ?k"
    using Cons.prems(2) by (auto simp: builder_of_def clean_def new_builder_def split: option.splits)
  have fk: "\<forall>f \<in> set (features res). replay_session_id f = ?k" using push_session [OF step(1)] bk by simp
  have te: "timed_event x = (we_now env, e)" using env(2) by (simp add: x timed_event_def telemetry_of_def)
  have "\<exists>outs. run_err (push_io online) (builder_of settings machine w s) (session_events s (x # recs)) =
        Inr (builder_of settings machine w' s, outs) \<and>
      emitted outs = filter (\<lambda>f. replay_session_id f = s) (features res @ new)" for s
  proof (cases "s = ?k")
    case True
    have b1: "builder_of settings machine w1 s = b'" using step(3) True by (simp add: builder_of_def)
    from ih(5) [of s] obtain outs where
      "run_err (push_io online) b' (session_events s recs) = Inr (builder_of settings machine w' s, outs)"
      "emitted outs = filter (\<lambda>f. replay_session_id f = s) new" unfolding b1 by blast
    with step(1) te True fk show ?thesis
      by (auto simp: session_events_def push_io_pair filter_session_features emitted_def)
  next
    case False
    then have "builder_of settings machine w1 s = builder_of settings machine w s"
      using step(3) by (simp add: builder_of_def)
    with ih(5) [of s] te False fk show ?thesis
      by (auto simp: session_events_def filter_session_features)
  qed
  with ih step show ?case by (intro conjI exI [of _ "features res @ new"]) simp_all
qed


definition sample_answer :: "FeatureVectorV1 \<Rightarrow> ScoreDecisionV1" where
  "sample_answer f =
     \<lparr>message_id = 12, replay_session_id = replay_session_id f, source_dataset_sha256 = zero_sha,
      contract_sha256 = zero_sha, source_timestamp = source_timestamp f, emitted_at = 0, decision_id = 12,
      window_id = fv_window_id f, model_version = ''m1'', score = Fin 0, threshold = Fin 1,
      is_anomaly = False, evidence_vector = []\<rparr>"

definition sample_worker_env :: "TelemetryEventV1 worker_env" where
  "sample_worker_env =
     \<lparr>we_settings = \<lparr>ws_model_version = ''m1'', ws_source_dataset_sha256 = zero_sha,
        ws_contract_sha256 = zero_sha, ws_feature_names = [''tp2_last'']\<rparr>,
      we_online = sample_online_env, we_score = (\<lambda>f. Inr (sample_answer f)), we_psi = None,
      we_decode_telemetry = Inr, we_decode_status = (\<lambda>_. Inl ''bad''), we_sha = (\<lambda>_. zero_sha),
      we_now = 0, we_uuid = 11\<rparr>"

definition sample_worker_record :: "uuid \<Rightarrow> int \<Rightarrow> TelemetryEventV1 worker_record" where
  "sample_worker_record session offset =
     \<lparr>wr_topic = TELEMETRY_TOPIC, wr_partition = 0, wr_offset = offset,
      wr_value = (sample_event_at 0)\<lparr>replay_session_id := session\<rparr>\<rparr>"

text \<open>A builder of the worker accepts every event as its first one.\<close>

lemma worker_columns_extract:
  "\<exists>s. extract_sample e DEFAULT_ANALOG_COLS (predictor_digital PHASE1C) = Inr s"
  by (simp add: extract_sample_def lookup_column_def analog_fields_def digital_fields_def
      DEFAULT_ANALOG_COLS_def predictor_digital_def PHASE1C_def)

definition one_event :: "TelemetryEventV1 \<Rightarrow> OnlineFeatureBuilder \<Rightarrow> bool" where
  "one_event e b \<longleftrightarrow> fb_replay_session_id b = replay_session_id e \<and> \<not> fb_is_complete b \<and>
     fb_last_timestamp b = Some (source_timestamp e) \<and>
     length (fb_current_bin_samples b) < fb_min_bin_observations b"

lemma new_builder_accepts:
  "\<exists>b. push env now (new_builder settings (replay_session_id e) machine) e =
     Inr (b, \<lparr>features = [], segment_closed_reason = None\<rparr>) \<and> one_event e b"
proof -
  obtain x where "extract_sample e DEFAULT_ANALOG_COLS (predictor_digital PHASE1C) = Inr x"
    using worker_columns_extract by blast
  then show ?thesis
    by (simp add: push_def check_sequence_and_ordering_def new_builder_def Let_def one_event_def)
qed

lemma new_session_accepted:
  assumes "telemetry_of env rec e" "clean w" "wk_builders w (replay_session_id e) = None"
  shows "\<exists>b. one_event e b \<and> handle_record env rec w =
    (Inr (), (track_offset (replay_session_id e) (wr_topic rec, wr_partition rec) (wr_offset rec) w)
       \<lparr>wk_builders := (wk_builders w)(replay_session_id e \<mapsto> b),
        wk_last_sequence := (wk_last_sequence w)(replay_session_id e \<mapsto> sequence e)\<rparr>)"
proof -
  obtain b where b: "push (we_online env) (we_now env) (new_builder (we_settings env) (replay_session_id e)
      (te_machine_id e)) e = Inr (b, \<lparr>features = [], segment_closed_reason = None\<rparr>)" "one_event e b"
    using new_builder_accepts by blast
  with assms show ?thesis
    by (intro exI [of _ b]) (simp add: handle_record_def handle_telemetry_record_def telemetry_of_def
        clean_def Let_def accept_telemetry_def track_offset_def bind_io_def lift_io_def)
qed


end
