(* ===== verification/Worker_Failures.thy ===== *)
theory Worker_Failures
  imports Worker
begin

text \<open>
  What the streaming worker does with a session that failed, and what its commits cover: a failed
  session is silent for the rest of the process, and the offsets committed for one session may cover
  records of another one.
\<close>

section \<open>A failed session is silent\<close>

definition keyed :: "StreamingWorker \<Rightarrow> bool" where
  "keyed w \<longleftrightarrow> (\<forall>s b. wk_builders w s = Some b \<longrightarrow> fb_replay_session_id b = s)"

definition features_of :: "uuid \<Rightarrow> StreamingWorker \<Rightarrow> FeatureVectorV1 list" where
  "features_of s w = filter (\<lambda>f. replay_session_id f = s) (wk_features w)"

text \<open>A step that keeps a failed session failed and publishes none of its features.\<close>

definition silent :: "uuid \<Rightarrow> StreamingWorker \<Rightarrow> StreamingWorker \<Rightarrow> bool" where
  "silent s w w' \<longleftrightarrow> (s \<in> wk_failed_sessions w \<and> keyed w \<longrightarrow>
     s \<in> wk_failed_sessions w' \<and> keyed w' \<and> features_of s w' = features_of s w)"

lemma silent_refl [simp]: "silent s w w"
  by (simp add: silent_def)

lemma silent_trans: "silent s w w' \<Longrightarrow> silent s w' w'' \<Longrightarrow> silent s w w''"
  by (simp add: silent_def)

lemma silent_bind:
  assumes "silent s w (snd (m w))" "\<And>x w'. m w = (Inr x, w') \<Longrightarrow> silent s w' (snd (f x w'))"
  shows "silent s w (snd (bind_io m f w))"
  using assms by (auto simp: bind_io_def split: prod.splits sum.splits intro: silent_trans)

text \<open>Steps that touch neither the failed sessions, the builders nor the published features.\<close>

lemma silent_same:
  "wk_failed_sessions w \<subseteq> wk_failed_sessions w' \<Longrightarrow> wk_builders w' = wk_builders w \<Longrightarrow>
     wk_features w' = wk_features w \<Longrightarrow> silent s w w'"
  by (auto simp: silent_def keyed_def features_of_def)

lemma silent_quarantine: "silent s w (snd (worker_quarantine env rec c d w))"
  by (auto simp: worker_quarantine_def bind_io_def lift_io_def modify_def split: sum.splits intro: silent_same)

lemma silent_fail_session: "silent s w (snd (worker_fail_session env k c n t w))"
  by (auto simp: worker_fail_session_def bind_io_def lift_io_def modify_def split: sum.splits intro!: silent_same)

lemma silent_block:
  "silent s w (snd (worker_quarantine env rec c d (w\<lparr>wk_blocked_partitions := P\<rparr>)))"
  by (rule silent_trans [OF silent_same silent_quarantine]) simp_all

lemma silent_process_feature:
  assumes "replay_session_id f \<noteq> s"
  shows "silent s w (snd (process_feature env f w))"
proof -
  let ?w2 = "w\<lparr>wk_rolling_features := (wk_rolling_features w)(replay_session_id f :=
      roll_features (wk_rolling_features w (replay_session_id f)) f), wk_features := wk_features w @ [f]\<rparr>"
  have pub: "silent s w ?w2" "silent s w (?w2\<lparr>wk_scores := x\<rparr>)" for x
    using assms by (auto simp: silent_def keyed_def features_of_def)
  have "silent s ?w2 (snd (bind_io (worker_fail_session env k c n t) (\<lambda>_. lift_io (Inl SessionFailedError)) ?w2))"
    for k c n t by (rule silent_bind) (simp_all add: silent_fail_session lift_io_def)
  from silent_trans [OF pub(1) this] pub show ?thesis
    by (auto simp: process_feature_def Let_def split: sum.splits intro: silent_same)
qed

lemma silent_process_features:
  "(\<forall>f \<in> set fs. replay_session_id f \<noteq> s) \<Longrightarrow> silent s w (snd (process_features env fs w))"
proof (induction fs arbitrary: w)
  case (Cons f fs)
  then show ?case unfolding process_features.simps
    by (intro silent_bind silent_process_feature) auto
qed (simp add: lift_io_def)

lemma complete_result_session:
  "Online_Features.complete env now b t = Inr (b', r) \<Longrightarrow> fb_replay_session_id b' = fb_replay_session_id b \<and>
     (\<forall>f \<in> set (features r). replay_session_id f = fb_replay_session_id b)"
  by (auto simp: complete_def err_simps dest: finalize_session split: if_splits)

lemma silent_builder:
  "fb_replay_session_id b = k \<Longrightarrow> silent s w (w\<lparr>wk_builders := (wk_builders w)(k \<mapsto> b)\<rparr>)"
  by (auto simp: silent_def keyed_def features_of_def)

text \<open>Storing a builder and publishing what it returned, for another session than \<open>s\<close>.\<close>

lemma silent_publish:
  assumes "k \<noteq> s" "fb_replay_session_id b = k" "\<forall>f \<in> set fs. replay_session_id f = k"
  shows "silent s w (snd (process_features env fs (w\<lparr>wk_builders := (wk_builders w)(k \<mapsto> b)\<rparr>)))"
  by (rule silent_trans [OF silent_builder silent_process_features]) (use assms in auto)

lemma silent_complete_session: "silent s w (snd (complete_session env status w))"
proof (cases "replay_session_id status \<in> wk_failed_sessions w \<or> \<not> (s \<in> wk_failed_sessions w \<and> keyed w)")
  case True
  then show ?thesis by (auto simp: complete_session_def Let_def silent_def)
next
  case False
  let ?k = "replay_session_id status"
  have k: "?k \<noteq> s" "?k \<notin> wk_failed_sessions w" "keyed w" using False by auto
  show ?thesis
    unfolding complete_session_def Let_def if_not_P [OF k(2)]
  proof (rule silent_bind)
    show "silent s w (snd (case wk_builders w ?k of None \<Rightarrow> (Inr (), w) | Some b \<Rightarrow>
        if fb_is_complete b then (Inr (), w)
        else case Online_Features.complete (we_online env) (we_now env) b (source_timestamp status) of
            Inl e \<Rightarrow> (Inl e, w)
          | Inr (b', res) \<Rightarrow> process_features env (features res) (w\<lparr>wk_builders := (wk_builders w)(?k \<mapsto> b')\<rparr>)))"
      using k by (auto simp: keyed_def split: option.split sum.split
          dest!: complete_result_session intro!: silent_publish)
  qed (auto simp: modify_def intro: silent_same)
qed

lemma silent_accept_telemetry:
  assumes "replay_session_id e \<noteq> s"
  shows "silent s w (snd (accept_telemetry env e w))"
proof (cases "keyed w")
  case True
  let ?k = "replay_session_id e"
  let ?b = "case wk_builders w ?k of Some b \<Rightarrow> b | None \<Rightarrow> new_builder (we_settings env) ?k (te_machine_id e)"
  have b: "fb_replay_session_id ?b = ?k"
    using True by (auto simp: keyed_def new_builder_def split: option.splits)
  show ?thesis
  proof (cases "push (we_online env) (we_now env) ?b e")
    case (Inl x)
    then show ?thesis using silent_builder [OF b] by (simp add: accept_telemetry_def Let_def)
  next
    case (Inr y)
    obtain b' r where y: "y = (b', r)" by (cases y)
    let ?w1 = "w\<lparr>wk_builders := (wk_builders w)(?k \<mapsto> b'),
       wk_last_sequence := (wk_last_sequence w)(?k \<mapsto> sequence e),
       wk_rolling_features := (if segment_closed_reason r \<noteq> None then (wk_rolling_features w)(?k := [])
          else wk_rolling_features w)\<rparr>"
    let ?f = "\<lambda>(_::unit) w. case wk_terminal_status w ?k of Some term \<Rightarrow>
         (if status_state term = COMPLETED \<and> status_last_sequence term = Some (sequence e)
          then complete_session env term w else (Inr (), w)) | None \<Rightarrow> (Inr (), w)"
    have ps: "fb_replay_session_id b' = ?k" "\<forall>f \<in> set (features r). replay_session_id f = ?k"
      using push_session [OF Inr [unfolded y]] b by simp_all
    have "silent s w ?w1"
      using ps(1) by (auto simp: silent_def keyed_def features_of_def)
    moreover have "silent s ?w1 (snd (bind_io (process_features env (features r)) ?f ?w1))"
    proof (rule silent_bind)
      show "silent s ?w1 (snd (process_features env (features r) ?w1))"
        by (rule silent_process_features) (use ps(2) assms in auto)
    qed (auto simp: silent_complete_session split: option.splits)
    ultimately have "silent s w (snd (bind_io (process_features env (features r)) ?f ?w1))"
      by (rule silent_trans)
    moreover have "accept_telemetry env e w = bind_io (process_features env (features r)) ?f ?w1"
      using Inr y by (cases "segment_closed_reason r") (simp_all add: accept_telemetry_def Let_def)
    ultimately show ?thesis by simp
  qed
qed (simp add: silent_def)

lemma silent_track_offset: "silent s w (track_offset k tp n w)"
  by (rule silent_same) (simp_all add: track_offset_def)

lemma silent_telemetry: "silent s w (snd (handle_telemetry_record env rec w))"
proof (cases "we_decode_telemetry env (wr_value rec)")
  case (Inl d)
  then show ?thesis by (simp add: handle_telemetry_record_def Let_def silent_block)
next
  case (Inr e)
  have bad: "silent s w (snd (bind_io (worker_quarantine env rec c d) (\<lambda>_. worker_fail_session env k c n t) w))"
    for c d k n t by (rule silent_bind) (simp_all add: silent_quarantine silent_fail_session)
  have good: "silent s w (snd (accept_telemetry env e (track_offset k tp n w)))"
    if "replay_session_id e \<noteq> s" for k tp n
    using silent_trans [OF silent_track_offset silent_accept_telemetry [OF that]] .
  show ?thesis
  proof (cases "replay_session_id e = s")
    case True
    with bad Inr show ?thesis
      by (cases "s \<in> wk_failed_sessions w") (auto simp: handle_telemetry_record_def Let_def silent_def)
  next
    case False
    with bad good Inr show ?thesis by (simp add: handle_telemetry_record_def Let_def)
  qed
qed

lemma silent_status: "silent s w (snd (handle_status_record env rec w))"
proof (cases "we_decode_status env (wr_value rec)")
  case (Inl d)
  then show ?thesis by (simp add: handle_status_record_def Let_def silent_block)
next
  case (Inr st)
  have same: "silent s w (track_offset k tp n w)" "silent s w (track_offset k tp n w\<lparr>wk_terminal_status := T\<rparr>)"
    "silent s w (track_offset k tp n w\<lparr>wk_failed_sessions := insert k (wk_failed_sessions (track_offset k tp n w))\<rparr>)"
    for k tp n T by (auto simp: track_offset_def intro!: silent_same)
  from silent_trans [OF same(2) silent_complete_session] same Inr show ?thesis
    by (auto simp: handle_status_record_def Let_def split: option.splits)
qed

lemma silent_run: "silent s w (snd (run_worker recs w))"
proof (induction recs arbitrary: w)
  case (Cons x recs)
  obtain env rec where x: "x = (env, rec)" by (cases x)
  have "silent s w (snd (handle_record env rec w))"
    by (simp add: handle_record_def silent_telemetry silent_status lift_io_def)
  then show ?case using Cons by (simp add: x silent_bind)
qed (simp add: lift_io_def)

text \<open>
  One failed status silences a session for good.  Once the worker has consumed a
  \<open>FAILED\<close> status that it did not emit itself, then whatever it consumes afterwards, even when it ends
  with an exception, it keeps the session among the failed ones and publishes no further feature
  vector of it; the records it went through before are not touched.
\<close>

theorem failed_session_stays_silent:
  assumes "keyed w" "wr_topic rec = REPLAY_STATUS_TOPIC"
    and "we_decode_status env (wr_value rec) = Inr status" "status_state status = FAILED"
    and "message_id status \<notin> wk_self_emitted_status_ids w"
    and "run_worker ((env, rec) # recs) w = (r, w')"
  shows "replay_session_id status \<in> wk_failed_sessions w' \<and>
    features_of (replay_session_id status) w' = features_of (replay_session_id status) w"
proof -
  let ?s = "replay_session_id status"
  obtain w1 where w1: "handle_record env rec w = (Inr (), w1)" "?s \<in> wk_failed_sessions w1" "keyed w1"
    "features_of ?s w1 = features_of ?s w"
    using assms(1-5)
    by (auto simp: handle_record_def handle_status_record_def Let_def REPLAY_STATUS_TOPIC_def TELEMETRY_TOPIC_def
        keyed_def track_offset_def features_of_def)
  have "silent ?s w1 w'" using silent_run [of ?s w1 recs] assms(6) w1(1) by (simp add: bind_io_def)
  with w1 show ?thesis by (simp add: silent_def)
qed

definition sample_failed_status :: ReplayStatusV1 where
  "sample_failed_status =
     \<lparr>message_id = 21, replay_session_id = 7, source_dataset_sha256 = zero_sha, contract_sha256 = zero_sha,
      source_timestamp = seconds 3600, emitted_at = 0, status_state = FAILED,
      status_last_sequence = Some 0, status_error_code = Some ''REPLAY_ALREADY_ACTIVE''\<rparr>"

definition sample_status_env :: "ReplayStatusV1 \<Rightarrow> TelemetryEventV1 worker_env" where
  "sample_status_env st = sample_worker_env\<lparr>we_decode_status := (\<lambda>_. Inr st)\<rparr>"

definition sample_status_record :: "TelemetryEventV1 worker_record" where
  "sample_status_record = (sample_worker_record 7 0)\<lparr>wr_topic := REPLAY_STATUS_TOPIC\<rparr>"

theorem failed_session_stays_silent_witness:
  "\<exists>r w. run_worker [(sample_status_env sample_failed_status, sample_status_record),
      (sample_worker_env, sample_worker_record 7 0)] new_worker = (r, w) \<and>
    7 \<in> wk_failed_sessions w \<and> features_of 7 w = []"
proof -
  let ?st = sample_failed_status
  obtain r w where r: "run_worker [(sample_status_env ?st, sample_status_record),
      (sample_worker_env, sample_worker_record 7 0)] new_worker = (r, w)"
    by (meson surj_pair)
  have "keyed new_worker" "wr_topic sample_status_record = REPLAY_STATUS_TOPIC"
    "we_decode_status (sample_status_env ?st) (wr_value sample_status_record) = Inr ?st"
    "status_state ?st = FAILED" "message_id ?st \<notin> wk_self_emitted_status_ids new_worker"
    by (simp_all add: keyed_def new_worker_def sample_status_record_def sample_status_env_def sample_failed_status_def)
  from failed_session_stays_silent [OF this r] r show ?thesis
    by (simp add: sample_failed_status_def features_of_def new_worker_def)
qed

section \<open>What a commit covers\<close>

lemma finalize_one_event:
  "one_event e b \<Longrightarrow> \<exists>b'. finalize_current_bin env now b = Inr (b', [])"
  by (auto simp: one_event_def finalize_current_bin_def split: option.split)

lemma complete_one_event:
  assumes "one_event e b" "source_timestamp e \<le> t"
  shows "\<exists>b'. Online_Features.complete env now b t = Inr (b', \<lparr>features = [], segment_closed_reason = None\<rparr>)"
proof -
  obtain b' where "finalize_current_bin env now b = Inr (b', [])" using finalize_one_event [OF assms(1)] by blast
  with assms show ?thesis by (simp add: complete_def one_event_def)
qed

text \<open>
  Completing one session commits the records of another.  Two sessions share a partition
  of the telemetry topic; the first record belongs to the one, a later record and the \<open>COMPLETED\<close>
  status to the other.  The commit for the completed session moves the partition's offset past the
  record of the session that is still open, so after a restart the open session's record is not
  delivered again.
\<close>

theorem commit_covers_open_session:
  assumes open_rec: "telemetry_of env1 rec1 e1" and done_rec: "telemetry_of env2 rec2 e2"
    and diff: "replay_session_id e1 \<noteq> replay_session_id e2"
    and part: "wr_partition rec1 = wr_partition rec2" "wr_offset rec1 < wr_offset rec2"
    and st: "wr_topic rec3 = REPLAY_STATUS_TOPIC" "we_decode_status env3 (wr_value rec3) = Inr status"
      "replay_session_id status = replay_session_id e2" "status_state status = COMPLETED"
      "status_last_sequence status = Some (sequence e2)" "source_timestamp e2 \<le> source_timestamp status"
  shows "\<exists>w offsets n b. run_worker [(env1, rec1), (env2, rec2), (env3, rec3)] new_worker = (Inr (), w) \<and>
    wk_commits w = [offsets] \<and> map_of offsets (TELEMETRY_TOPIC, wr_partition rec1) = Some n \<and>
    wr_offset rec1 < n \<and>
    wk_builders w (replay_session_id e1) = Some b \<and> \<not> fb_is_complete b"
proof -
  let ?s1 = "replay_session_id e1" and ?s2 = "replay_session_id e2"
  have clean0: "clean new_worker" "wk_builders new_worker ?s1 = None" by (simp_all add: clean_def new_worker_def)
  obtain b1 where b1: "one_event e1 b1" "handle_record env1 rec1 new_worker =
    (Inr (), (track_offset ?s1 (wr_topic rec1, wr_partition rec1) (wr_offset rec1) new_worker)
       \<lparr>wk_builders := (wk_builders new_worker)(?s1 \<mapsto> b1),
        wk_last_sequence := (wk_last_sequence new_worker)(?s1 \<mapsto> sequence e1)\<rparr>)" (is "_ = (Inr (), ?w1)")
    using new_session_accepted [OF open_rec clean0] by blast
  have clean1: "clean ?w1" "wk_builders ?w1 ?s2 = None"
    using diff b1(1) by (simp_all add: clean_def new_worker_def track_offset_def one_event_def)
  obtain b2 where b2: "one_event e2 b2" "handle_record env2 rec2 ?w1 =
    (Inr (), (track_offset ?s2 (wr_topic rec2, wr_partition rec2) (wr_offset rec2) ?w1)
       \<lparr>wk_builders := (wk_builders ?w1)(?s2 \<mapsto> b2),
        wk_last_sequence := (wk_last_sequence ?w1)(?s2 \<mapsto> sequence e2)\<rparr>)" (is "_ = (Inr (), ?w2)")
    using new_session_accepted [OF done_rec clean1] by blast
  obtain b3 where b3: "Online_Features.complete (we_online env3) (we_now env3) b2 (source_timestamp status) =
      Inr (b3, \<lparr>features = [], segment_closed_reason = None\<rparr>)"
    using complete_one_event [OF b2(1) st(6)] by blast
  let ?offs = "[((TELEMETRY_TOPIC, wr_partition rec2), wr_offset rec2 + 1),
      ((REPLAY_STATUS_TOPIC, wr_partition rec3), wr_offset rec3 + 1)]"
  have top: "wr_topic rec2 = TELEMETRY_TOPIC" using done_rec by (simp add: telemetry_of_def)
  have "\<exists>w. handle_record env3 rec3 ?w2 = (Inr (), w) \<and> wk_commits w = [?offs] \<and> wk_builders w ?s1 = Some b1"
    using st diff b2(1) b3 top
    by (simp add: handle_record_def handle_status_record_def Let_def REPLAY_STATUS_TOPIC_def TELEMETRY_TOPIC_def
        track_offset_def new_worker_def complete_session_def one_event_def bind_io_def lift_io_def modify_def upsert_def)
  then obtain w where w: "handle_record env3 rec3 ?w2 = (Inr (), w)" "wk_commits w = [?offs]"
    "wk_builders w ?s1 = Some b1" by blast
  have "run_worker [(env1, rec1), (env2, rec2), (env3, rec3)] new_worker = (Inr (), w)"
    using b1(2) b2(2) w(1) by (simp add: bind_io_def lift_io_def)
  moreover have "map_of ?offs (TELEMETRY_TOPIC, wr_partition rec1) = Some (wr_offset rec2 + 1)"
    using part(1) by simp
  ultimately show ?thesis using w(2,3) b1(1) part(2)
    by (intro exI [of _ w] exI [of _ ?offs] exI [of _ "wr_offset rec2 + 1"] exI [of _ b1])
      (simp add: one_event_def)
qed

theorem commit_covers_open_session_witness:
  "\<exists>w b. run_worker [(sample_worker_env, sample_worker_record 7 0), (sample_worker_env, sample_worker_record 8 1),
      (sample_status_env (sample_failed_status\<lparr>replay_session_id := 8, status_state := COMPLETED,
         status_last_sequence := Some 1, status_error_code := None\<rparr>), sample_status_record)] new_worker =
      (Inr (), w) \<and> wk_commits w \<noteq> [] \<and> wk_builders w 7 = Some b \<and> \<not> fb_is_complete b"
proof -
  let ?st = "sample_failed_status\<lparr>replay_session_id := 8, status_state := COMPLETED,
         status_last_sequence := Some 1, status_error_code := None\<rparr>"
  let ?e = "\<lambda>s. (sample_event_at 0)\<lparr>replay_session_id := s\<rparr>"
  have tel: "telemetry_of sample_worker_env (sample_worker_record s n) (?e s)"
    for s n by (simp add: telemetry_of_def sample_worker_env_def sample_worker_record_def sample_event_at_def)
  have c: "replay_session_id (?e 7) \<noteq> replay_session_id (?e 8)"
    "wr_partition (sample_worker_record 7 0) = wr_partition (sample_worker_record 8 1)"
    "wr_offset (sample_worker_record 7 0) < wr_offset (sample_worker_record 8 1)"
    "wr_topic sample_status_record = REPLAY_STATUS_TOPIC"
    "we_decode_status (sample_status_env ?st) (wr_value sample_status_record) = Inr ?st"
    "replay_session_id ?st = replay_session_id (?e 8)" "status_state ?st = COMPLETED"
    "status_last_sequence ?st = Some (sequence (?e 8))" "source_timestamp (?e 8) \<le> source_timestamp ?st"
    by (simp_all add: sample_worker_record_def sample_status_record_def sample_status_env_def
        sample_failed_status_def sample_event_at_def)
  from commit_covers_open_session [OF tel [of 7 0] tel [of 8 1] c]
  show ?thesis by auto
qed

end
