(* ===== verification/Drift.thy ===== *)
theory Drift
  imports Runtime_Messages Tables
begin

text \<open>
  \<open>drift.py\<close>: the population stability index of a window of feature values against the training
  reference, its maximum over the active features, and building and loading of a reference.

  NumPy's \<open>histogram\<close> and \<open>quantile\<close> are arguments; of \<open>histogram\<close> the theorems use that it counts
  into one bin per pair of neighbouring edges.  Reading and writing the reference file is its value
  before and after; the SHA-256 of the canonical JSON is an argument.
\<close>

record DriftReferenceV1 =
  dr_model_version :: string
  dr_source_dataset_sha256 :: sha256
  dr_contract_sha256 :: sha256
  active_feature_names :: "string list"
  num_train_samples :: nat
  bin_edges :: "(string, pyfloat list) table"
  reference_proportions :: "(string, real list) table"
  self_sha256 :: sha256

record drift_manifest =
  mf_model_version :: string
  mf_source_dataset_sha256 :: sha256
  mf_contract_sha256 :: sha256
  mf_feature_names :: "string list"

type_synonym histogram_fun = "real list \<Rightarrow> pyfloat list \<Rightarrow> exn + nat list"

definition clip :: "real \<Rightarrow> real \<Rightarrow> real \<Rightarrow> real" where
  "clip lo hi x = min (max x lo) hi"

text \<open>\<open>np.clip(xs, eps, 1.0)\<close> followed by the division by its sum.\<close>

definition clipped_proportions :: "real \<Rightarrow> real list \<Rightarrow> real list" where
  "clipped_proportions eps xs =
     (let props = map (clip eps 1) xs in map (\<lambda>p. p / sum_list props) props)"

text \<open>Element-wise operations on two arrays: equal lengths, or one of length one.\<close>

definition broadcast :: "'a list \<Rightarrow> 'b list \<Rightarrow> exn + ('a \<times> 'b) list" where
  "broadcast xs ys =
     (if length xs = length ys then Inr (zip xs ys)
      else if length xs = 1 then Inr (map (\<lambda>y. (hd xs, y)) ys)
      else if length ys = 1 then Inr (map (\<lambda>x. (x, hd ys)) xs)
      else Inl (ValueError ''operands could not be broadcast together''))"

definition psi_term :: "real \<Rightarrow> real \<Rightarrow> real" where
  "psi_term a r = (a - r) * ln (a / r)"

definition population_stability_index ::
  "histogram_fun \<Rightarrow> real \<Rightarrow> real list \<Rightarrow> pyfloat list \<Rightarrow> real list \<Rightarrow> exn + real"
where
  "population_stability_index histogram eps actual_samples edges ref =
     (if actual_samples = [] then Inr 0
      else bind_err (histogram actual_samples edges) (\<lambda>counts.
        (let total = sum_list counts in
         if total = 0 then Inr 0
         else bind_err
           (broadcast (clipped_proportions eps (map (\<lambda>c. real c / real total) counts))
              (clipped_proportions eps ref))
           (\<lambda>pairs. Inr (sum_list (map (\<lambda>(a, r). psi_term a r) pairs))))))"

definition psi_eps :: real where "psi_eps = 1 / 1000000"

definition lookup_key :: "('k, 'v) table \<Rightarrow> 'k \<Rightarrow> string \<Rightarrow> exn + 'v" where
  "lookup_key t k msg = (case map_of t k of Some v \<Rightarrow> Inr v | None \<Rightarrow> Inl (KeyError msg))"

definition feature_psi ::
  "histogram_fun \<Rightarrow> DriftReferenceV1 \<Rightarrow> (string, real list) table \<Rightarrow> string \<Rightarrow> exn + real"
where
  "feature_psi histogram ref current feat =
     bind_err (lookup_key current feat feat) (\<lambda>vals.
     bind_err (lookup_key (bin_edges ref) feat feat) (\<lambda>edges.
     bind_err (lookup_key (reference_proportions ref) feat feat) (\<lambda>props.
       population_stability_index histogram psi_eps vals edges props)))"

definition max_population_stability_index ::
  "histogram_fun \<Rightarrow> (string, real list) table \<Rightarrow> DriftReferenceV1 \<Rightarrow> exn + real"
where
  "max_population_stability_index histogram current ref =
     bind_err (map_err (feature_psi histogram ref current)
         (filter (\<lambda>feat. map_of current feat \<noteq> None) (active_feature_names ref)))
       (\<lambda>psi_list. if psi_list = []
          then Inl (ValueError ''drift reference and current features have no feature overlap'')
          else Inr (Max (set psi_list)))"

section \<open>References\<close>

text \<open>The reference of one feature column: nine inner quantiles, open ends, relative frequencies.\<close>

definition reference_edges :: "(real list \<Rightarrow> real \<Rightarrow> real) \<Rightarrow> real list \<Rightarrow> pyfloat list" where
  "reference_edges quantile col =
     NegInf # map (\<lambda>i. Fin (quantile col (real i / 10))) [1..<10] @ [PosInf]"

definition feature_reference ::
  "histogram_fun \<Rightarrow> (real list \<Rightarrow> real \<Rightarrow> real) \<Rightarrow> real list \<Rightarrow> exn + pyfloat list \<times> real list"
where
  "feature_reference histogram quantile col =
     bind_err (histogram col (reference_edges quantile col)) (\<lambda>counts.
       Inr (reference_edges quantile col, map (\<lambda>c. real c / real (sum_list counts)) counts))"

definition build_reference ::
  "histogram_fun \<Rightarrow> (real list \<Rightarrow> real \<Rightarrow> real) \<Rightarrow> (DriftReferenceV1 \<Rightarrow> sha256)
     \<Rightarrow> nat \<Rightarrow> (string, real list) table \<Rightarrow> drift_manifest \<Rightarrow> exn + DriftReferenceV1"
where
  "build_reference histogram quantile hash num_samples train_columns manifest =
     (if num_samples = 0
      then Inl (ValueError ''No training samples found in features parquet for split=train'')
      else bind_err (map_err (\<lambda>feat.
          bind_err (bind_err (lookup_key train_columns feat feat) (feature_reference histogram quantile))
            (\<lambda>r. Inr (feat, r)))
          (mf_feature_names manifest)) (\<lambda>refs.
        (let data = \<lparr>dr_model_version = mf_model_version manifest,
               dr_source_dataset_sha256 = mf_source_dataset_sha256 manifest,
               dr_contract_sha256 = mf_contract_sha256 manifest,
               active_feature_names = mf_feature_names manifest, num_train_samples = num_samples,
               bin_edges = map (\<lambda>(f, e, _). (f, e)) refs,
               reference_proportions = map (\<lambda>(f, _, p). (f, p)) refs, self_sha256 = []\<rparr>
         in Inr (data\<lparr>self_sha256 := hash data\<rparr>))))"

definition load_reference ::
  "(DriftReferenceV1 \<Rightarrow> sha256) \<Rightarrow> DriftReferenceV1 \<Rightarrow> drift_manifest option \<Rightarrow> exn + DriftReferenceV1"
where
  "load_reference hash data expected =
     run_checks
       ((self_sha256 data \<noteq> hash (data\<lparr>self_sha256 := []\<rparr>), ValueError ''Drift reference is tampered or corrupted'') #
        (case expected of None \<Rightarrow> []
         | Some m \<Rightarrow>
            [(dr_model_version data \<noteq> mf_model_version m, ValueError ''Model version mismatch in drift reference''),
             (dr_source_dataset_sha256 data \<noteq> mf_source_dataset_sha256 m, ValueError ''Dataset SHA mismatch in drift reference''),
             (dr_contract_sha256 data \<noteq> mf_contract_sha256 m, ValueError ''Contract SHA mismatch in drift reference''),
             (active_feature_names data \<noteq> mf_feature_names m, ValueError ''feature order mismatch in drift reference'')]))
       data"

section \<open>The index is a divergence\<close>

definition bin_counting :: "histogram_fun \<Rightarrow> bool" where
  "bin_counting histogram \<longleftrightarrow>
     (\<forall>xs edges counts. histogram xs edges = Inr counts \<longrightarrow> length counts = length edges - 1)"

lemma clipped_positive:
  assumes "0 < eps" "eps \<le> 1" "p \<in> set (clipped_proportions eps xs)"
  shows "0 < p"
proof -
  have pos: "0 < clip eps 1 x" for x using assms(1) by (simp add: clip_def min_def max_def)
  from assms(3) obtain x where x: "x \<in> set xs" "p = clip eps 1 x / sum_list (map (clip eps 1) xs)"
    by (auto simp: clipped_proportions_def Let_def)
  have "clip eps 1 x \<le> sum_list (map (clip eps 1) xs)"
    using x(1) pos less_imp_le by (intro member_le_sum_list) auto
  with pos [of x] x(2) show ?thesis by simp
qed

lemma psi_term_nonneg: "0 < a \<Longrightarrow> 0 < r \<Longrightarrow> 0 \<le> psi_term a r"
proof (cases "r \<le> a")
  case True
  moreover assume "0 < a" "0 < r"
  ultimately show ?thesis by (simp add: psi_term_def)
next
  case False
  moreover assume "0 < a" "0 < r"
  ultimately have "ln (a / r) \<le> 0" by (simp add: ln_le_zero_iff)
  with False show ?thesis by (simp add: psi_term_def mult_nonpos_nonpos)
qed

lemma psi_term_zero: "0 < a \<Longrightarrow> 0 < r \<Longrightarrow> psi_term a r = 0 \<longleftrightarrow> a = r"
  by (auto simp: psi_term_def)

lemma psi_sum:
  assumes "length xs = length ys" "\<forall>x \<in> set xs. 0 < x" "\<forall>y \<in> set ys. (0::real) < y"
  shows "0 \<le> sum_list (map (\<lambda>(a, r). psi_term a r) (zip xs ys))"
    and "sum_list (map (\<lambda>(a, r). psi_term a r) (zip xs ys)) = 0 \<longleftrightarrow> xs = ys"
proof -
  have nonneg: "0 \<le> psi_term a r" if "(a, r) \<in> set (zip xs ys)" for a r
    using that assms by (auto intro: psi_term_nonneg dest: set_zip_leftD set_zip_rightD)
  then show "0 \<le> sum_list (map (\<lambda>(a, r). psi_term a r) (zip xs ys))"
    by (intro sum_list_nonneg) auto
  have zero: "psi_term a r = 0 \<longleftrightarrow> a = r" if "(a, r) \<in> set (zip xs ys)" for a r
    using that assms(2,3) by (intro psi_term_zero) (auto dest: set_zip_leftD set_zip_rightD)
  have "sum_list (map (\<lambda>(a, r). psi_term a r) (zip xs ys)) = 0 \<longleftrightarrow>
      (\<forall>(a, r) \<in> set (zip xs ys). psi_term a r = 0)"
    using nonneg by (subst sum_list_nonneg_eq_0_iff) auto
  also have "\<dots> \<longleftrightarrow> (\<forall>(a, r) \<in> set (zip xs ys). a = r)"
    using zero by auto
  also have "\<dots> \<longleftrightarrow> xs = ys"
    using assms(1) by (induction xs ys rule: list_induct2) auto
  finally show "sum_list (map (\<lambda>(a, r). psi_term a r) (zip xs ys)) = 0 \<longleftrightarrow> xs = ys" .
qed

lemma length_clipped [simp]: "length (clipped_proportions eps xs) = length xs"
  by (simp add: clipped_proportions_def Let_def)

lemma psi_divergence:
  assumes "bin_counting histogram" "length ref = length edges - 1" "0 < eps" "eps \<le> 1"
    and "histogram xs edges = Inr counts"
  shows "\<exists>p. population_stability_index histogram eps xs edges ref = Inr p \<and> 0 \<le> p \<and>
    (xs \<noteq> [] \<and> sum_list counts \<noteq> 0 \<longrightarrow> p = 0 \<longleftrightarrow>
       clipped_proportions eps (map (\<lambda>c. real c / real (sum_list counts)) counts) = clipped_proportions eps ref)"
proof -
  let ?a = "clipped_proportions eps (map (\<lambda>c. real c / real (sum_list counts)) counts)"
  let ?r = "clipped_proportions eps ref"
  have len: "length ?a = length ?r" using assms(1,2,5) by (simp add: bin_counting_def)
  have pos: "\<forall>p \<in> set ?a. 0 < p" "\<forall>p \<in> set ?r. 0 < p" using clipped_positive [OF assms(3,4)] by blast+
  from psi_sum [OF len pos] len assms(5) show ?thesis
    by (simp add: population_stability_index_def Let_def broadcast_def del: sum_list_eq_0_iff)
qed

text \<open>Looking up a key after a comprehension that computes one entry per key.\<close>

lemma map_err_pairs:
  "map_err (\<lambda>x. bind_err (g x) (\<lambda>r. Inr (x, r))) xs = Inr ys \<Longrightarrow>
     ys = map (\<lambda>x. (x, projr (g x))) xs \<and> (\<forall>x \<in> set xs. \<exists>r. g x = Inr r)"
  by (induction xs arbitrary: ys) (auto simp: err_simps)

lemma map_of_pairs: "x \<in> set xs \<Longrightarrow> map_of (map (\<lambda>x. (x, f x)) xs) x = Some (f x)"
  by (induction xs) auto

lemma build_reference_entries:
  assumes "build_reference histogram quantile hash n cols m = Inr ref" "feat \<in> set (active_feature_names ref)"
  shows "\<exists>col counts. map_of cols feat = Some col \<and>
    histogram col (reference_edges quantile col) = Inr counts \<and>
    map_of (bin_edges ref) feat = Some (reference_edges quantile col) \<and>
    map_of (reference_proportions ref) feat = Some (map (\<lambda>c. real c / real (sum_list counts)) counts)"
proof -
  let ?g = "\<lambda>feat. bind_err (lookup_key cols feat feat) (feature_reference histogram quantile)"
  from assms(1) obtain refs where refs: "map_err (\<lambda>feat. bind_err (?g feat) (\<lambda>r. Inr (feat, r))) (mf_feature_names m) = Inr refs"
    "bin_edges ref = map (\<lambda>(f, e, _). (f, e)) refs" "reference_proportions ref = map (\<lambda>(f, _, p). (f, p)) refs"
    "active_feature_names ref = mf_feature_names m"
    by (auto simp: build_reference_def Let_def bind_err_eq_Inr split: if_splits)
  note pairs = map_err_pairs [OF refs(1)]
  have edges: "bin_edges ref = map (\<lambda>f. (f, fst (projr (?g f)))) (mf_feature_names m)"
    "reference_proportions ref = map (\<lambda>f. (f, snd (projr (?g f)))) (mf_feature_names m)"
    using pairs refs(2,3) by (auto simp: case_prod_beta)
  have feat: "feat \<in> set (mf_feature_names m)" using assms(2) refs(4) by simp
  from pairs feat obtain r where r: "?g feat = Inr r" by auto
  then obtain col counts where "map_of cols feat = Some col" "histogram col (reference_edges quantile col) = Inr counts"
    "r = (reference_edges quantile col, map (\<lambda>c. real c / real (sum_list counts)) counts)"
    by (auto simp: lookup_key_def feature_reference_def err_simps split: option.splits)
  with r feat show ?thesis by (simp add: edges map_of_pairs)
qed

lemma feature_psi_reference:
  assumes "bin_counting histogram" "build_reference histogram quantile hash n cols m = Inr ref"
    and "feat \<in> set (active_feature_names ref)" "feature_psi histogram ref current feat = Inr q"
  shows "0 \<le> q \<and> (map_of current feat = map_of cols feat \<longrightarrow> q = 0)"
proof -
  obtain col counts where e: "map_of cols feat = Some col" "histogram col (reference_edges quantile col) = Inr counts"
    "map_of (bin_edges ref) feat = Some (reference_edges quantile col)"
    "map_of (reference_proportions ref) feat = Some (map (\<lambda>c. real c / real (sum_list counts)) counts)"
    using build_reference_entries [OF assms(2,3)] by blast
  let ?ref = "map (\<lambda>c. real c / real (sum_list counts)) counts"
  obtain vals where v: "map_of current feat = Some vals"
    "population_stability_index histogram psi_eps vals (reference_edges quantile col) ?ref = Inr q"
    using assms(4) e by (auto simp: feature_psi_def lookup_key_def err_simps split: option.splits)
  have eps: "0 < psi_eps" "psi_eps \<le> 1" by (simp_all add: psi_eps_def)
  have len: "length ?ref = length (reference_edges quantile col) - 1"
    using assms(1) e(2) unfolding bin_counting_def by (metis length_map)
  show ?thesis
  proof (cases "vals = []")
    case True
    with v(2) show ?thesis by (simp add: population_stability_index_def)
  next
    case False
    with v(2) obtain counts' where c: "histogram vals (reference_edges quantile col) = Inr counts'"
      by (auto simp: population_stability_index_def err_simps)
    from psi_divergence [OF assms(1) len eps c] v(2) have "0 \<le> q"
      "vals \<noteq> [] \<and> sum_list counts' \<noteq> 0 \<longrightarrow> q = 0 \<longleftrightarrow>
        clipped_proportions psi_eps (map (\<lambda>c. real c / real (sum_list counts')) counts') = clipped_proportions psi_eps ?ref"
      by auto
    moreover have "q = 0" if "sum_list counts' = 0"
      using that v(2) c False by (simp add: population_stability_index_def Let_def)
    moreover have "counts' = counts" if "map_of current feat = map_of cols feat"
      using that v(1) e(1,2) c by simp
    ultimately show ?thesis using False by metis
  qed
qed

text \<open>
  C36 (bounds): the drift indicator is a divergence from the training data.  For a reference built from
  training columns, the indicator of any feature window is non-negative, bounds the index of every
  feature the window and the reference share and is attained by one of them; on the training columns
  themselves it is zero; and the reference is accepted when it is loaded against its manifest.
\<close>

theorem drift_indicator_divergence:
  assumes "bin_counting histogram"
    and "build_reference histogram quantile hash n cols m = Inr ref"
    and "max_population_stability_index histogram current ref = Inr p"
  shows "0 \<le> p \<and> (\<exists>feat \<in> set (active_feature_names ref). feature_psi histogram ref current feat = Inr p) \<and>
    (\<forall>feat \<in> set (active_feature_names ref). map_of current feat \<noteq> None \<longrightarrow>
       (\<exists>q. feature_psi histogram ref current feat = Inr q \<and> q \<le> p)) \<and>
    (current = cols \<longrightarrow> p = 0) \<and> load_reference hash ref (Some m) = Inr ref"
proof -
  let ?feats = "filter (\<lambda>feat. map_of current feat \<noteq> None) (active_feature_names ref)"
  from assms(3) obtain psis where psis: "map_err (feature_psi histogram ref current) ?feats = Inr psis"
    "psis \<noteq> []" "p = Max (set psis)"
    by (auto simp: max_population_stability_index_def bind_err_eq_Inr split: if_splits)
  note elements = map_err_elements [OF psis(1)]
  have "p \<in> set psis" using psis(2,3) by simp
  with elements obtain feat where f: "feat \<in> set ?feats" "feature_psi histogram ref current feat = Inr p"
    by blast
  have le: "\<exists>q. feature_psi histogram ref current feat = Inr q \<and> q \<le> p" if "feat \<in> set ?feats" for feat
    using that elements psis(3) by (meson List.finite_set Max_ge)
  from f have active: "feat \<in> set (active_feature_names ref)" by simp
  from feature_psi_reference [OF assms(1,2) active f(2)]
  have "0 \<le> p" "current = cols \<longrightarrow> p = 0" by auto
  moreover have "load_reference hash ref (Some m) = Inr ref"
    using assms(2) by (auto simp: build_reference_def load_reference_def Let_def bind_err_eq_Inr split: if_splits)
  ultimately show ?thesis using f active le by auto
qed

text \<open>Counting into half-open bins, which is what \<open>histogram\<close> does when the last edge is infinite.\<close>

definition sample_histogram :: histogram_fun where
  "sample_histogram xs edges = Inr (map (\<lambda>(a, b).
     length (filter (\<lambda>x. pf_le a (Fin x) \<and> pf_lt (Fin x) b) xs)) (zip edges (tl edges)))"

definition sample_manifest :: drift_manifest where
  "sample_manifest = \<lparr>mf_model_version = ''m1'', mf_source_dataset_sha256 = zero_sha,
     mf_contract_sha256 = zero_sha, mf_feature_names = [''tp2_last'']\<rparr>"

theorem drift_indicator_divergence_witness:
  "\<exists>ref. build_reference sample_histogram (\<lambda>_ _. 0) (\<lambda>_. zero_sha) 2 [(''tp2_last'', [0, 1])] sample_manifest = Inr ref \<and>
     max_population_stability_index sample_histogram [(''tp2_last'', [0, 1])] ref = Inr 0"
proof -
  let ?cols = "[(''tp2_last'', [0, 1 :: real])]"
  have h: "bin_counting sample_histogram" by (auto simp: bin_counting_def sample_histogram_def)
  obtain ref where ref: "build_reference sample_histogram (\<lambda>_ _. 0) (\<lambda>_. zero_sha) 2 ?cols sample_manifest = Inr ref"
    by (simp add: build_reference_def sample_manifest_def lookup_key_def feature_reference_def sample_histogram_def)
  then have active: "active_feature_names ref = [''tp2_last'']"
    by (auto simp: build_reference_def Let_def bind_err_eq_Inr sample_manifest_def split: if_splits)
  then obtain col counts where e: "map_of ?cols ''tp2_last'' = Some col"
    "sample_histogram col (reference_edges (\<lambda>_ _. 0) col) = Inr counts"
    "map_of (bin_edges ref) ''tp2_last'' = Some (reference_edges (\<lambda>_ _. 0) col)"
    "map_of (reference_proportions ref) ''tp2_last'' = Some (map (\<lambda>c. real c / real (sum_list counts)) counts)"
    using build_reference_entries [OF ref, of "''tp2_last''"] by auto
  have "length (map (\<lambda>c. real c / real (sum_list counts)) counts) = length (reference_edges (\<lambda>_ _. 0) col) - 1"
    using h e(2) unfolding bin_counting_def by (metis length_map)
  from psi_divergence [OF h this _ _ e(2), of psi_eps] obtain q where
    "population_stability_index sample_histogram psi_eps col (reference_edges (\<lambda>_ _. 0) col)
       (map (\<lambda>c. real c / real (sum_list counts)) counts) = Inr q"
    by (auto simp: psi_eps_def)
  with e active have "max_population_stability_index sample_histogram ?cols ref = Inr q"
    by (simp add: max_population_stability_index_def feature_psi_def lookup_key_def)
  moreover from drift_indicator_divergence [OF h ref this] have "q = 0" by blast
  ultimately show ?thesis using ref by blast
qed

end
