(* ===== verification/Provenance.thy ===== *)
theory Provenance
  imports Drift "HOL-Library.Char_ord" "HOL-Library.List_Lexorder"
begin

text \<open>
  \<open>ml_provenance.py\<close>: canonical JSON, the self-hashed run provenance and promotion receipt, and the
  files they are written to and loaded from.

  A JSON value is a \<open>json\<close>; an object is its list of entries in order.  The type \<open>'b\<close> is that of file
  contents.  \<open>render\<close> is \<open>json.dumps\<close> without key sorting, \<open>loads\<close> is \<open>json.loads\<close> and \<open>sha256_bytes\<close>
  is SHA-256; the sorting of the keys that \<open>sort_keys=True\<close> asks for is modelled.  Of the two
  functions of \<open>json\<close> the theorems use \<open>json_codec\<close>: what was rendered is read back.

  The dataclasses do not check their field types, so a field read from a file is a \<open>json\<close> value
  unless \<open>from_dict\<close> converts it.  Files are a map from paths (lists of components) to contents;
  writing a file succeeds.
\<close>

section \<open>JSON and files\<close>

datatype json =
    JNull
  | JTruth bool
  | JNum int
  | JReal pyfloat
  | JText string
  | JArr "json list"
  | JObj "(string \<times> json) list"

type_synonym json_obj = "(string \<times> json) list"
type_synonym path = "string list"
type_synonym 'b files = "path \<Rightarrow> 'b option"

record 'b codec =
  render :: "json \<Rightarrow> 'b"
  loads :: "'b \<Rightarrow> exn + json"
  sha256_bytes :: "'b \<Rightarrow> sha256"
  repr_json :: "json \<Rightarrow> string"
  float_text :: "string \<Rightarrow> exn + pyfloat"

primrec sort_keys :: "json \<Rightarrow> json" where
  "sort_keys JNull = JNull"
| "sort_keys (JTruth b) = JTruth b"
| "sort_keys (JNum n) = JNum n"
| "sort_keys (JReal x) = JReal x"
| "sort_keys (JText s) = JText s"
| "sort_keys (JArr xs) = JArr (map sort_keys xs)"
| "sort_keys (JObj kvs) = JObj (sort_key fst (map (map_prod id sort_keys) kvs))"

primrec has_nan :: "json \<Rightarrow> bool" where
  "has_nan JNull = False"
| "has_nan (JTruth b) = False"
| "has_nan (JNum n) = False"
| "has_nan (JReal x) = (\<not> isfinite x)"
| "has_nan (JText s) = False"
| "has_nan (JArr xs) = list_ex id (map has_nan xs)"
| "has_nan (JObj kvs) = list_ex snd (map (map_prod id has_nan) kvs)"

definition check_no_nan :: "json \<Rightarrow> exn + unit" where
  "check_no_nan d = (if has_nan d then Inl (ValueError ''JSON serialization cannot contain NaN or Infinity'') else Inr ())"

definition canonical_dumps :: "('b, 'm) codec_scheme \<Rightarrow> json \<Rightarrow> exn + 'b" where
  "canonical_dumps cd d = bind_err (check_no_nan d) (\<lambda>_. Inr (render cd (sort_keys d)))"

definition canonical_sha256 :: "('b, 'm) codec_scheme \<Rightarrow> json \<Rightarrow> exn + sha256" where
  "canonical_sha256 cd d = bind_err (canonical_dumps cd d) (\<lambda>s. Inr (sha256_bytes cd s))"

text \<open>\<open>str(v)\<close>, \<open>float(v)\<close>, \<open>dict(v)\<close> and \<open>list(v)\<close> on values read from JSON.\<close>

definition py_str :: "('b, 'm) codec_scheme \<Rightarrow> json \<Rightarrow> string" where
  "py_str cd v = (case v of JText s \<Rightarrow> s | _ \<Rightarrow> repr_json cd v)"

fun py_float :: "('b, 'm) codec_scheme \<Rightarrow> json \<Rightarrow> exn + pyfloat" where
  "py_float cd (JReal x) = Inr x"
| "py_float cd (JNum n) = Inr (Fin (of_int n))"
| "py_float cd (JTruth b) = Inr (Fin (if b then 1 else 0))"
| "py_float cd (JText s) = float_text cd s"
| "py_float cd _ = Inl (TypeError ''float() argument must be a string or a real number'')"

fun py_item :: "json \<Rightarrow> exn + string \<times> json" where
  "py_item (JArr [JText k, v]) = Inr (k, v)"
| "py_item _ = Inl (TypeError ''cannot convert dictionary update sequence element'')"

fun py_dict :: "json \<Rightarrow> exn + json_obj" where
  "py_dict (JObj kvs) = Inr kvs"
| "py_dict (JArr xs) = bind_err (map_err py_item xs) (\<lambda>kvs. Inr (AList.updates (map fst kvs) (map snd kvs) []))"
| "py_dict _ = Inl (TypeError ''object is not iterable'')"

fun py_list :: "json \<Rightarrow> exn + json list" where
  "py_list (JArr xs) = Inr xs"
| "py_list (JObj kvs) = Inr (map (JText \<circ> fst) kvs)"
| "py_list (JText s) = Inr (map (\<lambda>c. JText [c]) s)"
| "py_list _ = Inl (TypeError ''object is not iterable'')"

fun falsy :: "json \<Rightarrow> bool" where
  "falsy JNull = True"
| "falsy (JTruth b) = (\<not> b)"
| "falsy (JNum n) = (n = 0)"
| "falsy (JReal x) = (x = Fin 0)"
| "falsy (JText s) = (s = [])"
| "falsy (JArr xs) = (xs = [])"
| "falsy (JObj kvs) = (kvs = [])"

text \<open>\<open>data[k]\<close> and \<open>data.get(k, default)\<close> of a loaded document.\<close>

fun obj_item :: "json \<Rightarrow> string \<Rightarrow> exn + json" where
  "obj_item (JObj kvs) k = lookup_key kvs k k"
| "obj_item _ k = Inl (TypeError ''indices must be integers'')"

fun obj_get :: "json \<Rightarrow> string \<Rightarrow> json \<Rightarrow> exn + json" where
  "obj_get (JObj kvs) k d = Inr (case map_of kvs k of Some v \<Rightarrow> v | None \<Rightarrow> d)"
| "obj_get _ k d = Inl (AttributeError ''get'')"

text \<open>\<open>path.with_suffix\<close>: the text from the last dot of the name is replaced, unless the dot is its
  first or last character.\<close>

definition stem :: "string \<Rightarrow> string" where
  "stem name = (let ext = takeWhile (\<lambda>c. c \<noteq> CHR ''.'') (List.rev name); n = length name - length ext
     in if CHR ''.'' \<in> set name \<and> ext \<noteq> [] \<and> 1 < n then take (n - 1) name else name)"

definition with_suffix :: "path \<Rightarrow> string \<Rightarrow> path" where
  "with_suffix p suffix = butlast p @ [stem (List.last p) @ suffix]"

text \<open>\<open>temp.write_text(content)\<close> followed by \<open>temp.replace(path)\<close>.\<close>

definition replace_file :: "path \<Rightarrow> path \<Rightarrow> 'b files \<Rightarrow> 'b files" where
  "replace_file temp p fs = (fs(temp := None))(p := fs temp)"

section \<open>Field checks\<close>

text \<open>\<open>re.match\<close> with a pattern that ends in \<open>$\<close>: a final newline is accepted.\<close>

definition hex_match :: "nat \<Rightarrow> string \<Rightarrow> bool" where
  "hex_match n s \<longleftrightarrow>
     (length s = n \<and> list_all (\<lambda>c. c \<in> set hex_chars) s) \<or>
     (length s = n + 1 \<and> list_all (\<lambda>c. c \<in> set hex_chars) (butlast s) \<and> List.last s = CHR 0x0A)"

definition validate_hex64 :: "json \<Rightarrow> string \<Rightarrow> bool \<times> exn" where
  "validate_hex64 v field = (\<not> (case v of JText s \<Rightarrow> hex_match 64 s | _ \<Rightarrow> False), ValueError field)"

definition validate_git_sha :: "json \<Rightarrow> string \<Rightarrow> bool \<times> exn" where
  "validate_git_sha v field = (\<not> (case v of JText s \<Rightarrow> hex_match 40 s | _ \<Rightarrow> False), ValueError field)"

definition is_space :: "char \<Rightarrow> bool" where
  "is_space c \<longleftrightarrow> (of_char c :: nat) \<in> {9, 10, 11, 12, 13, 28, 29, 30, 31, 32, 133, 160}"

definition strip :: "string \<Rightarrow> string" where
  "strip s = List.rev (dropWhile is_space (List.rev (dropWhile is_space s)))"

definition check_approver :: "json \<Rightarrow> exn + unit" where
  "check_approver v = (case v of
      JText s \<Rightarrow> if strip s = [] then Inl (ValueError ''approver cannot be empty'') else Inr ()
    | _ \<Rightarrow> if falsy v then Inl (ValueError ''approver cannot be empty'') else Inl (AttributeError ''strip''))"

section \<open>Run provenance\<close>

record RunProvenanceV1 =
  rp_schema_version :: json
  rp_mlflow_run_id :: json
  rp_experiment_name :: json
  rp_lifecycle_state :: json
  rp_dataset_sha256 :: json
  rp_contract_sha256 :: json
  rp_feature_schema_sha256 :: json
  rp_source_git_sha :: json
  rp_python_version :: json
  rp_dependency_versions :: json_obj
  rp_champion_package_sha256 :: json
  rp_alert_policy_sha256 :: json
  rp_parameters :: json_obj
  rp_metrics :: json_obj
  rp_artifact_sha256 :: json_obj
  rp_provenance_sha256 :: json

text \<open>\<open>__post_init__\<close>\<close>

definition new_run_provenance :: "RunProvenanceV1 \<Rightarrow> exn + RunProvenanceV1" where
  "new_run_provenance p =
     run_checks
       ([(rp_schema_version p \<noteq> JText ''mlflow-run-provenance-v1'', ValueError ''Invalid schema_version''),
         (rp_lifecycle_state p \<notin> {JText ''candidate'', JText ''reproduction''}, ValueError ''Invalid lifecycle_state''),
         validate_hex64 (rp_dataset_sha256 p) ''dataset_sha256'',
         validate_hex64 (rp_contract_sha256 p) ''contract_sha256'',
         validate_hex64 (rp_feature_schema_sha256 p) ''feature_schema_sha256'',
         validate_git_sha (rp_source_git_sha p) ''source_git_sha'',
         validate_hex64 (rp_champion_package_sha256 p) ''champion_package_sha256'',
         validate_hex64 (rp_alert_policy_sha256 p) ''alert_policy_sha256'']
        @ map (\<lambda>(k, v). validate_hex64 v (''artifact_sha256['' @ k @ '']'')) (rp_artifact_sha256 p)) p"

definition provenance_to_dict :: "RunProvenanceV1 \<Rightarrow> json_obj" where
  "provenance_to_dict p =
     [(''schema_version'', rp_schema_version p),
      (''mlflow_run_id'', rp_mlflow_run_id p),
      (''experiment_name'', rp_experiment_name p),
      (''lifecycle_state'', rp_lifecycle_state p),
      (''dataset_sha256'', rp_dataset_sha256 p),
      (''contract_sha256'', rp_contract_sha256 p),
      (''feature_schema_sha256'', rp_feature_schema_sha256 p),
      (''source_git_sha'', rp_source_git_sha p),
      (''python_version'', rp_python_version p),
      (''dependency_versions'', JObj (rp_dependency_versions p)),
      (''champion_package_sha256'', rp_champion_package_sha256 p),
      (''alert_policy_sha256'', rp_alert_policy_sha256 p),
      (''parameters'', JObj (rp_parameters p)),
      (''metrics'', JObj (rp_metrics p)),
      (''artifact_sha256'', JObj (rp_artifact_sha256 p)),
      (''provenance_sha256'', rp_provenance_sha256 p)]"

definition provenance_from_dict :: "json \<Rightarrow> exn + RunProvenanceV1" where
  "provenance_from_dict d =
     bind_err (obj_item d ''schema_version'') (\<lambda>schema.
     bind_err (obj_item d ''mlflow_run_id'') (\<lambda>run_id.
     bind_err (obj_item d ''experiment_name'') (\<lambda>experiment.
     bind_err (obj_item d ''lifecycle_state'') (\<lambda>state.
     bind_err (obj_item d ''dataset_sha256'') (\<lambda>dataset.
     bind_err (obj_item d ''contract_sha256'') (\<lambda>contract.
     bind_err (obj_item d ''feature_schema_sha256'') (\<lambda>feature_schema.
     bind_err (obj_item d ''source_git_sha'') (\<lambda>git_sha.
     bind_err (obj_item d ''python_version'') (\<lambda>python.
     bind_err (bind_err (obj_get d ''dependency_versions'' (JObj [])) py_dict) (\<lambda>dependencies.
     bind_err (obj_item d ''champion_package_sha256'') (\<lambda>package.
     bind_err (obj_item d ''alert_policy_sha256'') (\<lambda>policy.
     bind_err (bind_err (obj_get d ''parameters'' (JObj [])) py_dict) (\<lambda>params.
     bind_err (bind_err (obj_get d ''metrics'' (JObj [])) py_dict) (\<lambda>mets.
     bind_err (bind_err (obj_get d ''artifact_sha256'' (JObj [])) py_dict) (\<lambda>artifacts.
     bind_err (obj_get d ''provenance_sha256'' (JText [])) (\<lambda>sha.
     new_run_provenance
       \<lparr>rp_schema_version = schema, rp_mlflow_run_id = run_id, rp_experiment_name = experiment,
        rp_lifecycle_state = state, rp_dataset_sha256 = dataset, rp_contract_sha256 = contract,
        rp_feature_schema_sha256 = feature_schema, rp_source_git_sha = git_sha,
        rp_python_version = python, rp_dependency_versions = dependencies,
        rp_champion_package_sha256 = package, rp_alert_policy_sha256 = policy,
        rp_parameters = params, rp_metrics = mets, rp_artifact_sha256 = artifacts,
        rp_provenance_sha256 = sha\<rparr>))))))))))))))))"

definition provenance_hash :: "('b, 'm) codec_scheme \<Rightarrow> RunProvenanceV1 \<Rightarrow> exn + sha256" where
  "provenance_hash cd p =
     canonical_sha256 cd (JObj (filter (\<lambda>(k, v). k \<noteq> ''provenance_sha256'') (provenance_to_dict p)))"

definition provenance_with_hash :: "('b, 'm) codec_scheme \<Rightarrow> RunProvenanceV1 \<Rightarrow> exn + RunProvenanceV1" where
  "provenance_with_hash cd p =
     bind_err (provenance_hash cd p) (\<lambda>h. new_run_provenance (p\<lparr>rp_provenance_sha256 := JText h\<rparr>))"

definition verify_run_provenance :: "('b, 'm) codec_scheme \<Rightarrow> RunProvenanceV1 \<Rightarrow> exn + unit" where
  "verify_run_provenance cd p =
     bind_err (provenance_hash cd p) (\<lambda>expected.
       if rp_provenance_sha256 p \<noteq> JText expected then Inl (ValueError ''Run provenance hash mismatch'') else Inr ())"

definition write_run_provenance ::
  "('b, 'm) codec_scheme \<Rightarrow> path \<Rightarrow> RunProvenanceV1 \<Rightarrow> 'b files \<Rightarrow> exn + 'b files"
where
  "write_run_provenance cd p prov fs =
     bind_err (provenance_with_hash cd prov) (\<lambda>prov'.
     bind_err (canonical_dumps cd (JObj (provenance_to_dict prov'))) (\<lambda>content.
       (let temp = with_suffix p ''.tmp'' in Inr (replace_file temp p (fs(temp \<mapsto> content))))))"

definition read_file :: "'b files \<Rightarrow> path \<Rightarrow> exn + 'b" where
  "read_file fs p = (case fs p of Some c \<Rightarrow> Inr c | None \<Rightarrow> Inl (FileNotFoundError (concat p)))"

definition load_run_provenance :: "('b, 'm) codec_scheme \<Rightarrow> 'b files \<Rightarrow> path \<Rightarrow> exn + RunProvenanceV1" where
  "load_run_provenance cd fs p =
     bind_err (read_file fs p) (\<lambda>content.
     bind_err (loads cd content) (\<lambda>data.
     bind_err (provenance_from_dict data) (\<lambda>prov.
     bind_err (verify_run_provenance cd prov) (\<lambda>_. Inr prov))))"

section \<open>Promotion receipts\<close>

record PromotionReceiptV1 =
  pr_schema_version :: json
  pr_mlflow_run_id :: json
  pr_registered_model_name :: json
  pr_registered_model_version :: string
  pr_alias :: json
  pr_model_version :: json
  pr_dataset_sha256 :: json
  pr_contract_sha256 :: json
  pr_champion_package_sha256 :: json
  pr_source_git_sha :: json
  pr_approver :: json
  pr_promoted_at :: json
  pr_receipt_sha256 :: json

definition REGISTERED_MODEL_NAME :: string where
  "REGISTERED_MODEL_NAME = ''industrial-reliability-anomaly-detector''"

definition new_promotion_receipt :: "PromotionReceiptV1 \<Rightarrow> exn + PromotionReceiptV1" where
  "new_promotion_receipt r =
     bind_err (run_checks
       [(pr_schema_version r \<noteq> JText ''mlflow-promotion-receipt-v1'', ValueError ''Invalid schema_version''),
        (pr_registered_model_name r \<noteq> JText REGISTERED_MODEL_NAME, ValueError ''Invalid registered_model_name''),
        (pr_alias r \<noteq> JText ''champion'', ValueError ''Invalid alias'')] r) (\<lambda>r.
     bind_err (check_approver (pr_approver r)) (\<lambda>_.
     run_checks
       [validate_hex64 (pr_dataset_sha256 r) ''dataset_sha256'',
        validate_hex64 (pr_contract_sha256 r) ''contract_sha256'',
        validate_hex64 (pr_champion_package_sha256 r) ''champion_package_sha256'',
        validate_git_sha (pr_source_git_sha r) ''source_git_sha''] r))"

definition receipt_to_dict :: "PromotionReceiptV1 \<Rightarrow> json_obj" where
  "receipt_to_dict r =
     [(''schema_version'', pr_schema_version r),
      (''mlflow_run_id'', pr_mlflow_run_id r),
      (''registered_model_name'', pr_registered_model_name r),
      (''registered_model_version'', JText (pr_registered_model_version r)),
      (''alias'', pr_alias r),
      (''model_version'', pr_model_version r),
      (''dataset_sha256'', pr_dataset_sha256 r),
      (''contract_sha256'', pr_contract_sha256 r),
      (''champion_package_sha256'', pr_champion_package_sha256 r),
      (''source_git_sha'', pr_source_git_sha r),
      (''approver'', pr_approver r),
      (''promoted_at'', pr_promoted_at r),
      (''receipt_sha256'', pr_receipt_sha256 r)]"

definition receipt_from_dict :: "('b, 'm) codec_scheme \<Rightarrow> json \<Rightarrow> exn + PromotionReceiptV1" where
  "receipt_from_dict cd d =
     bind_err (obj_item d ''schema_version'') (\<lambda>schema.
     bind_err (obj_item d ''mlflow_run_id'') (\<lambda>run_id.
     bind_err (obj_item d ''registered_model_name'') (\<lambda>name.
     bind_err (obj_item d ''registered_model_version'') (\<lambda>reg_version.
     bind_err (obj_item d ''alias'') (\<lambda>alias.
     bind_err (obj_item d ''model_version'') (\<lambda>model.
     bind_err (obj_item d ''dataset_sha256'') (\<lambda>dataset.
     bind_err (obj_item d ''contract_sha256'') (\<lambda>contract.
     bind_err (obj_item d ''champion_package_sha256'') (\<lambda>package.
     bind_err (obj_item d ''source_git_sha'') (\<lambda>git_sha.
     bind_err (obj_item d ''approver'') (\<lambda>approver.
     bind_err (obj_item d ''promoted_at'') (\<lambda>promoted_at.
     bind_err (obj_get d ''receipt_sha256'' (JText [])) (\<lambda>sha.
     new_promotion_receipt
       \<lparr>pr_schema_version = schema, pr_mlflow_run_id = run_id, pr_registered_model_name = name,
        pr_registered_model_version = py_str cd reg_version, pr_alias = alias,
        pr_model_version = model, pr_dataset_sha256 = dataset, pr_contract_sha256 = contract,
        pr_champion_package_sha256 = package, pr_source_git_sha = git_sha, pr_approver = approver,
        pr_promoted_at = promoted_at, pr_receipt_sha256 = sha\<rparr>)))))))))))))"

definition receipt_hash :: "('b, 'm) codec_scheme \<Rightarrow> PromotionReceiptV1 \<Rightarrow> exn + sha256" where
  "receipt_hash cd r =
     canonical_sha256 cd (JObj (filter (\<lambda>(k, v). k \<noteq> ''receipt_sha256'') (receipt_to_dict r)))"

definition receipt_with_hash :: "('b, 'm) codec_scheme \<Rightarrow> PromotionReceiptV1 \<Rightarrow> exn + PromotionReceiptV1" where
  "receipt_with_hash cd r =
     bind_err (receipt_hash cd r) (\<lambda>h. new_promotion_receipt (r\<lparr>pr_receipt_sha256 := JText h\<rparr>))"

text \<open>The package manifest is given by its two attributes \<open>manifest_sha256\<close> and \<open>package_sha256\<close>.\<close>

definition manifest_attr :: "sha256 option \<times> sha256 option \<Rightarrow> sha256 option" where
  "manifest_attr m = (if fst m \<in> {None, Some []} then snd m else fst m)"

definition verify_promotion_receipt ::
  "('b, 'm) codec_scheme \<Rightarrow> PromotionReceiptV1 \<Rightarrow> (sha256 option \<times> sha256 option) option \<Rightarrow> exn + unit"
where
  "verify_promotion_receipt cd r package_manifest =
     bind_err (receipt_hash cd r) (\<lambda>expected.
       run_checks
         ([(pr_receipt_sha256 r \<noteq> JText expected, ValueError ''Promotion receipt hash mismatch''),
           (pr_alias r \<noteq> JText ''champion'', ValueError ''Promotion receipt must specify champion alias'')]
          @ (case package_manifest of None \<Rightarrow> []
             | Some m \<Rightarrow> (case manifest_attr m of None \<Rightarrow> []
                | Some sha \<Rightarrow> [(JText sha \<noteq> pr_champion_package_sha256 r, ValueError ''Package manifest SHA mismatch'')]))) ())"

definition write_promotion_receipt ::
  "('b, 'm) codec_scheme \<Rightarrow> path \<Rightarrow> PromotionReceiptV1 \<Rightarrow> 'b files \<Rightarrow> exn + 'b files"
where
  "write_promotion_receipt cd p r fs =
     (if fs p \<noteq> None then Inl (FileExistsError ''Promotion receipt destination already exists'')
      else bind_err (receipt_with_hash cd r) (\<lambda>r'.
        bind_err (canonical_dumps cd (JObj (receipt_to_dict r'))) (\<lambda>content.
          (let temp = with_suffix p ''.tmp'' in Inr (replace_file temp p (fs(temp \<mapsto> content)))))))"

definition load_promotion_receipt :: "('b, 'm) codec_scheme \<Rightarrow> 'b files \<Rightarrow> path \<Rightarrow> exn + PromotionReceiptV1" where
  "load_promotion_receipt cd fs p =
     bind_err (read_file fs p) (\<lambda>content.
     bind_err (loads cd content) (\<lambda>data.
     bind_err (receipt_from_dict cd data) (\<lambda>r.
     bind_err (verify_promotion_receipt cd r None) (\<lambda>_. Inr r))))"

section \<open>Canonical JSON is read back\<close>

primrec keys_distinct :: "json \<Rightarrow> bool" where
  "keys_distinct JNull = True"
| "keys_distinct (JTruth b) = True"
| "keys_distinct (JNum n) = True"
| "keys_distinct (JReal x) = True"
| "keys_distinct (JText s) = True"
| "keys_distinct (JArr xs) = list_all id (map keys_distinct xs)"
| "keys_distinct (JObj kvs) = (distinct (map fst kvs) \<and> list_all snd (map (map_prod id keys_distinct) kvs))"

text \<open>The documents a Python program can hand to \<open>json.dumps\<close> and get back from \<open>json.loads\<close>.\<close>

definition plain_json :: "json \<Rightarrow> bool" where
  "plain_json d \<longleftrightarrow> \<not> has_nan d \<and> keys_distinct d"

definition json_codec :: "('b, 'm) codec_scheme \<Rightarrow> bool" where
  "json_codec cd \<longleftrightarrow> (\<forall>d. plain_json d \<longrightarrow> loads cd (render cd d) = Inr d)"

lemma has_nan_sort_keys [simp]: "has_nan (sort_keys d) = has_nan d"
proof (induction d)
  case (JObj kvs)
  have "has_nan (sort_keys (snd p)) = has_nan (snd p)" if "p \<in> set kvs" for p
    using JObj [OF that, of "snd p"] by (simp add: prod_set_defs)
  then show ?case by (simp add: list_ex_iff)
qed (auto simp: list_ex_iff)

lemma mset_keys_sort_key: "mset (map fst (sort_key fst kvs)) = mset (map fst kvs)"
  by simp

lemma distinct_sort_key [simp]: "distinct (map fst (sort_key fst kvs)) = distinct (map fst kvs)"
  by (rule mset_eq_imp_distinct_iff) (rule mset_keys_sort_key)

lemma keys_distinct_sort_keys: "keys_distinct d \<Longrightarrow> keys_distinct (sort_keys d)"
  by (induction d) (auto simp: list_all_iff)

lemma plain_json_sort_keys: "plain_json d \<Longrightarrow> plain_json (sort_keys d)"
  by (simp add: plain_json_def keys_distinct_sort_keys)

lemma insort_key_map_snd:
  "insort_key fst (map_prod id f x) (map (map_prod id f) ys) = map (map_prod id f) (insort_key fst x ys)"
  by (induction ys) auto

lemma sort_key_map_snd:
  "sort_key fst (map (map_prod id f) kvs) = map (map_prod id f) (sort_key fst kvs)"
  by (induction kvs) (simp_all only: sort_key_simps list.map insort_key_map_snd)

lemma sort_key_twice [simp]: "sort_key fst (sort_key fst kvs) = sort_key fst kvs"
  by (rule sort_key_id_if_sorted) simp

lemma sort_keys_idem [simp]: "sort_keys (sort_keys d) = sort_keys d"
proof (induction d)
  case (JObj kvs)
  have "map (map_prod id sort_keys) (map (map_prod id sort_keys) (sort_key fst kvs)) =
      map (map_prod id sort_keys) (sort_key fst kvs)"
    using JObj by (fastforce simp: map_prod_def)
  then show ?case by (simp only: sort_keys.simps sort_key_map_snd sort_key_twice)
qed auto

lemma sort_keys_values: "sort_keys (JObj (map (map_prod id sort_keys) kvs)) = sort_keys (JObj kvs)"
  by (simp add: comp_def map_prod_def case_prod_unfold)

lemma map_of_sort_key:
  assumes "distinct (map fst kvs)"
  shows "map_of (sort_key fst kvs) = map_of kvs"
  using assms by (intro map_of_inject_set [THEN iffD2]) auto

lemma map_of_sorted_values:
  assumes "distinct (map fst kvs)"
  shows "map_of (sort_key fst (map (map_prod id f) kvs)) k = map_option f (map_of kvs k)"
proof -
  have "map_of (map (map_prod id f) xs) k = map_option f (map_of xs k)" for xs
    by (induction xs) auto
  with assms show ?thesis by (simp only: sort_key_map_snd map_of_sort_key)
qed

text \<open>Reading a field of a document that was written with sorted keys.\<close>

lemma obj_item_sorted:
  "distinct (map fst kvs) \<Longrightarrow> map_of kvs k = Some v \<Longrightarrow> obj_item (sort_keys (JObj kvs)) k = Inr (sort_keys v)"
  by (simp add: lookup_key_def map_of_sorted_values)

lemma obj_get_sorted:
  "distinct (map fst kvs) \<Longrightarrow> map_of kvs k = Some v \<Longrightarrow> obj_get (sort_keys (JObj kvs)) k d = Inr (sort_keys v)"
  by (simp add: map_of_sorted_values)

lemma loads_canonical:
  "json_codec cd \<Longrightarrow> plain_json d \<Longrightarrow> canonical_dumps cd d = Inr c \<Longrightarrow> loads cd c = Inr (sort_keys d)"
  by (auto simp: canonical_dumps_def bind_err_eq_Inr json_codec_def dest: plain_json_sort_keys)

lemma canonical_dumps_plain: "plain_json d \<Longrightarrow> canonical_dumps cd d = Inr (render cd (sort_keys d))"
  by (simp add: canonical_dumps_def check_no_nan_def plain_json_def)

section \<open>Receipts are read back\<close>

fun is_text :: "json \<Rightarrow> bool" where
  "is_text (JText s) = True"
| "is_text _ = False"

lemma is_text_iff: "is_text v \<longleftrightarrow> (\<exists>s. v = JText s)"
  by (cases v) simp_all

text \<open>The field types the dataclass declares.\<close>

definition text_receipt :: "PromotionReceiptV1 \<Rightarrow> bool" where
  "text_receipt r \<longleftrightarrow> list_all (is_text \<circ> snd) (receipt_to_dict r)"

lemma receipt_keys: "distinct (map fst (receipt_to_dict r))"
  by (simp add: receipt_to_dict_def)

lemma text_values:
  assumes "list_all (is_text \<circ> snd) kvs" "distinct (map fst kvs)"
  shows "plain_json (JObj kvs)" "map_of kvs k = Some v \<Longrightarrow> sort_keys v = v"
  using assms by (auto simp: plain_json_def list_ex_iff list_all_iff is_text_iff dest!: map_of_SomeD)

lemma receipt_fields:
  "map_of (receipt_to_dict r) ''schema_version'' = Some (pr_schema_version r)"
  "map_of (receipt_to_dict r) ''mlflow_run_id'' = Some (pr_mlflow_run_id r)"
  "map_of (receipt_to_dict r) ''registered_model_name'' = Some (pr_registered_model_name r)"
  "map_of (receipt_to_dict r) ''registered_model_version'' = Some (JText (pr_registered_model_version r))"
  "map_of (receipt_to_dict r) ''alias'' = Some (pr_alias r)"
  "map_of (receipt_to_dict r) ''model_version'' = Some (pr_model_version r)"
  "map_of (receipt_to_dict r) ''dataset_sha256'' = Some (pr_dataset_sha256 r)"
  "map_of (receipt_to_dict r) ''contract_sha256'' = Some (pr_contract_sha256 r)"
  "map_of (receipt_to_dict r) ''champion_package_sha256'' = Some (pr_champion_package_sha256 r)"
  "map_of (receipt_to_dict r) ''source_git_sha'' = Some (pr_source_git_sha r)"
  "map_of (receipt_to_dict r) ''approver'' = Some (pr_approver r)"
  "map_of (receipt_to_dict r) ''promoted_at'' = Some (pr_promoted_at r)"
  "map_of (receipt_to_dict r) ''receipt_sha256'' = Some (pr_receipt_sha256 r)"
  by (simp_all add: receipt_to_dict_def)

lemma receipt_from_sorted:
  assumes "text_receipt r"
  shows "receipt_from_dict cd (sort_keys (JObj (receipt_to_dict r))) = new_promotion_receipt r"
proof -
  let ?d = "sort_keys (JObj (receipt_to_dict r))"
  have same: "sort_keys v = v" if "map_of (receipt_to_dict r) k = Some v" for k v
    using text_values(2) [OF _ receipt_keys that] assms by (simp add: text_receipt_def)
  have item: "obj_item ?d k = Inr v" "obj_get ?d k dflt = Inr v"
    if "map_of (receipt_to_dict r) k = Some v" for k v dflt
    using obj_item_sorted [OF receipt_keys that] obj_get_sorted [OF receipt_keys that] same [OF that] by simp_all
  show ?thesis
    unfolding receipt_from_dict_def
    by (simp add: receipt_fields [THEN item(1)] receipt_fields(13) [THEN item(2)] py_str_def
        del: sort_keys.simps obj_item.simps obj_get.simps) (cases r, simp)
qed

lemma receipt_hash_sha [simp]: "receipt_hash cd (r\<lparr>pr_receipt_sha256 := h\<rparr>) = receipt_hash cd r"
  by (simp add: receipt_hash_def receipt_to_dict_def)

lemma new_promotion_receipt_same: "new_promotion_receipt r = Inr r' \<Longrightarrow> r' = r"
  by (auto simp: new_promotion_receipt_def err_simps simp del: run_checks.simps)

lemma new_promotion_receipt_sha:
  "new_promotion_receipt (r\<lparr>pr_receipt_sha256 := h\<rparr>) = Inr r' \<longleftrightarrow>
     r' = r\<lparr>pr_receipt_sha256 := h\<rparr> \<and> new_promotion_receipt r = Inr r"
  by (auto simp: new_promotion_receipt_def err_simps simp del: run_checks.simps)

lemma receipt_with_hash_result:
  assumes "receipt_with_hash cd r0 = Inr r"
  shows "new_promotion_receipt r = Inr r" "verify_promotion_receipt cd r None = Inr ()"
    and "\<exists>h. r = r0\<lparr>pr_receipt_sha256 := JText h\<rparr>"
proof -
  from assms obtain h where h: "receipt_hash cd r0 = Inr h"
    "new_promotion_receipt (r0\<lparr>pr_receipt_sha256 := JText h\<rparr>) = Inr r"
    by (auto simp: receipt_with_hash_def bind_err_eq_Inr)
  then have r: "r = r0\<lparr>pr_receipt_sha256 := JText h\<rparr>" by (metis new_promotion_receipt_same)
  with h(2) show new: "new_promotion_receipt r = Inr r" by simp
  show "\<exists>h. r = r0\<lparr>pr_receipt_sha256 := JText h\<rparr>" using r by blast
  have "pr_alias r = JText ''champion''"
    using new by (auto simp: new_promotion_receipt_def err_simps simp del: run_checks.simps)
  then show "verify_promotion_receipt cd r None = Inr ()"
    using h(1) by (simp add: verify_promotion_receipt_def r)
qed

lemma text_receipt_sha: "text_receipt (r\<lparr>pr_receipt_sha256 := JText h\<rparr>) \<longleftrightarrow> text_receipt (r\<lparr>pr_receipt_sha256 := JText []\<rparr>)"
  by (simp add: text_receipt_def receipt_to_dict_def)

lemma written_receipt_loads:
  assumes "json_codec cd" "text_receipt r" "receipt_with_hash cd r0 = Inr r"
    and "canonical_dumps cd (JObj (receipt_to_dict r)) = Inr c" "fs p = Some c"
  shows "load_promotion_receipt cd fs p = Inr r"
proof -
  have "plain_json (JObj (receipt_to_dict r))"
    using assms(2) receipt_keys by (auto simp: text_receipt_def intro: text_values)
  with assms(1,4) have "loads cd c = Inr (sort_keys (JObj (receipt_to_dict r)))" by (simp add: loads_canonical)
  with assms(2,5) receipt_with_hash_result [OF assms(3)] show ?thesis
    by (simp add: load_promotion_receipt_def read_file_def receipt_from_sorted del: sort_keys.simps)
qed

end
