(* ===== verification/Rca.thy ===== *)
theory Rca
  imports Runtime_Store Provenance
begin

text \<open>
  Grounded root-cause reports: the evidence of an alert (\<open>rca_evidence.py\<close>), the report generator
  (\<open>rca_openai.py\<close>) and the canonical JSON helpers of \<open>report_hashes.py\<close>.

  The facts of an evidence item are JSON values, so the digests of items and bundles are taken over the
  documents the code dumps.  The record \<open>rca_env\<close> extends the codec (\<open>render\<close> is \<open>json.dumps\<close> with compact
  separators) by the texts of uuids, times and documents and by the name of an exception class.
  The language-model service is a function from the model name and the evidence text to a draft.
\<close>

section \<open>Canonical JSON of reports\<close>

definition canonical_json_bytes :: "('b, 'm) codec_scheme \<Rightarrow> Provenance.json \<Rightarrow> exn + 'b" where
  "canonical_json_bytes cd data =
     (if has_nan data then Inl (ValueError ''Out of range float values are not JSON compliant'')
      else Inr (render cd (sort_keys data)))"

definition json_sha256 :: "('b, 'm) codec_scheme \<Rightarrow> Provenance.json \<Rightarrow> exn + sha256" where
  "json_sha256 cd data = bind_err (canonical_json_bytes cd data) (\<lambda>b. Inr (sha256_bytes cd b))"

text \<open>The payload with its hash field set to the empty text.\<close>

definition compute_self_hash :: "('b, 'm) codec_scheme \<Rightarrow> json_obj \<Rightarrow> string \<Rightarrow> exn + sha256" where
  "compute_self_hash cd data hash_field = json_sha256 cd (JObj (AList.update hash_field (Provenance.JText []) data))"

definition require_committed_git_sha :: "Provenance.json \<Rightarrow> exn + Provenance.json" where
  "require_committed_git_sha git_sha =
     (case git_sha of
        Provenance.JText s \<Rightarrow>
          (if length s \<noteq> 40 \<or> \<not> list_all (\<lambda>c. c \<in> set hex_chars) s \<or> s = replicate 40 CHR ''0''
           then Inl (ValueError ''git_sha must be a non-zero lowercase 40-character SHA'') else Inr git_sha)
      | _ \<Rightarrow> Inl (ValueError ''git_sha must be a non-zero lowercase 40-character SHA''))"

text \<open>\<open>git_output\<close> is what \<open>git rev-parse HEAD\<close> prints, or None when it cannot be run.\<close>

definition resolve_git_sha :: "string option \<Rightarrow> string option \<Rightarrow> exn + string" where
  "resolve_git_sha git_output git_sha =
     (if git_sha \<notin> {None, Some []} then Inr (the git_sha)
      else case git_output of
        None \<Rightarrow> Inl (RuntimeError ''unable to resolve committed git HEAD'')
      | Some out \<Rightarrow> (if strip out = [] then Inl (RuntimeError ''git rev-parse HEAD returned an empty SHA'')
          else Inr (strip out)))"

section \<open>Evidence of an alert\<close>

record 'b rca_env = "'b codec" +
  uuid_text :: "uuid \<Rightarrow> string"
  uuid_of_text :: "string \<Rightarrow> uuid option"
  isoformat :: "datetime \<Rightarrow> string"
  isoformat_utc :: "datetime \<Rightarrow> string"
  document_text :: "Provenance.json \<Rightarrow> string"
  class_name :: "exn \<Rightarrow> string"

record EvidenceItemV1 =
  ri_evidence_id :: string
  ri_tool_name :: string
  ri_observed_at :: datetime
  ri_facts :: json_obj

record EvidenceBundleV1 =
  rb_alert_id :: string
  rb_replay_session_id :: string
  rb_model_version :: string
  rb_contract_sha256 :: string
  rb_source_dataset_sha256 :: string
  rb_items :: "EvidenceItemV1 list"
  rb_bundle_sha256 :: string

definition RCA_TOOL_NAMES :: "string list" where
  "RCA_TOOL_NAMES = [''get_alert'', ''get_score_evidence'', ''get_model_provenance'', ''get_system_health'']"

definition evidence_id :: "('b, 'm) rca_env_scheme \<Rightarrow> string \<Rightarrow> json_obj \<Rightarrow> exn + string" where
  "evidence_id env tool facts =
     bind_err (json_sha256 env (JObj [(''facts'', JObj (sort_key fst facts)), (''tool_name'', Provenance.JText tool)]))
       (\<lambda>digest. Inr (''evidence-'' @ take 24 digest))"

text \<open>A float is compared with infinity, so an integer that no float can hold raises.\<close>

fun sanitize_scalar :: "('b, 'm) codec_scheme \<Rightarrow> Provenance.json \<Rightarrow> exn + Provenance.json" where
  "sanitize_scalar cd (JTruth b) = Inr (JTruth b)"
| "sanitize_scalar cd (Provenance.JNum n) =
     (if 2 ^ 1024 - 2 ^ 970 \<le> \<bar>n\<bar> then Inl (OverflowError ''int too large to convert to float'') else Inr (Provenance.JNum n))"
| "sanitize_scalar cd (JReal x) =
     (if isfinite x then Inr (JReal x) else Inl (ValueError ''Non-finite float not allowed''))"
| "sanitize_scalar cd (Provenance.JArr xs) = Inr (Provenance.JArr (map (Provenance.JText \<circ> py_str cd) xs))"
| "sanitize_scalar cd v = Inr (Provenance.JText (py_str cd v))"

fun scalar_json :: "json_scalar \<Rightarrow> Provenance.json" where
  "scalar_json (JFloat x) = JReal x"
| "scalar_json (JInt n) = Provenance.JNum n"
| "scalar_json (JStr s) = Provenance.JText s"
| "scalar_json (JBool b) = JTruth b"

definition add_sanitized ::
  "('b, 'm) codec_scheme \<Rightarrow> json_obj \<Rightarrow> string \<times> Provenance.json \<Rightarrow> exn + json_obj"
where
  "add_sanitized cd facts entry =
     bind_err (sanitize_scalar cd (snd entry)) (\<lambda>v. Inr (AList.update (fst entry) v facts))"

definition new_item :: "('b, 'm) rca_env_scheme \<Rightarrow> string \<Rightarrow> AlertSummaryRecord \<Rightarrow> json_obj \<Rightarrow> exn + EvidenceItemV1" where
  "new_item env tool alert facts =
     bind_err (evidence_id env tool facts) (\<lambda>i.
     run_checks [(i = [], ValueError ''evidence_id''), (tool \<notin> set RCA_TOOL_NAMES, ValueError ''tool_name'')]
       \<lparr>ri_evidence_id = i, ri_tool_name = tool, ri_observed_at = al_last_detection alert, ri_facts = facts\<rparr>)"

fun action_text :: "AlertAction \<Rightarrow> string" where
  "action_text OPENED = ''OPENED''"
| "action_text UPDATED = ''UPDATED''"
| "action_text RESOLVED = ''RESOLVED''"
| "action_text REOPENED = ''REOPENED''"

fun row_state_text :: "alert_row_state \<Rightarrow> string" where
  "row_state_text ROW_OPEN = ''OPEN''"
| "row_state_text ROW_RESOLVED = ''RESOLVED''"

text \<open>The alert columns are timezone-naive, so \<open>observed_at\<close> is their clock value in UTC.\<close>

definition get_alert_evidence :: "('b, 'm) rca_env_scheme \<Rightarrow> AlertDetailRecord \<Rightarrow> exn + EvidenceItemV1" where
  "get_alert_evidence env detail =
     (let alert = ad_alert detail;
          facts = [(''action'', Provenance.JText (case ad_events detail of [] \<Rightarrow> ''OPENED'' | e # _ \<Rightarrow> action_text (ae_action e))),
            (''active_duration_seconds'', JReal (Fin (of_int (al_last_detection alert - al_first_detection alert) / 1000000))),
            (''alert_id'', Provenance.JText (uuid_text env (al_alert_id alert))),
            (''decision_count'', Provenance.JNum (int (length (ad_decisions detail)))),
            (''first_detection'', Provenance.JText (isoformat env (al_first_detection alert))),
            (''last_detection'', Provenance.JText (isoformat env (al_last_detection alert))),
            (''machine_id'', Provenance.JText (al_machine_id alert)),
            (''state'', Provenance.JText (row_state_text (al_state alert)))] in
      bind_err (case ad_decisions detail of
          [] \<Rightarrow> Inr facts
        | d # _ \<Rightarrow> fold_err (add_sanitized env) facts
            [(''score'', JReal (score d)), (''threshold'', JReal (threshold d))])
        (new_item env ''get_alert'' alert))"

definition deviation_facts :: "FeatureDeviationV1 \<Rightarrow> (string \<times> Provenance.json) list" where
  "deviation_facts dev =
     [(''feature_'' @ dev_feature_name dev @ ''_observed'', JReal (observed_value dev)),
      (''feature_'' @ dev_feature_name dev @ ''_deviation'', JReal (absolute_deviation dev))]"

definition get_score_evidence :: "('b, 'm) rca_env_scheme \<Rightarrow> AlertDetailRecord \<Rightarrow> exn + EvidenceItemV1" where
  "get_score_evidence env detail =
     bind_err (case ad_evidence detail of
         [] \<Rightarrow> Inr []
       | ev # _ \<Rightarrow> fold_err (add_sanitized env) []
           (concat (map deviation_facts (es_feature_deviations ev))
            @ map (\<lambda>(k, v). (''dq_'' @ k, scalar_json v)) (es_data_quality ev)))
       (new_item env ''get_score_evidence'' (ad_alert detail))"

text \<open>The manifest of the champion is read if it can be; an exception keeps what was read before it.\<close>

definition manifest_facts :: "('b, 'm) codec_scheme \<Rightarrow> 'b files \<Rightarrow> path \<Rightarrow> json_obj \<Rightarrow> json_obj" where
  "manifest_facts cd fs champion_dir facts =
     (case fs (champion_dir @ [''manifest.json'']) of
        None \<Rightarrow> facts
      | Some content \<Rightarrow>
          (case bind_err (loads cd content) (\<lambda>m. bind_err (obj_get m ''model_id'' (Provenance.JText [])) (\<lambda>v. Inr (m, v))) of
             Inl _ \<Rightarrow> facts
           | Inr (m, v) \<Rightarrow>
               (let facts1 = AList.update ''champion_manifest_model_id'' (Provenance.JText (py_str cd v)) facts in
                case bind_err (obj_get m ''threshold'' (JReal (Fin 0))) (py_float cd) of
                  Inl _ \<Rightarrow> facts1
                | Inr x \<Rightarrow> AList.update ''champion_threshold'' (JReal x) facts1)))"

definition get_model_provenance_evidence ::
  "('b, 'm) rca_env_scheme \<Rightarrow> 'b files \<Rightarrow> path option \<Rightarrow> AlertDetailRecord \<Rightarrow> exn + EvidenceItemV1"
where
  "get_model_provenance_evidence env fs champion_dir detail =
     (let (model_ver, contract_sha, dataset_sha) = (case ad_decisions detail of
            [] \<Rightarrow> (''champion-statistical-v1'', zero_sha, zero_sha)
          | d # _ \<Rightarrow> (model_version d, contract_sha256 d, source_dataset_sha256 d));
          dir = (case champion_dir of Some p \<Rightarrow> p | None \<Rightarrow> [''artifacts'', ''champion'']) in
      new_item env ''get_model_provenance'' (ad_alert detail)
        (manifest_facts env fs dir
          [(''contract_sha256'', Provenance.JText contract_sha), (''model_version'', Provenance.JText model_ver),
           (''source_dataset_sha256'', Provenance.JText dataset_sha)]))"

definition get_system_health_evidence :: "('b, 'm) rca_env_scheme \<Rightarrow> AlertDetailRecord \<Rightarrow> exn + EvidenceItemV1" where
  "get_system_health_evidence env detail =
     bind_err (case ad_evidence detail of
         [] \<Rightarrow> Inr []
       | ev # _ \<Rightarrow> fold_err (add_sanitized env) [] (map (\<lambda>(k, v). (''health_'' @ k, scalar_json v)) (es_system_health ev)))
       (\<lambda>facts. new_item env ''get_system_health'' (ad_alert detail)
          (if facts = [] then [(''health_status'', Provenance.JText ''normal'')] else facts))"

definition item_dump :: "('b, 'm) rca_env_scheme \<Rightarrow> EvidenceItemV1 \<Rightarrow> Provenance.json" where
  "item_dump env i =
     JObj [(''evidence_id'', Provenance.JText (ri_evidence_id i)), (''tool_name'', Provenance.JText (ri_tool_name i)),
       (''observed_at'', Provenance.JText (isoformat_utc env (ri_observed_at i))), (''facts'', JObj (ri_facts i))]"

definition bundle_dump :: "('b, 'm) rca_env_scheme \<Rightarrow> EvidenceBundleV1 \<Rightarrow> json_obj" where
  "bundle_dump env b =
     [(''alert_id'', Provenance.JText (rb_alert_id b)), (''bundle_sha256'', Provenance.JText (rb_bundle_sha256 b)),
      (''contract_sha256'', Provenance.JText (rb_contract_sha256 b)),
      (''items'', Provenance.JArr (map (item_dump env) (rb_items b))),
      (''model_version'', Provenance.JText (rb_model_version b)),
      (''replay_session_id'', Provenance.JText (rb_replay_session_id b)),
      (''schema_version'', Provenance.JText ''rca-evidence-bundle-v1''),
      (''source_dataset_sha256'', Provenance.JText (rb_source_dataset_sha256 b))]"

definition validate_bundle :: "EvidenceBundleV1 \<Rightarrow> exn + EvidenceBundleV1" where
  "validate_bundle b =
     run_checks
       [(rb_alert_id b = [], ValueError ''alert_id''), (rb_replay_session_id b = [], ValueError ''replay_session_id''),
        (rb_model_version b = [], ValueError ''model_version''),
        (\<not> is_hex64 (rb_contract_sha256 b), ValueError ''contract_sha256''),
        (\<not> is_hex64 (rb_source_dataset_sha256 b), ValueError ''source_dataset_sha256''),
        (\<not> is_hex64 (rb_bundle_sha256 b), ValueError ''bundle_sha256'')] b"

text \<open>The bundle without its digest; an alert without decisions has default identities.\<close>

definition raw_bundle ::
  "('b, 'm) rca_env_scheme \<Rightarrow> uuid \<Rightarrow> ScoreDecisionV1 list \<Rightarrow> EvidenceItemV1 list \<Rightarrow> EvidenceBundleV1"
where
  "raw_bundle env alert_id decisions items =
     \<lparr>rb_alert_id = uuid_text env alert_id,
      rb_replay_session_id = (case decisions of [] \<Rightarrow> ''00000000-0000-0000-0000-000000000000''
        | d # _ \<Rightarrow> uuid_text env (replay_session_id d)),
      rb_model_version = (case decisions of [] \<Rightarrow> ''champion-statistical-v1'' | d # _ \<Rightarrow> model_version d),
      rb_contract_sha256 = (case decisions of [] \<Rightarrow> zero_sha | d # _ \<Rightarrow> contract_sha256 d),
      rb_source_dataset_sha256 = (case decisions of [] \<Rightarrow> zero_sha | d # _ \<Rightarrow> source_dataset_sha256 d),
      rb_items = items, rb_bundle_sha256 = []\<rparr>"

definition gather_evidence ::
  "('b, 'm) rca_env_scheme \<Rightarrow> RuntimeDB \<Rightarrow> 'b files \<Rightarrow> path option \<Rightarrow> uuid \<Rightarrow> exn + EvidenceBundleV1"
where
  "gather_evidence env db fs champion_dir alert_id =
     (case get_alert_detail (uuid_text env) db alert_id of
        None \<Rightarrow> Inl (AlertNotFound (uuid_text env alert_id))
      | Some detail \<Rightarrow>
          bind_err (get_alert_evidence env detail) (\<lambda>item_1.
          bind_err (get_score_evidence env detail) (\<lambda>item_2.
          bind_err (get_model_provenance_evidence env fs champion_dir detail) (\<lambda>item_3.
          bind_err (get_system_health_evidence env detail) (\<lambda>item_4.
          (let raw = raw_bundle env alert_id (ad_decisions detail) [item_1, item_2, item_3, item_4] in
           bind_err (compute_self_hash env (bundle_dump env raw) ''bundle_sha256'') (\<lambda>h.
             validate_bundle (raw\<lparr>rb_bundle_sha256 := h\<rparr>))))))))"

section \<open>Report generation\<close>

record ProviderRcaDraft =
  pd_summary :: string
  pd_observations :: "RcaObservationV1 list"
  pd_uncertainty :: "string list"
  pd_next_checks :: "string list"

definition validate_draft :: "ProviderRcaDraft \<Rightarrow> exn + ProviderRcaDraft" where
  "validate_draft d =
     bind_err (map_err validate_rca_observation (pd_observations d)) (\<lambda>_.
     run_checks
       [str_len_check ''summary'' 1 1000 (pd_summary d),
        (12 < length (pd_observations d), ValueError ''observations''),
        (length (pd_uncertainty d) < 1 \<or> 8 < length (pd_uncertainty d), ValueError ''uncertainty''),
        (8 < length (pd_next_checks d), ValueError ''next_checks'')] d)"

text \<open>The ids and the clock of one report: \<open>uuid4()\<close> for the message, the fresh uuid of \<open>_safe_uuid\<close>,
  \<open>uuid4().hex[:12]\<close> and \<open>datetime.now(UTC)\<close>.\<close>

record report_ids =
  rn_message_id :: uuid
  rn_session_id :: uuid
  rn_hex12 :: string
  rn_now :: datetime

definition safe_uuid :: "('b, 'm) rca_env_scheme \<Rightarrow> uuid \<Rightarrow> string \<Rightarrow> uuid" where
  "safe_uuid env fresh val = (case uuid_of_text env val of Some u \<Rightarrow> u | None \<Rightarrow> fresh)"

definition evidence_only_report ::
  "('b, 'm) rca_env_scheme \<Rightarrow> report_ids \<Rightarrow> EvidenceBundleV1 \<Rightarrow> string \<Rightarrow> exn + RcaReportV1"
where
  "evidence_only_report env ids bundle reason =
     (let all_evidence_ids = map ri_evidence_id (rb_items bundle);
          item_1_id = (case all_evidence_ids of [] \<Rightarrow> ''evidence-score-0'' | i # _ \<Rightarrow> i);
          item_2_id = (if 1 < length all_evidence_ids then all_evidence_ids ! 1 else item_1_id) in
      bind_err (validate_rca_observation
        \<lparr>obs_claim = ''Persisted score and threshold evidence recorded during anomaly window ('' @ reason @ '').'',
         obs_evidence_ids = [item_1_id]\<rparr>) (\<lambda>obs_1.
      bind_err (validate_rca_observation
        \<lparr>obs_claim = ''Data quality and system health telemetry recorded at emission.'',
         obs_evidence_ids = [item_2_id]\<rparr>) (\<lambda>obs_2.
      validate_rca_report runtime_tz
        \<lparr>message_id = rn_message_id ids, replay_session_id = safe_uuid env (rn_session_id ids) (rb_replay_session_id bundle),
         source_dataset_sha256 = rb_source_dataset_sha256 bundle, contract_sha256 = rb_contract_sha256 bundle,
         source_timestamp = rn_now ids, emitted_at = rn_now ids,
         report_id = ''rca-fallback-'' @ rn_hex12 ids, rca_alert_id = rb_alert_id bundle, rca_status = RCA_UNAVAILABLE,
         rca_summary = ''Provider RCA unavailable; showing persisted evidence only.'',
         observations = [obs_1, obs_2],
         uncertainty = [''Anomaly evidence does not prove a mechanical root cause.'',
           ''Provider execution status: '' @ reason @ ''.''],
         next_checks = [''Verify physical machine operational indicators and calibration status.''],
         evidence_ids = all_evidence_ids, evidence_bundle_sha256 = rb_bundle_sha256 bundle, provider_model = None\<rparr>)))"

text \<open>The client: its \<open>responses.parse\<close> raises, or gives the parsed draft if there is one; parsing
  constructs a \<open>ProviderRcaDraft\<close> and so validates it.\<close>

record OpenAiRcaGenerator =
  og_client :: "string \<Rightarrow> string \<Rightarrow> exn + ProviderRcaDraft option"
  og_model :: string
  og_timeout_seconds :: pyfloat

definition py_min :: "pyfloat \<Rightarrow> pyfloat \<Rightarrow> pyfloat" where
  "py_min a b = (if pf_lt b a then b else a)"

definition py_max :: "pyfloat \<Rightarrow> pyfloat \<Rightarrow> pyfloat" where
  "py_max a b = (if pf_lt a b then b else a)"

text \<open>\<open>env_var\<close> is \<open>os.environ.get\<close>; \<open>new_client\<close> builds the client from key and timeout.\<close>

definition generator_from_env ::
  "('b, 'm) codec_scheme \<Rightarrow> (string \<Rightarrow> string option)
     \<Rightarrow> (string \<Rightarrow> pyfloat \<Rightarrow> string \<Rightarrow> string \<Rightarrow> exn + ProviderRcaDraft option) \<Rightarrow> OpenAiRcaGenerator option"
where
  "generator_from_env cd env_var new_client =
     (let get = (\<lambda>name default. strip (case env_var name of Some v \<Rightarrow> v | None \<Rightarrow> default));
          api_key = get ''RCA_OPENAI_API_KEY'' []; model = get ''RCA_OPENAI_MODEL'' [] in
      if api_key = [] \<or> model = [] then None
      else
        (let timeout = (case float_text cd (get ''RCA_TIMEOUT_SECONDS'' ''20'') of
             Inl _ \<Rightarrow> Fin 20
           | Inr x \<Rightarrow> py_max (Fin 1) (py_min (Fin 60) x)) in
         Some \<lparr>og_client = new_client api_key timeout, og_model = model, og_timeout_seconds = timeout\<rparr>))"

definition check_citations :: "string list \<Rightarrow> ProviderRcaDraft \<Rightarrow> exn + ProviderRcaDraft" where
  "check_citations allowed d =
     run_checks (concat (map (\<lambda>obs.
         (obs_evidence_ids obs = [], ValueError ''Observation has empty evidence citations'') #
         map (\<lambda>ev_id. (ev_id \<notin> set allowed, ValueError ''Unknown evidence citation'')) (obs_evidence_ids obs))
       (pd_observations d))) d"

definition generate_draft :: "OpenAiRcaGenerator \<Rightarrow> string \<Rightarrow> string list \<Rightarrow> exn + ProviderRcaDraft" where
  "generate_draft g evidence_json allowed =
     bind_err (og_client g (og_model g) evidence_json) (\<lambda>parsed.
       case parsed of
         None \<Rightarrow> Inl (ValueError ''Structured output missing from provider response'')
       | Some d \<Rightarrow> bind_err (validate_draft d) (check_citations allowed))"

definition complete_report ::
  "('b, 'm) rca_env_scheme \<Rightarrow> report_ids \<Rightarrow> EvidenceBundleV1 \<Rightarrow> string \<Rightarrow> ProviderRcaDraft \<Rightarrow> exn + RcaReportV1"
where
  "complete_report env ids bundle model d =
     validate_rca_report runtime_tz
       \<lparr>message_id = rn_message_id ids, replay_session_id = safe_uuid env (rn_session_id ids) (rb_replay_session_id bundle),
        source_dataset_sha256 = rb_source_dataset_sha256 bundle, contract_sha256 = rb_contract_sha256 bundle,
        source_timestamp = rn_now ids, emitted_at = rn_now ids,
        report_id = ''rca-'' @ rn_hex12 ids, rca_alert_id = rb_alert_id bundle, rca_status = RCA_COMPLETE,
        rca_summary = pd_summary d, observations = pd_observations d, uncertainty = pd_uncertainty d,
        next_checks = pd_next_checks d, evidence_ids = map ri_evidence_id (rb_items bundle),
        evidence_bundle_sha256 = rb_bundle_sha256 bundle, provider_model = Some model\<rparr>"

text \<open>\<open>generate\<close>: any exception of the provider, of the citation check or of the report's validation
  leads to the evidence-only report, which has ids of its own.\<close>

definition generate_report ::
  "('b, 'm) rca_env_scheme \<Rightarrow> report_ids \<Rightarrow> report_ids \<Rightarrow> OpenAiRcaGenerator \<Rightarrow> EvidenceBundleV1 \<Rightarrow> exn + RcaReportV1"
where
  "generate_report env ids fallback_ids g bundle =
     (case bind_err (generate_draft g (document_text env (JObj (bundle_dump env bundle))) (map ri_evidence_id (rb_items bundle)))
         (complete_report env ids bundle (og_model g)) of
        Inr report \<Rightarrow> Inr report
      | Inl e \<Rightarrow> evidence_only_report env fallback_ids bundle (class_name env e))"

section \<open>Reports are grounded\<close>

definition grounded :: "EvidenceBundleV1 \<Rightarrow> RcaReportV1 \<Rightarrow> bool" where
  "grounded b r \<longleftrightarrow>
     evidence_ids r = map ri_evidence_id (rb_items b) \<and> evidence_bundle_sha256 r = rb_bundle_sha256 b \<and>
     rca_alert_id r = rb_alert_id b \<and>
     (\<forall>obs \<in> set (observations r). obs_evidence_ids obs \<noteq> [] \<and> set (obs_evidence_ids obs) \<subseteq> set (evidence_ids r))"

definition sound_bundle :: "EvidenceBundleV1 \<Rightarrow> bool" where
  "sound_bundle b \<longleftrightarrow>
     validate_bundle b = Inr b \<and> distinct (map ri_evidence_id (rb_items b)) \<and>
     rb_items b \<noteq> [] \<and> length (rb_items b) \<le> 64"

lemma fallback_report:
  assumes "sound_bundle b" "length reason \<le> 400"
  shows "\<exists>r. evidence_only_report env ids b reason = Inr r \<and> rca_status r = RCA_UNAVAILABLE \<and> grounded b r \<and>
    report_id r = ''rca-fallback-'' @ rn_hex12 ids \<and> validate_rca_report runtime_tz r = Inr r"
proof -
  obtain i rest where items: "rb_items b = i # rest" using assms(1) by (auto simp: sound_bundle_def neq_Nil_conv)
  have len: "length rest \<le> 63" "distinct (ri_evidence_id i # map ri_evidence_id rest)"
    using assms(1) items by (auto simp: sound_bundle_def)
  have hex: "is_hex64 (rb_contract_sha256 b)" "is_hex64 (rb_source_dataset_sha256 b)" "is_hex64 (rb_bundle_sha256 b)"
    "rb_alert_id b \<noteq> []"
    using assms(1) by (auto simp: sound_bundle_def validate_bundle_def split: if_splits)
  have card: "card (set (map ri_evidence_id (i # rest))) = Suc (length rest)"
    using len(2) distinct_card [of "map ri_evidence_id (i # rest)"] by simp
  show ?thesis
    using items len hex card assms(2)
    by (simp add: evidence_only_report_def Let_def validate_rca_observation_def check_defs validate_rca_report_def
        grounded_def nth_Cons split: nat.splits)
qed

lemma complete_report_grounded:
  assumes "sound_bundle b" "generate_draft g js (map ri_evidence_id (rb_items b)) = Inr d"
  shows "\<exists>r. complete_report env ids b model d = Inr r \<and> rca_status r = RCA_COMPLETE \<and> grounded b r \<and>
    report_id r = ''rca-'' @ rn_hex12 ids \<and> rca_summary r = pd_summary d \<and> observations r = pd_observations d \<and>
    validate_rca_report runtime_tz r = Inr r"
proof -
  obtain i rest where items: "rb_items b = i # rest" using assms(1) by (auto simp: sound_bundle_def neq_Nil_conv)
  have hex: "is_hex64 (rb_contract_sha256 b)" "is_hex64 (rb_source_dataset_sha256 b)" "is_hex64 (rb_bundle_sha256 b)"
    "rb_alert_id b \<noteq> []"
    using assms(1) by (auto simp: sound_bundle_def validate_bundle_def split: if_splits)
  have ids: "distinct (map ri_evidence_id (rb_items b))" "length (rb_items b) \<le> 64"
    using assms(1) by (auto simp: sound_bundle_def)
  have card: "card (set (map ri_evidence_id (rb_items b))) = length (rb_items b)"
    using distinct_card [OF ids(1)] by simp
  from assms(2) have "validate_draft d = Inr d" "check_citations (map ri_evidence_id (rb_items b)) d = Inr d"
    by (auto simp: generate_draft_def err_simps validate_draft_def check_citations_def split: option.splits)
  then have d: "pd_summary d \<noteq> []" "length (pd_summary d) \<le> 1000" "length (pd_observations d) \<le> 12"
    "pd_uncertainty d \<noteq> []" "length (pd_uncertainty d) \<le> 8" "length (pd_next_checks d) \<le> 8"
    "\<forall>obs \<in> set (pd_observations d). obs_evidence_ids obs \<noteq> [] \<and>
       set (obs_evidence_ids obs) \<subseteq> set (map ri_evidence_id (rb_items b))"
    by (auto simp: validate_draft_def check_citations_def err_simps check_defs Suc_le_eq split: if_splits)
  show ?thesis
    using items hex card d ids(2)
    by (simp add: complete_report_def validate_rca_report_def run_checks_Inr check_defs grounded_def) blast
qed

text \<open>The generator never raises: an accepted draft gives its report, anything else the fallback.\<close>

lemma generate_report_grounded:
  assumes "sound_bundle b" "\<forall>e. length (class_name env e) \<le> 400"
  shows "\<exists>r. generate_report env ids fallback_ids g b = Inr r \<and> grounded b r \<and> validate_rca_report runtime_tz r = Inr r \<and>
    (case generate_draft g (document_text env (JObj (bundle_dump env b))) (map ri_evidence_id (rb_items b)) of
       Inr d \<Rightarrow> rca_status r = RCA_COMPLETE \<and> rca_summary r = pd_summary d \<and> observations r = pd_observations d \<and>
         report_id r = ''rca-'' @ rn_hex12 ids
     | Inl _ \<Rightarrow> rca_status r = RCA_UNAVAILABLE \<and> report_id r = ''rca-fallback-'' @ rn_hex12 fallback_ids)"
proof (cases "generate_draft g (document_text env (JObj (bundle_dump env b))) (map ri_evidence_id (rb_items b))")
  case (Inr d)
  show ?thesis
    using complete_report_grounded [OF assms(1) Inr, of env ids "og_model g"] Inr
    by (auto simp: generate_report_def)
next
  case (Inl e)
  show ?thesis
    using fallback_report [OF assms(1), of "class_name env e" env fallback_ids] assms(2) Inl
    by (auto simp: generate_report_def)
qed

lemma new_item_tool: "new_item env tool alert facts = Inr i \<Longrightarrow> ri_tool_name i = tool"
  by (auto simp: new_item_def err_simps split: if_splits)

lemma new_item_facts: "new_item env tool alert facts = Inr i \<Longrightarrow> ri_facts i = facts \<and> evidence_id env tool facts = Inr (ri_evidence_id i)"
  by (auto simp: new_item_def err_simps split: if_splits)

lemma evidence_tools:
  "get_alert_evidence env detail = Inr i \<Longrightarrow> ri_tool_name i = ''get_alert''"
  "get_score_evidence env detail = Inr i \<Longrightarrow> ri_tool_name i = ''get_score_evidence''"
  "get_model_provenance_evidence env fs dir detail = Inr i \<Longrightarrow> ri_tool_name i = ''get_model_provenance''"
  "get_system_health_evidence env detail = Inr i \<Longrightarrow> ri_tool_name i = ''get_system_health''"
  by (auto simp: get_alert_evidence_def get_score_evidence_def get_model_provenance_evidence_def
      get_system_health_evidence_def bind_err_eq_Inr Let_def split: list.splits prod.splits dest: new_item_tool)

lemma gather_evidence_bundle:
  assumes "gather_evidence env db fs dir alert_id = Inr b"
  shows "validate_bundle b = Inr b" "map ri_tool_name (rb_items b) = RCA_TOOL_NAMES"
    "rb_alert_id b = uuid_text env alert_id" "get_alert_detail (uuid_text env) db alert_id \<noteq> None"
proof -
  from assms obtain detail i1 i2 i3 i4 h where st: "get_alert_detail (uuid_text env) db alert_id = Some detail"
    "get_alert_evidence env detail = Inr i1" "get_score_evidence env detail = Inr i2"
    "get_model_provenance_evidence env fs dir detail = Inr i3" "get_system_health_evidence env detail = Inr i4"
    "validate_bundle ((raw_bundle env alert_id (ad_decisions detail) [i1, i2, i3, i4])\<lparr>rb_bundle_sha256 := h\<rparr>) = Inr b"
    unfolding gather_evidence_def by (auto simp: bind_err_eq_Inr Let_def split: option.splits)
  then have b: "b = (raw_bundle env alert_id (ad_decisions detail) [i1, i2, i3, i4])\<lparr>rb_bundle_sha256 := h\<rparr>"
    unfolding validate_bundle_def run_checks_Inr by simp
  show "validate_bundle b = Inr b" using st(6) unfolding b .
  show "map ri_tool_name (rb_items b) = RCA_TOOL_NAMES"
    unfolding b using st(2-5) by (simp add: evidence_tools RCA_TOOL_NAMES_def raw_bundle_def)
  show "rb_alert_id b = uuid_text env alert_id" "get_alert_detail (uuid_text env) db alert_id \<noteq> None"
    unfolding b using st(1) by (simp_all add: raw_bundle_def)
qed

lemma gathered_sound:
  assumes "gather_evidence env db fs dir alert_id = Inr b" "distinct (map ri_evidence_id (rb_items b))"
  shows "sound_bundle b"
proof -
  note g = gather_evidence_bundle [OF assms(1)]
  from arg_cong [OF g(2), of length] have "length (rb_items b) = 4" by (simp add: RCA_TOOL_NAMES_def)
  then show ?thesis using g(1) assms(2) by (auto simp: sound_bundle_def)
qed

text \<open>The evidence does not contain the stored reports, so storing one leaves the bundle as it is.\<close>

definition same_evidence :: "RuntimeDB \<Rightarrow> RuntimeDB \<Rightarrow> bool" where
  "same_evidence db db' \<longleftrightarrow> alerts db' = alerts db \<and> alert_events db' = alert_events db \<and>
     evidence_snapshots db' = evidence_snapshots db \<and> score_decisions db' = score_decisions db"

lemma evidence_ignores_rca:
  "get_alert_evidence env (detail\<lparr>ad_rca := x\<rparr>) = get_alert_evidence env detail"
  "get_score_evidence env (detail\<lparr>ad_rca := x\<rparr>) = get_score_evidence env detail"
  "get_model_provenance_evidence env fs dir (detail\<lparr>ad_rca := x\<rparr>) = get_model_provenance_evidence env fs dir detail"
  "get_system_health_evidence env (detail\<lparr>ad_rca := x\<rparr>) = get_system_health_evidence env detail"
  by (simp_all add: get_alert_evidence_def get_score_evidence_def get_model_provenance_evidence_def
      get_system_health_evidence_def)

lemma detail_same_evidence:
  assumes "same_evidence db db'"
  shows "get_alert_detail us db' alert_id =
    map_option (\<lambda>d. d\<lparr>ad_rca := latest_rca db' (us alert_id)\<rparr>) (get_alert_detail us db alert_id)"
  using assms by (simp add: same_evidence_def get_alert_detail_def split: option.splits)

lemma gather_same_evidence:
  assumes "same_evidence db db'"
  shows "gather_evidence env db' fs dir alert_id = gather_evidence env db fs dir alert_id"
  unfolding gather_evidence_def detail_same_evidence [OF assms]
  by (simp add: evidence_ignores_rca split: option.splits)

text \<open>The timeout taken from the environment lies between one and sixty seconds, even for NaN.\<close>

lemma generator_timeout:
  assumes "generator_from_env cd env_var new_client = Some g"
  shows "\<exists>t. og_timeout_seconds g = Fin t \<and> 1 \<le> t \<and> t \<le> 60"
proof -
  have "\<exists>t. py_max (Fin 1) (py_min (Fin 60) x) = Fin t \<and> 1 \<le> t \<and> t \<le> 60" for x
    by (cases x) (auto simp: py_max_def py_min_def)
  then show ?thesis using assms
    by (auto simp: generator_from_env_def Let_def split: if_splits sum.splits)
qed

end
