(* ===== verification/Champion.thy ===== *)
theory Champion
  imports Provenance
begin

text \<open>
  \<open>champion.py\<close> and the manifest of \<open>package_champion.py\<close>: the champion package, its integrity-checked
  loader and the stateless scorer.

  The libraries that read the package are arguments, bundled in the record \<open>package_lib\<close>: Pydantic's
  decoding of a manifest into its fields, joblib, \<open>np.load\<close> and the JSON of the drift reference.  The
  field constraints and validators of the manifest are modelled (its \<open>threshold_provenance\<close>, which
  no code reads, is left out).  A directory is a list of path
  components, already resolved; there are no symbolic links.
\<close>

section \<open>The package manifest\<close>

record ChampionManifest =
  cm_schema_version :: string
  cm_package_role :: string
  cm_evaluation_verdict :: string
  cm_operational_status :: string
  cm_source_champion_schema :: string
  cm_source_run_id :: string
  cm_model_id :: string
  cm_model_version :: string
  cm_contract_sha256 :: sha256
  cm_source_dataset_sha256 :: sha256
  cm_prepared_output_sha256 :: sha256
  cm_feature_output_sha256 :: sha256
  cm_feature_names :: "string list"
  cm_threshold :: pyfloat
  cm_golden_case_count :: int
  cm_artifact_sha256 :: "(string, sha256) table"

definition DETECTOR_FILENAME :: string where "DETECTOR_FILENAME = ''detector.joblib''"
definition BASELINE_FILENAME :: string where "BASELINE_FILENAME = ''evidence-baseline.npz''"
definition GOLDEN_CASES_FILENAME :: string where "GOLDEN_CASES_FILENAME = ''golden-cases.json''"
definition DRIFT_REFERENCE_FILENAME :: string where "DRIFT_REFERENCE_FILENAME = ''drift-reference.json''"
definition MANIFEST_FILENAME :: string where "MANIFEST_FILENAME = ''manifest.json''"
definition SCORES_PARQUET_FILENAME :: string where "SCORES_PARQUET_FILENAME = ''scores.parquet''"

lemmas filename_defs = DETECTOR_FILENAME_def BASELINE_FILENAME_def GOLDEN_CASES_FILENAME_def
  DRIFT_REFERENCE_FILENAME_def MANIFEST_FILENAME_def SCORES_PARQUET_FILENAME_def

definition required_artifacts :: "string list" where
  "required_artifacts = [DETECTOR_FILENAME, BASELINE_FILENAME, GOLDEN_CASES_FILENAME, DRIFT_REFERENCE_FILENAME]"

definition validate_artifact_hashes :: "(string, sha256) table \<Rightarrow> (bool \<times> exn) list" where
  "validate_artifact_hashes v =
     (\<not> set required_artifacts \<subseteq> set (keys v) \<or> \<not> set (keys v) \<subseteq> set (SCORES_PARQUET_FILENAME # required_artifacts),
        ValueError ''artifact_sha256'')
     # map (\<lambda>(key, h). (length h \<noteq> 64, ValueError (''Invalid sha256 for '' @ key))) v"

definition champion_role :: "ChampionManifest \<Rightarrow> bool" where
  "champion_role m \<longleftrightarrow> cm_package_role m = ''CHAMPION'' \<and> cm_evaluation_verdict m = ''FEASIBLE'' \<and>
     cm_operational_status m = ''PRODUCTION_CANDIDATE'' \<and> cm_source_champion_schema m = ''phase1b-champion-v1''"

definition research_role :: "ChampionManifest \<Rightarrow> bool" where
  "research_role m \<longleftrightarrow> cm_package_role m = ''RESEARCH_CANDIDATE'' \<and> cm_evaluation_verdict m = ''NOT_FEASIBLE'' \<and>
     cm_operational_status m = ''RESEARCH_ONLY'' \<and> cm_source_champion_schema m = ''phase1b-run-v1''"

definition validate_package_role :: "ChampionManifest \<Rightarrow> bool \<times> exn" where
  "validate_package_role m =
     (\<not> (champion_role m \<or> research_role m), ValueError ''invalid package role and evaluation verdict combination'')"

text \<open>The literal and pattern constraints of the fields, in declaration order, then the validators.\<close>

definition validate_manifest :: "ChampionManifest \<Rightarrow> exn + ChampionManifest" where
  "validate_manifest m =
     run_checks
       ([(cm_schema_version m \<noteq> ''champion-package-v2'', ValueError ''schema_version''),
         (cm_package_role m \<notin> {''CHAMPION'', ''RESEARCH_CANDIDATE''}, ValueError ''package_role''),
         (cm_evaluation_verdict m \<notin> {''FEASIBLE'', ''NOT_FEASIBLE''}, ValueError ''evaluation_verdict''),
         (cm_operational_status m \<notin> {''PRODUCTION_CANDIDATE'', ''RESEARCH_ONLY''}, ValueError ''operational_status''),
         (cm_source_champion_schema m \<notin> {''phase1b-champion-v1'', ''phase1b-run-v1''}, ValueError ''source_champion_schema''),
         (cm_model_id m \<notin> {''statistical'', ''isolation_forest'', ''autoencoder''}, ValueError ''model_id''),
         (\<not> is_hex64 (cm_contract_sha256 m), ValueError ''contract_sha256''),
         (\<not> is_hex64 (cm_source_dataset_sha256 m), ValueError ''source_dataset_sha256''),
         (\<not> is_hex64 (cm_prepared_output_sha256 m), ValueError ''prepared_output_sha256''),
         (\<not> is_hex64 (cm_feature_output_sha256 m), ValueError ''feature_output_sha256''),
         (cm_feature_names m = [], ValueError ''feature_names''),
         (cm_golden_case_count m \<noteq> 3, ValueError ''golden_case_count'')]
        @ validate_artifact_hashes (cm_artifact_sha256 m) @ [validate_package_role m]) m"

section \<open>Reading a package\<close>

type_synonym detector = "pyfloat list list \<Rightarrow> exn + pyfloat list"

record evidence_baseline =
  bl_feature_names :: "string list"
  bl_median :: "pyfloat list"
  bl_mad :: "pyfloat list"

record 'b package_lib = "'b codec" +
  decode_manifest :: "'b \<Rightarrow> exn + ChampionManifest"
  joblib_load :: "'b \<Rightarrow> exn + detector"
  np_load :: "'b \<Rightarrow> exn + evidence_baseline"
  decode_drift :: "'b \<Rightarrow> exn + DriftReferenceV1"
  drift_hash :: "DriftReferenceV1 \<Rightarrow> sha256"

definition manifest_of_json :: "('b, 'm) package_lib_scheme \<Rightarrow> 'b \<Rightarrow> exn + ChampionManifest" where
  "manifest_of_json lib content = bind_err (decode_manifest lib content) validate_manifest"

text \<open>\<open>(base / filename).resolve()\<close>\<close>

fun split_slash :: "string \<Rightarrow> string list" where
  "split_slash [] = [[]]"
| "split_slash (c # cs) =
     (if c = CHR ''/'' then [] # split_slash cs
      else (case split_slash cs of [] \<Rightarrow> [[c]] | w # ws \<Rightarrow> (c # w) # ws))"

definition resolve_part :: "path \<Rightarrow> string \<Rightarrow> path" where
  "resolve_part p part = (if part = [] \<or> part = ''.'' then p else if part = ''..'' then butlast p else p @ [part])"

definition resolve_child :: "path \<Rightarrow> string \<Rightarrow> path" where
  "resolve_child base filename =
     foldl resolve_part (if take 1 filename = ''/'' then [] else base) (split_slash filename)"

definition resolve_safe_child :: "path \<Rightarrow> string \<Rightarrow> exn + path" where
  "resolve_safe_child base filename =
     (let target = resolve_child base filename in
      if butlast target \<noteq> base then Inl (ChampionIntegrityError (''Path traversal detected: '' @ filename)) else Inr target)"

definition sha256_file :: "('b, 'm) codec_scheme \<Rightarrow> 'b files \<Rightarrow> path \<Rightarrow> exn + sha256" where
  "sha256_file cd fs p = bind_err (read_file fs p) (\<lambda>content. Inr (sha256_bytes cd content))"

definition check_artifact ::
  "('b, 'm) codec_scheme \<Rightarrow> 'b files \<Rightarrow> path \<Rightarrow> unit \<Rightarrow> string \<times> sha256 \<Rightarrow> exn + unit"
where
  "check_artifact cd fs pkg u a =
     bind_err (resolve_safe_child pkg (fst a)) (\<lambda>child.
       if fs child = None then Inl (ChampionIntegrityError (''Artifact '' @ fst a @ '' missing in package''))
       else bind_err (sha256_file cd fs child) (\<lambda>actual.
         if actual \<noteq> snd a then Inl (ChampionIntegrityError (fst a @ '' SHA-256 mismatch'')) else Inr ()))"

record ChampionScorer =
  cs_manifest :: ChampionManifest
  cs_detector :: detector
  cs_median :: "pyfloat list"
  cs_mad :: "pyfloat list"

definition drift_manifest_of :: "ChampionManifest \<Rightarrow> drift_manifest" where
  "drift_manifest_of m =
     \<lparr>mf_model_version = cm_model_version m, mf_source_dataset_sha256 = cm_source_dataset_sha256 m,
      mf_contract_sha256 = cm_contract_sha256 m, mf_feature_names = cm_feature_names m\<rparr>"

definition load_champion ::
  "('b, 'm) package_lib_scheme \<Rightarrow> 'b files \<Rightarrow> path \<Rightarrow> sha256 \<Rightarrow> bool \<Rightarrow> exn + ChampionScorer"
where
  "load_champion lib fs pkg expected_manifest_sha256 allow_research_candidate =
     (case fs (pkg @ [MANIFEST_FILENAME]) of
        None \<Rightarrow> Inl (ChampionIntegrityError ''manifest.json missing'')
      | Some content \<Rightarrow>
     (if sha256_bytes lib content \<noteq> expected_manifest_sha256
      then Inl (ChampionIntegrityError ''manifest SHA-256 mismatch'')
      else
     bind_err (manifest_of_json lib content) (\<lambda>manifest.
     (if cm_operational_status manifest = ''RESEARCH_ONLY'' \<and> \<not> allow_research_candidate
      then Inl (ChampionIntegrityError ''research-only package requires ALLOW_RESEARCH_CANDIDATE=true'')
      else
     bind_err (fold_err (check_artifact lib fs pkg) () (cm_artifact_sha256 manifest)) (\<lambda>_.
     bind_err (bind_err (bind_err (resolve_safe_child pkg DETECTOR_FILENAME) (read_file fs)) (joblib_load lib)) (\<lambda>detector.
     bind_err (bind_err (bind_err (resolve_safe_child pkg BASELINE_FILENAME) (read_file fs)) (np_load lib)) (\<lambda>baseline.
     bind_err (run_checks
       [(bl_feature_names baseline \<noteq> cm_feature_names manifest,
           ChampionIntegrityError ''evidence-baseline feature_names mismatch with manifest''),
        (length (bl_median baseline) \<noteq> length (cm_feature_names manifest) \<or>
         length (bl_mad baseline) \<noteq> length (cm_feature_names manifest),
           ChampionIntegrityError ''evidence-baseline dimensions mismatch with feature count'')] ()) (\<lambda>_.
     bind_err (resolve_safe_child pkg DRIFT_REFERENCE_FILENAME) (\<lambda>drift_path.
     (case fs drift_path of
        None \<Rightarrow> Inl (ChampionIntegrityError ''drift-reference.json missing in package'')
      | Some drift_content \<Rightarrow>
          (case bind_err (decode_drift lib drift_content)
                  (\<lambda>ref. load_reference (drift_hash lib) ref (Some (drift_manifest_of manifest))) of
             Inl _ \<Rightarrow> Inl (ChampionIntegrityError ''drift reference verification failed'')
           | Inr _ \<Rightarrow> Inr \<lparr>cs_manifest = manifest, cs_detector = detector,
               cs_median = bl_median baseline, cs_mad = bl_mad baseline\<rparr>)))))))))))"

text \<open>\<open>package_champion.py\<close>: the stand-alone verification of a package.\<close>

definition verify_artifact ::
  "('b, 'm) codec_scheme \<Rightarrow> 'b files \<Rightarrow> path \<Rightarrow> unit \<Rightarrow> string \<times> sha256 \<Rightarrow> exn + unit"
where
  "verify_artifact cd fs pkg u a =
     (let child = resolve_child pkg (fst a) in
      if butlast child \<noteq> pkg then Inl (ValueError (''Path traversal detected: '' @ fst a))
      else case fs child of
        None \<Rightarrow> Inl (ChampionPackageError (fst a @ '' missing or SHA-256 mismatch''))
      | Some content \<Rightarrow>
          (if sha256_bytes cd content \<noteq> snd a then Inl (ChampionPackageError (fst a @ '' missing or SHA-256 mismatch'')) else Inr ()))"

definition verify_package_files :: "('b, 'm) package_lib_scheme \<Rightarrow> 'b files \<Rightarrow> path \<Rightarrow> exn + ChampionManifest" where
  "verify_package_files lib fs pkg =
     (case fs (pkg @ [MANIFEST_FILENAME]) of
        None \<Rightarrow> Inl (ChampionPackageError ''manifest.json not found'')
      | Some content \<Rightarrow>
          (case manifest_of_json lib content of
             Inl _ \<Rightarrow> Inl (ChampionPackageError ''Invalid package manifest'')
           | Inr manifest \<Rightarrow>
               bind_err (fold_err (verify_artifact lib fs pkg) () (cm_artifact_sha256 manifest)) (\<lambda>_. Inr manifest)))"

section \<open>Scoring\<close>

record ScoredVector =
  sv_score :: pyfloat
  sv_threshold :: pyfloat
  sv_is_anomaly :: bool
  sv_evidence_vector :: "EvidenceValueV1 list"

definition validate_identity :: "ChampionScorer \<Rightarrow> FeatureVectorV1 \<Rightarrow> exn + unit" where
  "validate_identity s feature =
     run_checks
       [(contract_sha256 feature \<noteq> cm_contract_sha256 (cs_manifest s), ScoringContractError ''Contract mismatch''),
        (source_dataset_sha256 feature \<noteq> cm_source_dataset_sha256 (cs_manifest s), ScoringContractError ''Dataset mismatch''),
        (fv_feature_names feature \<noteq> cm_feature_names (cs_manifest s), ScoringContractError ''Feature order mismatch'')] ()"

text \<open>IEEE division and scaling by a positive constant.\<close>

fun pf_div :: "pyfloat \<Rightarrow> pyfloat \<Rightarrow> pyfloat" where
  "pf_div (Fin a) (Fin b) = (if b = 0 then if a = 0 then NaN else if 0 < a then PosInf else NegInf else Fin (a / b))"
| "pf_div NaN _ = NaN"
| "pf_div _ NaN = NaN"
| "pf_div (Fin a) _ = Fin 0"
| "pf_div PosInf (Fin b) = (if b < 0 then NegInf else PosInf)"
| "pf_div NegInf (Fin b) = (if b < 0 then PosInf else NegInf)"
| "pf_div _ _ = NaN"

fun pf_scale :: "real \<Rightarrow> pyfloat \<Rightarrow> pyfloat" where
  "pf_scale c (Fin r) = Fin (c * r)"
| "pf_scale c x = x"

text \<open>\<open>np.isclose(x, 0.0)\<close> with the default tolerances.\<close>

fun isclose_zero :: "pyfloat \<Rightarrow> bool" where
  "isclose_zero (Fin r) = (\<bar>r\<bar> \<le> 1 / 100000000)"
| "isclose_zero _ = False"

definition mad_factor :: real where "mad_factor = 14826 / 10000"

definition deviation :: "pyfloat \<Rightarrow> pyfloat \<Rightarrow> pyfloat \<Rightarrow> pyfloat" where
  "deviation value median mad =
     (if isclose_zero mad then Fin 0 else pf_div (pf_abs (pf_sub value median)) (pf_scale mad_factor mad))"

definition deviations :: "pyfloat list \<Rightarrow> pyfloat list \<Rightarrow> pyfloat list \<Rightarrow> exn + pyfloat list" where
  "deviations vals median mad =
     bind_err (broadcast vals median) (\<lambda>vm.
     bind_err (broadcast vm mad) (\<lambda>vmm.
       if length vmm \<noteq> length vals then Inl (ValueError ''non-broadcastable output operand'')
       else Inr (map (\<lambda>((v, m), d). deviation v m d) vmm)))"

definition new_evidence :: "string \<times> pyfloat \<times> pyfloat \<Rightarrow> exn + EvidenceValueV1" where
  "new_evidence e =
     validate_evidence \<lparr>feature_name = fst e, feature_value = fst (snd e), robust_deviation = snd (snd e)\<rparr>"

definition score_vector :: "ChampionScorer \<Rightarrow> FeatureVectorV1 \<Rightarrow> exn + ScoredVector" where
  "score_vector s feature =
     bind_err (validate_identity s feature) (\<lambda>_.
     bind_err (cs_detector s [fv_feature_values feature]) (\<lambda>scores.
     (case scores of [] \<Rightarrow> Inl IndexError | raw_score # _ \<Rightarrow>
     bind_err (deviations (fv_feature_values feature) (cs_median s) (cs_mad s)) (\<lambda>devs.
     (if length (cm_feature_names (cs_manifest s)) \<noteq> length (fv_feature_values feature)
      then Inl (ValueError ''zip() arguments have different lengths'')
      else bind_err (map_err new_evidence
          (zip (cm_feature_names (cs_manifest s)) (zip (fv_feature_values feature) devs))) (\<lambda>evidence.
        Inr \<lparr>sv_score = raw_score, sv_threshold = cm_threshold (cs_manifest s),
          sv_is_anomaly = pf_le (cm_threshold (cs_manifest s)) raw_score,
          sv_evidence_vector = evidence\<rparr>))))))"

section \<open>A loaded package is the trusted one\<close>

definition plain_name :: "string \<Rightarrow> bool" where
  "plain_name s \<longleftrightarrow> CHR ''/'' \<notin> set s \<and> s \<notin> {[], ''.'', ''..''}"

lemma split_slash_plain: "CHR ''/'' \<notin> set s \<Longrightarrow> split_slash s = [s]"
  by (induction s) auto

lemma resolve_child_plain:
  assumes "plain_name name"
  shows "resolve_child base name = base @ [name]"
proof -
  have "take 1 name \<noteq> ''/''" using assms by (cases name) (auto simp: plain_name_def)
  with assms show ?thesis by (simp add: resolve_child_def split_slash_plain plain_name_def resolve_part_def)
qed

lemma resolve_safe_child_plain [simp]: "plain_name name \<Longrightarrow> resolve_safe_child base name = Inr (base @ [name])"
  by (simp add: resolve_safe_child_def resolve_child_plain)

lemma plain_artifacts [simp]:
  "plain_name DETECTOR_FILENAME" "plain_name BASELINE_FILENAME" "plain_name GOLDEN_CASES_FILENAME"
  "plain_name DRIFT_REFERENCE_FILENAME" "plain_name SCORES_PARQUET_FILENAME"
  by (simp_all add: plain_name_def filename_defs)

text \<open>What the manifest's validators establish.\<close>

lemma validate_manifest_facts:
  assumes "validate_manifest m = Inr m'"
  shows "m' = m" "champion_role m \<or> research_role m" "is_hex64 (cm_contract_sha256 m)"
    and "is_hex64 (cm_source_dataset_sha256 m)" "set required_artifacts \<subseteq> set (keys (cm_artifact_sha256 m))"
    and "\<And>name. name \<in> set (keys (cm_artifact_sha256 m)) \<Longrightarrow> plain_name name"
proof -
  note checks = assms [unfolded validate_manifest_def run_checks_Inr]
  from checks show "m' = m" by simp
  from checks show "champion_role m \<or> research_role m" "is_hex64 (cm_contract_sha256 m)"
    "is_hex64 (cm_source_dataset_sha256 m)" by (simp_all add: validate_package_role_def)
  from checks have keys: "set required_artifacts \<subseteq> set (keys (cm_artifact_sha256 m))"
    "set (keys (cm_artifact_sha256 m)) \<subseteq> set (SCORES_PARQUET_FILENAME # required_artifacts)"
    by (simp_all add: validate_artifact_hashes_def)
  from keys(1) show "set required_artifacts \<subseteq> set (keys (cm_artifact_sha256 m))" .
  show "plain_name name" if "name \<in> set (keys (cm_artifact_sha256 m))" for name
  proof -
    from that keys(2) have "name \<in> set (SCORES_PARQUET_FILENAME # required_artifacts)" by blast
    then show ?thesis by (auto simp: required_artifacts_def)
  qed
qed

lemma manifest_of_json_facts:
  assumes "manifest_of_json lib content = Inr m"
  shows "decode_manifest lib content = Inr m" "validate_manifest m = Inr m"
  using assms validate_manifest_facts(1) by (auto simp: manifest_of_json_def bind_err_eq_Inr)

definition holds_artifact :: "('b, 'm) codec_scheme \<Rightarrow> 'b files \<Rightarrow> path \<Rightarrow> string \<times> sha256 \<Rightarrow> bool" where
  "holds_artifact cd fs pkg a \<longleftrightarrow> (\<exists>content. fs (pkg @ [fst a]) = Some content \<and> sha256_bytes cd content = snd a)"

lemma check_artifact_iff:
  "plain_name (fst a) \<Longrightarrow> check_artifact cd fs pkg u a = Inr () \<longleftrightarrow> holds_artifact cd fs pkg a"
  by (auto simp: check_artifact_def holds_artifact_def sha256_file_def read_file_def split: if_splits)

lemma fold_err_unit: "fold_err f () xs = Inr () \<longleftrightarrow> (\<forall>x \<in> set xs. f () x = Inr ())"
  by (induction xs) (auto simp: bind_err_eq_Inr)

lemma check_artifacts_iff:
  assumes "\<And>name. name \<in> set (keys t) \<Longrightarrow> plain_name name"
  shows "fold_err (check_artifact cd fs pkg) () t = Inr () \<longleftrightarrow> (\<forall>a \<in> set t. holds_artifact cd fs pkg a)"
  using assms by (auto simp: fold_err_unit check_artifact_iff keys_def)

text \<open>The stages of a successful load.\<close>

lemma load_champion_stages:
  assumes "load_champion lib fs pkg sha allow = Inr s"
  obtains content baseline where
    "fs (pkg @ [MANIFEST_FILENAME]) = Some content" "sha256_bytes lib content = sha"
    "manifest_of_json lib content = Inr (cs_manifest s)"
    "cm_operational_status (cs_manifest s) = ''RESEARCH_ONLY'' \<longrightarrow> allow"
    "fold_err (check_artifact lib fs pkg) () (cm_artifact_sha256 (cs_manifest s)) = Inr ()"
    "bind_err (read_file fs (pkg @ [DETECTOR_FILENAME])) (joblib_load lib) = Inr (cs_detector s)"
    "bind_err (read_file fs (pkg @ [BASELINE_FILENAME])) (np_load lib) = Inr baseline"
    "bl_feature_names baseline = cm_feature_names (cs_manifest s)"
    "length (bl_median baseline) = length (cm_feature_names (cs_manifest s))"
    "length (bl_mad baseline) = length (cm_feature_names (cs_manifest s))"
    "cs_median s = bl_median baseline" "cs_mad s = bl_mad baseline"
  using assms unfolding load_champion_def
  by (auto simp: bind_err_eq_Inr split: option.splits if_splits sum.splits)

text \<open>
  C19 (safety): only the package named by the trust anchor is loaded.  When \<open>load_champion\<close> returns a
  scorer, the manifest file has the expected SHA-256 and passed its validators, every artifact it lists
  lies directly in the package directory with the listed digest, the detector is the one stored in the
  listed \<open>detector.joblib\<close>, the baseline has one median and one deviation per feature, and a package that
  is not a feasible production champion was explicitly allowed.
\<close>

theorem load_champion_trusted:
  assumes "load_champion lib fs pkg sha allow = Inr s"
  shows "(\<exists>content. fs (pkg @ [MANIFEST_FILENAME]) = Some content \<and> sha256_bytes lib content = sha \<and>
      decode_manifest lib content = Inr (cs_manifest s)) \<and> validate_manifest (cs_manifest s) = Inr (cs_manifest s) \<and>
    (\<forall>a \<in> set (cm_artifact_sha256 (cs_manifest s)). holds_artifact lib fs pkg a) \<and>
    (\<exists>h content. (DETECTOR_FILENAME, h) \<in> set (cm_artifact_sha256 (cs_manifest s)) \<and>
       fs (pkg @ [DETECTOR_FILENAME]) = Some content \<and> sha256_bytes lib content = h \<and>
       joblib_load lib content = Inr (cs_detector s)) \<and>
    length (cs_median s) = length (cm_feature_names (cs_manifest s)) \<and>
    length (cs_mad s) = length (cm_feature_names (cs_manifest s)) \<and>
    (champion_role (cs_manifest s) \<or> research_role (cs_manifest s) \<and> allow)"
proof -
  from assms obtain content baseline where st:
    "fs (pkg @ [MANIFEST_FILENAME]) = Some content" "sha256_bytes lib content = sha"
    "manifest_of_json lib content = Inr (cs_manifest s)"
    "cm_operational_status (cs_manifest s) = ''RESEARCH_ONLY'' \<longrightarrow> allow"
    "fold_err (check_artifact lib fs pkg) () (cm_artifact_sha256 (cs_manifest s)) = Inr ()"
    "bind_err (read_file fs (pkg @ [DETECTOR_FILENAME])) (joblib_load lib) = Inr (cs_detector s)"
    "length (cs_median s) = length (cm_feature_names (cs_manifest s))"
    "length (cs_mad s) = length (cm_feature_names (cs_manifest s))"
    by (rule load_champion_stages) simp
  note m = manifest_of_json_facts [OF st(3)]
  note v = validate_manifest_facts [OF m(2)]
  have held: "\<forall>a \<in> set (cm_artifact_sha256 (cs_manifest s)). holds_artifact lib fs pkg a"
    using st(5) check_artifacts_iff [OF v(6)] by blast
  from v(5) have "DETECTOR_FILENAME \<in> set (keys (cm_artifact_sha256 (cs_manifest s)))"
    by (simp add: required_artifacts_def)
  then obtain h where h: "(DETECTOR_FILENAME, h) \<in> set (cm_artifact_sha256 (cs_manifest s))"
    by (auto simp: keys_def)
  with held obtain c where c: "fs (pkg @ [DETECTOR_FILENAME]) = Some c" "sha256_bytes lib c = h"
    by (fastforce simp: holds_artifact_def)
  with st(6) have "joblib_load lib c = Inr (cs_detector s)" by (simp add: read_file_def)
  moreover have "champion_role (cs_manifest s) \<or> research_role (cs_manifest s) \<and> allow"
    using v(2) st(4) by (auto simp: research_role_def)
  ultimately show ?thesis using st(1,2,7,8) m held h c by blast
qed

definition champion_manifest_sample :: ChampionManifest where
  "champion_manifest_sample =
     \<lparr>cm_schema_version = ''champion-package-v2'', cm_package_role = ''CHAMPION'',
      cm_evaluation_verdict = ''FEASIBLE'', cm_operational_status = ''PRODUCTION_CANDIDATE'',
      cm_source_champion_schema = ''phase1b-champion-v1'', cm_source_run_id = ''run'',
      cm_model_id = ''statistical'', cm_model_version = ''m1'', cm_contract_sha256 = zero_sha,
      cm_source_dataset_sha256 = zero_sha, cm_prepared_output_sha256 = zero_sha,
      cm_feature_output_sha256 = zero_sha, cm_feature_names = [''tp2_last''], cm_threshold = Fin 3,
      cm_golden_case_count = 3, cm_artifact_sha256 = map (\<lambda>a. (a, zero_sha)) required_artifacts\<rparr>"

definition drift_sample :: DriftReferenceV1 where
  "drift_sample = \<lparr>dr_model_version = ''m1'', dr_source_dataset_sha256 = zero_sha,
     dr_contract_sha256 = zero_sha, active_feature_names = [''tp2_last''], num_train_samples = 1,
     bin_edges = [], reference_proportions = [], self_sha256 = zero_sha\<rparr>"

definition lib_sample :: "json package_lib" where
  "lib_sample = \<lparr>render = (\<lambda>d. d), loads = Inr, sha256_bytes = (\<lambda>_. zero_sha), repr_json = (\<lambda>_. []),
     float_text = (\<lambda>_. Inl (ValueError ''could not convert string to float'')),
     decode_manifest = (\<lambda>_. Inr champion_manifest_sample),
     joblib_load = (\<lambda>_. Inr (\<lambda>rows. Inr (map (\<lambda>_. Fin 4) rows))),
     np_load = (\<lambda>_. Inr \<lparr>bl_feature_names = [''tp2_last''], bl_median = [Fin 0], bl_mad = [Fin 1]\<rparr>),
     decode_drift = (\<lambda>_. Inr drift_sample), drift_hash = (\<lambda>_. zero_sha)\<rparr>"

definition package_sample :: "json files" where
  "package_sample p = (if p \<in> set (map (\<lambda>a. [''pkg'', a]) (MANIFEST_FILENAME # required_artifacts)) then Some JNull else None)"

lemma zero_sha_length [simp]: "length zero_sha = 64"
  by (simp add: zero_sha_def)

lemma champion_manifest_sample_valid: "validate_manifest champion_manifest_sample = Inr champion_manifest_sample"
  by (simp add: validate_manifest_def champion_manifest_sample_def validate_artifact_hashes_def
      required_artifacts_def filename_defs keys_def validate_package_role_def champion_role_def)

definition scorer_sample :: ChampionScorer where
  "scorer_sample = \<lparr>cs_manifest = champion_manifest_sample, cs_detector = (\<lambda>rows. Inr (map (\<lambda>_. Fin 4) rows)),
     cs_median = [Fin 0], cs_mad = [Fin 1]\<rparr>"

lemma sample_manifest_json: "manifest_of_json lib_sample c = Inr champion_manifest_sample"
  by (simp add: manifest_of_json_def lib_sample_def champion_manifest_sample_valid)

definition has_package :: "json files \<Rightarrow> path \<Rightarrow> bool" where
  "has_package fs pkg \<longleftrightarrow> list_all (\<lambda>a. fs (pkg @ [a]) \<noteq> None) (MANIFEST_FILENAME # required_artifacts)"

lemma load_sample:
  assumes "has_package fs pkg"
  shows "load_champion lib_sample fs pkg zero_sha allow = Inr scorer_sample"
proof -
  from assms obtain c1 c2 c3 c4 c5 where files: "fs (pkg @ [MANIFEST_FILENAME]) = Some c1"
    "fs (pkg @ [DETECTOR_FILENAME]) = Some c2" "fs (pkg @ [BASELINE_FILENAME]) = Some c3"
    "fs (pkg @ [GOLDEN_CASES_FILENAME]) = Some c4" "fs (pkg @ [DRIFT_REFERENCE_FILENAME]) = Some c5"
    by (auto simp: has_package_def required_artifacts_def)
  have arts: "fold_err (check_artifact lib_sample fs pkg) () (cm_artifact_sha256 champion_manifest_sample) = Inr ()"
    by (simp add: champion_manifest_sample_def required_artifacts_def check_artifact_def sha256_file_def
        read_file_def files) (simp add: lib_sample_def)
  have rest: "read_file fs (pkg @ [DETECTOR_FILENAME]) = Inr c2" "read_file fs (pkg @ [BASELINE_FILENAME]) = Inr c3"
    by (simp_all add: read_file_def files)
  show ?thesis
    unfolding load_champion_def
    by (simp add: files sample_manifest_json arts rest)
      (simp add: lib_sample_def champion_manifest_sample_def load_reference_def drift_manifest_of_def
        drift_sample_def scorer_sample_def)
qed

lemma load_package_sample:
  "load_champion lib_sample package_sample [''pkg''] zero_sha False = Inr scorer_sample"
  by (rule load_sample) (simp add: has_package_def package_sample_def required_artifacts_def)

theorem load_champion_trusted_witness:
  "load_champion lib_sample package_sample [''pkg''] zero_sha False = Inr scorer_sample \<and>
   holds_artifact lib_sample package_sample [''pkg''] (BASELINE_FILENAME, zero_sha)"
  using load_champion_trusted [OF load_package_sample] load_package_sample
  by (simp add: scorer_sample_def champion_manifest_sample_def required_artifacts_def)

section \<open>Scores of a loaded champion\<close>

definition sound_baseline :: "ChampionScorer \<Rightarrow> bool" where
  "sound_baseline s \<longleftrightarrow> list_all isfinite (cs_median s) \<and> list_all (\<lambda>d. isfinite d \<and> pf_le (Fin 0) d) (cs_mad s)"

lemma deviation_finite:
  assumes "isfinite v" "isfinite m" "isfinite d" "pf_le (Fin 0) d"
  shows "\<exists>q \<ge> 0. deviation v m d = Fin q"
proof -
  from assms obtain a b c where abc: "v = Fin a" "m = Fin b" "d = Fin c" "0 \<le> c"
    by (auto simp: isfinite_iff pf_le_Fin_left)
  show ?thesis
  proof (cases "isclose_zero d")
    case False
    with abc have "0 < mad_factor * c" by (simp add: mad_factor_def)
    with False abc show ?thesis by (auto simp: deviation_def intro!: divide_nonneg_pos)
  qed (simp add: deviation_def)
qed

lemma deviations_ok:
  assumes "length median = length vals" "length mad = length vals" "list_all isfinite vals"
    and "list_all isfinite median" "list_all (\<lambda>d. isfinite d \<and> pf_le (Fin 0) d) mad"
  obtains devs where "deviations vals median mad = Inr devs" "length devs = length vals"
    "\<forall>d \<in> set devs. \<exists>q \<ge> 0. d = Fin q"
proof -
  let ?vmm = "zip (zip vals median) mad"
  let ?devs = "map (\<lambda>((v, m), d). deviation v m d) ?vmm"
  have dev: "\<exists>q \<ge> 0. deviation v m d = Fin q" if "((v, m), d) \<in> set ?vmm" for v m d
    using that assms(3-5) by (intro deviation_finite) (auto simp: list_all_iff dest: set_zip_leftD set_zip_rightD)
  have "deviations vals median mad = Inr ?devs"
    using assms(1,2) by (simp add: deviations_def broadcast_def)
  moreover have "length ?devs = length vals" using assms(1,2) by simp
  moreover have "\<forall>d \<in> set ?devs. \<exists>q \<ge> 0. d = Fin q" using dev by fastforce
  ultimately show thesis by (rule that)
qed

lemma new_evidence_ok:
  "isfinite (fst (snd e)) \<Longrightarrow> isfinite (snd (snd e)) \<Longrightarrow>
     new_evidence e = Inr \<lparr>feature_name = fst e, feature_value = fst (snd e), robust_deviation = snd (snd e)\<rparr>"
  by (simp add: new_evidence_def validate_evidence_def)

text \<open>A vector of the scorer's own identity is scored without an exception: one piece of evidence per
  feature, in the manifest's order, each with a finite non-negative deviation.\<close>

lemma champion_scores:
  assumes "length (cs_median s) = length (cm_feature_names (cs_manifest s))"
    and "length (cs_mad s) = length (cm_feature_names (cs_manifest s))" "sound_baseline s"
    and "validate_identity s f = Inr ()" "length (fv_feature_values f) = length (fv_feature_names f)"
    and "list_all isfinite (fv_feature_values f)" "cs_detector s [fv_feature_values f] = Inr (x # xs)"
  shows "\<exists>sv. score_vector s f = Inr sv \<and> sv_score sv = x \<and> sv_threshold sv = cm_threshold (cs_manifest s) \<and>
    (sv_is_anomaly sv \<longleftrightarrow> pf_le (cm_threshold (cs_manifest s)) x) \<and>
    map feature_name (sv_evidence_vector sv) = fv_feature_names f \<and>
    map feature_value (sv_evidence_vector sv) = fv_feature_values f \<and>
    (\<forall>e \<in> set (sv_evidence_vector sv). \<exists>q \<ge> 0. robust_deviation e = Fin q)"
proof -
  let ?vals = "fv_feature_values f" and ?names = "cm_feature_names (cs_manifest s)"
  have names: "fv_feature_names f = ?names" using assms(4) by (auto simp: validate_identity_def split: if_splits)
  with assms(1,2,5) have len: "length (cs_median s) = length ?vals" "length (cs_mad s) = length ?vals"
    "length ?names = length ?vals" by simp_all
  from assms(3) have base: "list_all isfinite (cs_median s)" "list_all (\<lambda>d. isfinite d \<and> pf_le (Fin 0) d) (cs_mad s)"
    by (simp_all add: sound_baseline_def)
  obtain devs where devs: "deviations ?vals (cs_median s) (cs_mad s) = Inr devs" "length devs = length ?vals"
    "\<forall>d \<in> set devs. \<exists>q \<ge> 0. d = Fin q"
    using deviations_ok [OF len(1,2) assms(6) base] by blast
  let ?ev = "\<lambda>e. \<lparr>feature_name = fst e, feature_value = fst (snd e), robust_deviation = snd (snd e)\<rparr> :: EvidenceValueV1"
  let ?es = "zip ?names (zip ?vals devs)"
  have "map_err new_evidence ?es = Inr (map ?ev ?es)"
  proof (rule map_err_Inr)
    fix e assume "e \<in> set ?es"
    then obtain n v d where e: "e = (n, v, d)" "(v, d) \<in> set (zip ?vals devs)"
      by (metis prod.exhaust set_zip_rightD)
    then have "fst (snd e) \<in> set ?vals" "snd (snd e) \<in> set devs"
      by (auto dest: set_zip_leftD set_zip_rightD)
    with assms(6) devs(3) show "new_evidence e = Inr (?ev e)" by (intro new_evidence_ok) (auto simp: list_all_iff)
  qed
  then have "score_vector s f = Inr \<lparr>sv_score = x, sv_threshold = cm_threshold (cs_manifest s),
      sv_is_anomaly = pf_le (cm_threshold (cs_manifest s)) x, sv_evidence_vector = map ?ev ?es\<rparr>"
    using assms(4,7) devs(1) len by (simp add: score_vector_def)
  moreover have "map feature_name (map ?ev ?es) = ?names" "map feature_value (map ?ev ?es) = ?vals"
    using len devs(2) by (auto intro!: nth_equalityI)
  moreover have "\<forall>e \<in> set (map ?ev ?es). \<exists>q \<ge> 0. robust_deviation e = Fin q"
    using devs(3) by (auto dest!: set_zip_rightD)
  ultimately show ?thesis by (simp add: names)
qed

end
