(* ===== verification/Evaluation.thy ===== *)
theory Evaluation
  imports Prelude
begin

text \<open>
  \<open>evaluation.py\<close>: threshold calibration, merging of anomalous decisions into episodes and the
  evaluation of a holdout score sequence against the failure events of the contract.

  A data frame is its column names and its rows; a cell of a time column is what \<open>pandas.Timestamp\<close>
  makes of it.  \<open>numpy.quantile\<close> and scikit-learn's average precision are arguments.  Times of
  events and episodes are naive datetimes with a flag for the rejected timezone-aware case.
\<close>

record Event =
  event_id :: string
  failure_type :: string
  source_start :: datetime
  source_end :: datetime
  source_precision :: string
  paper_count :: int
  local_lps_transition :: "datetime option"
  disagreement :: "string option"
  event_aware :: bool

record EvaluationPolicy =
  pol_stride_seconds :: int
  event_horizon_seconds :: int
  threshold_quantile :: real
  threshold_method :: string
  anomaly_inclusive :: bool
  min_detected_events :: nat
  max_false_episodes_per_day :: real
  max_time_in_alert :: real

record Episode =
  detection_time :: datetime
  last_detection_time :: datetime
  decision_count :: int
  episode_aware :: bool

record EventResult =
  er_event_id :: string
  evaluable :: bool
  matching_horizon_valid_decisions :: nat
  source_interval_valid_decisions :: nat
  source_interval_coverage_seconds :: int
  detected :: bool
  first_detection_time :: "datetime option"
  lead_seconds_to_source_start :: "real option"
  lead_seconds_to_local_lps :: "real option"

record EvaluationResult =
  er_threshold :: real
  valid_holdout_decisions :: nat
  positive_decisions :: nat
  anomalous_decisions :: nat
  normal_valid_decisions :: nat
  normal_exposure_days :: real
  time_in_alert :: real
  pr_auc :: real
  detected_events :: nat
  total_events :: nat
  false_episodes :: nat
  false_episodes_per_day :: real
  event_results :: "EventResult list"
  feasible :: bool

datatype timestamp = Naive datetime | Aware datetime | NaT | Unparsable

record score_row =
  window_start :: timestamp
  window_end :: timestamp
  row_score :: "pyfloat option"

record score_frame =
  columns :: "string list"
  rows :: "score_row list"

section \<open>Validation\<close>

definition validate_contract :: "EvaluationPolicy \<Rightarrow> exn + unit" where
  "validate_contract contract = run_checks
     [(pol_stride_seconds contract \<le> 0, ValueError ''stride_seconds must be positive''),
      (event_horizon_seconds contract < 0, ValueError ''event_horizon_seconds must be non-negative'')] ()"

definition validate_threshold :: "pyfloat \<Rightarrow> exn + real" where
  "validate_threshold v = (case v of Fin r \<Rightarrow> Inr r | _ \<Rightarrow> Inl (ValueError ''threshold must be finite''))"

fun as_naive_datetime :: "string \<Rightarrow> timestamp \<Rightarrow> exn + datetime" where
  "as_naive_datetime field (Naive t) = Inr t"
| "as_naive_datetime field Unparsable = Inl (ValueError (field @ '' must contain valid datetimes''))"
| "as_naive_datetime field _ = Inl (ValueError (field @ '' must contain naive valid datetimes''))"

definition score_columns :: "string list" where
  "score_columns = [''window_start'', ''window_end'', ''score'']"

definition validated_scores :: "score_frame \<Rightarrow> exn + datetime list \<times> real list" where
  "validated_scores scores =
     bind_err (run_checks
       [(rows scores = [], ValueError ''score frame must not be empty''),
        (\<not> list_all (\<lambda>c. c \<in> set (columns scores)) score_columns, ValueError ''score frame is missing columns''),
        (\<not> list_all (\<lambda>r. row_score r \<noteq> None) (rows scores), ValueError ''scores must be numeric''),
        (\<not> list_all (\<lambda>r. case row_score r of Some v \<Rightarrow> isfinite v | None \<Rightarrow> False) (rows scores),
         ValueError ''scores must be a finite one-dimensional sequence'')]
       (map (\<lambda>r. the_fin (the (row_score r))) (rows scores))) (\<lambda>values.
     bind_err (map_err (\<lambda>r. as_naive_datetime ''window_end'' (window_end r)) (rows scores)) (\<lambda>ends.
     bind_err (run_checks
       [(\<not> chain (<) ends, ValueError ''window_end must be strictly increasing'')] ()) (\<lambda>_.
     bind_err (map_err (\<lambda>r. as_naive_datetime ''window_start'' (window_start r)) (rows scores)) (\<lambda>starts.
     run_checks
       [(\<not> chain (<) starts, ValueError ''window_start must be strictly increasing''),
        (\<not> list_all (\<lambda>(s, e). s \<le> e) (zip starts ends), ValueError ''window_start must not follow window_end'')]
       (ends, values)))))"

definition anomalies :: "real list \<Rightarrow> real \<Rightarrow> EvaluationPolicy \<Rightarrow> bool list" where
  "anomalies scores threshold contract =
     (if anomaly_inclusive contract then map (\<lambda>s. threshold \<le> s) scores else map (\<lambda>s. threshold < s) scores)"

text \<open>\<open>quantile\<close> is \<open>numpy.quantile\<close>; \<open>None\<close> is its rejection of an unknown method.\<close>

definition calibrate_threshold ::
  "(real list \<Rightarrow> real \<Rightarrow> string \<Rightarrow> real option) \<Rightarrow> pyfloat list \<Rightarrow> EvaluationPolicy \<Rightarrow> exn + real"
where
  "calibrate_threshold quantile calibration_scores contract =
     bind_err (run_checks
       [(calibration_scores = [], ValueError ''calibration_scores must be a non-empty one-dimensional sequence''),
        (\<not> list_all isfinite calibration_scores, ValueError ''calibration_scores must be finite''),
        (\<not> (0 \<le> threshold_quantile contract \<and> threshold_quantile contract \<le> 1),
         ValueError ''threshold_quantile must be between zero and one'')] (map the_fin calibration_scores)) (\<lambda>values.
     case quantile values (threshold_quantile contract) (threshold_method contract) of
       Some q \<Rightarrow> Inr q
     | None \<Rightarrow> Inl (ValueError (''invalid threshold_method: '' @ threshold_method contract)))"

section \<open>Episodes\<close>

definition new_episode :: "datetime \<Rightarrow> datetime \<Rightarrow> int \<Rightarrow> Episode" where
  "new_episode first final count =
     \<lparr>detection_time = first, last_detection_time = final, decision_count = count, episode_aware = False\<rparr>"

fun merge_episodes :: "int \<Rightarrow> datetime \<Rightarrow> datetime \<Rightarrow> int \<Rightarrow> datetime list \<Rightarrow> Episode list" where
  "merge_episodes stride first final count [] = [new_episode first final count]"
| "merge_episodes stride first final count (current # rest) =
     (if current - final \<le> seconds stride then merge_episodes stride first current (count + 1) rest
      else new_episode first final count # merge_episodes stride current current 1 rest)"

definition anomalous_ends :: "datetime list \<Rightarrow> bool list \<Rightarrow> datetime list" where
  "anomalous_ends ends flags = map fst (filter snd (zip ends flags))"

definition build_episodes :: "score_frame \<Rightarrow> pyfloat \<Rightarrow> EvaluationPolicy \<Rightarrow> exn + Episode list" where
  "build_episodes scores threshold contract =
     bind_err (validate_contract contract) (\<lambda>_.
     bind_err (validate_threshold threshold) (\<lambda>threshold_value.
     bind_err (validated_scores scores) (\<lambda>(ends, values).
       Inr (case anomalous_ends ends (anomalies values threshold_value contract) of
              [] \<Rightarrow> []
            | first # rest \<Rightarrow> merge_episodes (pol_stride_seconds contract) first first 1 rest))))"

section \<open>Evaluation\<close>

definition horizon_start :: "EvaluationPolicy \<Rightarrow> Event \<Rightarrow> datetime" where
  "horizon_start contract event = source_start event - seconds (event_horizon_seconds contract)"

definition episode_matches_event :: "Episode \<Rightarrow> Event \<Rightarrow> EvaluationPolicy \<Rightarrow> bool" where
  "episode_matches_event episode event contract \<longleftrightarrow>
     (let detected_in_horizon = horizon_start contract event \<le> detection_time episode
            \<and> detection_time episode < source_end event;
          episode_end = last_detection_time episode + seconds (pol_stride_seconds contract);
          overlaps_source = detection_time episode < source_end event \<and> source_start event < episode_end
      in detected_in_horizon \<or> overlaps_source)"

definition validated_events :: "Event list \<Rightarrow> exn + Event list" where
  "validated_events events =
     bind_err (run_checks [(events = [], ValueError ''events must not be empty'')] events)
       (map_err (\<lambda>event. run_checks
         [(event_aware event, ValueError ''event times must be naive''),
          (source_end event \<le> source_start event, ValueError ''event source interval must be non-empty'')] event))"

fun validated_episodes_after :: "datetime option \<Rightarrow> Episode list \<Rightarrow> exn + Episode list" where
  "validated_episodes_after prev [] = Inr []"
| "validated_episodes_after prev (episode # rest) =
     bind_err (run_checks
       [(decision_count episode \<le> 0 \<or> last_detection_time episode < detection_time episode,
         ValueError ''episode fields are inconsistent''),
        (episode_aware episode, ValueError ''episode times must be naive''),
        (case prev of None \<Rightarrow> False | Some t \<Rightarrow> detection_time episode \<le> t,
         ValueError ''episodes must be strictly ordered and non-overlapping'')] ()) (\<lambda>_.
     bind_err (validated_episodes_after (Some (last_detection_time episode)) rest) (\<lambda>rest'.
       Inr (episode # rest')))"

definition validated_episodes :: "Episode list \<Rightarrow> exn + Episode list" where
  "validated_episodes = validated_episodes_after None"

definition matching_flags :: "datetime list \<Rightarrow> EvaluationPolicy \<Rightarrow> Event \<Rightarrow> bool list" where
  "matching_flags ends contract event =
     map (\<lambda>end. horizon_start contract event \<le> end \<and> end < source_end event) ends"

definition total_seconds :: "int \<Rightarrow> real" where
  "total_seconds d = of_int d / 1000000"

definition count_true :: "bool list \<Rightarrow> nat" where
  "count_true flags = length (filter id flags)"

text \<open>The body of the loop over the events.\<close>

definition evaluate_event ::
  "datetime list \<Rightarrow> Episode list \<Rightarrow> EvaluationPolicy \<Rightarrow> Event \<Rightarrow> exn + EventResult"
where
  "evaluate_event ends episodes contract event =
     (let matching_count = count_true (matching_flags ends contract event);
          source_count = count_true (map (\<lambda>end. source_start event \<le> end \<and> end < source_end event) ends);
          matched = filter (\<lambda>episode. episode_matches_event episode event contract) episodes;
          first_detection = (if matched = [] then None else Some (Min (set (map detection_time matched))))
      in if matching_count = 0 then Inl (ValueError (''event is not evaluable: '' @ event_id event))
         else Inr
           \<lparr>er_event_id = event_id event, evaluable = True,
            matching_horizon_valid_decisions = matching_count,
            source_interval_valid_decisions = source_count,
            source_interval_coverage_seconds = int source_count * pol_stride_seconds contract,
            detected = (first_detection \<noteq> None), first_detection_time = first_detection,
            lead_seconds_to_source_start =
              (case first_detection of None \<Rightarrow> None | Some t \<Rightarrow> Some (total_seconds (source_start event - t))),
            lead_seconds_to_local_lps =
              (case first_detection of None \<Rightarrow> None
               | Some t \<Rightarrow> (case local_lps_transition event of None \<Rightarrow> None
                           | Some lps \<Rightarrow> Some (total_seconds (lps - t))))\<rparr>)"

definition positive_flags :: "datetime list \<Rightarrow> EvaluationPolicy \<Rightarrow> Event list \<Rightarrow> bool list" where
  "positive_flags ends contract events =
     foldl (\<lambda>positive event. map2 (\<or>) positive (matching_flags ends contract event))
       (replicate (length ends) False) events"

definition evaluate ::
  "(bool list \<Rightarrow> real list \<Rightarrow> real) \<Rightarrow> score_frame \<Rightarrow> Episode list \<Rightarrow> pyfloat \<Rightarrow> Event list
     \<Rightarrow> EvaluationPolicy \<Rightarrow> exn + EvaluationResult"
where
  "evaluate average_precision holdout_scores episodes threshold events contract =
     bind_err (validate_contract contract) (\<lambda>_.
     bind_err (validate_threshold threshold) (\<lambda>threshold_value.
     bind_err (validated_scores holdout_scores) (\<lambda>(ends, score_values).
     bind_err (validated_events events) (\<lambda>event_values.
     bind_err (validated_episodes episodes) (\<lambda>episode_values.
     bind_err (map_err (evaluate_event ends episode_values contract) event_values) (\<lambda>results.
       (let positive = positive_flags ends contract event_values;
            valid = length ends;
            positives = count_true positive;
            normal = valid - positives;
            anomalous = count_true (anomalies score_values threshold_value contract);
            exposure = real normal * of_int (pol_stride_seconds contract) / 86400;
            falses = length (filter (\<lambda>episode.
              \<not> list_ex (\<lambda>event. episode_matches_event episode event contract) event_values) episode_values);
            per_day = real falses / exposure;
            in_alert = real anomalous / real valid;
            detections = length (filter detected results)
        in if normal = 0 then Inl (ValueError ''normal exposure must be greater than zero'')
           else Inr
             \<lparr>er_threshold = threshold_value, valid_holdout_decisions = valid, positive_decisions = positives,
              anomalous_decisions = anomalous, normal_valid_decisions = normal, normal_exposure_days = exposure,
              time_in_alert = in_alert, pr_auc = average_precision positive score_values,
              detected_events = detections, total_events = length event_values, false_episodes = falses,
              false_episodes_per_day = per_day, event_results = results,
              feasible = (min_detected_events contract \<le> detections
                 \<and> per_day \<le> max_false_episodes_per_day contract
                 \<and> in_alert \<le> max_time_in_alert contract)\<rparr>)))))))"

section \<open>Episodes partition the anomalous decisions\<close>

definition episode_of :: "datetime list \<Rightarrow> Episode" where
  "episode_of g = new_episode (hd g) (last g) (int (length g))"

lemma episode_of_fields [simp]:
  "detection_time (episode_of g) = hd g" "last_detection_time (episode_of g) = last g"
  "decision_count (episode_of g) = int (length g)" "\<not> episode_aware (episode_of g)"
  by (simp_all add: episode_of_def new_episode_def)

lemma length_anomalous_ends:
  "length flags = length ends \<Longrightarrow> length (anomalous_ends ends flags) = count_true flags"
  by (induction flags ends rule: list_induct2) (auto simp: anomalous_ends_def count_true_def)

text \<open>A grouping of the anomalous window ends at the gaps longer than a stride.\<close>

definition alert_groups :: "int \<Rightarrow> datetime list \<Rightarrow> datetime list list \<Rightarrow> bool" where
  "alert_groups stride ends groups \<longleftrightarrow> concat groups = ends \<and>
     (\<forall>g \<in> set groups. g \<noteq> [] \<and> chain (\<lambda>a b. b - a \<le> seconds stride) g) \<and>
     chain (\<lambda>g h. seconds stride < hd h - last g) groups"

lemma alert_groups_hd:
  "alert_groups stride (x # xs) groups \<Longrightarrow> groups \<noteq> [] \<and> hd (hd groups) = x"
  by (cases groups) (auto simp: alert_groups_def append_eq_Cons_conv)

lemma alert_groups_Cons:
  assumes "g \<noteq> []" "chain (\<lambda>a b. b - a \<le> seconds stride) g" "alert_groups stride (x # xs) groups"
    "seconds stride < x - last g"
  shows "alert_groups stride (g @ x # xs) (g # groups)"
  using assms alert_groups_hd [OF assms(3)] by (auto simp: alert_groups_def chain_Cons)

lemma merge_episodes_groups:
  "g \<noteq> [] \<Longrightarrow> chain (\<lambda>a b. b - a \<le> seconds stride) g \<Longrightarrow>
     \<exists>groups. alert_groups stride (g @ rest) groups \<and>
       merge_episodes stride (hd g) (last g) (int (length g)) rest = map episode_of groups"
proof (induction rest arbitrary: g)
  case Nil
  then show ?case by (intro exI [of _ "[g]"]) (simp add: alert_groups_def episode_of_def)
next
  case (Cons x rest)
  show ?case
  proof (cases "x - last g \<le> seconds stride")
    case True
    from Cons.IH [of "g @ [x]"] Cons.prems True show ?thesis by (simp add: chain_snoc add.commute)
  next
    case False
    from Cons.IH [of "[x]"] obtain groups where groups: "alert_groups stride (x # rest) groups"
      "merge_episodes stride x x 1 rest = map episode_of groups" by auto
    from alert_groups_Cons [OF Cons.prems groups(1)] groups(2) False show ?thesis
      by (intro exI [of _ "g # groups"]) (simp add: episode_of_def)
  qed
qed

lemma build_episodes_groups:
  assumes "build_episodes scores (Fin threshold) contract = Inr episodes"
  shows "\<exists>ends vals groups. validated_scores scores = Inr (ends, vals) \<and>
    alert_groups (pol_stride_seconds contract) (anomalous_ends ends (anomalies vals threshold contract)) groups \<and>
    episodes = map episode_of groups"
proof -
  from assms obtain ends vals where v: "validated_scores scores = Inr (ends, vals)"
    "episodes = (case anomalous_ends ends (anomalies vals threshold contract) of [] \<Rightarrow> []
       | first # rest \<Rightarrow> merge_episodes (pol_stride_seconds contract) first first 1 rest)"
    by (auto simp: build_episodes_def validate_threshold_def err_simps)
  show ?thesis
  proof (cases "anomalous_ends ends (anomalies vals threshold contract)")
    case Nil
    with v show ?thesis by (intro exI [of _ ends] exI [of _ vals] exI [of _ "[]"]) (simp add: alert_groups_def)
  next
    case (Cons x rest)
    with merge_episodes_groups [of "[x]" "pol_stride_seconds contract" rest] v show ?thesis by auto
  qed
qed

lemma sorted_ends:
  "validated_scores scores = Inr (ends, vals) \<Longrightarrow> sorted_wrt (<) ends \<and> length vals = length ends \<and> ends \<noteq> []"
  by (auto simp: validated_scores_def err_simps chain_sorted_wrt transp_def split: if_splits dest!: map_err_length)

lemma sorted_anomalous_ends:
  "sorted_wrt (<) ends \<Longrightarrow> sorted_wrt (<) (anomalous_ends ends flags)"
proof (induction ends arbitrary: flags)
  case (Cons x ends)
  then show ?case
    by (cases flags) (auto simp: anomalous_ends_def dest: set_zip_leftD)
qed (simp add: anomalous_ends_def)

text \<open>Episodes of sorted groups are accepted by the evaluation.\<close>

lemma validated_episodes_after_groups:
  "sorted_wrt (<) (concat groups) \<Longrightarrow> \<forall>g \<in> set groups. g \<noteq> [] \<Longrightarrow>
     (case prev of None \<Rightarrow> True | Some t \<Rightarrow> \<forall>x \<in> set (concat groups). t < x) \<Longrightarrow>
     validated_episodes_after prev (map episode_of groups) = Inr (map episode_of groups)"
proof (induction groups arbitrary: prev)
  case (Cons g groups)
  have g: "g \<noteq> []" "sorted_wrt (<) g" "\<forall>x \<in> set g. \<forall>y \<in> set (concat groups). x < y"
    using Cons.prems by (auto simp: sorted_wrt_append)
  have "hd g \<le> last g"
    using g(1,2) by (cases g rule: rev_cases) (auto simp: sorted_wrt_append hd_append less_imp_le)
  moreover have "validated_episodes_after (Some (last g)) (map episode_of groups) = Inr (map episode_of groups)"
    using Cons g by (auto simp: sorted_wrt_append intro!: Cons.IH)
  moreover have "case prev of None \<Rightarrow> True | Some t \<Rightarrow> t < hd g"
    using Cons.prems(3) g(1) by (auto split: option.splits)
  ultimately show ?case using g(1)
    by (auto split: option.splits)
qed simp

lemma build_episodes_valid:
  assumes "build_episodes scores (Fin threshold) contract = Inr episodes"
  shows "validated_episodes episodes = Inr episodes"
proof -
  obtain ends vals groups where g: "validated_scores scores = Inr (ends, vals)"
    "alert_groups (pol_stride_seconds contract) (anomalous_ends ends (anomalies vals threshold contract)) groups"
    "episodes = map episode_of groups"
    using build_episodes_groups [OF assms] by blast
  have "sorted_wrt (<) (concat groups)"
    using g(2) sorted_anomalous_ends sorted_ends [OF g(1)] by (simp add: alert_groups_def)
  then show ?thesis
    unfolding validated_episodes_def g(3)
    by (rule validated_episodes_after_groups) (use g(2) in \<open>auto simp: alert_groups_def\<close>)
qed

definition sample_policy :: EvaluationPolicy where
  "sample_policy = \<lparr>pol_stride_seconds = 300, event_horizon_seconds = 7200, threshold_quantile = 199 / 200,
     threshold_method = ''higher'', anomaly_inclusive = True, min_detected_events = 1,
     max_false_episodes_per_day = 1, max_time_in_alert = 1 / 2\<rparr>"

text \<open>Five windows; the third and the fifth score above 5.\<close>

definition sample_frame :: score_frame where
  "sample_frame = \<lparr>columns = [''window_start'', ''window_end'', ''score''],
     rows = map (\<lambda>(t, v). \<lparr>window_start = Naive (seconds t), window_end = Naive (seconds (t + 1800)),
       row_score = Some (Fin v)\<rparr>) [(0, 1), (300, 2), (600, 9), (900, 3), (1200, 8)]\<rparr>"

definition sample_failure :: Event where
  "sample_failure = \<lparr>event_id = ''e1'', failure_type = ''leak'', source_start = seconds 3000,
     source_end = seconds 4000, source_precision = ''minute'', paper_count = 0, local_lps_transition = None,
     disagreement = None, event_aware = False\<rparr>"

lemma sample_frame_scores:
  "validated_scores sample_frame =
     Inr (map seconds [1800, 2100, 2400, 2700, 3000], [1, 2, 9, 3, 8])"
  by (simp add: validated_scores_def sample_frame_def score_columns_def)

lemma sample_episodes:
  "build_episodes sample_frame (Fin 5) sample_policy =
     Inr [new_episode (seconds 2400) (seconds 2400) 1, new_episode (seconds 3000) (seconds 3000) 1]"
  by (simp add: build_episodes_def sample_frame_scores validate_contract_def validate_threshold_def
      anomalies_def anomalous_ends_def sample_policy_def)

text \<open>
  C10 (functional): episodes partition the alerts.  The episodes of a score sequence are exactly the
  maximal runs of anomalous decisions: cut at the gaps longer than one stride and nowhere else, the
  anomalous window ends fall into consecutive groups, and each group's episode carries its first end,
  its last end and its size; the result is accepted by the validation in front of the evaluation.
\<close>

theorem episodes_partition_alerts:
  assumes "build_episodes scores (Fin threshold) contract = Inr episodes"
  shows "\<exists>ends vals groups. validated_scores scores = Inr (ends, vals) \<and>
    alert_groups (pol_stride_seconds contract) (anomalous_ends ends (anomalies vals threshold contract)) groups \<and>
    episodes = map episode_of groups \<and>
    sum_list (map decision_count episodes) = int (count_true (anomalies vals threshold contract)) \<and>
    validated_episodes episodes = Inr episodes"
proof -
  obtain ends vals groups where g: "validated_scores scores = Inr (ends, vals)"
    "alert_groups (pol_stride_seconds contract) (anomalous_ends ends (anomalies vals threshold contract)) groups"
    "episodes = map episode_of groups"
    using build_episodes_groups [OF assms] by blast
  let ?flags = "anomalies vals threshold contract"
  have len: "length ?flags = length ends" using sorted_ends [OF g(1)] by (simp add: anomalies_def)
  have concat: "concat groups = anomalous_ends ends ?flags" using g(2) by (simp add: alert_groups_def)
  have "sum_list (map decision_count episodes) = int (length (concat groups))"
    unfolding g(3) by (induction groups) auto
  also have "length (concat groups) = count_true ?flags"
    unfolding concat using len by (rule length_anomalous_ends)
  finally have "sum_list (map decision_count episodes) = int (count_true ?flags)" .
  with build_episodes_valid [OF assms] show ?thesis using g by blast
qed

theorem episodes_partition_alerts_witness:
  "\<exists>groups. alert_groups 300 [seconds 2400, seconds 3000] groups \<and>
     map episode_of groups = [new_episode (seconds 2400) (seconds 2400) 1, new_episode (seconds 3000) (seconds 3000) 1]"
  using episodes_partition_alerts [OF sample_episodes]
  by (auto simp: sample_frame_scores anomalies_def anomalous_ends_def sample_policy_def)

section \<open>Detections follow the alerts\<close>

lemma map_err_checks:
  "(\<And>x y. f x = Inr y \<Longrightarrow> y = x) \<Longrightarrow> map_err f xs = Inr ys \<Longrightarrow> ys = xs \<and> (\<forall>x \<in> set xs. f x = Inr x)"
  by (induction xs arbitrary: ys) (auto simp: bind_err_eq_Inr)

lemma validated_events_same:
  assumes "validated_events events = Inr evs"
  shows "evs = events \<and> (\<forall>e \<in> set events. source_start e < source_end e)"
proof -
  let ?check = "\<lambda>event. run_checks
         [(event_aware event, ValueError ''event times must be naive''),
          (source_end event \<le> source_start event, ValueError ''event source interval must be non-empty'')] event"
  have "map_err ?check events = Inr evs"
    using assms unfolding validated_events_def bind_err_eq_Inr by (auto split: if_splits)
  moreover have "?check x = Inr y \<Longrightarrow> y = x" for x y by (simp only: run_checks_Inr)
  ultimately have "evs = events \<and> (\<forall>x \<in> set events. ?check x = Inr x)"
    using map_err_checks [where f = ?check] by blast
  then show ?thesis by (auto split: if_splits)
qed

text \<open>A run of close ends that begins before \<open>E\<close> and reaches within a stride of \<open>S\<close>.\<close>

lemma close_run_meets_interval:
  assumes "chain (\<lambda>a b. b - a \<le> st) g" "g \<noteq> []" "hd g < E" "S < last g + st" "S < (E::int)"
  shows "\<exists>a \<in> set g. a < E \<and> S < a + st"
  using assms
proof (induction g)
  case (Cons x g)
  show ?case
  proof (cases "g = [] \<or> E \<le> hd g")
    case True
    with Cons.prems show ?thesis by (auto simp: chain_Cons)
  next
    case False
    with Cons show ?thesis by (auto simp: chain_Cons)
  qed
qed simp

lemma group_bounds:
  assumes "sorted_wrt (<) (g :: int list)" "a \<in> set g"
  shows "hd g \<le> a \<and> a \<le> last g"
proof
  show "hd g \<le> a" using assms by (cases g) (auto simp: less_imp_le)
  show "a \<le> last g" using assms by (cases g rule: rev_cases) (auto simp: sorted_wrt_append less_imp_le)
qed

lemma matching_episode_iff:
  assumes groups: "alert_groups (pol_stride_seconds c) ends groups" and sorted: "sorted_wrt (<) ends"
    and pos: "0 < pol_stride_seconds c" and ev: "source_start event < source_end event"
  shows "(\<exists>a \<in> set ends. source_start event \<le> a \<and> a < source_end event) \<Longrightarrow>
      \<exists>e \<in> set (map episode_of groups). episode_matches_event e event c"
    and "(\<exists>e \<in> set (map episode_of groups). episode_matches_event e event c) \<Longrightarrow> \<exists>a \<in> set ends. a < source_end event \<and>
      (horizon_start c event \<le> a \<or> source_start event < a + seconds (pol_stride_seconds c))"
proof -
  have concat: "concat groups = ends" and ne: "\<And>g. g \<in> set groups \<Longrightarrow> g \<noteq> []"
    and near: "\<And>g. g \<in> set groups \<Longrightarrow> chain (\<lambda>a b. b - a \<le> seconds (pol_stride_seconds c)) g"
    using groups by (auto simp: alert_groups_def)
  have sorted_g: "sorted_wrt (<) g" if "g \<in> set groups" for g
    using that sorted unfolding concat [symmetric] by (induction groups) (auto simp: sorted_wrt_append)
  have in_ends: "set g \<subseteq> set ends" if "g \<in> set groups" for g
    using that concat by auto
  {
    assume "\<exists>a \<in> set ends. source_start event \<le> a \<and> a < source_end event"
    then obtain a g where "source_start event \<le> a" "a < source_end event" "g \<in> set groups" "a \<in> set g"
      using concat by auto
    with group_bounds [OF sorted_g] pos show "\<exists>e \<in> set (map episode_of groups). episode_matches_event e event c"
      by (intro bexI [of _ "episode_of g"]) (fastforce simp: episode_matches_event_def Let_def)+
  }
  {
    assume "\<exists>e \<in> set (map episode_of groups). episode_matches_event e event c"
    then obtain g where g: "g \<in> set groups" "episode_matches_event (episode_of g) event c" by auto
    consider "horizon_start c event \<le> hd g" "hd g < source_end event"
      | "hd g < source_end event" "source_start event < last g + seconds (pol_stride_seconds c)"
      using g(2) by (auto simp: episode_matches_event_def Let_def)
    then show "\<exists>a \<in> set ends. a < source_end event \<and>
      (horizon_start c event \<le> a \<or> source_start event < a + seconds (pol_stride_seconds c))"
    proof cases
      case 1
      with ne [OF g(1)] in_ends [OF g(1)] show ?thesis by (meson hd_in_set subsetD)
    next
      case 2
      from close_run_meets_interval [OF near [OF g(1)] ne [OF g(1)] 2 ev] in_ends [OF g(1)]
      show ?thesis by blast
    qed
  }
qed

lemma evaluate_event_detected:
  "evaluate_event ends episodes contract event = Inr r \<Longrightarrow> er_event_id r = event_id event \<and>
     detected r = (\<exists>e \<in> set episodes. episode_matches_event e event contract)"
  by (auto simp: evaluate_event_def Let_def filter_empty_conv split: if_splits)

lemma count_true_le: "count_true flags \<le> length flags"
  by (simp add: count_true_def)

lemma length_positive_flags: "length (positive_flags ends contract events) = length ends"
proof -
  have "length (foldl (\<lambda>positive event. map2 (\<or>) positive (matching_flags ends contract event)) p events) = length ends"
    if "length p = length ends" for p
    using that by (induction events arbitrary: p) (simp_all add: matching_flags_def)
  then show ?thesis by (simp add: positive_flags_def)
qed

lemma evaluate_parts:
  assumes "evaluate ap scores episodes (Fin threshold) events contract = Inr r"
    and "validated_scores scores = Inr (ends, vals)" "validated_episodes episodes = Inr episodes"
  shows "0 < pol_stride_seconds contract \<and> (\<forall>e \<in> set events. source_start e < source_end e) \<and>
    list_all2 (\<lambda>event er. evaluate_event ends episodes contract event = Inr er) events (event_results r) \<and>
    detected_events r = length (filter detected (event_results r)) \<and>
    positive_decisions r + normal_valid_decisions r = length ends \<and> 0 < normal_valid_decisions r \<and>
    anomalous_decisions r = count_true (anomalies vals threshold contract) \<and>
    (feasible r \<longleftrightarrow> min_detected_events contract \<le> detected_events r \<and>
       false_episodes_per_day r \<le> max_false_episodes_per_day contract \<and> time_in_alert r \<le> max_time_in_alert contract)"
proof -
  have le: "count_true (positive_flags ends contract events) \<le> length ends"
    using count_true_le [of "positive_flags ends contract events"] by (simp add: length_positive_flags)
  have stride: "0 < pol_stride_seconds contract"
    using assms(1) by (auto simp: evaluate_def validate_contract_def err_simps split: if_splits)
  obtain evs where "validated_events events = Inr evs"
    using assms by (auto simp: evaluate_def err_simps)
  with validated_events_same have evs: "validated_events events = Inr events"
    "\<forall>e \<in> set events. source_start e < source_end e" by blast+
  from assms evs(1) obtain results where
    results: "map_err (evaluate_event ends episodes contract) events = Inr results"
    by (auto simp: evaluate_def validate_threshold_def Let_def err_simps split: if_splits)
  show ?thesis
    using assms evs results map_err_list_all2 [OF results] stride le
    by (auto simp: evaluate_def validate_threshold_def Let_def err_simps split: if_splits)
qed

text \<open>
  Detections follow the alerts.  When a holdout sequence is evaluated on its own
  episodes, every event with an anomalous decision inside its failure interval is reported as
  detected, and an event reported as detected has an anomalous decision before its end that lies in
  the warning horizon or less than a stride before its start; the decisions split into positive and
  normal ones with a positive normal exposure, and the run is feasible exactly when all three gates
  of the policy hold.
\<close>

theorem detections_follow_alerts:
  assumes "build_episodes scores (Fin threshold) contract = Inr episodes"
    and "evaluate ap scores episodes (Fin threshold) events contract = Inr r"
  shows "\<exists>ends alerts. length ends = length (rows scores) \<and> set alerts \<subseteq> set ends \<and>
    length alerts = anomalous_decisions r \<and>
    list_all2 (\<lambda>event er. er_event_id er = event_id event \<and>
      ((\<exists>a \<in> set alerts. source_start event \<le> a \<and> a < source_end event) \<longrightarrow> detected er) \<and>
      (detected er \<longrightarrow> (\<exists>a \<in> set alerts. a < source_end event \<and>
         (horizon_start contract event \<le> a \<or> source_start event < a + seconds (pol_stride_seconds contract)))))
      events (event_results r) \<and>
    positive_decisions r + normal_valid_decisions r = length ends \<and> 0 < normal_valid_decisions r \<and>
    (feasible r \<longleftrightarrow> min_detected_events contract \<le> length (filter detected (event_results r)) \<and>
       false_episodes_per_day r \<le> max_false_episodes_per_day contract \<and> time_in_alert r \<le> max_time_in_alert contract)"
proof -
  obtain ends vals groups where g: "validated_scores scores = Inr (ends, vals)"
    "alert_groups (pol_stride_seconds contract) (anomalous_ends ends (anomalies vals threshold contract)) groups"
    "episodes = map episode_of groups"
    using build_episodes_groups [OF assms(1)] by blast
  let ?A = "anomalous_ends ends (anomalies vals threshold contract)"
  note parts = evaluate_parts [OF assms(2) g(1) build_episodes_valid [OF assms(1)]]
  have sorted: "sorted_wrt (<) ?A" and len: "length vals = length ends"
    using sorted_ends [OF g(1)] sorted_anomalous_ends by blast+
  have "length ends = length (rows scores)"
    using g(1) by (auto simp: validated_scores_def err_simps split: if_splits dest!: map_err_length)
  moreover have "set ?A \<subseteq> set ends" by (auto simp: anomalous_ends_def dest: set_zip_leftD)
  moreover have "length ?A = anomalous_decisions r"
    using parts len by (simp add: length_anomalous_ends anomalies_def)
  moreover have "list_all2 (\<lambda>event er. er_event_id er = event_id event \<and>
      ((\<exists>a \<in> set ?A. source_start event \<le> a \<and> a < source_end event) \<longrightarrow> detected er) \<and>
      (detected er \<longrightarrow> (\<exists>a \<in> set ?A. a < source_end event \<and>
         (horizon_start contract event \<le> a \<or> source_start event < a + seconds (pol_stride_seconds contract)))))
      events (event_results r)"
  proof (rule list.rel_mono_strong)
    show "list_all2 (\<lambda>event er. evaluate_event ends episodes contract event = Inr er) events (event_results r)"
      using parts by blast
  next
    fix event er
    assume "event \<in> set events" and er: "evaluate_event ends episodes contract event = Inr er"
    then have ev: "0 < pol_stride_seconds contract" "source_start event < source_end event" using parts by auto
    from evaluate_event_detected [OF er] matching_episode_iff [OF g(2) sorted ev]
    show "er_event_id er = event_id event \<and>
      ((\<exists>a \<in> set ?A. source_start event \<le> a \<and> a < source_end event) \<longrightarrow> detected er) \<and>
      (detected er \<longrightarrow> (\<exists>a \<in> set ?A. a < source_end event \<and>
         (horizon_start contract event \<le> a \<or> source_start event < a + seconds (pol_stride_seconds contract))))"
      unfolding g(3) by blast
  qed
  ultimately show ?thesis using parts by (intro exI [of _ ends] exI [of _ ?A]) simp
qed

theorem detections_follow_alerts_witness:
  "\<exists>r. evaluate (\<lambda>_ _. 1) sample_frame
      [new_episode (seconds 2400) (seconds 2400) 1, new_episode (seconds 3000) (seconds 3000) 1] (Fin 5)
      [sample_failure\<lparr>source_start := seconds 9300, source_end := seconds 9600\<rparr>] sample_policy = Inr r \<and> positive_decisions r + normal_valid_decisions r = 5"
proof -
  let ?eps = "[new_episode (seconds 2400) (seconds 2400) 1, new_episode (seconds 3000) (seconds 3000) 1]"
  let ?evs = "[sample_failure\<lparr>source_start := seconds 9300, source_end := seconds 9600\<rparr>]"
  obtain r where r: "evaluate (\<lambda>_ _. 1) sample_frame ?eps (Fin 5) ?evs sample_policy = Inr r"
    by (simp add: evaluate_def validate_contract_def validate_threshold_def sample_frame_scores
        validated_events_def validated_episodes_def new_episode_def evaluate_event_def matching_flags_def
        horizon_start_def episode_matches_event_def Let_def positive_flags_def count_true_def sample_failure_def sample_policy_def)
  from detections_follow_alerts [OF sample_episodes r] r show ?thesis by (auto simp: sample_frame_def)
qed

end
