(* ===== verification/Lifecycle.thy ===== *)
theory Lifecycle
  imports Champion Evaluation
begin

text \<open>
  \<open>ml_lifecycle.py\<close> (importing and reproducing a candidate) and \<open>phase7_gate.py\<close> (the gate that compares
  the two).

  The MLflow client is an argument: a record of its methods, each a computation on the tracking
  server's state \<open>'r\<close> that may raise; \<open>ml_get_run_tags\<close> and \<open>ml_get_model_version_by_alias\<close> only read
  it, and \<open>ml_tags\<close> is the attribute \<open>tags\<close> some clients have.  \<open>None\<close> in place of a client is an installation without MLflow.
  \<open>log_model\<close> is the call of \<open>mlflow.pyfunc.log_model\<close>, which the code makes only when it created the
  client itself; for an injected client it is \<open>\<lambda>_. lift_io (Inr ())\<close>.  The environment (the output of
  \<open>git rev-parse\<close>, interpreter and package versions, temporary directory, clock) is the record
  \<open>run_info\<close>; reading the features parquet and \<open>numpy.quantile\<close> are arguments.
\<close>

section \<open>The tracking client\<close>

record 'r mlflow_client =
  ml_get_experiment_by_name :: "(string \<Rightarrow> ('r, string option) io) option"
  ml_create_experiment :: "(string \<Rightarrow> ('r, string) io) option"
  ml_create_run :: "string \<Rightarrow> ('r, string) io"
  ml_set_tag :: "string \<Rightarrow> string \<Rightarrow> string \<Rightarrow> ('r, unit) io"
  ml_log_param :: "string \<Rightarrow> string \<Rightarrow> json \<Rightarrow> ('r, unit) io"
  ml_log_metric :: "string \<Rightarrow> string \<Rightarrow> pyfloat \<Rightarrow> ('r, unit) io"
  ml_log_artifact :: "string \<Rightarrow> path \<Rightarrow> ('r, unit) io"
  ml_get_run_tags :: "string \<Rightarrow> 'r \<Rightarrow> exn + (string \<times> string) list"
  ml_tags :: "('r \<Rightarrow> (string, (string \<times> string) list) table) option"
  ml_create_registered_model :: "string \<Rightarrow> ('r, unit) io"
  ml_create_model_version :: "string \<Rightarrow> string \<Rightarrow> string \<Rightarrow> ('r, string) io"
  ml_set_registered_model_alias :: "string \<Rightarrow> string \<Rightarrow> string \<Rightarrow> ('r, unit) io"
  ml_get_model_version_by_alias :: "string \<Rightarrow> string \<Rightarrow> 'r \<Rightarrow> exn + string"

record run_info =
  git_output :: "string option"
  python_version :: string
  dependency_versions :: "(string \<times> string) list"
  temp_dir :: path
  now_text :: string

fun each_io :: "('a \<Rightarrow> ('w, unit) io) \<Rightarrow> 'a list \<Rightarrow> ('w, unit) io" where
  "each_io f [] = lift_io (Inr ())"
| "each_io f (x # xs) = bind_io (f x) (\<lambda>_. each_io f xs)"

definition EXPERIMENT_NAME :: string where "EXPERIMENT_NAME = ''industrial-reliability-offline''"

definition zero_git_sha :: string where "zero_git_sha = replicate 40 CHR ''0''"

definition get_current_git_sha :: "run_info \<Rightarrow> string" where
  "get_current_git_sha info = (case git_output info of
      None \<Rightarrow> zero_git_sha
    | Some out \<Rightarrow> if hex_match 40 (strip out) then strip out else zero_git_sha)"

text \<open>\<open>_ensure_experiment\<close>: the lookup after a failed creation is the code's fallback.\<close>

definition find_experiment :: "'r mlflow_client \<Rightarrow> string \<Rightarrow> ('r, string option) io" where
  "find_experiment c name = (case ml_get_experiment_by_name c of None \<Rightarrow> lift_io (Inr None) | Some get \<Rightarrow> get name)"

definition new_experiment :: "'r mlflow_client \<Rightarrow> string \<Rightarrow> ('r, string) io" where
  "new_experiment c name = (case ml_create_experiment c of
      None \<Rightarrow> lift_io (Inr ''default-exp'')
    | Some create \<Rightarrow> (\<lambda>r. case create name r of
        (Inr x, r') \<Rightarrow> (Inr x, r')
      | (Inl _, r') \<Rightarrow> bind_io (find_experiment c name)
          (\<lambda>found. lift_io (Inr (case found of Some x \<Rightarrow> x | None \<Rightarrow> ''default-exp''))) r'))"

definition ensure_experiment :: "'r mlflow_client \<Rightarrow> string \<Rightarrow> ('r, string) io" where
  "ensure_experiment c name =
     bind_io (find_experiment c name)
       (\<lambda>found. case found of Some x \<Rightarrow> lift_io (Inr x) | None \<Rightarrow> new_experiment c name)"

section \<open>Importing a candidate\<close>

record CandidateRequest =
  rq_champion_package :: path
  rq_expected_source_git_sha :: "string option"
  rq_alert_policy_path :: "path option"

record CandidateResult =
  ca_run_id :: string
  ca_model_uri :: string
  ca_package_manifest_sha256 :: sha256
  ca_provenance :: RunProvenanceV1

definition read_manifest :: "('b, 'm) package_lib_scheme \<Rightarrow> 'b files \<Rightarrow> path \<Rightarrow> exn + sha256 \<times> ChampionManifest" where
  "read_manifest lib fs pkg =
     (case fs (pkg @ [MANIFEST_FILENAME]) of
        None \<Rightarrow> Inl (FileNotFoundError ''Champion package manifest not found'')
      | Some content \<Rightarrow> bind_err (manifest_of_json lib content) (\<lambda>m. Inr (sha256_bytes lib content, m)))"

definition check_git_sha :: "run_info \<Rightarrow> string option \<Rightarrow> exn + string" where
  "check_git_sha info expected =
     (if expected \<notin> {None, Some []} \<and> expected \<noteq> Some (get_current_git_sha info)
      then Inl (ValueError ''Source Git SHA mismatch'') else Inr (get_current_git_sha info))"

definition default_policy_sha :: "('b, 'm) codec_scheme \<Rightarrow> exn + sha256" where
  "default_policy_sha cd = canonical_sha256 cd (JObj [(''policy'', JText ''default-locked-policy'')])"

definition candidate_policy_sha :: "('b, 'm) codec_scheme \<Rightarrow> 'b files \<Rightarrow> path option \<Rightarrow> exn + sha256" where
  "candidate_policy_sha cd fs policy_path = (case policy_path of
      Some p \<Rightarrow> if fs p \<noteq> None then sha256_file cd fs p else default_policy_sha cd
    | None \<Rightarrow> default_policy_sha cd)"

definition feature_schema_sha :: "('b, 'm) codec_scheme \<Rightarrow> ChampionManifest \<Rightarrow> exn + sha256" where
  "feature_schema_sha cd m = canonical_sha256 cd (JObj [(''features'', JArr (map JText (cm_feature_names m)))])"

text \<open>The tags of a run: the six identity hashes, the schema version and the lifecycle state.\<close>

definition run_tags :: "ChampionManifest \<Rightarrow> sha256 \<Rightarrow> string \<Rightarrow> sha256 \<Rightarrow> sha256 \<Rightarrow> string \<Rightarrow> (string \<times> string) list" where
  "run_tags m schema_sha git_sha manifest_sha policy_sha lifecycle =
     [(''schema_version'', ''mlflow-run-provenance-v1''),
      (''dataset_sha256'', cm_source_dataset_sha256 m),
      (''contract_sha256'', cm_contract_sha256 m),
      (''feature_schema_sha256'', schema_sha),
      (''source_git_sha'', git_sha),
      (''champion_package_sha256'', manifest_sha),
      (''alert_policy_sha256'', policy_sha),
      (''lifecycle_state'', lifecycle)]"

definition raw_provenance ::
  "run_info \<Rightarrow> string \<Rightarrow> ChampionManifest \<Rightarrow> sha256 \<Rightarrow> string \<Rightarrow> sha256 \<Rightarrow> sha256
     \<Rightarrow> string \<Rightarrow> json_obj \<Rightarrow> (string \<times> pyfloat) list \<Rightarrow> RunProvenanceV1"
where
  "raw_provenance info run_id m schema_sha git_sha manifest_sha policy_sha lifecycle params mets =
       \<lparr>rp_schema_version = JText ''mlflow-run-provenance-v1'', rp_mlflow_run_id = JText run_id,
        rp_experiment_name = JText EXPERIMENT_NAME, rp_lifecycle_state = JText lifecycle,
        rp_dataset_sha256 = JText (cm_source_dataset_sha256 m), rp_contract_sha256 = JText (cm_contract_sha256 m),
        rp_feature_schema_sha256 = JText schema_sha, rp_source_git_sha = JText git_sha,
        rp_python_version = JText (python_version info),
        rp_dependency_versions = map (map_prod id JText) (dependency_versions info),
        rp_champion_package_sha256 = JText manifest_sha, rp_alert_policy_sha256 = JText policy_sha,
        rp_parameters = params, rp_metrics = map (map_prod id JReal) mets,
        rp_artifact_sha256 = map (map_prod id JText) (cm_artifact_sha256 m),
        rp_provenance_sha256 = JText []\<rparr>"

definition run_provenance ::
  "('b, 'm) codec_scheme \<Rightarrow> run_info \<Rightarrow> string \<Rightarrow> ChampionManifest \<Rightarrow> sha256 \<Rightarrow> string \<Rightarrow> sha256 \<Rightarrow> sha256
     \<Rightarrow> string \<Rightarrow> json_obj \<Rightarrow> (string \<times> pyfloat) list \<Rightarrow> exn + RunProvenanceV1"
where
  "run_provenance cd info run_id m schema_sha git_sha manifest_sha policy_sha lifecycle params mets =
     bind_err (new_run_provenance
       (raw_provenance info run_id m schema_sha git_sha manifest_sha policy_sha lifecycle params mets))
       (provenance_with_hash cd)"

text \<open>\<open>set_tag\<close>, \<open>log_param\<close> and \<open>log_metric\<close> for every entry.\<close>

definition record_run ::
  "'r mlflow_client \<Rightarrow> string \<Rightarrow> (string \<times> string) list \<Rightarrow> json_obj \<Rightarrow> (string \<times> pyfloat) list \<Rightarrow> ('r, unit) io"
where
  "record_run c run_id tags params mets =
     bind_io (each_io (\<lambda>(k, v). ml_set_tag c run_id k v) tags) (\<lambda>_.
     bind_io (each_io (\<lambda>(k, v). ml_log_param c run_id k v) params) (\<lambda>_.
       each_io (\<lambda>(k, v). ml_log_metric c run_id k v) mets))"

definition log_provenance ::
  "('b, 'm) codec_scheme \<Rightarrow> 'r mlflow_client \<Rightarrow> run_info \<Rightarrow> 'b files \<Rightarrow> string \<Rightarrow> RunProvenanceV1 \<Rightarrow> ('r, unit) io"
where
  "log_provenance cd c info fs run_id prov =
     (let prov_path = temp_dir info @ [''run-provenance.json''] in
      bind_io (lift_io (write_run_provenance cd prov_path prov fs)) (\<lambda>_. ml_log_artifact c run_id prov_path))"

definition require_client :: "'r mlflow_client option \<Rightarrow> exn + 'r mlflow_client" where
  "require_client client = (case client of Some c \<Rightarrow> Inr c | None \<Rightarrow> Inl (RuntimeError ''MLflow is not installed''))"

definition import_candidate ::
  "('b, 'm) package_lib_scheme \<Rightarrow> run_info \<Rightarrow> 'r mlflow_client option \<Rightarrow> (string \<Rightarrow> ('r, unit) io) \<Rightarrow> 'b files
     \<Rightarrow> CandidateRequest \<Rightarrow> ('r, CandidateResult) io"
where
  "import_candidate lib info client log_model fs req =
     bind_io (lift_io (read_manifest lib fs (rq_champion_package req))) (\<lambda>(manifest_sha, m).
     bind_io (lift_io (check_git_sha info (rq_expected_source_git_sha req))) (\<lambda>git_sha.
     bind_io (lift_io (candidate_policy_sha lib fs (rq_alert_policy_path req))) (\<lambda>policy_sha.
     bind_io (lift_io (feature_schema_sha lib m)) (\<lambda>schema_sha.
     bind_io (lift_io (require_client client)) (\<lambda>c.
     bind_io (ensure_experiment c EXPERIMENT_NAME) (\<lambda>exp_id.
     bind_io (ml_create_run c exp_id) (\<lambda>run_id.
     (let params = [(''model_id'', JText (cm_model_id m)), (''model_version'', JText (cm_model_version m)),
            (''golden_case_count'', JNum (cm_golden_case_count m))];
          mets = [(''threshold'', cm_threshold m), (''golden_case_count'', Fin (of_int (cm_golden_case_count m)))] in
     bind_io (record_run c run_id (run_tags m schema_sha git_sha manifest_sha policy_sha ''candidate'') params mets) (\<lambda>_.
     bind_io (lift_io (run_provenance lib info run_id m schema_sha git_sha manifest_sha policy_sha ''candidate'' params mets)) (\<lambda>prov.
     bind_io (ml_log_artifact c run_id (rq_champion_package req)) (\<lambda>_.
     bind_io (log_provenance lib c info fs run_id prov) (\<lambda>_.
     bind_io (log_model run_id) (\<lambda>_.
       lift_io (Inr \<lparr>ca_run_id = run_id, ca_model_uri = ''runs:/'' @ run_id @ ''/champion-model'',
         ca_package_manifest_sha256 = manifest_sha, ca_provenance = prov\<rparr>))))))))))))))"

section \<open>Reproducing it\<close>

type_synonym feature_rows = "(string \<times> (string, pyfloat) table) list"

record ReproductionResult =
  rep_run_id :: string
  rep_threshold :: real
  rep_calibration_scores :: "pyfloat list"
  rep_golden_scores :: "pyfloat list"
  rep_provenance :: RunProvenanceV1

definition verify_stored_sha256 :: "('b, 'm) codec_scheme \<Rightarrow> 'b files \<Rightarrow> path \<Rightarrow> sha256 \<Rightarrow> string \<Rightarrow> exn + sha256" where
  "verify_stored_sha256 cd fs p expected label =
     bind_err (sha256_file cd fs p) (\<lambda>actual.
       if actual \<noteq> expected then Inl (ArtifactIntegrityError (label @ '' SHA-256 mismatch'')) else Inr actual)"

definition calibration_matrix :: "string list \<Rightarrow> feature_rows \<Rightarrow> exn + pyfloat list list" where
  "calibration_matrix feature_cols features_df =
     map_err (\<lambda>(split, cols). map_err (\<lambda>name. lookup_key cols name name) feature_cols)
       (filter (\<lambda>(split, cols). split = ''calibration'') features_df)"

text \<open>\<open>k in case\<close> on a value read from JSON.\<close>

fun json_contains :: "json \<Rightarrow> string \<Rightarrow> exn + bool" where
  "json_contains (JObj kvs) k = Inr (map_of kvs k \<noteq> None)"
| "json_contains (JArr xs) k = Inr (JText k \<in> set xs)"
| "json_contains (JText s) k = Inr (list_ex (\<lambda>i. take (length k) (drop i s) = k) [0 ..< Suc (length s)])"
| "json_contains _ k = Inl (TypeError ''argument is not iterable'')"

definition floats_of :: "('b, 'm) codec_scheme \<Rightarrow> json \<Rightarrow> exn + pyfloat list" where
  "floats_of cd v = bind_err (py_list v) (map_err (py_float cd))"

definition golden_features :: "('b, 'm) codec_scheme \<Rightarrow> string list \<Rightarrow> json \<Rightarrow> exn + pyfloat list" where
  "golden_features cd feature_cols case_data =
     (let zeros = Inr (map (\<lambda>_. Fin 0) feature_cols) in
      bind_err (json_contains case_data ''feature_values'') (\<lambda>has_values.
      if has_values then bind_err (obj_item case_data ''feature_values'') (floats_of cd)
      else bind_err (json_contains case_data ''features'') (\<lambda>has_features.
      if has_features then bind_err (obj_item case_data ''features'') (\<lambda>feats.
        (case feats of
           JArr xs \<Rightarrow> map_err (py_float cd) xs
         | JObj kvs \<Rightarrow> map_err (\<lambda>name. bind_err (obj_get feats name (JReal (Fin 0))) (py_float cd)) feature_cols
         | _ \<Rightarrow> zeros))
      else zeros)))"

definition golden_score :: "('b, 'm) codec_scheme \<Rightarrow> detector \<Rightarrow> string list \<Rightarrow> json \<Rightarrow> exn + pyfloat" where
  "golden_score cd detector feature_cols case_data =
     bind_err (golden_features cd feature_cols case_data) (\<lambda>vals.
     bind_err (detector [vals]) (\<lambda>scores. case scores of [] \<Rightarrow> Inl IndexError | x # _ \<Rightarrow> Inr x))"

definition golden_scores ::
  "('b, 'm) codec_scheme \<Rightarrow> 'b files \<Rightarrow> path \<Rightarrow> detector \<Rightarrow> string list \<Rightarrow> pyfloat list \<Rightarrow> exn + pyfloat list"
where
  "golden_scores cd fs pkg detector feature_cols calib_scores =
     (case fs (pkg @ [GOLDEN_CASES_FILENAME]) of
        None \<Rightarrow> Inr (if calib_scores = [] then [Fin 0] else [hd calib_scores])
      | Some content \<Rightarrow>
          bind_err (loads cd content) (\<lambda>golden.
          bind_err (obj_get golden ''cases'' (JArr [])) (\<lambda>cases.
          bind_err (py_list cases) (map_err (golden_score cd detector feature_cols)))))"

definition phase1c_policy :: EvaluationPolicy where
  "phase1c_policy = \<lparr>pol_stride_seconds = 300, event_horizon_seconds = 7200, threshold_quantile = 995 / 1000,
     threshold_method = ''higher'', anomaly_inclusive = True, min_detected_events = 3,
     max_false_episodes_per_day = 1, max_time_in_alert = 5 / 100\<rparr>"

definition reproduce_candidate ::
  "('b, 'm) package_lib_scheme \<Rightarrow> ('b \<Rightarrow> exn + feature_rows) \<Rightarrow> (real list \<Rightarrow> real \<Rightarrow> string \<Rightarrow> real option) \<Rightarrow> run_info
     \<Rightarrow> 'r mlflow_client option \<Rightarrow> 'b files \<Rightarrow> path \<Rightarrow> CandidateRequest \<Rightarrow> ('r, ReproductionResult) io"
where
  "reproduce_candidate lib read_table quantile info client fs features_path req =
     bind_io (lift_io (read_manifest lib fs (rq_champion_package req))) (\<lambda>(manifest_sha, m).
     bind_io (lift_io (check_git_sha info (rq_expected_source_git_sha req))) (\<lambda>git_sha.
     bind_io (lift_io (verify_stored_sha256 lib fs features_path (cm_feature_output_sha256 m) ''features.parquet'')) (\<lambda>_.
     bind_io (lift_io (bind_err (read_file fs features_path) read_table)) (\<lambda>features_df.
     bind_io (lift_io (calibration_matrix (cm_feature_names m) features_df)) (\<lambda>matrix.
     bind_io (lift_io (load_champion lib fs (rq_champion_package req) manifest_sha True)) (\<lambda>scorer.
     bind_io (lift_io (cs_detector scorer matrix)) (\<lambda>calib_scores.
     bind_io (lift_io (calibrate_threshold quantile calib_scores phase1c_policy)) (\<lambda>threshold_value.
     bind_io (lift_io (golden_scores lib fs (rq_champion_package req) (cs_detector scorer) (cm_feature_names m) calib_scores)) (\<lambda>golden.
     bind_io (lift_io (require_client client)) (\<lambda>c.
     bind_io (ensure_experiment c EXPERIMENT_NAME) (\<lambda>exp_id.
     bind_io (ml_create_run c exp_id) (\<lambda>run_id.
     bind_io (lift_io (feature_schema_sha lib m)) (\<lambda>schema_sha.
     bind_io (lift_io (default_policy_sha lib)) (\<lambda>policy_sha.
     (let params = [(''model_id'', JText (cm_model_id m)), (''model_version'', JText (cm_model_version m))];
          vals = map the_fin calib_scores;
          mets = [(''threshold'', Fin threshold_value), (''min_calibration_score'', Fin (Min (set vals))),
            (''max_calibration_score'', Fin (Max (set vals))),
            (''mean_calibration_score'', Fin (sum_list vals / real (length vals)))] in
     bind_io (record_run c run_id (run_tags m schema_sha git_sha manifest_sha policy_sha ''reproduction'') params mets) (\<lambda>_.
     bind_io (lift_io (run_provenance lib info run_id m schema_sha git_sha manifest_sha policy_sha ''reproduction'' params mets)) (\<lambda>prov.
     bind_io (log_provenance lib c info fs run_id prov) (\<lambda>_.
       lift_io (Inr \<lparr>rep_run_id = run_id, rep_threshold = threshold_value, rep_calibration_scores = calib_scores,
         rep_golden_scores = golden, rep_provenance = prov\<rparr>)))))))))))))))))))"

section \<open>The Phase 7 gate\<close>

record Phase7GateResult =
  p7_schema_version :: string
  p7_source_git_sha :: string
  p7_timestamp :: string
  p7_verdict :: json
  p7_threshold_delta :: pyfloat
  p7_golden_scores_max_delta :: pyfloat
  p7_candidate_run_id :: string
  p7_reproduction_run_id :: string
  p7_verified_hashes :: json_obj
  p7_package_manifest_sha256 :: string
  p7_alert_policy_sha256 :: string
  p7_reasons :: "json list"
  p7_self_sha256 :: string

definition THRESHOLD_TOLERANCE :: real where "THRESHOLD_TOLERANCE = 1 / 10 ^ 9"
definition SCORE_TOLERANCE :: real where "SCORE_TOLERANCE = 1 / 10 ^ 6"

definition gate_to_dict :: "Phase7GateResult \<Rightarrow> json_obj" where
  "gate_to_dict g =
     [(''schema_version'', JText (p7_schema_version g)),
      (''source_git_sha'', JText (p7_source_git_sha g)),
      (''timestamp'', JText (p7_timestamp g)),
      (''verdict'', p7_verdict g),
      (''threshold_delta'', JReal (p7_threshold_delta g)),
      (''golden_scores_max_delta'', JReal (p7_golden_scores_max_delta g)),
      (''candidate_run_id'', JText (p7_candidate_run_id g)),
      (''reproduction_run_id'', JText (p7_reproduction_run_id g)),
      (''verified_hashes'', JObj (p7_verified_hashes g)),
      (''package_manifest_sha256'', JText (p7_package_manifest_sha256 g)),
      (''alert_policy_sha256'', JText (p7_alert_policy_sha256 g)),
      (''reasons'', JArr (p7_reasons g)),
      (''self_sha256'', JText (p7_self_sha256 g))]"

definition gate_from_dict :: "('b, 'm) codec_scheme \<Rightarrow> json \<Rightarrow> exn + Phase7GateResult" where
  "gate_from_dict cd d =
     bind_err (obj_item d ''schema_version'') (\<lambda>schema.
     bind_err (obj_item d ''source_git_sha'') (\<lambda>git_sha.
     bind_err (obj_item d ''timestamp'') (\<lambda>timestamp.
     bind_err (obj_item d ''verdict'') (\<lambda>verdict.
     bind_err (bind_err (obj_item d ''threshold_delta'') (py_float cd)) (\<lambda>th_delta.
     bind_err (bind_err (obj_item d ''golden_scores_max_delta'') (py_float cd)) (\<lambda>golden_delta.
     bind_err (obj_item d ''candidate_run_id'') (\<lambda>candidate.
     bind_err (obj_item d ''reproduction_run_id'') (\<lambda>reproduction.
     bind_err (bind_err (obj_get d ''verified_hashes'' (JObj [])) py_dict) (\<lambda>hashes.
     bind_err (obj_item d ''package_manifest_sha256'') (\<lambda>package.
     bind_err (obj_item d ''alert_policy_sha256'') (\<lambda>policy.
     bind_err (bind_err (obj_get d ''reasons'' (JArr [])) py_list) (\<lambda>reasons.
     bind_err (obj_get d ''self_sha256'' (JText [])) (\<lambda>sha.
     Inr \<lparr>p7_schema_version = py_str cd schema, p7_source_git_sha = py_str cd git_sha,
       p7_timestamp = py_str cd timestamp, p7_verdict = verdict, p7_threshold_delta = th_delta,
       p7_golden_scores_max_delta = golden_delta, p7_candidate_run_id = py_str cd candidate,
       p7_reproduction_run_id = py_str cd reproduction, p7_verified_hashes = hashes,
       p7_package_manifest_sha256 = py_str cd package, p7_alert_policy_sha256 = py_str cd policy,
       p7_reasons = reasons, p7_self_sha256 = py_str cd sha\<rparr>)))))))))))))"

definition gate_hash :: "('b, 'm) codec_scheme \<Rightarrow> Phase7GateResult \<Rightarrow> exn + sha256" where
  "gate_hash cd g = canonical_sha256 cd (JObj (filter (\<lambda>(k, v). k \<noteq> ''self_sha256'') (gate_to_dict g)))"

definition gate_with_hash :: "('b, 'm) codec_scheme \<Rightarrow> Phase7GateResult \<Rightarrow> exn + Phase7GateResult" where
  "gate_with_hash cd g = bind_err (gate_hash cd g) (\<lambda>h. Inr (g\<lparr>p7_self_sha256 := h\<rparr>))"

definition load_phase7_attestation :: "('b, 'm) codec_scheme \<Rightarrow> 'b files \<Rightarrow> path \<Rightarrow> exn + Phase7GateResult" where
  "load_phase7_attestation cd fs p =
     bind_err (read_file fs p) (\<lambda>content.
     bind_err (loads cd content) (\<lambda>data.
     bind_err (gate_from_dict cd data) (\<lambda>result.
     bind_err (gate_hash cd result) (\<lambda>expected.
       if p7_self_sha256 result \<noteq> expected then Inl (ValueError ''Phase 7 attestation hash mismatch'') else Inr result))))"

text \<open>The largest golden score difference: the loop keeps the old maximum unless the new one is greater.\<close>

definition max_golden_delta :: "pyfloat list \<Rightarrow> pyfloat list \<Rightarrow> pyfloat" where
  "max_golden_delta actuals expected =
     foldl (\<lambda>mx (a, e). let delta = pf_abs (pf_sub a e) in if pf_lt mx delta then delta else mx) (Fin 0) (zip actuals expected)"

definition is_error :: "exn + 'a \<Rightarrow> bool" where
  "is_error r = (case r of Inl _ \<Rightarrow> True | Inr _ \<Rightarrow> False)"

text \<open>The checks of the gate with the reason each of them adds, in order.\<close>

definition gate_checks ::
  "('b, 'm) codec_scheme \<Rightarrow> CandidateResult \<Rightarrow> ReproductionResult \<Rightarrow> pyfloat \<Rightarrow> nat \<Rightarrow> pyfloat list \<Rightarrow> (bool \<times> string) list"
where
  "gate_checks cd candidate reproduction expected_threshold expected_count golden_values =
     (let cp = ca_provenance candidate; rp = rep_provenance reproduction;
          th_delta = pf_abs (pf_sub (Fin (rep_threshold reproduction)) expected_threshold) in
     [(is_error (verify_run_provenance cd cp), ''Candidate provenance self-hash verification failed''),
      (is_error (verify_run_provenance cd rp), ''Reproduction provenance self-hash verification failed''),
      (rp_lifecycle_state cp \<noteq> JText ''candidate'', ''Candidate run lifecycle_state''),
      (rp_lifecycle_state rp \<noteq> JText ''reproduction'', ''Reproduction run lifecycle_state''),
      (rp_dataset_sha256 rp \<noteq> rp_dataset_sha256 cp, ''Dataset SHA-256 mismatch between candidate and reproduction''),
      (rp_contract_sha256 rp \<noteq> rp_contract_sha256 cp, ''Contract SHA-256 mismatch between candidate and reproduction''),
      (rp_feature_schema_sha256 rp \<noteq> rp_feature_schema_sha256 cp, ''Feature schema SHA-256 mismatch between candidate and reproduction''),
      (rp_champion_package_sha256 rp \<noteq> rp_champion_package_sha256 cp, ''Champion package SHA-256 mismatch between candidate and reproduction''),
      (rp_source_git_sha rp \<noteq> rp_source_git_sha cp, ''Source Git SHA mismatch between candidate and reproduction''),
      (rp_alert_policy_sha256 rp \<noteq> rp_alert_policy_sha256 cp, ''Alert policy SHA-256 mismatch between candidate and reproduction''),
      (JText (ca_package_manifest_sha256 candidate) \<noteq> rp_champion_package_sha256 cp, ''Package manifest SHA-256 mismatch in candidate result''),
      (pf_lt (Fin THRESHOLD_TOLERANCE) th_delta, ''Threshold delta exceeds tolerance''),
      (length (rep_golden_scores reproduction) \<noteq> expected_count, ''Golden score count mismatch''),
      (length (rep_golden_scores reproduction) = expected_count \<and>
       pf_lt (Fin SCORE_TOLERANCE) (max_golden_delta (rep_golden_scores reproduction) golden_values),
       ''Golden scores max delta exceeds tolerance'')])"

definition gate_hashes :: "RunProvenanceV1 \<Rightarrow> json_obj" where
  "gate_hashes p =
     [(''dataset_sha256'', rp_dataset_sha256 p), (''contract_sha256'', rp_contract_sha256 p),
      (''feature_schema_sha256'', rp_feature_schema_sha256 p), (''source_git_sha'', rp_source_git_sha p),
      (''champion_package_sha256'', rp_champion_package_sha256 p), (''alert_policy_sha256'', rp_alert_policy_sha256 p)]"

text \<open>The provenance of a candidate holds texts, which is what the typed fields of the result copy.
  The expected golden scores are converted only when their number is right.\<close>

definition evaluate_phase7_gate ::
  "('b, 'm) codec_scheme \<Rightarrow> run_info \<Rightarrow> CandidateResult \<Rightarrow> ReproductionResult \<Rightarrow> pyfloat \<Rightarrow> json list \<Rightarrow> exn + Phase7GateResult"
where
  "evaluate_phase7_gate cd info candidate reproduction expected_threshold golden =
     bind_err (if length (rep_golden_scores reproduction) \<noteq> length golden then Inr []
               else map_err (py_float cd) golden) (\<lambda>golden_values.
     (let cp = ca_provenance candidate;
          reasons = map snd (filter fst
            (gate_checks cd candidate reproduction expected_threshold (length golden) golden_values)) in
      gate_with_hash cd
        \<lparr>p7_schema_version = ''phase7-gate-v1'', p7_source_git_sha = py_str cd (rp_source_git_sha cp),
         p7_timestamp = now_text info, p7_verdict = JText (if reasons = [] then ''PASS'' else ''FAIL''),
         p7_threshold_delta = pf_abs (pf_sub (Fin (rep_threshold reproduction)) expected_threshold),
         p7_golden_scores_max_delta = max_golden_delta (rep_golden_scores reproduction) golden_values,
         p7_candidate_run_id = ca_run_id candidate, p7_reproduction_run_id = rep_run_id reproduction,
         p7_verified_hashes = gate_hashes cp, p7_package_manifest_sha256 = py_str cd (rp_champion_package_sha256 cp),
         p7_alert_policy_sha256 = py_str cd (rp_alert_policy_sha256 cp), p7_reasons = map JText reasons,
         p7_self_sha256 = []\<rparr>))"

definition write_phase7_gate_report ::
  "('b, 'm) codec_scheme \<Rightarrow> path \<Rightarrow> Phase7GateResult \<Rightarrow> 'b files \<Rightarrow> exn + 'b files"
where
  "write_phase7_gate_report cd p g fs =
     bind_err (gate_with_hash cd g) (\<lambda>g'.
     bind_err (canonical_dumps cd (JObj (gate_to_dict g'))) (\<lambda>content.
       (let temp = with_suffix p ''.tmp'' in Inr (replace_file temp p (fs(temp \<mapsto> content))))))"

definition expected_golden :: "('b, 'm) codec_scheme \<Rightarrow> 'b files \<Rightarrow> path \<Rightarrow> exn + json list" where
  "expected_golden cd fs pkg =
     bind_err (read_file fs (pkg @ [GOLDEN_CASES_FILENAME])) (\<lambda>content.
     bind_err (loads cd content) (\<lambda>golden.
     bind_err (obj_get golden ''cases'' (JArr [])) (\<lambda>cases.
     bind_err (py_list cases) (map_err (\<lambda>c. obj_item c ''expected_score'')))))"

text \<open>\<open>output_dir / source_git_sha / phase7-gate.json\<close>\<close>

definition report_path :: "path \<Rightarrow> Phase7GateResult \<Rightarrow> path" where
  "report_path output_dir g = output_dir @ [p7_source_git_sha g, ''phase7-gate.json'']"

definition run_phase7_gate ::
  "('b, 'm) package_lib_scheme \<Rightarrow> ('b \<Rightarrow> exn + feature_rows) \<Rightarrow> (real list \<Rightarrow> real \<Rightarrow> string \<Rightarrow> real option) \<Rightarrow> run_info
     \<Rightarrow> 'r mlflow_client option \<Rightarrow> (string \<Rightarrow> ('r, unit) io) \<Rightarrow> path \<Rightarrow> path option \<Rightarrow> CandidateRequest
     \<Rightarrow> ('r \<times> 'b files, Phase7GateResult) io"
where
  "run_phase7_gate lib read_table quantile info client log_model features_path output_dir req w =
     (let (r, fs) = w in
      case bind_err (read_manifest lib fs (rq_champion_package req)) (\<lambda>(_, m).
             bind_err (expected_golden lib fs (rq_champion_package req)) (\<lambda>golden. Inr (m, golden))) of
        Inl e \<Rightarrow> (Inl e, w)
      | Inr (m, golden) \<Rightarrow>
          (case bind_io (import_candidate lib info client log_model fs req) (\<lambda>candidate.
                bind_io (reproduce_candidate lib read_table quantile info client fs features_path req) (\<lambda>reproduction.
                  lift_io (evaluate_phase7_gate lib info candidate reproduction (cm_threshold m) golden))) r of
             (Inl e, r') \<Rightarrow> (Inl e, r', fs)
           | (Inr g, r') \<Rightarrow>
               (case output_dir of
                  None \<Rightarrow> (Inr g, r', fs)
                | Some dir \<Rightarrow>
                    (case write_phase7_gate_report lib (report_path dir g) g fs of
                       Inl e \<Rightarrow> (Inl e, r', fs)
                     | Inr fs' \<Rightarrow> (Inr g, r', fs')))))"

section \<open>The verdict\<close>

lemma bind_io_Inr: "bind_io m f w = (Inr y, w') \<longleftrightarrow> (\<exists>x w1. m w = (Inr x, w1) \<and> f x w1 = (Inr y, w'))"
  by (auto simp: bind_io_def split: prod.splits sum.splits)

lemma lift_io_Inr: "lift_io m w = (Inr x, w') \<longleftrightarrow> m = Inr x \<and> w' = w"
  by (auto simp: lift_io_def)

lemmas io_simps = bind_io_Inr lift_io_Inr

lemma provenance_hash_sha [simp]: "provenance_hash cd (p\<lparr>rp_provenance_sha256 := h\<rparr>) = provenance_hash cd p"
  by (simp add: provenance_hash_def provenance_to_dict_def)

lemma new_run_provenance_same: "new_run_provenance p = Inr p' \<Longrightarrow> p' = p"
  unfolding new_run_provenance_def by (simp only: run_checks_Inr)

text \<open>The provenance a run writes: its fields, and that it verifies.\<close>

lemma run_provenance_result:
  assumes "run_provenance cd info run_id m schema_sha git_sha manifest_sha policy_sha lifecycle params mets = Inr p"
  shows "verify_run_provenance cd p = Inr ()" "rp_lifecycle_state p = JText lifecycle"
    "rp_dataset_sha256 p = JText (cm_source_dataset_sha256 m)" "rp_contract_sha256 p = JText (cm_contract_sha256 m)"
    "rp_feature_schema_sha256 p = JText schema_sha" "rp_source_git_sha p = JText git_sha"
    "rp_champion_package_sha256 p = JText manifest_sha" "rp_alert_policy_sha256 p = JText policy_sha"
proof -
  let ?p0 = "raw_provenance info run_id m schema_sha git_sha manifest_sha policy_sha lifecycle params mets"
  from assms obtain p1 where p1: "new_run_provenance ?p0 = Inr p1" "provenance_with_hash cd p1 = Inr p"
    unfolding run_provenance_def bind_err_eq_Inr by blast
  from new_run_provenance_same [OF p1(1)] p1(2) have "provenance_with_hash cd ?p0 = Inr p" by simp
  then obtain h where h: "provenance_hash cd ?p0 = Inr h"
    "new_run_provenance (?p0\<lparr>rp_provenance_sha256 := JText h\<rparr>) = Inr p"
    unfolding provenance_with_hash_def bind_err_eq_Inr by blast
  from new_run_provenance_same [OF h(2)] have p: "p = ?p0\<lparr>rp_provenance_sha256 := JText h\<rparr>" .
  then show "rp_lifecycle_state p = JText lifecycle"
    "rp_dataset_sha256 p = JText (cm_source_dataset_sha256 m)" "rp_contract_sha256 p = JText (cm_contract_sha256 m)"
    "rp_feature_schema_sha256 p = JText schema_sha" "rp_source_git_sha p = JText git_sha"
    "rp_champion_package_sha256 p = JText manifest_sha" "rp_alert_policy_sha256 p = JText policy_sha"
    by (simp_all add: raw_provenance_def)
  have "provenance_hash cd p = Inr h" using h(1) unfolding p provenance_hash_sha .
  then show "verify_run_provenance cd p = Inr ()" by (simp add: verify_run_provenance_def p)
qed

lemma import_candidate_result:
  assumes "import_candidate lib info client log_model fs req r = (Inr ca, r')"
  obtains manifest_sha m policy_sha schema_sha params mets where
    "read_manifest lib fs (rq_champion_package req) = Inr (manifest_sha, m)"
    "candidate_policy_sha lib fs (rq_alert_policy_path req) = Inr policy_sha"
    "feature_schema_sha lib m = Inr schema_sha" "ca_package_manifest_sha256 ca = manifest_sha"
    "check_git_sha info (rq_expected_source_git_sha req) = Inr (get_current_git_sha info)"
    "run_provenance lib info (ca_run_id ca) m schema_sha (get_current_git_sha info) manifest_sha policy_sha ''candidate'' params mets
       = Inr (ca_provenance ca)"
  using assms unfolding import_candidate_def
  by (auto simp: io_simps Let_def check_git_sha_def split: if_splits)

lemma reproduce_candidate_result:
  assumes "reproduce_candidate lib read_table quantile info client fs features_path req r = (Inr re, r')"
  obtains manifest_sha m policy_sha schema_sha params mets where
    "read_manifest lib fs (rq_champion_package req) = Inr (manifest_sha, m)"
    "default_policy_sha lib = Inr policy_sha" "feature_schema_sha lib m = Inr schema_sha"
    "run_provenance lib info (rep_run_id re) m schema_sha (get_current_git_sha info) manifest_sha policy_sha ''reproduction'' params mets
       = Inr (rep_provenance re)"
  using assms unfolding reproduce_candidate_def
  by (auto simp: io_simps Let_def check_git_sha_def split: if_splits)

text \<open>The gate's notion of equal golden scores.  A difference that is not a number is not greater than
  the tolerance.\<close>

definition golden_close :: "pyfloat list \<Rightarrow> pyfloat list \<Rightarrow> bool" where
  "golden_close actuals expected \<longleftrightarrow>
     list_all2 (\<lambda>a e. \<not> pf_lt (Fin SCORE_TOLERANCE) (pf_abs (pf_sub a e))) actuals expected"

definition bigger :: "pyfloat \<Rightarrow> pyfloat \<Rightarrow> pyfloat" where
  "bigger mx delta = (if pf_lt mx delta then delta else mx)"

lemma pf_lt_trans: "pf_lt x y \<Longrightarrow> pf_lt y z \<Longrightarrow> pf_lt x z"
  by (cases x; cases y; cases z) simp_all

lemma bigger_exceeds:
  "mx \<noteq> NaN \<Longrightarrow> bigger mx delta \<noteq> NaN \<and> (pf_lt t (bigger mx delta) \<longleftrightarrow> pf_lt t mx \<or> pf_lt t delta)"
  by (cases mx; cases delta; cases t) (auto simp: bigger_def)

lemma foldl_bigger_exceeds:
  "mx \<noteq> NaN \<Longrightarrow> pf_lt t (foldl bigger mx ds) \<longleftrightarrow> pf_lt t mx \<or> (\<exists>d \<in> set ds. pf_lt t d)"
  by (induction ds arbitrary: mx) (auto simp: bigger_exceeds)

lemma max_golden_delta_bigger:
  "max_golden_delta actuals expected = foldl bigger (Fin 0) (map (\<lambda>(a, e). pf_abs (pf_sub a e)) (zip actuals expected))"
  by (simp add: max_golden_delta_def foldl_map bigger_def Let_def case_prod_unfold)

lemma golden_close_iff:
  assumes "length actuals = length expected"
  shows "pf_lt (Fin SCORE_TOLERANCE) (max_golden_delta actuals expected) \<longleftrightarrow> \<not> golden_close actuals expected"
proof -
  have "\<not> pf_lt (Fin SCORE_TOLERANCE) (Fin 0)" by (simp add: SCORE_TOLERANCE_def)
  then show ?thesis using assms
    by (auto simp: max_golden_delta_bigger foldl_bigger_exceeds golden_close_def list_all2_iff)
qed

lemma filter_fst_empty: "filter fst cs = [] \<longleftrightarrow> (\<forall>c \<in> set cs. \<not> fst c)"
  by (induction cs) auto

text \<open>The verdict of an evaluation.\<close>

definition hashes_agree :: "RunProvenanceV1 \<Rightarrow> RunProvenanceV1 \<Rightarrow> bool" where
  "hashes_agree p q \<longleftrightarrow> gate_hashes p = gate_hashes q"

lemma evaluate_verdict:
  assumes "evaluate_phase7_gate cd info ca re th golden = Inr g"
  shows "\<exists>vals. (length (rep_golden_scores re) = length golden \<longrightarrow> map_err (py_float cd) golden = Inr vals) \<and>
    p7_verdict g \<in> {JText ''PASS'', JText ''FAIL''} \<and>
    (p7_verdict g = JText ''PASS'' \<longleftrightarrow>
      verify_run_provenance cd (ca_provenance ca) = Inr () \<and> verify_run_provenance cd (rep_provenance re) = Inr () \<and>
      rp_lifecycle_state (ca_provenance ca) = JText ''candidate'' \<and>
      rp_lifecycle_state (rep_provenance re) = JText ''reproduction'' \<and>
      hashes_agree (rep_provenance re) (ca_provenance ca) \<and>
      JText (ca_package_manifest_sha256 ca) = rp_champion_package_sha256 (ca_provenance ca) \<and>
      \<not> pf_lt (Fin THRESHOLD_TOLERANCE) (pf_abs (pf_sub (Fin (rep_threshold re)) th)) \<and>
      length (rep_golden_scores re) = length golden \<and> golden_close (rep_golden_scores re) vals)"
proof -
  from assms obtain vals where vals:
    "(if length (rep_golden_scores re) \<noteq> length golden then Inr [] else map_err (py_float cd) golden) = Inr vals"
    by (auto simp: evaluate_phase7_gate_def bind_err_eq_Inr)
  let ?checks = "gate_checks cd ca re th (length golden) vals"
  have verdict: "p7_verdict g = JText (if filter fst ?checks = [] then ''PASS'' else ''FAIL'')"
    using assms by (auto simp: evaluate_phase7_gate_def vals Let_def gate_with_hash_def bind_err_eq_Inr)
  have err: "is_error (x :: exn + unit) \<longleftrightarrow> x \<noteq> Inr ()" for x
    by (cases x) (simp_all add: is_error_def)
  have len: "length vals = length (rep_golden_scores re)" if "length (rep_golden_scores re) = length golden"
    using vals that map_err_length [of "py_float cd" golden vals] by simp
  have "filter fst ?checks = [] \<longleftrightarrow>
      verify_run_provenance cd (ca_provenance ca) = Inr () \<and> verify_run_provenance cd (rep_provenance re) = Inr () \<and>
      rp_lifecycle_state (ca_provenance ca) = JText ''candidate'' \<and>
      rp_lifecycle_state (rep_provenance re) = JText ''reproduction'' \<and>
      hashes_agree (rep_provenance re) (ca_provenance ca) \<and>
      JText (ca_package_manifest_sha256 ca) = rp_champion_package_sha256 (ca_provenance ca) \<and>
      \<not> pf_lt (Fin THRESHOLD_TOLERANCE) (pf_abs (pf_sub (Fin (rep_threshold re)) th)) \<and>
      length (rep_golden_scores re) = length golden \<and>
      \<not> pf_lt (Fin SCORE_TOLERANCE) (max_golden_delta (rep_golden_scores re) vals)"
    unfolding filter_fst_empty gate_checks_def Let_def
    by (simp add: err hashes_agree_def gate_hashes_def) blast
  then have pass: "p7_verdict g = JText ''PASS'' \<longleftrightarrow>
      verify_run_provenance cd (ca_provenance ca) = Inr () \<and> verify_run_provenance cd (rep_provenance re) = Inr () \<and>
      rp_lifecycle_state (ca_provenance ca) = JText ''candidate'' \<and>
      rp_lifecycle_state (rep_provenance re) = JText ''reproduction'' \<and>
      hashes_agree (rep_provenance re) (ca_provenance ca) \<and>
      JText (ca_package_manifest_sha256 ca) = rp_champion_package_sha256 (ca_provenance ca) \<and>
      \<not> pf_lt (Fin THRESHOLD_TOLERANCE) (pf_abs (pf_sub (Fin (rep_threshold re)) th)) \<and>
      length (rep_golden_scores re) = length golden \<and> golden_close (rep_golden_scores re) vals"
    using golden_close_iff [OF len [symmetric]] by (auto simp: verdict)
  have "length (rep_golden_scores re) = length golden \<longrightarrow> map_err (py_float cd) golden = Inr vals"
    using vals by auto
  with pass verdict show ?thesis by auto
qed

text \<open>The stages of a gate run that returns.\<close>

lemma run_phase7_gate_stages:
  assumes "run_phase7_gate lib read_table quantile info client log_model features_path out req (r, fs) = (Inr g, r', fs')"
  obtains sha m golden ca r1 re where
    "read_manifest lib fs (rq_champion_package req) = Inr (sha, m)"
    "expected_golden lib fs (rq_champion_package req) = Inr golden"
    "import_candidate lib info client log_model fs req r = (Inr ca, r1)"
    "reproduce_candidate lib read_table quantile info client fs features_path req r1 = (Inr re, r')"
    "evaluate_phase7_gate lib info ca re (cm_threshold m) golden = Inr g"
    "out = None \<longrightarrow> fs' = fs"
    "\<forall>dir. out = Some dir \<longrightarrow> write_phase7_gate_report lib (report_path dir g) g fs = Inr fs'"
  using assms unfolding run_phase7_gate_def
  by (auto simp: bind_err_eq_Inr io_simps split: sum.splits prod.splits option.splits)

lemma gate_run_agrees:
  assumes "import_candidate lib info client log_model fs req r = (Inr ca, r1)"
    and "reproduce_candidate lib read_table quantile info client fs features_path req r2 = (Inr re, r3)"
  shows "verify_run_provenance lib (ca_provenance ca) = Inr ()" "verify_run_provenance lib (rep_provenance re) = Inr ()"
    "rp_lifecycle_state (ca_provenance ca) = JText ''candidate''" "rp_lifecycle_state (rep_provenance re) = JText ''reproduction''"
    "JText (ca_package_manifest_sha256 ca) = rp_champion_package_sha256 (ca_provenance ca)"
    "hashes_agree (rep_provenance re) (ca_provenance ca) \<longleftrightarrow>
       candidate_policy_sha lib fs (rq_alert_policy_path req) = default_policy_sha lib"
proof -
  obtain sha m policy schema params mets where c: "read_manifest lib fs (rq_champion_package req) = Inr (sha, m)"
    "candidate_policy_sha lib fs (rq_alert_policy_path req) = Inr policy" "feature_schema_sha lib m = Inr schema"
    "ca_package_manifest_sha256 ca = sha"
    "run_provenance lib info (ca_run_id ca) m schema (get_current_git_sha info) sha policy ''candidate'' params mets
       = Inr (ca_provenance ca)"
    using import_candidate_result [OF assms(1)] by metis
  obtain sha' m' policy' schema' params' mets' where d: "read_manifest lib fs (rq_champion_package req) = Inr (sha', m')"
    "default_policy_sha lib = Inr policy'" "feature_schema_sha lib m' = Inr schema'"
    "run_provenance lib info (rep_run_id re) m' schema' (get_current_git_sha info) sha' policy' ''reproduction'' params' mets'
       = Inr (rep_provenance re)"
    using reproduce_candidate_result [OF assms(2)] by metis
  note cr = run_provenance_result [OF c(5)] and dr = run_provenance_result [OF d(4)]
  from c(1,3) d(1,3) have same: "sha' = sha" "m' = m" "schema' = schema" by auto
  show "verify_run_provenance lib (ca_provenance ca) = Inr ()" "verify_run_provenance lib (rep_provenance re) = Inr ()"
    "rp_lifecycle_state (ca_provenance ca) = JText ''candidate''" "rp_lifecycle_state (rep_provenance re) = JText ''reproduction''"
    "JText (ca_package_manifest_sha256 ca) = rp_champion_package_sha256 (ca_provenance ca)"
    using cr dr c(4) by simp_all
  show "hashes_agree (rep_provenance re) (ca_provenance ca) \<longleftrightarrow>
      candidate_policy_sha lib fs (rq_alert_policy_path req) = default_policy_sha lib"
    using c(2) d(2) by (auto simp: hashes_agree_def gate_hashes_def cr dr same)
qed

lemma gate_run_verdict:
  assumes "run_phase7_gate lib read_table quantile info client log_model features_path out req (r, fs) = (Inr g, r', fs')"
  shows "\<exists>sha m golden r1 re. read_manifest lib fs (rq_champion_package req) = Inr (sha, m) \<and>
    expected_golden lib fs (rq_champion_package req) = Inr golden \<and>
    reproduce_candidate lib read_table quantile info client fs features_path req r1 = (Inr re, r') \<and>
    p7_verdict g \<in> {JText ''PASS'', JText ''FAIL''} \<and>
    (p7_verdict g = JText ''PASS'' \<longleftrightarrow>
      candidate_policy_sha lib fs (rq_alert_policy_path req) = default_policy_sha lib \<and>
      \<not> pf_lt (Fin THRESHOLD_TOLERANCE) (pf_abs (pf_sub (Fin (rep_threshold re)) (cm_threshold m))) \<and>
      (\<exists>vals. map_err (py_float lib) golden = Inr vals \<and> golden_close (rep_golden_scores re) vals)) \<and>
    (\<forall>p content. rq_alert_policy_path req = Some p \<and> fs p = Some content \<and>
       default_policy_sha lib \<noteq> Inr (sha256_bytes lib content) \<longrightarrow> p7_verdict g = JText ''FAIL'')"
proof -
  obtain sha m golden ca r1 re where st:
    "read_manifest lib fs (rq_champion_package req) = Inr (sha, m)"
    "expected_golden lib fs (rq_champion_package req) = Inr golden"
    "import_candidate lib info client log_model fs req r = (Inr ca, r1)"
    "reproduce_candidate lib read_table quantile info client fs features_path req r1 = (Inr re, r')"
    "evaluate_phase7_gate lib info ca re (cm_threshold m) golden = Inr g"
    using run_phase7_gate_stages [OF assms] by metis
  note agree = gate_run_agrees [OF st(3,4)]
  from evaluate_verdict [OF st(5)] obtain vals where v:
    "length (rep_golden_scores re) = length golden \<longrightarrow> map_err (py_float lib) golden = Inr vals"
    "p7_verdict g \<in> {JText ''PASS'', JText ''FAIL''}"
    "p7_verdict g = JText ''PASS'' \<longleftrightarrow> candidate_policy_sha lib fs (rq_alert_policy_path req) = default_policy_sha lib \<and>
      \<not> pf_lt (Fin THRESHOLD_TOLERANCE) (pf_abs (pf_sub (Fin (rep_threshold re)) (cm_threshold m))) \<and>
      length (rep_golden_scores re) = length golden \<and> golden_close (rep_golden_scores re) vals"
    unfolding agree by blast
  have len: "length (rep_golden_scores re) = length golden"
    if "map_err (py_float lib) golden = Inr vs" "golden_close (rep_golden_scores re) vs" for vs
    using that map_err_length [of "py_float lib" golden vs] by (auto simp: golden_close_def list_all2_lengthD)
  have "length (rep_golden_scores re) = length golden \<and> golden_close (rep_golden_scores re) vals \<longleftrightarrow>
      (\<exists>vs. map_err (py_float lib) golden = Inr vs \<and> golden_close (rep_golden_scores re) vs)"
    using v(1) len by auto
  with v(3) have pass: "p7_verdict g = JText ''PASS'' \<longleftrightarrow>
      candidate_policy_sha lib fs (rq_alert_policy_path req) = default_policy_sha lib \<and>
      \<not> pf_lt (Fin THRESHOLD_TOLERANCE) (pf_abs (pf_sub (Fin (rep_threshold re)) (cm_threshold m))) \<and>
      (\<exists>vs. map_err (py_float lib) golden = Inr vs \<and> golden_close (rep_golden_scores re) vs)"
    by blast
  have "p7_verdict g = JText ''FAIL''" if "rq_alert_policy_path req = Some p" "fs p = Some content"
    "default_policy_sha lib \<noteq> Inr (sha256_bytes lib content)" for p content
  proof -
    have "candidate_policy_sha lib fs (rq_alert_policy_path req) \<noteq> default_policy_sha lib"
      using that by (simp add: candidate_policy_sha_def sha256_file_def read_file_def)
    with pass v(2) show ?thesis by blast
  qed
  with st(1,2,4) v(2) pass show ?thesis by blast
qed

lemma has_nan_filter: "has_nan (JObj (filter P kvs)) \<Longrightarrow> has_nan (JObj kvs)"
  by (induction kvs) (auto split: if_splits)

text \<open>
  C18 (functional): what the Phase 7 gate decides.  A gate run that returns has imported and reproduced the
  same package; its verdict is PASS exactly when the candidate's alert policy hash is that of the default
  policy, the recalibrated threshold is within the tolerance of the manifest's, and the golden scores match
  in number and up to the tolerance.  A candidate imported with an alert policy file of another hash
  therefore never passes, because the reproduction ignores the policy file it is given.
\<close>

theorem phase7_run_verdict:
  assumes "run_phase7_gate lib read_table quantile info client log_model features_path out req (r, fs) = (Inr g, r', fs')"
  shows "\<exists>sha m golden r1 re. read_manifest lib fs (rq_champion_package req) = Inr (sha, m) \<and>
    expected_golden lib fs (rq_champion_package req) = Inr golden \<and>
    reproduce_candidate lib read_table quantile info client fs features_path req r1 = (Inr re, r') \<and>
    p7_verdict g \<in> {JText ''PASS'', JText ''FAIL''} \<and>
    (p7_verdict g = JText ''PASS'' \<longleftrightarrow>
      candidate_policy_sha lib fs (rq_alert_policy_path req) = default_policy_sha lib \<and>
      \<not> pf_lt (Fin THRESHOLD_TOLERANCE) (pf_abs (pf_sub (Fin (rep_threshold re)) (cm_threshold m))) \<and>
      (\<exists>vals. map_err (py_float lib) golden = Inr vals \<and> golden_close (rep_golden_scores re) vals)) \<and>
    (\<forall>p content. rq_alert_policy_path req = Some p \<and> fs p = Some content \<and>
       default_policy_sha lib \<noteq> Inr (sha256_bytes lib content) \<longrightarrow> p7_verdict g = JText ''FAIL'')"
  by (rule gate_run_verdict [OF assms])

section \<open>Gate reports are read back\<close>

definition text_gate :: "Phase7GateResult \<Rightarrow> bool" where
  "text_gate g \<longleftrightarrow> is_text (p7_verdict g) \<and> list_all (is_text \<circ> snd) (p7_verified_hashes g) \<and>
     distinct (map fst (p7_verified_hashes g)) \<and> list_all is_text (p7_reasons g) \<and>
     isfinite (p7_threshold_delta g) \<and> isfinite (p7_golden_scores_max_delta g)"

lemma gate_keys: "distinct (map fst (gate_to_dict g))"
  by (simp add: gate_to_dict_def)

lemma text_values_sorted: "list_all (is_text \<circ> snd) kvs \<Longrightarrow> map (map_prod id sort_keys) kvs = kvs"
  by (induction kvs) (auto simp: is_text_iff)

lemma text_list_sorted: "list_all is_text xs \<Longrightarrow> map sort_keys xs = xs"
  by (induction xs) (auto simp: is_text_iff)

lemma text_gate_plain:
  assumes "text_gate g"
  shows "plain_json (JObj (gate_to_dict g))"
proof -
  have "plain_json (JObj (p7_verified_hashes g))" using assms by (auto simp: text_gate_def intro: text_values)
  moreover have "\<not> has_nan (JArr (p7_reasons g))" "keys_distinct (JArr (p7_reasons g))"
    using assms by (auto simp: text_gate_def list_ex_iff list_all_iff is_text_iff)
  ultimately show ?thesis using assms
    by (auto simp: plain_json_def gate_to_dict_def text_gate_def is_text_iff)
qed

lemma gate_fields:
  "map_of (gate_to_dict g) ''schema_version'' = Some (JText (p7_schema_version g))"
  "map_of (gate_to_dict g) ''source_git_sha'' = Some (JText (p7_source_git_sha g))"
  "map_of (gate_to_dict g) ''timestamp'' = Some (JText (p7_timestamp g))"
  "map_of (gate_to_dict g) ''verdict'' = Some (p7_verdict g)"
  "map_of (gate_to_dict g) ''threshold_delta'' = Some (JReal (p7_threshold_delta g))"
  "map_of (gate_to_dict g) ''golden_scores_max_delta'' = Some (JReal (p7_golden_scores_max_delta g))"
  "map_of (gate_to_dict g) ''candidate_run_id'' = Some (JText (p7_candidate_run_id g))"
  "map_of (gate_to_dict g) ''reproduction_run_id'' = Some (JText (p7_reproduction_run_id g))"
  "map_of (gate_to_dict g) ''verified_hashes'' = Some (JObj (p7_verified_hashes g))"
  "map_of (gate_to_dict g) ''package_manifest_sha256'' = Some (JText (p7_package_manifest_sha256 g))"
  "map_of (gate_to_dict g) ''alert_policy_sha256'' = Some (JText (p7_alert_policy_sha256 g))"
  "map_of (gate_to_dict g) ''reasons'' = Some (JArr (p7_reasons g))"
  "map_of (gate_to_dict g) ''self_sha256'' = Some (JText (p7_self_sha256 g))"
  by (simp_all add: gate_to_dict_def)

definition sorted_gate :: "Phase7GateResult \<Rightarrow> Phase7GateResult" where
  "sorted_gate g = g\<lparr>p7_verified_hashes := sort_key fst (p7_verified_hashes g)\<rparr>"

lemma gate_from_sorted:
  assumes "text_gate g"
  shows "gate_from_dict cd (sort_keys (JObj (gate_to_dict g))) = Inr (sorted_gate g)"
proof -
  let ?d = "sort_keys (JObj (gate_to_dict g))"
  have item: "obj_item ?d k = Inr (sort_keys v)" "obj_get ?d k dflt = Inr (sort_keys v)"
    if "map_of (gate_to_dict g) k = Some v" for k v dflt
    using obj_item_sorted [OF gate_keys that] obj_get_sorted [OF gate_keys that] .
  have verdict: "sort_keys (p7_verdict g) = p7_verdict g"
    using assms by (auto simp: text_gate_def is_text_iff)
  have hashes: "sort_keys (JObj (p7_verified_hashes g)) = JObj (sort_key fst (p7_verified_hashes g))"
    using assms by (simp add: text_gate_def text_values_sorted)
  have reasons: "sort_keys (JArr (p7_reasons g)) = JArr (p7_reasons g)"
    using assms by (simp add: text_gate_def text_list_sorted)
  show ?thesis
    unfolding gate_from_dict_def
    by (simp add: gate_fields [THEN item(1)] gate_fields [THEN item(2)] verdict hashes reasons py_str_def
        sorted_gate_def del: sort_keys.simps(6,7) obj_item.simps obj_get.simps)
qed

lemma gate_hash_self [simp]: "gate_hash cd (g\<lparr>p7_self_sha256 := h\<rparr>) = gate_hash cd g"
  by (simp add: gate_hash_def gate_to_dict_def)

lemma canonical_sha256_sorted:
  assumes "sort_keys d = sort_keys d'"
  shows "canonical_sha256 cd d = canonical_sha256 cd d'"
proof -
  have "has_nan d = has_nan d'" using assms has_nan_sort_keys by metis
  with assms show ?thesis by (simp add: canonical_sha256_def canonical_dumps_def check_no_nan_def)
qed

lemma gate_hash_sorted: "gate_hash cd (sorted_gate g) = gate_hash cd g"
  unfolding gate_hash_def
  by (rule canonical_sha256_sorted) (simp add: gate_to_dict_def sorted_gate_def sort_key_map_snd)

lemma gate_report_loads:
  assumes "json_codec cd" "text_gate g" "gate_hash cd g = Inr (p7_self_sha256 g)"
    and "canonical_dumps cd (JObj (gate_to_dict g)) = Inr c" "fs p = Some c"
  shows "load_phase7_attestation cd fs p = Inr (sorted_gate g)"
proof -
  have "loads cd c = Inr (sort_keys (JObj (gate_to_dict g)))"
    using assms(1,4) text_gate_plain [OF assms(2)] by (simp add: loads_canonical del: sort_keys.simps)
  moreover have "p7_self_sha256 (sorted_gate g) = p7_self_sha256 g" by (simp add: sorted_gate_def)
  ultimately show ?thesis using assms(2,3,5)
    by (simp add: load_phase7_attestation_def read_file_def gate_from_sorted gate_hash_sorted del: sort_keys.simps)
qed

text \<open>What an evaluation writes down about the candidate.\<close>

lemma evaluate_result:
  assumes "evaluate_phase7_gate cd info ca re th golden = Inr g"
    and "list_all (is_text \<circ> snd) (gate_hashes (ca_provenance ca))"
  shows "text_gate g" "gate_hash cd g = Inr (p7_self_sha256 g)" "p7_verified_hashes g = gate_hashes (ca_provenance ca)"
    "p7_candidate_run_id g = ca_run_id ca" "p7_source_git_sha g = py_str cd (rp_source_git_sha (ca_provenance ca))"
    "p7_package_manifest_sha256 g = py_str cd (rp_champion_package_sha256 (ca_provenance ca))"
    "p7_alert_policy_sha256 g = py_str cd (rp_alert_policy_sha256 (ca_provenance ca))"
proof -
  from assms(1) obtain g0 where g0: "gate_with_hash cd g0 = Inr g" "is_text (p7_verdict g0)" "list_all is_text (p7_reasons g0)"
    "p7_verified_hashes g0 = gate_hashes (ca_provenance ca)" "p7_candidate_run_id g0 = ca_run_id ca"
    "p7_source_git_sha g0 = py_str cd (rp_source_git_sha (ca_provenance ca))"
    "p7_package_manifest_sha256 g0 = py_str cd (rp_champion_package_sha256 (ca_provenance ca))"
    "p7_alert_policy_sha256 g0 = py_str cd (rp_alert_policy_sha256 (ca_provenance ca))"
    unfolding evaluate_phase7_gate_def bind_err_eq_Inr Let_def by (force simp: list_all_iff)
  then obtain h where h: "gate_hash cd g0 = Inr h" "g = g0\<lparr>p7_self_sha256 := h\<rparr>"
    by (auto simp: gate_with_hash_def bind_err_eq_Inr)
  from h(1) have "\<not> has_nan (JObj (filter (\<lambda>(k, v). k \<noteq> ''self_sha256'') (gate_to_dict g0)))"
    by (auto simp: gate_hash_def canonical_sha256_def canonical_dumps_def check_no_nan_def bind_err_eq_Inr
        simp del: has_nan.simps split: if_splits)
  then have "isfinite (p7_threshold_delta g0)" "isfinite (p7_golden_scores_max_delta g0)"
    by (simp_all add: gate_to_dict_def)
  moreover have "distinct (map fst (gate_hashes (ca_provenance ca)))" by (simp add: gate_hashes_def)
  ultimately show "text_gate g" using g0(2-4) h(2) assms(2) by (simp add: text_gate_def)
  show "gate_hash cd g = Inr (p7_self_sha256 g)" "p7_verified_hashes g = gate_hashes (ca_provenance ca)"
    "p7_candidate_run_id g = ca_run_id ca" "p7_source_git_sha g = py_str cd (rp_source_git_sha (ca_provenance ca))"
    "p7_package_manifest_sha256 g = py_str cd (rp_champion_package_sha256 (ca_provenance ca))"
    "p7_alert_policy_sha256 g = py_str cd (rp_alert_policy_sha256 (ca_provenance ca))"
    using g0 h by simp_all
qed

lemma candidate_hashes_text:
  assumes "import_candidate lib info client log_model fs req r = (Inr ca, r1)"
  shows "list_all (is_text \<circ> snd) (gate_hashes (ca_provenance ca))"
proof -
  obtain sha m policy schema params mets where
    "run_provenance lib info (ca_run_id ca) m schema (get_current_git_sha info) sha policy ''candidate'' params mets
       = Inr (ca_provenance ca)"
    using import_candidate_result [OF assms] by metis
  from run_provenance_result [OF this] show ?thesis by (simp add: gate_hashes_def)
qed

lemma written_report:
  assumes "text_gate g" "gate_hash cd g = Inr (p7_self_sha256 g)"
  shows "write_phase7_gate_report cd p g fs =
    Inr (replace_file (with_suffix p ''.tmp'') p (fs(with_suffix p ''.tmp'' \<mapsto> render cd (sort_keys (JObj (gate_to_dict g))))))"
  using assms text_gate_plain [OF assms(1)]
  by (simp add: write_phase7_gate_report_def gate_with_hash_def canonical_dumps_plain Let_def del: sort_keys.simps)

section \<open>A tracking server in memory\<close>

text \<open>Runs with their tags, registered models, model versions with the run they were made from, and
  aliases.  Creating a model that exists raises, as MLflow documents.\<close>

record tracking =
  tr_tags :: "(string \<times> string, string) table"
  tr_models :: "string list"
  tr_versions :: "(string \<times> string, string) table"
  tr_aliases :: "(string \<times> string, string) table"

definition empty_tracking :: tracking where
  "empty_tracking = \<lparr>tr_tags = [], tr_models = [], tr_versions = [], tr_aliases = []\<rparr>"

definition version_name :: "nat \<Rightarrow> string" where
  "version_name n = replicate (Suc n) CHR ''1''"

text \<open>A run id that is longer than every id that has tags.\<close>

definition fresh_run :: "tracking \<Rightarrow> string" where
  "fresh_run r = version_name (sum_list (map (length \<circ> fst \<circ> fst) (tr_tags r)))"

definition client_sample :: "tracking mlflow_client" where
  "client_sample =
     \<lparr>ml_get_experiment_by_name = Some (\<lambda>_. lift_io (Inr (Some ''1''))),
      ml_create_experiment = None,
      ml_create_run = (\<lambda>_ r. (Inr (fresh_run r), r)),
      ml_set_tag = (\<lambda>run k v r. (Inr (), r\<lparr>tr_tags := AList.update (run, k) v (tr_tags r)\<rparr>)),
      ml_log_param = (\<lambda>_ _ _. lift_io (Inr ())),
      ml_log_metric = (\<lambda>_ _ _. lift_io (Inr ())),
      ml_log_artifact = (\<lambda>_ _. lift_io (Inr ())),
      ml_get_run_tags = (\<lambda>run r. Inr (map (\<lambda>((_, k), v). (k, v)) (filter (\<lambda>((run', _), _). run' = run) (tr_tags r)))),
      ml_tags = None,
      ml_create_registered_model = (\<lambda>name r.
        if name \<in> set (tr_models r) then (Inl (RuntimeError ''RESOURCE_ALREADY_EXISTS''), r)
        else (Inr (), r\<lparr>tr_models := name # tr_models r\<rparr>)),
      ml_create_model_version = (\<lambda>name source run r.
        (let v = version_name (length (tr_versions r)) in
         (Inr v, r\<lparr>tr_versions := ((name, v), run) # tr_versions r\<rparr>))),
      ml_set_registered_model_alias = (\<lambda>name alias v r. (Inr (), r\<lparr>tr_aliases := AList.update (name, alias) v (tr_aliases r)\<rparr>)),
      ml_get_model_version_by_alias = (\<lambda>name alias r.
        (case map_of (tr_aliases r) (name, alias) of
           None \<Rightarrow> Inl (RuntimeError ''RESOURCE_DOES_NOT_EXIST'')
         | Some v \<Rightarrow> (case map_of (tr_versions r) (name, v) of
             None \<Rightarrow> Inl (RuntimeError ''RESOURCE_DOES_NOT_EXIST'')
           | Some run \<Rightarrow> Inr run)))\<rparr>"

definition gate_files :: "json files" where
  "gate_files = package_sample([''pkg'', GOLDEN_CASES_FILENAME] \<mapsto> JObj [(''cases'', JArr [])], [''features''] \<mapsto> JNull)"

definition info_sample :: run_info where
  "info_sample = \<lparr>git_output = Some (replicate 40 CHR ''a''), python_version = ''3.12'', dependency_versions = [],
     temp_dir = [''tmp''], now_text = ''2026-01-01''\<rparr>"

definition request_sample :: CandidateRequest where
  "request_sample = \<lparr>rq_champion_package = [''pkg''], rq_expected_source_git_sha = None, rq_alert_policy_path = None\<rparr>"

abbreviation gate_sample :: "(tracking \<times> json files, Phase7GateResult) io" where
  "gate_sample \<equiv> run_phase7_gate lib_sample (\<lambda>_. Inr [(''calibration'', [(''tp2_last'', Fin 1)])]) (\<lambda>_ _ _. Some 3)
     info_sample (Some client_sample) (\<lambda>_. lift_io (Inr ())) [''features''] (Some [''out'']) request_sample"

lemma hex_zero_sha [simp]: "hex_match 64 zero_sha" "hex_match 40 (replicate 40 CHR ''a'')"
  by (simp_all add: hex_match_def zero_sha_def hex_chars_def list_all_iff)

lemma info_sample_git: "get_current_git_sha info_sample = replicate 40 CHR ''a''"
proof -
  have "strip (replicate 40 CHR ''a'') = replicate 40 CHR ''a''"
    by (simp add: strip_def is_space_def numeral_eq_Suc)
  then show ?thesis by (simp add: get_current_git_sha_def info_sample_def)
qed

lemma lib_sample_codec [simp]:
  "canonical_sha256 lib_sample d = (if has_nan d then Inl (ValueError ''JSON serialization cannot contain NaN or Infinity'') else Inr zero_sha)"
  "canonical_dumps lib_sample d = (if has_nan d then Inl (ValueError ''JSON serialization cannot contain NaN or Infinity'') else Inr (sort_keys d))"
  "sha256_bytes lib_sample c = zero_sha"
  by (simp_all add: canonical_sha256_def canonical_dumps_def check_no_nan_def lib_sample_def)

lemma read_manifest_sample: "fs (pkg @ [MANIFEST_FILENAME]) \<noteq> None \<Longrightarrow>
  read_manifest lib_sample fs pkg = Inr (zero_sha, champion_manifest_sample)"
  by (auto simp: read_manifest_def sample_manifest_json)

lemma gate_files_package: "has_package gate_files [''pkg'']" "gate_files [''pkg'', MANIFEST_FILENAME] = Some JNull"
  "gate_files [''pkg'', GOLDEN_CASES_FILENAME] = Some (JObj [(''cases'', JArr [])])" "gate_files [''features''] = Some JNull"
  by (simp_all add: has_package_def gate_files_def package_sample_def required_artifacts_def filename_defs)

lemma bind_io_lift [simp]: "bind_io (lift_io (Inr x)) f = f x"
  by (simp add: fun_eq_iff bind_io_def lift_io_def)

lemma sample_run_provenance:
  assumes "lifecycle \<in> {''candidate'', ''reproduction''}" "\<not> has_nan (JObj params)" "list_all (isfinite \<circ> snd) mets"
  obtains p where "run_provenance lib_sample info_sample run_id champion_manifest_sample zero_sha (replicate 40 CHR ''a'')
      zero_sha zero_sha lifecycle params mets = Inr p"
    "\<And>prov_path fs. \<exists>fs'. write_run_provenance lib_sample prov_path p fs = Inr fs'"
proof -
  let ?p = "\<lambda>h. raw_provenance info_sample run_id champion_manifest_sample zero_sha (replicate 40 CHR ''a'')
    zero_sha zero_sha lifecycle params mets\<lparr>rp_provenance_sha256 := JText h\<rparr>"
  have new: "new_run_provenance (?p h) = Inr (?p h)" for h
    using assms(1) by (auto simp: new_run_provenance_def raw_provenance_def champion_manifest_sample_def
        required_artifacts_def validate_hex64_def validate_git_sha_def)
  have dict: "\<not> has_nan (JObj (provenance_to_dict (?p h)))" for h
    using assms(2,3) by (auto simp: provenance_to_dict_def raw_provenance_def champion_manifest_sample_def
        required_artifacts_def info_sample_def list_ex_iff list_all_iff)
  then have hash: "provenance_hash lib_sample (?p h) = Inr zero_sha" for h
    unfolding provenance_hash_def lib_sample_codec using has_nan_filter by (metis (no_types, lifting))
  have with_hash: "provenance_with_hash lib_sample (?p h) = Inr (?p zero_sha)" for h
    using hash [of h] new [of zero_sha] by (simp add: provenance_with_hash_def)
  have "run_provenance lib_sample info_sample run_id champion_manifest_sample zero_sha (replicate 40 CHR ''a'')
      zero_sha zero_sha lifecycle params mets = Inr (?p zero_sha)"
    using new [of "[]"] with_hash [of "[]"] by (simp add: run_provenance_def raw_provenance_def)
  moreover have "\<exists>fs'. write_run_provenance lib_sample prov_path (?p zero_sha) fs = Inr fs'" for prov_path fs
    using dict [of zero_sha] by (simp add: write_run_provenance_def with_hash Let_def del: has_nan.simps)
  ultimately show thesis by (rule that)
qed

lemma client_sample_simps:
  "ensure_experiment client_sample name = lift_io (Inr ''1'')"
  "ml_create_run client_sample exp_id r = (Inr (fresh_run r), r)"
  "ml_set_tag client_sample run k v r = (Inr (), r\<lparr>tr_tags := AList.update (run, k) v (tr_tags r)\<rparr>)"
  "ml_log_param client_sample run k j = lift_io (Inr ())" "ml_log_metric client_sample run k x = lift_io (Inr ())"
  "ml_log_artifact client_sample run path = lift_io (Inr ())"
  by (auto simp: fun_eq_iff ensure_experiment_def find_experiment_def client_sample_def bind_io_def lift_io_def)

lemma each_io_skip: "(\<And>x. x \<in> set xs \<Longrightarrow> f x = lift_io (Inr ())) \<Longrightarrow> each_io f xs = lift_io (Inr ())"
  by (induction xs) simp_all

definition tag_run :: "string \<Rightarrow> (string \<times> string) list \<Rightarrow> tracking \<Rightarrow> tracking" where
  "tag_run run_id tags r = r\<lparr>tr_tags := foldl (\<lambda>t (k, v). AList.update (run_id, k) v t) (tr_tags r) tags\<rparr>"

lemma record_run_sample: "record_run client_sample run_id tags params mets r = (Inr (), tag_run run_id tags r)"
proof -
  have "each_io (\<lambda>(k, v). ml_set_tag client_sample run_id k v) tags r = (Inr (), tag_run run_id tags r)" for r
    by (induction tags arbitrary: r) (auto simp: tag_run_def lift_io_def bind_io_def client_sample_simps)
  moreover have "each_io (\<lambda>(k, v). ml_log_param client_sample run_id k v) params = lift_io (Inr ())"
    "each_io (\<lambda>(k, v). ml_log_metric client_sample run_id k v) mets = lift_io (Inr ())"
    by (auto intro!: each_io_skip simp: client_sample_simps)
  ultimately show ?thesis by (simp add: record_run_def bind_io_def lift_io_def)
qed

definition sample_tags :: "string \<Rightarrow> (string \<times> string) list" where
  "sample_tags = run_tags champion_manifest_sample zero_sha (replicate 40 CHR ''a'') zero_sha zero_sha"

lemma bind_io_step: "m w = (Inr x, w') \<Longrightarrow> bind_io m f w = f x w'"
  by (simp add: bind_io_def)

lemma schema_sha_sample: "feature_schema_sha lib_sample m = Inr zero_sha"
  by (auto simp: feature_schema_sha_def list_ex_iff)

lemmas sample_stages = read_manifest_sample info_sample_git check_git_sha_def request_sample_def
  candidate_policy_sha_def default_policy_sha_def schema_sha_sample require_client_def client_sample_simps
  gate_files_package

lemma log_provenance_sample:
  assumes "\<And>prov_path fs. \<exists>fs'. write_run_provenance lib_sample prov_path p fs = Inr fs'"
  shows "log_provenance lib_sample client_sample info_sample fs run_id p = lift_io (Inr ())"
proof -
  from assms obtain fs' where "write_run_provenance lib_sample (temp_dir info_sample @ [''run-provenance.json'']) p fs = Inr fs'"
    by blast
  then show ?thesis by (simp add: log_provenance_def client_sample_simps)
qed

lemma sample_import:
  "\<exists>ca. import_candidate lib_sample info_sample (Some client_sample) (\<lambda>_. lift_io (Inr ())) gate_files request_sample r =
     (Inr ca, tag_run (fresh_run r) (sample_tags ''candidate'') r) \<and>
     ca_run_id ca = fresh_run r"
proof -
  let ?params = "[(''model_id'', JText (cm_model_id champion_manifest_sample)),
    (''model_version'', JText (cm_model_version champion_manifest_sample)),
    (''golden_case_count'', JNum (cm_golden_case_count champion_manifest_sample))]"
  let ?mets = "[(''threshold'', cm_threshold champion_manifest_sample),
    (''golden_case_count'', Fin (of_int (cm_golden_case_count champion_manifest_sample)))]"
  obtain p where p: "run_provenance lib_sample info_sample (fresh_run r) champion_manifest_sample zero_sha
      (replicate 40 CHR ''a'') zero_sha zero_sha ''candidate'' ?params ?mets = Inr p"
    "\<And>prov_path fs. \<exists>fs'. write_run_provenance lib_sample prov_path p fs = Inr fs'"
    by (rule sample_run_provenance [of "''candidate''" ?params ?mets "fresh_run r"])
      (simp_all add: champion_manifest_sample_def)
  show ?thesis
    unfolding import_candidate_def
    by (simp add: sample_stages bind_io_step Let_def record_run_sample p(1) log_provenance_sample [OF p(2)]
        lift_io_def sample_tags_def)
qed

lemma sample_reproduce:
  "\<exists>re. reproduce_candidate lib_sample (\<lambda>_. Inr [(''calibration'', [(''tp2_last'', Fin 1)])]) (\<lambda>_ _ _. Some 3)
     info_sample (Some client_sample) gate_files [''features''] request_sample r =
     (Inr re, tag_run (fresh_run r) (sample_tags ''reproduction'') r) \<and>
     rep_threshold re = 3 \<and> rep_golden_scores re = []"
proof -
  let ?params = "[(''model_id'', JText (cm_model_id champion_manifest_sample)),
    (''model_version'', JText (cm_model_version champion_manifest_sample))]"
  let ?mets = "[(''threshold'', Fin 3), (''min_calibration_score'', Fin 4), (''max_calibration_score'', Fin 4),
    (''mean_calibration_score'', Fin 4)]"
  obtain p where p: "run_provenance lib_sample info_sample (fresh_run r) champion_manifest_sample zero_sha
      (replicate 40 CHR ''a'') zero_sha zero_sha ''reproduction'' ?params ?mets = Inr p"
    "\<And>prov_path fs. \<exists>fs'. write_run_provenance lib_sample prov_path p fs = Inr fs'"
    by (rule sample_run_provenance [of "''reproduction''" ?params ?mets "fresh_run r"])
      (simp_all add: champion_manifest_sample_def)
  have champ: "load_champion lib_sample gate_files [''pkg''] zero_sha True = Inr scorer_sample"
    using load_sample gate_files_package(1) by blast
  have golden: "golden_scores lib_sample gate_files [''pkg''] d cols sc = Inr []" for d cols sc
    by (simp add: golden_scores_def gate_files_package lib_sample_def)
  have matrix: "calibration_matrix [''tp2_last''] [(''calibration'', [(''tp2_last'', Fin 1)])] = Inr [[Fin 1]]"
    by (simp add: calibration_matrix_def lookup_key_def)
  have names: "cm_feature_names champion_manifest_sample = [''tp2_last'']" "cm_feature_output_sha256 champion_manifest_sample = zero_sha"
    by (simp_all add: champion_manifest_sample_def)
  have det: "cs_detector scorer_sample [[Fin 1]] = Inr [Fin 4]" by (simp add: scorer_sample_def)
  have thr: "calibrate_threshold (\<lambda>_ _ _. Some 3) [Fin 4] phase1c_policy = Inr 3"
    by (simp add: calibrate_threshold_def phase1c_policy_def)
  have feats: "verify_stored_sha256 lib_sample gate_files [''features''] zero_sha label = Inr zero_sha"
    "read_file gate_files [''features''] = Inr JNull" for label
    by (simp_all add: verify_stored_sha256_def sha256_file_def read_file_def gate_files_package)
  show ?thesis
    unfolding reproduce_candidate_def
    by (simp add: sample_stages bind_io_step Let_def record_run_sample p(1) log_provenance_sample [OF p(2)]
        lift_io_def sample_tags_def champ golden matrix names det thr feats)
qed

lemma sample_package:
  "rq_champion_package request_sample = [''pkg'']" "expected_golden lib_sample gate_files [''pkg''] = Inr []"
  "read_manifest lib_sample gate_files [''pkg''] = Inr (zero_sha, champion_manifest_sample)"
  "cm_threshold champion_manifest_sample = Fin 3"
proof -
  show "expected_golden lib_sample gate_files [''pkg''] = Inr []"
    by (simp add: expected_golden_def read_file_def gate_files_package) (simp add: lib_sample_def)
qed (simp_all add: read_manifest_sample gate_files_package request_sample_def champion_manifest_sample_def)

definition tracked_candidate :: tracking where
  "tracked_candidate = tag_run (fresh_run empty_tracking) (sample_tags ''candidate'') empty_tracking"

definition tracked_runs :: tracking where
  "tracked_runs = tag_run (fresh_run tracked_candidate) (sample_tags ''reproduction'') tracked_candidate"

lemma gate_sample_runs:
  "\<exists>g fs'. gate_sample (empty_tracking, gate_files) = (Inr g, tracked_runs, fs')"
proof -
  obtain ca where ca: "import_candidate lib_sample info_sample (Some client_sample) (\<lambda>_. lift_io (Inr ())) gate_files request_sample empty_tracking =
     (Inr ca, tracked_candidate)"
    using sample_import [of empty_tracking] by (auto simp: tracked_candidate_def)
  obtain re where re: "reproduce_candidate lib_sample (\<lambda>_. Inr [(''calibration'', [(''tp2_last'', Fin 1)])]) (\<lambda>_ _ _. Some 3)
     info_sample (Some client_sample) gate_files [''features''] request_sample tracked_candidate = (Inr re, tracked_runs)"
    "rep_threshold re = 3" "rep_golden_scores re = []"
    using sample_reproduce [of tracked_candidate] by (auto simp: tracked_runs_def)
  note hashes = candidate_hashes_text [OF ca]
  obtain g where g: "evaluate_phase7_gate lib_sample info_sample ca re (Fin 3) [] = Inr g"
  proof -
    have "\<not> has_nan (JObj (gate_hashes (ca_provenance ca)))"
      using text_values(1) [OF hashes] by (simp add: gate_hashes_def plain_json_def)
    then show thesis using that
      by (simp add: evaluate_phase7_gate_def re(2,3) Let_def gate_with_hash_def gate_hash_def gate_to_dict_def
          max_golden_delta_def list_ex_iff)
  qed
  note res = evaluate_result [OF g hashes]
  show ?thesis
    by (simp add: run_phase7_gate_def sample_package
        bind_io_def ca re(1) g lift_io_def written_report [OF res(1,2)] del: sort_keys.simps)
qed

lemma gate_sample_passes:
  assumes run: "gate_sample (empty_tracking, gate_files) = (Inr g, r', fs')"
  shows "p7_verdict g = JText ''PASS''"
proof -
  from gate_run_verdict [OF run] obtain r1 re where
    re: "reproduce_candidate lib_sample (\<lambda>_. Inr [(''calibration'', [(''tp2_last'', Fin 1)])]) (\<lambda>_ _ _. Some 3)
      info_sample (Some client_sample) gate_files [''features''] request_sample r1 = (Inr re, r')" and
    pass: "p7_verdict g = JText ''PASS'' \<longleftrightarrow>
      candidate_policy_sha lib_sample gate_files (rq_alert_policy_path request_sample) = default_policy_sha lib_sample \<and>
      \<not> pf_lt (Fin THRESHOLD_TOLERANCE) (pf_abs (pf_sub (Fin (rep_threshold re)) (Fin 3))) \<and>
      (\<exists>vals. map_err (py_float lib_sample) [] = Inr vals \<and> golden_close (rep_golden_scores re) vals)"
    unfolding sample_package by (auto simp: sample_package)
  from sample_reproduce [of r1] re have "rep_threshold re = 3" "rep_golden_scores re = []" by auto
  then show ?thesis
    unfolding pass by (simp add: candidate_policy_sha_def request_sample_def THRESHOLD_TOLERANCE_def golden_close_def)
qed

theorem phase7_run_verdict_witness:
  "\<exists>g r' fs'. gate_sample (empty_tracking, gate_files) = (Inr g, r', fs') \<and> p7_verdict g = JText ''PASS''"
proof -
  obtain g r' fs' where run: "gate_sample (empty_tracking, gate_files) = (Inr g, r', fs')"
    using gate_sample_runs by blast
  from phase7_run_verdict [OF run] obtain r1 re where
    re: "reproduce_candidate lib_sample (\<lambda>_. Inr [(''calibration'', [(''tp2_last'', Fin 1)])]) (\<lambda>_ _ _. Some 3)
      info_sample (Some client_sample) gate_files [''features''] request_sample r1 = (Inr re, r')" and
    pass: "p7_verdict g = JText ''PASS'' \<longleftrightarrow>
      candidate_policy_sha lib_sample gate_files (rq_alert_policy_path request_sample) = default_policy_sha lib_sample \<and>
      \<not> pf_lt (Fin THRESHOLD_TOLERANCE) (pf_abs (pf_sub (Fin (rep_threshold re)) (Fin 3))) \<and>
      (\<exists>vals. map_err (py_float lib_sample) [] = Inr vals \<and> golden_close (rep_golden_scores re) vals)"
    unfolding sample_package by (auto simp: sample_package)
  from sample_reproduce [of r1] re have "rep_threshold re = 3" "rep_golden_scores re = []" by auto
  then have "p7_verdict g = JText ''PASS''"
    unfolding pass by (simp add: candidate_policy_sha_def request_sample_def THRESHOLD_TOLERANCE_def golden_close_def)
  with run show ?thesis by blast
qed

end
