(* ===== verification/Promotion.thy ===== *)
theory Promotion
  imports Lifecycle
begin

text \<open>
  Promotion of a candidate to champion (\<open>promote_candidate\<close> of \<open>ml_lifecycle.py\<close>) and the check of a served
  package against its promotion receipt (\<open>ChampionProvenanceVerifier\<close> of \<open>champion.py\<close>).

  The world is the state of the MLflow server and the files.  Promotion is its preconditions, which only
  read, followed by its effects in the order of the code.
\<close>

section \<open>Promotion\<close>

record PromotionRequest =
  pq_run_id :: string
  pq_approver :: string
  pq_expected_source_git_sha :: string
  pq_output :: path
  pq_champion_package :: path
  pq_phase7_gate :: path

definition promotion_tags :: "'r mlflow_client \<Rightarrow> string \<Rightarrow> 'r \<Rightarrow> exn + (string \<times> string) list" where
  "promotion_tags c run_id r =
     bind_err (ml_get_run_tags c run_id r) (\<lambda>tags.
       Inr (case ml_tags c of
              None \<Rightarrow> tags
            | Some all_tags \<Rightarrow> (case map_of (all_tags r) run_id of None \<Rightarrow> tags | Some own \<Rightarrow> own)))"

definition promotion_identity :: "Phase7GateResult \<Rightarrow> ChampionManifest \<Rightarrow> sha256 \<Rightarrow> sha256 \<Rightarrow> (string \<times> string) list" where
  "promotion_identity gate m manifest_sha schema_sha =
     [(''dataset_sha256'', cm_source_dataset_sha256 m),
      (''contract_sha256'', cm_contract_sha256 m),
      (''feature_schema_sha256'', schema_sha),
      (''source_git_sha'', p7_source_git_sha gate),
      (''champion_package_sha256'', manifest_sha),
      (''alert_policy_sha256'', p7_alert_policy_sha256 gate)]"

definition validate_promotion_identity ::
  "('b, 'm) codec_scheme \<Rightarrow> (string \<times> string) list \<Rightarrow> Phase7GateResult \<Rightarrow> ChampionManifest \<Rightarrow> sha256 \<Rightarrow> exn + unit"
where
  "validate_promotion_identity cd tags gate m manifest_sha =
     bind_err (feature_schema_sha cd m) (\<lambda>schema_sha.
       run_checks (concat (map (\<lambda>(name, v).
         [(map_of tags name \<noteq> Some v, ValueError (name @ '' run tag does not match attested identity'')),
          (map_of (p7_verified_hashes gate) name \<noteq> Some (JText v), ValueError (name @ '' Phase 7 hash does not match attested identity''))])
         (promotion_identity gate m manifest_sha schema_sha))) ())"

text \<open>The preconditions, in the order of the code.\<close>

definition check_promotion ::
  "('b, 'm) package_lib_scheme \<Rightarrow> 'r mlflow_client option \<Rightarrow> PromotionRequest \<Rightarrow> 'r \<times> 'b files
     \<Rightarrow> exn + 'r mlflow_client \<times> Phase7GateResult \<times> sha256 \<times> ChampionManifest"
where
  "check_promotion lib client req w =
     (if strip (pq_approver req) = [] then Inl (ValueError ''approver cannot be empty'') else
     bind_err (require_client client) (\<lambda>c.
     bind_err (promotion_tags c (pq_run_id req) (fst w)) (\<lambda>tags.
     (if map_of tags ''lifecycle_state'' \<noteq> Some ''candidate''
      then Inl (ValueError ''Cannot promote run; lifecycle_state must be candidate'') else
     (let source_git_sha = (case map_of tags ''source_git_sha'' of Some v \<Rightarrow> v | None \<Rightarrow> []) in
     bind_err (load_phase7_attestation lib (snd w) (pq_phase7_gate req)) (\<lambda>gate.
     bind_err (read_manifest lib (snd w) (pq_champion_package req)) (\<lambda>(manifest_sha, m).
     bind_err (run_checks
       [(p7_verdict gate \<noteq> JText ''PASS'', ValueError ''Phase 7 gate must PASS before promotion''),
        (p7_candidate_run_id gate \<noteq> pq_run_id req, ValueError ''Phase 7 candidate run does not match promotion run''),
        (p7_package_manifest_sha256 gate \<noteq> manifest_sha, ValueError ''Phase 7 package SHA does not match promotion package''),
        (source_git_sha \<noteq> pq_expected_source_git_sha req \<or> p7_source_git_sha gate \<noteq> source_git_sha,
           ValueError ''Source Git SHA mismatch'')] ()) (\<lambda>_.
     bind_err (validate_promotion_identity lib tags gate m manifest_sha) (\<lambda>_.
     run_checks
       [(cm_package_role m \<noteq> ''CHAMPION'', ValueError ''package_role must be CHAMPION''),
        (cm_evaluation_verdict m \<noteq> ''FEASIBLE'', ValueError ''evaluation_verdict must be FEASIBLE''),
        (cm_operational_status m \<noteq> ''PRODUCTION_CANDIDATE'', ValueError ''operational_status must be PRODUCTION_CANDIDATE''),
        (snd w (pq_output req) \<noteq> None, FileExistsError ''Refusing to overwrite promotion receipt'')]
       (c, gate, manifest_sha, m))))))))))"

definition on_registry :: "('r, 'a) io \<Rightarrow> ('r \<times> 'b files, 'a) io" where
  "on_registry op w = (case op (fst w) of (res, r') \<Rightarrow> (res, r', snd w))"

definition on_files :: "('b files \<Rightarrow> 'b files) \<Rightarrow> ('r \<times> 'b files, unit) io" where
  "on_files f w = (Inr (), fst w, f (snd w))"

definition promotion_receipt ::
  "run_info \<Rightarrow> PromotionRequest \<Rightarrow> Phase7GateResult \<Rightarrow> sha256 \<Rightarrow> ChampionManifest \<Rightarrow> string \<Rightarrow> PromotionReceiptV1"
where
  "promotion_receipt info req gate manifest_sha m reg_version =
     \<lparr>pr_schema_version = JText ''mlflow-promotion-receipt-v1'', pr_mlflow_run_id = JText (pq_run_id req),
      pr_registered_model_name = JText REGISTERED_MODEL_NAME, pr_registered_model_version = reg_version,
      pr_alias = JText ''champion'', pr_model_version = JText (cm_model_version m),
      pr_dataset_sha256 = JText (cm_source_dataset_sha256 m), pr_contract_sha256 = JText (cm_contract_sha256 m),
      pr_champion_package_sha256 = JText manifest_sha, pr_source_git_sha = JText (p7_source_git_sha gate),
      pr_approver = JText (strip (pq_approver req)), pr_promoted_at = JText (now_text info),
      pr_receipt_sha256 = JText []\<rparr>"

text \<open>\<open>request.output.with_name(f"{output.name}.tmp.{token}")\<close>\<close>

definition temp_receipt_path :: "path \<Rightarrow> string \<Rightarrow> path" where
  "temp_receipt_path output token = butlast output @ [List.last output @ ''.tmp.'' @ token]"

definition perform_promotion ::
  "('b, 'm) codec_scheme \<Rightarrow> run_info \<Rightarrow> string \<Rightarrow> PromotionRequest
     \<Rightarrow> 'r mlflow_client \<times> Phase7GateResult \<times> sha256 \<times> ChampionManifest \<Rightarrow> ('r \<times> 'b files, PromotionReceiptV1) io"
where
  "perform_promotion cd info token req checked =
     (case checked of (c, gate, manifest_sha, m) \<Rightarrow>
     (let model_uri = ''runs:/'' @ pq_run_id req @ ''/champion-model''; temp = temp_receipt_path (pq_output req) token in
     bind_io (on_registry (ml_create_registered_model c REGISTERED_MODEL_NAME)) (\<lambda>_.
     bind_io (on_registry (ml_create_model_version c REGISTERED_MODEL_NAME model_uri (pq_run_id req))) (\<lambda>reg_version.
     bind_io (lift_io (bind_err (new_promotion_receipt (promotion_receipt info req gate manifest_sha m reg_version))
       (receipt_with_hash cd))) (\<lambda>receipt.
     bind_io (lift_io (canonical_dumps cd (JObj (receipt_to_dict receipt)))) (\<lambda>content.
     bind_io (on_files (\<lambda>fs. fs(temp \<mapsto> content))) (\<lambda>_.
     bind_io (on_registry (ml_set_registered_model_alias c REGISTERED_MODEL_NAME ''champion'' reg_version)) (\<lambda>_.
     bind_io (on_files (replace_file temp (pq_output req))) (\<lambda>_.
       lift_io (Inr receipt))))))))))"

definition promote_candidate ::
  "('b, 'm) package_lib_scheme \<Rightarrow> run_info \<Rightarrow> 'r mlflow_client option \<Rightarrow> string \<Rightarrow> PromotionRequest
     \<Rightarrow> ('r \<times> 'b files, PromotionReceiptV1) io"
where
  "promote_candidate lib info client token req w =
     bind_io (lift_io (check_promotion lib client req w)) (perform_promotion lib info token req) w"

section \<open>The provenance of a served package\<close>

record 'r ChampionProvenanceVerifier =
  vf_package_dir :: path
  vf_receipt_path :: path
  vf_registered_model_name :: string
  vf_alias :: string
  vf_mlflow_client :: "'r mlflow_client option"

definition new_verifier :: "path \<Rightarrow> path option \<Rightarrow> 'r mlflow_client option \<Rightarrow> 'r ChampionProvenanceVerifier" where
  "new_verifier package_dir receipt_path client =
     \<lparr>vf_package_dir = package_dir,
      vf_receipt_path = (case receipt_path of Some p \<Rightarrow> p | None \<Rightarrow> package_dir @ [''promotion-receipt.json'']),
      vf_registered_model_name = ''industrial-reliability-anomaly-detector'', vf_alias = ''champion'',
      vf_mlflow_client = client\<rparr>"

definition verify_alias ::
  "('b, 'm) codec_scheme \<Rightarrow> 'r ChampionProvenanceVerifier \<Rightarrow> PromotionReceiptV1 \<Rightarrow> 'r \<Rightarrow> bool \<times> string option"
where
  "verify_alias cd v receipt r =
     (case vf_mlflow_client v of
        None \<Rightarrow> (True, None)
      | Some c \<Rightarrow>
          (case ml_get_model_version_by_alias c (vf_registered_model_name v) (vf_alias v) r of
             Inl _ \<Rightarrow> (False, Some ''MLflow alias verification failed'')
           | Inr run_id \<Rightarrow>
               (if run_id \<noteq> py_str cd (pr_mlflow_run_id receipt)
                then (False, Some ''MLflow champion alias points to another run'') else (True, None))))"

definition verify_provenance ::
  "('b, 'm) codec_scheme \<Rightarrow> 'r ChampionProvenanceVerifier \<Rightarrow> 'r \<times> 'b files \<Rightarrow> bool \<times> string option"
where
  "verify_provenance cd v w =
     (case snd w (vf_package_dir v @ [MANIFEST_FILENAME]) of
        None \<Rightarrow> (False, Some ''Champion manifest not found'')
      | Some manifest \<Rightarrow>
          (if snd w (vf_receipt_path v) = None then (False, Some ''Promotion receipt not found'')
           else case bind_err (load_promotion_receipt cd (snd w) (vf_receipt_path v))
                  (\<lambda>receipt. bind_err (verify_promotion_receipt cd receipt None) (\<lambda>_. Inr receipt)) of
             Inl _ \<Rightarrow> (False, Some ''Invalid promotion receipt'')
           | Inr receipt \<Rightarrow>
               (if pr_champion_package_sha256 receipt \<noteq> JText (sha256_bytes cd manifest)
                then (False, Some ''Provenance mismatch'') else verify_alias cd v receipt (fst w))))"

section \<open>Only attested candidates are promoted\<close>

definition attested ::
  "('b, 'm) package_lib_scheme \<Rightarrow> 'r mlflow_client \<Rightarrow> PromotionRequest \<Rightarrow> 'r \<times> 'b files \<Rightarrow> Phase7GateResult
     \<Rightarrow> sha256 \<Rightarrow> ChampionManifest \<Rightarrow> bool"
where
  "attested lib c req w gate manifest_sha m \<longleftrightarrow>
     strip (pq_approver req) \<noteq> [] \<and>
     (\<exists>content. snd w (pq_champion_package req @ [MANIFEST_FILENAME]) = Some content \<and>
        sha256_bytes lib content = manifest_sha \<and> manifest_of_json lib content = Inr m) \<and>
     load_phase7_attestation lib (snd w) (pq_phase7_gate req) = Inr gate \<and>
     p7_verdict gate = JText ''PASS'' \<and> p7_candidate_run_id gate = pq_run_id req \<and>
     p7_package_manifest_sha256 gate = manifest_sha \<and> champion_role m \<and>
     p7_source_git_sha gate = pq_expected_source_git_sha req \<and> snd w (pq_output req) = None \<and>
     (\<exists>tags schema_sha. promotion_tags c (pq_run_id req) (fst w) = Inr tags \<and> feature_schema_sha lib m = Inr schema_sha \<and>
        map_of tags ''lifecycle_state'' = Some ''candidate'' \<and>
        (\<forall>(name, v) \<in> set (promotion_identity gate m manifest_sha schema_sha).
           map_of tags name = Some v \<and> map_of (p7_verified_hashes gate) name = Some (JText v)))"

lemma validate_identity_iff:
  "validate_promotion_identity cd tags gate m manifest_sha = Inr () \<longleftrightarrow>
     (\<exists>schema_sha. feature_schema_sha cd m = Inr schema_sha \<and>
        (\<forall>(name, v) \<in> set (promotion_identity gate m manifest_sha schema_sha).
           map_of tags name = Some v \<and> map_of (p7_verified_hashes gate) name = Some (JText v)))"
  unfolding validate_promotion_identity_def bind_err_eq_Inr run_checks_Inr by (fastforce simp: case_prod_unfold)

lemma read_manifest_iff:
  "read_manifest lib fs pkg = Inr (sha, m) \<longleftrightarrow>
     (\<exists>content. fs (pkg @ [MANIFEST_FILENAME]) = Some content \<and> sha256_bytes lib content = sha \<and> manifest_of_json lib content = Inr m)"
  by (auto simp: read_manifest_def bind_err_eq_Inr split: option.splits)

lemma champion_role_iff:
  assumes "manifest_of_json lib content = Inr m"
  shows "champion_role m \<longleftrightarrow> cm_package_role m = ''CHAMPION'' \<and> cm_evaluation_verdict m = ''FEASIBLE'' \<and>
    cm_operational_status m = ''PRODUCTION_CANDIDATE''"
  using validate_manifest_facts(2) [OF manifest_of_json_facts(2) [OF assms]]
  by (auto simp: champion_role_def research_role_def)

lemma check_promotion_attested:
  assumes "check_promotion lib client req w = Inr (c, gate, sha, m)"
  shows "client = Some c" "attested lib c req w gate sha m"
proof -
  from assms obtain tags where st: "strip (pq_approver req) \<noteq> []" "client = Some c"
    "promotion_tags c (pq_run_id req) (fst w) = Inr tags" "map_of tags ''lifecycle_state'' = Some ''candidate''"
    "load_phase7_attestation lib (snd w) (pq_phase7_gate req) = Inr gate"
    "read_manifest lib (snd w) (pq_champion_package req) = Inr (sha, m)"
    "p7_verdict gate = JText ''PASS''" "p7_candidate_run_id gate = pq_run_id req" "p7_package_manifest_sha256 gate = sha"
    "p7_source_git_sha gate = pq_expected_source_git_sha req"
    "validate_promotion_identity lib tags gate m sha = Inr ()"
    "cm_package_role m = ''CHAMPION''" "cm_evaluation_verdict m = ''FEASIBLE''"
    "cm_operational_status m = ''PRODUCTION_CANDIDATE''" "snd w (pq_output req) = None"
    unfolding check_promotion_def Let_def bind_err_eq_Inr require_client_def
    by (auto simp: bind_err_eq_Inr split: if_splits option.splits)
  show "client = Some c" by (rule st(2))
  obtain content where content: "snd w (pq_champion_package req @ [MANIFEST_FILENAME]) = Some content"
    "sha256_bytes lib content = sha" "manifest_of_json lib content = Inr m"
    using st(6) by (auto simp: read_manifest_iff)
  have "champion_role m" using champion_role_iff [OF content(3)] st(12-14) by blast
  moreover obtain schema_sha where "feature_schema_sha lib m = Inr schema_sha"
    "\<forall>(name, v) \<in> set (promotion_identity gate m sha schema_sha).
       map_of tags name = Some v \<and> map_of (p7_verified_hashes gate) name = Some (JText v)"
    using st(11) by (auto simp: validate_identity_iff)
  ultimately show "attested lib c req w gate sha m"
    unfolding attested_def using st content by blast
qed

lemma attested_check_promotion:
  assumes "attested lib c req w gate sha m"
  shows "check_promotion lib (Some c) req w = Inr (c, gate, sha, m)"
proof -
  from assms obtain content tags schema_sha where a: "strip (pq_approver req) \<noteq> []"
    "snd w (pq_champion_package req @ [MANIFEST_FILENAME]) = Some content" "sha256_bytes lib content = sha"
    "manifest_of_json lib content = Inr m" "load_phase7_attestation lib (snd w) (pq_phase7_gate req) = Inr gate"
    "p7_verdict gate = JText ''PASS''" "p7_candidate_run_id gate = pq_run_id req" "p7_package_manifest_sha256 gate = sha"
    "champion_role m" "p7_source_git_sha gate = pq_expected_source_git_sha req" "snd w (pq_output req) = None"
    "promotion_tags c (pq_run_id req) (fst w) = Inr tags" "feature_schema_sha lib m = Inr schema_sha"
    "map_of tags ''lifecycle_state'' = Some ''candidate''"
    "\<forall>(name, v) \<in> set (promotion_identity gate m sha schema_sha).
       map_of tags name = Some v \<and> map_of (p7_verified_hashes gate) name = Some (JText v)"
    unfolding attested_def by blast
  have manifest: "read_manifest lib (snd w) (pq_champion_package req) = Inr (sha, m)"
    using a(2-4) by (auto simp: read_manifest_iff)
  have ident: "validate_promotion_identity lib tags gate m sha = Inr ()"
    using a(13,15) unfolding validate_identity_iff by blast
  have git: "map_of tags ''source_git_sha'' = Some (p7_source_git_sha gate)"
    using a(15) by (simp add: promotion_identity_def)
  show ?thesis using a(1,5-12,14) manifest ident git
    by (simp add: check_promotion_def require_client_def champion_role_def)
qed

text \<open>
  C17 (safety): only attested candidates are promoted.  A promotion either raises and leaves the MLflow server
  and all files as they were, or its request was attested: a non-blank approver, a PASS of the Phase 7 gate,
  loaded with its self-hash verified, for this run, package and source revision, a feasible production
  champion package, all six identity hashes equal in the run's tags, the attestation and the package, and no
  receipt at the destination.
\<close>

theorem promotion_gated:
  "(\<exists>e. promote_candidate lib info client token req w = (Inl e, w)) \<or>
   (\<exists>c gate sha m. client = Some c \<and> attested lib c req w gate sha m \<and>
      promote_candidate lib info client token req w = perform_promotion lib info token req (c, gate, sha, m) w)"
proof (cases "check_promotion lib client req w")
  case (Inl e)
  then show ?thesis by (simp add: promote_candidate_def bind_io_def lift_io_def)
next
  case (Inr checked)
  obtain c gate sha m where checked: "checked = (c, gate, sha, m)" by (cases checked)
  with Inr have "check_promotion lib client req w = Inr (c, gate, sha, m)" by simp
  note check_promotion_attested [OF this]
  moreover have "promote_candidate lib info client token req w = perform_promotion lib info token req (c, gate, sha, m) w"
    using Inr checked by (simp add: promote_candidate_def bind_io_def lift_io_def)
  ultimately show ?thesis by blast
qed

section \<open>A promoted champion verifies\<close>

lemma on_registry_Inr: "on_registry op w = (Inr x, w') \<longleftrightarrow> (\<exists>r'. op (fst w) = (Inr x, r') \<and> w' = (r', snd w))"
  by (auto simp: on_registry_def split: prod.splits)

lemma on_files_Inr: "on_files f w = (Inr u, w') \<longleftrightarrow> w' = (fst w, f (snd w))"
  by (auto simp: on_files_def)

lemma perform_promotion_result:
  assumes "perform_promotion cd info token req (c, gate, sha, m) (r, fs) = (Inr receipt, w')"
  obtains r1 v r2 r3 content where
    "ml_create_registered_model c REGISTERED_MODEL_NAME r = (Inr (), r1)"
    "ml_create_model_version c REGISTERED_MODEL_NAME (''runs:/'' @ pq_run_id req @ ''/champion-model'') (pq_run_id req) r1 = (Inr v, r2)"
    "ml_set_registered_model_alias c REGISTERED_MODEL_NAME ''champion'' v r2 = (Inr (), r3)"
    "receipt_with_hash cd (promotion_receipt info req gate sha m v) = Inr receipt"
    "canonical_dumps cd (JObj (receipt_to_dict receipt)) = Inr content"
    "w' = (r3, replace_file (temp_receipt_path (pq_output req) token) (pq_output req)
       (fs(temp_receipt_path (pq_output req) token \<mapsto> content)))"
  using assms unfolding perform_promotion_def
  by (auto simp: Let_def io_simps on_registry_Inr on_files_Inr bind_err_eq_Inr dest: new_promotion_receipt_same)

lemma temp_receipt_fresh: "temp_receipt_path output token \<noteq> output"
proof
  assume "temp_receipt_path output token = output"
  then have "List.last (temp_receipt_path output token) = List.last output" by simp
  then show False by (simp add: temp_receipt_path_def)
qed

lemma text_promotion_receipt: "text_receipt (promotion_receipt info req gate sha m v\<lparr>pr_receipt_sha256 := JText h\<rparr>)"
  by (simp add: text_receipt_def receipt_to_dict_def promotion_receipt_def)

text \<open>What MLflow documents of model versions and aliases: an alias set on a version leads to the run the
  version was made from.\<close>

definition alias_law :: "'r mlflow_client \<Rightarrow> bool" where
  "alias_law c \<longleftrightarrow> (\<forall>name source run r v r1 alias r2.
     ml_create_model_version c name source run r = (Inr v, r1) \<and>
     ml_set_registered_model_alias c name alias v r1 = (Inr (), r2) \<longrightarrow>
     ml_get_model_version_by_alias c name alias r2 = Inr run)"

lemma performed_promotion_verifies:
  assumes "json_codec cd" "alias_law c" "perform_promotion cd info token req (c, gate, sha, m) (r, fs) = (Inr receipt, r', fs')"
    and "fs (pq_champion_package req @ [MANIFEST_FILENAME]) = Some content" "sha256_bytes cd content = sha"
    and "fs (pq_output req) = None" "fs (temp_receipt_path (pq_output req) token) = None"
  shows "verify_provenance cd (new_verifier (pq_champion_package req) (Some (pq_output req)) (Some c)) (r', fs') = (True, None)"
proof -
  let ?temp = "temp_receipt_path (pq_output req) token"
  obtain r1 v r2 c' where p:
    "ml_create_model_version c REGISTERED_MODEL_NAME (''runs:/'' @ pq_run_id req @ ''/champion-model'') (pq_run_id req) r1 = (Inr v, r2)"
    "ml_set_registered_model_alias c REGISTERED_MODEL_NAME ''champion'' v r2 = (Inr (), r')"
    "receipt_with_hash cd (promotion_receipt info req gate sha m v) = Inr receipt"
    "canonical_dumps cd (JObj (receipt_to_dict receipt)) = Inr c'"
    "fs' = replace_file ?temp (pq_output req) (fs(?temp \<mapsto> c'))"
    by (rule perform_promotion_result [OF assms(3)]) blast
  note rec = receipt_with_hash_result [OF p(3)]
  from rec(3) have fields: "text_receipt receipt" "pr_champion_package_sha256 receipt = JText sha"
    "pr_mlflow_run_id receipt = JText (pq_run_id req)"
    using text_promotion_receipt [of _ info req gate sha m v] by (auto simp: promotion_receipt_def)
  have out: "fs' (pq_output req) = Some c'"
    by (simp add: p(5) replace_file_def)
  have "pq_champion_package req @ [MANIFEST_FILENAME] \<noteq> pq_output req" "pq_champion_package req @ [MANIFEST_FILENAME] \<noteq> ?temp"
    using assms(4,6,7) by auto
  then have manifest: "fs' (pq_champion_package req @ [MANIFEST_FILENAME]) = Some content"
    using assms(4) by (simp add: p(5) replace_file_def)
  have loaded: "load_promotion_receipt cd fs' (pq_output req) = Inr receipt"
    using written_receipt_loads [where fs = fs' and p = "pq_output req", OF assms(1) fields(1) p(3,4) out] .
  have "ml_get_model_version_by_alias c REGISTERED_MODEL_NAME ''champion'' r' = Inr (pq_run_id req)"
    using assms(2) p(1,2) unfolding alias_law_def by blast
  then have "verify_alias cd (new_verifier (pq_champion_package req) (Some (pq_output req)) (Some c)) receipt r' = (True, None)"
    by (simp add: verify_alias_def new_verifier_def fields(3) py_str_def REGISTERED_MODEL_NAME_def)
  then show ?thesis
    using manifest out loaded rec(2) assms(5) fields(2) by (simp add: verify_provenance_def new_verifier_def)
qed

section \<open>The tags of a run\<close>

text \<open>What MLflow documents of run tags: a tag that was set is returned with its value, a new run has a new
  id, and the other calls do not touch the tags of a run.  \<open>tags_of\<close> is the tags the server holds.\<close>

definition quiet :: "('r \<Rightarrow> string \<Rightarrow> string \<rightharpoonup> string) \<Rightarrow> ('r, 'a) io \<Rightarrow> bool" where
  "quiet tags_of op \<longleftrightarrow> (\<forall>r. tags_of (snd (op r)) = tags_of r)"

definition tag_store :: "'r mlflow_client \<Rightarrow> (string \<Rightarrow> ('r, unit) io) \<Rightarrow> ('r \<Rightarrow> string \<Rightarrow> string \<rightharpoonup> string) \<Rightarrow> bool" where
  "tag_store c log_model tags_of \<longleftrightarrow>
     ml_tags c = None \<and>
     (\<forall>run r. tags_of r run \<noteq> Map.empty \<longrightarrow> (\<exists>t. ml_get_run_tags c run r = Inr t \<and> map_of t = tags_of r run)) \<and>
     (\<forall>run k v r r'. ml_set_tag c run k v r = (Inr (), r') \<longrightarrow> tags_of r' = (tags_of r)(run := (tags_of r run)(k \<mapsto> v))) \<and>
     (\<forall>e r run r'. ml_create_run c e r = (Inr run, r') \<longrightarrow>
        tags_of r run = Map.empty \<and> (\<exists>t0. tags_of r' = (tags_of r)(run := t0))) \<and>
     (\<forall>run k v. quiet tags_of (ml_log_param c run k v)) \<and> (\<forall>run k v. quiet tags_of (ml_log_metric c run k v)) \<and>
     (\<forall>run p. quiet tags_of (ml_log_artifact c run p)) \<and> (\<forall>run. quiet tags_of (log_model run)) \<and>
     (\<forall>get name. ml_get_experiment_by_name c = Some get \<longrightarrow> quiet tags_of (get name)) \<and>
     (\<forall>create name. ml_create_experiment c = Some create \<longrightarrow> quiet tags_of (create name))"

lemma tag_store_set:
  "tag_store c log_model tags_of \<Longrightarrow> ml_set_tag c run k v r = (Inr (), r') \<Longrightarrow>
     tags_of r' = (tags_of r)(run := (tags_of r run)(k \<mapsto> v))"
  by (simp add: tag_store_def)

lemma tag_store_create:
  assumes "tag_store c log_model tags_of" "ml_create_run c e r = (Inr run, r')"
  obtains t0 where "tags_of r run = Map.empty" "tags_of r' = (tags_of r)(run := t0)"
proof -
  from assms(1) have law: "\<forall>e r run r'. ml_create_run c e r = (Inr run, r') \<longrightarrow>
      tags_of r run = Map.empty \<and> (\<exists>t0. tags_of r' = (tags_of r)(run := t0))"
    unfolding tag_store_def by (elim conjE)
  show thesis using law [rule_format, OF assms(2)] that by (elim exE conjE)
qed

lemma tag_store_get:
  assumes "tag_store c log_model tags_of" "tags_of r run \<noteq> Map.empty"
  obtains t where "promotion_tags c run r = Inr t" "map_of t = tags_of r run"
proof -
  from assms(1) have "ml_tags c = None" unfolding tag_store_def by (elim conjE)
  from assms(1) have law: "\<forall>run r. tags_of r run \<noteq> Map.empty \<longrightarrow>
      (\<exists>t. ml_get_run_tags c run r = Inr t \<and> map_of t = tags_of r run)"
    unfolding tag_store_def by (elim conjE)
  obtain t where "ml_get_run_tags c run r = Inr t" "map_of t = tags_of r run"
    using law [rule_format, OF assms(2)] by (elim exE conjE)
  with \<open>ml_tags c = None\<close> show thesis by (intro that) (simp_all add: promotion_tags_def)
qed

lemma quiet_lift [simp]: "quiet tags_of (lift_io x)"
  by (simp add: quiet_def lift_io_def)

lemma quiet_bind: "quiet tags_of m \<Longrightarrow> (\<And>x. quiet tags_of (f x)) \<Longrightarrow> quiet tags_of (bind_io m f)"
  unfolding quiet_def bind_io_def by (metis (no_types, lifting) prod.case_eq_if snd_conv sum.case_eq_if)

lemma quiet_each: "(\<And>x. quiet tags_of (f x)) \<Longrightarrow> quiet tags_of (each_io f xs)"
  by (induction xs) (simp_all add: quiet_bind)

lemma quiet_result: "quiet tags_of m \<Longrightarrow> m r = (x, r') \<Longrightarrow> tags_of r' = tags_of r"
  by (metis quiet_def snd_conv)

lemma ensure_experiment_quiet:
  assumes "tag_store c log_model tags_of"
  shows "quiet tags_of (ensure_experiment c name)"
proof -
  have find: "quiet tags_of (find_experiment c name)"
    using assms by (auto simp: tag_store_def find_experiment_def split: option.splits)
  have "quiet tags_of (new_experiment c name)"
  proof (cases "ml_create_experiment c")
    case (Some create)
    let ?then = "bind_io (find_experiment c name) (\<lambda>found. lift_io (Inr (case found of Some x \<Rightarrow> x | None \<Rightarrow> ''default-exp'')))"
    have "quiet tags_of (create name)" using assms Some by (auto simp: tag_store_def)
    moreover have "quiet tags_of ?then" by (intro quiet_bind find quiet_lift)
    ultimately show ?thesis using Some
      by (auto simp: new_experiment_def quiet_def split: prod.splits sum.splits) (metis snd_conv)+
  qed (simp add: new_experiment_def)
  with find show ?thesis
    unfolding ensure_experiment_def by (auto intro!: quiet_bind split: option.splits)
qed

lemma set_tags_result:
  assumes "tag_store c log_model tags_of" "each_io (\<lambda>(k, v). ml_set_tag c run k v) tags r = (Inr (), r')"
  shows "tags_of r' = (tags_of r)(run := tags_of r run ++ map_of (List.rev tags))"
  using assms(2)
proof (induction tags arbitrary: r)
  case (Cons t tags)
  obtain k v where t: "t = (k, v)" by (cases t)
  from Cons.prems obtain r1 where r1: "ml_set_tag c run k v r = (Inr (), r1)"
    "each_io (\<lambda>(k, v). ml_set_tag c run k v) tags r1 = (Inr (), r')"
    by (auto simp: t bind_io_Inr)
  have step: "tags_of r1 = (tags_of r)(run := (tags_of r run)(k \<mapsto> v))"
    by (rule tag_store_set [OF assms(1) r1(1)])
  have upd: "tags_of r run ++ map_of (List.rev (t # tags)) = (tags_of r run)(k \<mapsto> v) ++ map_of (List.rev tags)"
    by (simp add: t map_of_append map_add_assoc)
  show ?case unfolding Cons.IH [OF r1(2)] step upd by (simp only: fun_upd_same fun_upd_upd)
qed (simp add: lift_io_def)

lemma record_run_result:
  assumes "tag_store c log_model tags_of" "record_run c run tags params mets r = (Inr (), r')"
  shows "tags_of r' = (tags_of r)(run := tags_of r run ++ map_of (List.rev tags))"
proof -
  from assms(2) obtain r1 r2 where st: "each_io (\<lambda>(k, v). ml_set_tag c run k v) tags r = (Inr (), r1)"
    "each_io (\<lambda>(k, v). ml_log_param c run k v) params r1 = (Inr (), r2)"
    "each_io (\<lambda>(k, v). ml_log_metric c run k v) mets r2 = (Inr (), r')"
    by (auto simp: record_run_def bind_io_Inr)
  have "quiet tags_of (each_io (\<lambda>(k, v). ml_log_param c run k v) params)"
    "quiet tags_of (each_io (\<lambda>(k, v). ml_log_metric c run k v) mets)"
    using assms(1) by (auto simp: tag_store_def intro!: quiet_each)
  with st(2,3) have "tags_of r' = tags_of r1" by (metis quiet_result)
  with set_tags_result [OF assms(1) st(1)] show ?thesis by simp
qed

lemma log_provenance_quiet: "tag_store c log_model tags_of \<Longrightarrow> quiet tags_of (log_provenance cd c info fs run prov)"
  unfolding log_provenance_def Let_def by (intro quiet_bind) (auto simp: tag_store_def)

lemma map_of_rev_tags: "distinct (map fst tags) \<Longrightarrow> map_of (List.rev tags) = map_of tags"
  by (intro map_of_inject_set [THEN iffD2]) (simp_all flip: rev_map)

lemma run_tags_keys: "distinct (map fst (run_tags m schema_sha git_sha manifest_sha policy_sha lifecycle))"
  by (simp add: run_tags_def)

text \<open>The tags after an import, and that a reproduction leaves them alone.\<close>

lemma import_candidate_tags:
  assumes "tag_store c log_model tags_of" "import_candidate lib info (Some c) log_model fs req r = (Inr ca, r')"
    and "read_manifest lib fs (rq_champion_package req) = Inr (sha, m)" "feature_schema_sha lib m = Inr schema_sha"
    and "candidate_policy_sha lib fs (rq_alert_policy_path req) = Inr policy_sha"
  shows "\<forall>(k, v) \<in> set (run_tags m schema_sha (get_current_git_sha info) sha policy_sha ''candidate'').
    tags_of r' (ca_run_id ca) k = Some v"
proof -
  let ?tags = "run_tags m schema_sha (get_current_git_sha info) sha policy_sha ''candidate''"
  from assms(2-5) obtain exp r1 r2 r3 r4 r5 params mets prov where st:
    "ensure_experiment c EXPERIMENT_NAME r = (Inr exp, r1)" "ml_create_run c exp r1 = (Inr (ca_run_id ca), r2)"
    "record_run c (ca_run_id ca) ?tags params mets r2 = (Inr (), r3)"
    "ml_log_artifact c (ca_run_id ca) (rq_champion_package req) r3 = (Inr (), r4)"
    "log_provenance lib c info fs (ca_run_id ca) prov r4 = (Inr (), r5)" "log_model (ca_run_id ca) r5 = (Inr (), r')"
    unfolding import_candidate_def
    by (auto simp: io_simps Let_def check_git_sha_def require_client_def split: if_splits)
  have quiet: "quiet tags_of (ml_log_artifact c (ca_run_id ca) (rq_champion_package req))" "quiet tags_of (log_model (ca_run_id ca))"
    using assms(1) by (simp_all add: tag_store_def)
  have "tags_of r' = tags_of r3"
    using quiet_result [OF quiet(1) st(4)] quiet_result [OF log_provenance_quiet [OF assms(1)] st(5)]
      quiet_result [OF quiet(2) st(6)] by simp
  also have "\<dots> = (tags_of r2)(ca_run_id ca := tags_of r2 (ca_run_id ca) ++ map_of ?tags)"
    using record_run_result [OF assms(1) st(3)] by (simp only: map_of_rev_tags [OF run_tags_keys])
  finally show ?thesis using run_tags_keys by (auto simp: map_add_Some_iff)
qed

lemma reproduce_candidate_tags:
  assumes "tag_store c log_model tags_of" "tags_of r run \<noteq> Map.empty"
    and "reproduce_candidate lib read_table quantile info (Some c) fs features_path req r = (Inr re, r')"
  shows "tags_of r' run = tags_of r run"
proof -
  from assms(3) obtain exp r1 run2 r2 tags params mets r3 prov where st:
    "ensure_experiment c EXPERIMENT_NAME r = (Inr exp, r1)" "ml_create_run c exp r1 = (Inr run2, r2)"
    "record_run c run2 tags params mets r2 = (Inr (), r3)" "log_provenance lib c info fs run2 prov r3 = (Inr (), r')"
    unfolding reproduce_candidate_def
    by (auto simp: io_simps Let_def require_client_def)
  have r1: "tags_of r1 = tags_of r" by (rule quiet_result [OF ensure_experiment_quiet [OF assms(1)] st(1)])
  obtain t0 where t0: "tags_of r1 run2 = Map.empty" "tags_of r2 = (tags_of r1)(run2 := t0)"
    using tag_store_create [OF assms(1) st(2)] .
  have "run \<noteq> run2" using assms(2) t0(1) r1 by auto
  moreover have "tags_of r' = tags_of r3" by (rule quiet_result [OF log_provenance_quiet [OF assms(1)] st(4)])
  ultimately show ?thesis using record_run_result [OF assms(1) st(3)] t0(2) r1 by simp
qed

section \<open>From the gate to the served champion\<close>

lemma dropWhile_keeps: "x \<in> set xs \<Longrightarrow> \<not> P x \<Longrightarrow> x \<in> set (dropWhile P xs)"
  by (induction xs) auto

lemma strip_keeps: "x \<in> set s \<Longrightarrow> \<not> is_space x \<Longrightarrow> x \<in> set (strip s)"
  by (simp add: strip_def dropWhile_keeps)

lemma strip_strip:
  assumes "strip s \<noteq> []"
  shows "strip (strip s) \<noteq> []"
proof -
  have "dropWhile is_space s \<noteq> []" using assms by (force simp: strip_def)
  then have "\<exists>x \<in> set s. \<not> is_space x" by (simp add: dropWhile_eq_Nil_conv)
  then obtain x where "x \<in> set s" "\<not> is_space x" by blast
  then have "x \<in> set (strip (strip s))" by (intro strip_keeps)
  then show ?thesis by auto
qed

definition registry_accepts :: "'r mlflow_client \<Rightarrow> string \<Rightarrow> 'r \<Rightarrow> bool" where
  "registry_accepts c run r \<longleftrightarrow> (\<exists>r1 v r2 r3. ml_create_registered_model c REGISTERED_MODEL_NAME r = (Inr (), r1) \<and>
     ml_create_model_version c REGISTERED_MODEL_NAME (''runs:/'' @ run @ ''/champion-model'') run r1 = (Inr v, r2) \<and>
     ml_set_registered_model_alias c REGISTERED_MODEL_NAME ''champion'' v r2 = (Inr (), r3))"

lemma is_hex64_match: "is_hex64 s \<Longrightarrow> hex_match 64 s"
  by (simp add: is_hex64_def hex_match_def)

lemma perform_promotion_total:
  assumes "registry_accepts c (pq_run_id req) r" "strip (pq_approver req) \<noteq> []"
    and "is_hex64 (cm_source_dataset_sha256 m)" "is_hex64 (cm_contract_sha256 m)" "hex_match 64 sha"
    and "hex_match 40 (p7_source_git_sha gate)"
  shows "\<exists>receipt r' fs'. perform_promotion cd info token req (c, gate, sha, m) (r, fs) = (Inr receipt, r', fs')"
proof -
  from assms(1) obtain r1 v r2 r3 where reg: "ml_create_registered_model c REGISTERED_MODEL_NAME r = (Inr (), r1)"
    "ml_create_model_version c REGISTERED_MODEL_NAME (''runs:/'' @ pq_run_id req @ ''/champion-model'') (pq_run_id req) r1 = (Inr v, r2)"
    "ml_set_registered_model_alias c REGISTERED_MODEL_NAME ''champion'' v r2 = (Inr (), r3)"
    unfolding registry_accepts_def by blast
  let ?r = "\<lambda>h. promotion_receipt info req gate sha m v\<lparr>pr_receipt_sha256 := JText h\<rparr>"
  have new: "new_promotion_receipt (?r h) = Inr (?r h)" for h
    using assms(3-6) strip_strip [OF assms(2)]
    by (simp add: new_promotion_receipt_def promotion_receipt_def check_approver_def validate_hex64_def
        validate_git_sha_def is_hex64_match)
  have plain: "plain_json (JObj (receipt_to_dict (?r h)))" for h
    using text_promotion_receipt receipt_keys by (auto simp: text_receipt_def intro: text_values)
  then have "\<not> has_nan (JObj (receipt_to_dict (?r [])))" by (simp add: plain_json_def)
  then have "\<not> has_nan (JObj (filter (\<lambda>(k, v). k \<noteq> ''receipt_sha256'') (receipt_to_dict (?r []))))"
    using has_nan_filter by blast
  then obtain h where h: "receipt_hash cd (?r []) = Inr h"
    by (auto simp: receipt_hash_def canonical_sha256_def canonical_dumps_def check_no_nan_def simp del: has_nan.simps)
  have r0: "promotion_receipt info req gate sha m v = ?r []" by (simp add: promotion_receipt_def)
  have "bind_err (new_promotion_receipt (?r [])) (receipt_with_hash cd) = Inr (?r h)"
    using new [of "[]"] new [of h] h by (simp add: receipt_with_hash_def)
  then have made: "bind_err (new_promotion_receipt (promotion_receipt info req gate sha m v)) (receipt_with_hash cd) = Inr (?r h)"
    by (simp only: r0 [symmetric])
  show ?thesis
    using canonical_dumps_plain [OF plain [of h], of cd]
    by (simp add: perform_promotion_def bind_io_def on_registry_def on_files_def lift_io_def reg [simplified] made Let_def
        del: sort_keys.simps)
qed

lemma run_provenance_hex:
  assumes "run_provenance cd info run_id m schema_sha git_sha manifest_sha policy_sha lifecycle params mets = Inr p"
  shows "hex_match 64 manifest_sha" "hex_match 40 git_sha"
proof -
  from assms have "new_run_provenance (raw_provenance info run_id m schema_sha git_sha manifest_sha policy_sha lifecycle params mets) \<noteq> Inl e" for e
    by (auto simp: run_provenance_def bind_err_eq_Inr)
  then have "\<exists>p. new_run_provenance (raw_provenance info run_id m schema_sha git_sha manifest_sha policy_sha lifecycle params mets) = Inr p"
    by (cases "new_run_provenance (raw_provenance info run_id m schema_sha git_sha manifest_sha policy_sha lifecycle params mets)") auto
  then show "hex_match 64 manifest_sha" "hex_match 40 git_sha"
    unfolding new_run_provenance_def run_checks_Inr
    by (auto simp: raw_provenance_def validate_hex64_def validate_git_sha_def)
qed

text \<open>The report of a gate run: where it lies, what it leaves alone, and that it loads.\<close>

lemma stem_report: "with_suffix (report_path dir g) ''.tmp'' = dir @ [p7_source_git_sha g, ''phase7-gate.tmp'']"
  by (simp add: with_suffix_def report_path_def stem_def butlast_append)

lemma gate_report_files:
  assumes "json_codec cd" "text_gate g" "gate_hash cd g = Inr (p7_self_sha256 g)"
    and "write_phase7_gate_report cd (report_path dir g) g fs = Inr fs'"
  shows "load_phase7_attestation cd fs' (report_path dir g) = Inr (sorted_gate g)"
    and "fs' (pkg @ [MANIFEST_FILENAME]) = fs (pkg @ [MANIFEST_FILENAME])"
proof -
  let ?temp = "with_suffix (report_path dir g) ''.tmp''"
  have fs': "fs' = replace_file ?temp (report_path dir g) (fs(?temp \<mapsto> render cd (sort_keys (JObj (gate_to_dict g)))))"
    using assms(4) written_report [OF assms(2,3), of "report_path dir g" fs] by (simp del: sort_keys.simps)
  have "report_path dir g \<noteq> ?temp" unfolding stem_report by (simp add: report_path_def)
  then have "fs' (report_path dir g) = Some (render cd (sort_keys (JObj (gate_to_dict g))))"
    by (simp add: fs' replace_file_def del: sort_keys.simps)
  with gate_report_loads [where fs = fs' and p = "report_path dir g", OF assms(1-3) canonical_dumps_plain [OF text_gate_plain [OF assms(2)]]]
  show "load_phase7_attestation cd fs' (report_path dir g) = Inr (sorted_gate g)" by blast
  have "pkg @ [MANIFEST_FILENAME] \<noteq> q @ [x, y]" if "y \<noteq> MANIFEST_FILENAME" for q x y
    using that by (metis last_appendR last_ConsL last_ConsR list.distinct(1))
  then have "pkg @ [MANIFEST_FILENAME] \<noteq> report_path dir g" "pkg @ [MANIFEST_FILENAME] \<noteq> ?temp"
    unfolding stem_report by (simp_all add: report_path_def filename_defs)
  then show "fs' (pkg @ [MANIFEST_FILENAME]) = fs (pkg @ [MANIFEST_FILENAME])"
    by (simp add: fs' replace_file_def)
qed

text \<open>The hashes a passed gate attests are the tags of the candidate's run and the package's identity.\<close>

lemma gate_run_attested:
  assumes "run_phase7_gate lib read_table quantile info (Some c) log_model features_path (Some dir) greq (r, fs) = (Inr g, r1, fs1)"
    and "p7_verdict g = JText ''PASS''" "json_codec lib" "tag_store c log_model tags_of"
    and "read_manifest lib fs (rq_champion_package greq) = Inr (sha, m)" "champion_role m"
    and "pq_run_id req = p7_candidate_run_id g" "pq_expected_source_git_sha req = p7_source_git_sha g"
    and "pq_champion_package req = rq_champion_package greq" "pq_phase7_gate req = report_path dir g"
    and "strip (pq_approver req) \<noteq> []" "fs1 (pq_output req) = None"
  shows "attested lib c req (r1, fs1) (sorted_gate g) sha m" "hex_match 64 sha" "hex_match 40 (p7_source_git_sha g)"
proof -
  obtain golden ca r0 re where st:
    "import_candidate lib info (Some c) log_model fs greq r = (Inr ca, r0)"
    "reproduce_candidate lib read_table quantile info (Some c) fs features_path greq r0 = (Inr re, r1)"
    "evaluate_phase7_gate lib info ca re (cm_threshold m) golden = Inr g"
    "write_phase7_gate_report lib (report_path dir g) g fs = Inr fs1"
    by (rule run_phase7_gate_stages [OF assms(1)]) (use assms(5) in auto)
  obtain policy schema params mets where imp: "candidate_policy_sha lib fs (rq_alert_policy_path greq) = Inr policy"
    "feature_schema_sha lib m = Inr schema" "ca_package_manifest_sha256 ca = sha"
    "run_provenance lib info (ca_run_id ca) m schema (get_current_git_sha info) sha policy ''candidate'' params mets
       = Inr (ca_provenance ca)"
    by (rule import_candidate_result [OF st(1)]) (use assms(5) in auto)
  note prov = run_provenance_result [OF imp(4)]
  note gate = evaluate_result [OF st(3) candidate_hashes_text [OF st(1)]]
  note files = gate_report_files [OF assms(3) gate(1,2) st(4)]
  have g: "p7_source_git_sha g = get_current_git_sha info" "p7_package_manifest_sha256 g = sha"
    "p7_alert_policy_sha256 g = policy" "p7_candidate_run_id g = ca_run_id ca"
    using gate prov by (simp_all add: py_str_def)
  show hex: "hex_match 64 sha" "hex_match 40 (p7_source_git_sha g)"
    using run_provenance_hex [OF imp(4)] g(1) by simp_all
  let ?tags = "run_tags m schema (get_current_git_sha info) sha policy ''candidate''"
  have tags0: "\<forall>(k, v) \<in> set ?tags. tags_of r0 (ca_run_id ca) k = Some v"
    by (rule import_candidate_tags [OF assms(4) st(1) assms(5) imp(2,1)])
  then have "tags_of r0 (ca_run_id ca) ''lifecycle_state'' = Some ''candidate''" by (simp add: run_tags_def)
  then have nonempty: "tags_of r0 (ca_run_id ca) \<noteq> Map.empty" by auto
  have same: "tags_of r1 (ca_run_id ca) = tags_of r0 (ca_run_id ca)"
    by (rule reproduce_candidate_tags [OF assms(4) nonempty st(2)])
  obtain t where t: "promotion_tags c (ca_run_id ca) r1 = Inr t" "map_of t = tags_of r0 (ca_run_id ca)"
    using tag_store_get [OF assms(4), of r1 "ca_run_id ca"] nonempty same by metis
  have tag: "map_of t k = Some v" if "(k, v) \<in> set ?tags" for k v
    using tags0 that t(2) by auto
  have held: "map_of (p7_verified_hashes (sorted_gate g)) k = map_of (gate_hashes (ca_provenance ca)) k" for k
    using gate(1,3) by (simp add: sorted_gate_def map_of_sort_key text_gate_def)
  have ident: "\<forall>(name, v) \<in> set (promotion_identity (sorted_gate g) m sha schema).
      map_of t name = Some v \<and> map_of (p7_verified_hashes (sorted_gate g)) name = Some (JText v)"
    unfolding held by (simp add: promotion_identity_def sorted_gate_def g gate_hashes_def prov tag run_tags_def)
  obtain content where content: "fs (rq_champion_package greq @ [MANIFEST_FILENAME]) = Some content"
    "sha256_bytes lib content = sha" "manifest_of_json lib content = Inr m"
    using assms(5) by (auto simp: read_manifest_iff)
  have "map_of t ''lifecycle_state'' = Some ''candidate''" using tag by (simp add: run_tags_def)
  then show "attested lib c req (r1, fs1) (sorted_gate g) sha m"
    unfolding attested_def using assms(2,6-12) content files t(1) imp(2) ident g
    by (auto simp: sorted_gate_def)
qed


section \<open>A registered model is promoted once\<close>

text \<open>What MLflow documents of \<open>create_registered_model\<close>: it raises when the name is registered, and a name
  stays registered.\<close>

definition registers_once :: "'r mlflow_client \<Rightarrow> ('r \<Rightarrow> string \<Rightarrow> bool) \<Rightarrow> bool" where
  "registers_once c registered \<longleftrightarrow>
     (\<forall>name r r'. ml_create_registered_model c name r = (Inr (), r') \<longrightarrow> registered r' name) \<and>
     (\<forall>name r. registered r name \<longrightarrow> (\<exists>e. ml_create_registered_model c name r = (Inl e, r))) \<and>
     (\<forall>name source run r x r' n. ml_create_model_version c name source run r = (x, r') \<and> registered r n \<longrightarrow> registered r' n) \<and>
     (\<forall>name alias v r x r' n. ml_set_registered_model_alias c name alias v r = (x, r') \<and> registered r n \<longrightarrow> registered r' n)"

lemma promoted_performed:
  assumes "promote_candidate lib info (Some c) token req w = (Inr receipt, w')"
  obtains gate sha m where "perform_promotion lib info token req (c, gate, sha, m) w = (Inr receipt, w')"
proof (cases "check_promotion lib (Some c) req w")
  case (Inl e)
  with assms show thesis by (simp add: promote_candidate_def bind_io_def lift_io_def)
next
  case (Inr checked)
  obtain c' gate sha m where checked: "checked = (c', gate, sha, m)" by (cases checked)
  with Inr have "check_promotion lib (Some c) req w = Inr (c', gate, sha, m)" by simp
  from check_promotion_attested(1) [OF this] have "c' = c" by simp
  with assms Inr checked show thesis
    by (intro that) (simp add: promote_candidate_def bind_io_def lift_io_def)
qed

lemma unregistered_promotion:
  assumes "ml_create_registered_model c REGISTERED_MODEL_NAME (fst w) = (Inl e, fst w)"
  shows "\<exists>e. promote_candidate lib info (Some c) token req w = (Inl e, w)"
proof (cases "check_promotion lib (Some c) req w")
  case (Inr checked)
  obtain c' gate sha m where checked: "checked = (c', gate, sha, m)" by (cases checked)
  with Inr have "check_promotion lib (Some c) req w = Inr (c', gate, sha, m)" by simp
  from check_promotion_attested(1) [OF this] have "c' = c" by simp
  with assms Inr checked show ?thesis
    by (simp add: promote_candidate_def perform_promotion_def Let_def bind_io_def lift_io_def on_registry_def)
qed (simp add: promote_candidate_def bind_io_def lift_io_def)

text \<open>
  C38 (error): no second champion can be promoted.  \<open>promote_candidate\<close> creates the registered model each time,
  and MLflow raises when the name exists: after one successful promotion every further promotion, of whatever
  candidate, raises and leaves server and files as they were, so the alias stays with the first champion.
\<close>

theorem second_promotion_fails:
  assumes "registers_once c registered"
    and "promote_candidate lib info (Some c) token req w = (Inr receipt, r1, fs1)"
  shows "\<exists>e. promote_candidate lib info2 (Some c) token2 req2 (r1, fs2) = (Inl e, r1, fs2)"
proof -
  obtain gate sha m where "perform_promotion lib info token req (c, gate, sha, m) (fst w, snd w) = (Inr receipt, r1, fs1)"
    using promoted_performed [OF assms(2)] by (metis prod.collapse)
  then obtain ra rb v where st: "ml_create_registered_model c REGISTERED_MODEL_NAME (fst w) = (Inr (), ra)"
    "ml_create_model_version c REGISTERED_MODEL_NAME (''runs:/'' @ pq_run_id req @ ''/champion-model'') (pq_run_id req) ra = (Inr v, rb)"
    "ml_set_registered_model_alias c REGISTERED_MODEL_NAME ''champion'' v rb = (Inr (), r1)"
    by (rule perform_promotion_result) blast
  have "registered ra REGISTERED_MODEL_NAME" using assms(1) st(1) unfolding registers_once_def by blast
  then have "registered rb REGISTERED_MODEL_NAME" using assms(1) st(2) unfolding registers_once_def by blast
  then have "registered r1 REGISTERED_MODEL_NAME" using assms(1) st(3) unfolding registers_once_def by blast
  then obtain e where e: "ml_create_registered_model c REGISTERED_MODEL_NAME r1 = (Inl e, r1)"
    using assms(1) unfolding registers_once_def by blast
  show ?thesis by (rule unregistered_promotion) (simp add: e)
qed

section \<open>The promotion of the sample candidate\<close>

definition sample_tags_of :: "tracking \<Rightarrow> string \<Rightarrow> string \<rightharpoonup> string" where
  "sample_tags_of r run k = map_of (tr_tags r) (run, k)"

definition sample_promotion :: "Phase7GateResult \<Rightarrow> PromotionRequest" where
  "sample_promotion g = \<lparr>pq_run_id = p7_candidate_run_id g, pq_approver = ''ops'',
     pq_expected_source_git_sha = p7_source_git_sha g, pq_output = [''receipt''], pq_champion_package = [''pkg''],
     pq_phase7_gate = report_path [''out''] g\<rparr>"

lemma map_of_run_tags:
  "map_of (map (\<lambda>((_, k), v). (k, v)) (filter (\<lambda>((run', _), _). run' = run) t)) = (\<lambda>k. map_of t (run, k))"
  by (induction t) (auto simp: fun_eq_iff)

lemma fresh_run_untagged: "map_of (tr_tags r) (fresh_run r, k) = None"
proof (rule ccontr)
  assume "map_of (tr_tags r) (fresh_run r, k) \<noteq> None"
  then have "length (fresh_run r) \<in> set (map (length \<circ> fst \<circ> fst) (tr_tags r))"
    by (force dest: map_of_SomeD)
  then have "length (fresh_run r) \<le> sum_list (map (length \<circ> fst \<circ> fst) (tr_tags r))"
    by (rule member_le_sum_list) simp
  then show False by (simp add: fresh_run_def version_name_def)
qed

lemma sample_tag_store: "tag_store client_sample (\<lambda>_. lift_io (Inr ())) sample_tags_of"
  by (simp add: tag_store_def client_sample_def sample_tags_of_def map_of_run_tags fresh_run_untagged fun_eq_iff
      update_conv' quiet_def lift_io_def) (intro exI [of _ Map.empty], simp)

lemma sample_alias_law: "alias_law client_sample"
  by (auto simp: alias_law_def client_sample_def Let_def update_conv')

lemma sample_registers_once: "registers_once client_sample (\<lambda>r n. n \<in> set (tr_models r))"
  by (auto simp: registers_once_def client_sample_def Let_def split: if_splits)

lemma sample_json_codec: "json_codec lib_sample"
  by (simp add: json_codec_def lib_sample_def)

lemma sample_registry_accepts: "registry_accepts client_sample run tracked_runs"
  by (simp add: registry_accepts_def client_sample_def tracked_runs_def tracked_candidate_def tag_run_def
      empty_tracking_def Let_def)

lemma gate_report_frame:
  assumes "write_phase7_gate_report cd (report_path dir g) g fs = Inr fs'" "length q = 1"
  shows "fs' q = fs q"
proof -
  have "q \<noteq> report_path dir g" "q \<noteq> with_suffix (report_path dir g) ''.tmp''"
    using assms(2) unfolding stem_report by (auto simp: report_path_def)
  with assms(1) show ?thesis
    by (auto simp: write_phase7_gate_report_def bind_err_eq_Inr Let_def replace_file_def)
qed

lemma sample_fresh:
  assumes "gate_sample (empty_tracking, gate_files) = (Inr g, tracked_runs, fs1)"
  shows "fs1 [''receipt''] = None" "fs1 [''receipt.tmp.t''] = None"
proof -
  have "write_phase7_gate_report lib_sample (report_path [''out''] g) g gate_files = Inr fs1"
    by (rule run_phase7_gate_stages [OF assms]) simp
  then show "fs1 [''receipt''] = None" "fs1 [''receipt.tmp.t''] = None"
    by (simp_all add: gate_report_frame gate_files_def package_sample_def image_iff)
qed

lemma sample_manifest:
  "read_manifest lib_sample gate_files (rq_champion_package request_sample) = Inr (zero_sha, champion_manifest_sample)"
  "champion_role champion_manifest_sample"
  by (simp_all add: sample_package champion_role_def champion_manifest_sample_def)

lemma sample_request:
  assumes "gate_sample (empty_tracking, gate_files) = (Inr g, tracked_runs, fs1)"
  shows "pq_run_id (sample_promotion g) = p7_candidate_run_id g"
    "pq_expected_source_git_sha (sample_promotion g) = p7_source_git_sha g"
    "pq_champion_package (sample_promotion g) = rq_champion_package request_sample"
    "pq_phase7_gate (sample_promotion g) = report_path [''out''] g"
    "strip (pq_approver (sample_promotion g)) \<noteq> []" "fs1 (pq_output (sample_promotion g)) = None"
    "fs1 (temp_receipt_path (pq_output (sample_promotion g)) ''t'') = None"
  by (simp_all add: sample_promotion_def sample_package strip_def is_space_def sample_fresh [OF assms] temp_receipt_path_def)


lemma sample_promoted:
  "\<exists>g fs1 receipt r2 fs2. gate_sample (empty_tracking, gate_files) = (Inr g, tracked_runs, fs1) \<and>
     promote_candidate lib_sample info_sample (Some client_sample) ''t'' (sample_promotion g) (tracked_runs, fs1)
       = (Inr receipt, r2, fs2)"
proof -
  obtain g fs1 where run: "gate_sample (empty_tracking, gate_files) = (Inr g, tracked_runs, fs1)"
    using gate_sample_runs by blast
  note req = sample_request [OF run]
  note att = gate_run_attested [OF run gate_sample_passes [OF run] sample_json_codec sample_tag_store sample_manifest req(1-6)]
  then have git: "hex_match 40 (p7_source_git_sha (sorted_gate g))" by (simp add: sorted_gate_def)
  obtain content where "manifest_of_json lib_sample content = Inr champion_manifest_sample"
    using att(1) by (auto simp: attested_def)
  note facts = validate_manifest_facts [OF manifest_of_json_facts(2) [OF this]]
  obtain receipt r2 fs2 where "perform_promotion lib_sample info_sample ''t'' (sample_promotion g)
      (client_sample, sorted_gate g, zero_sha, champion_manifest_sample) (tracked_runs, fs1) = (Inr receipt, r2, fs2)"
    using perform_promotion_total [OF sample_registry_accepts req(5) facts(4,3) att(2) git] by blast
  then show ?thesis using run attested_check_promotion [OF att(1)]
    by (auto simp: promote_candidate_def bind_io_def lift_io_def)
qed

theorem second_promotion_fails_witness:
  "\<exists>g fs1 receipt r2 fs2 e. gate_sample (empty_tracking, gate_files) = (Inr g, tracked_runs, fs1) \<and>
     promote_candidate lib_sample info_sample (Some client_sample) ''t'' (sample_promotion g) (tracked_runs, fs1)
       = (Inr receipt, r2, fs2) \<and>
     promote_candidate lib_sample info_sample (Some client_sample) ''u'' (sample_promotion g) (r2, fs1) = (Inl e, r2, fs1)"
proof -
  obtain g fs1 receipt r2 fs2 where p: "gate_sample (empty_tracking, gate_files) = (Inr g, tracked_runs, fs1)"
    "promote_candidate lib_sample info_sample (Some client_sample) ''t'' (sample_promotion g) (tracked_runs, fs1)
       = (Inr receipt, r2, fs2)"
    using sample_promoted by blast
  obtain e where "promote_candidate lib_sample info_sample (Some client_sample) ''u'' (sample_promotion g) (r2, fs1) = (Inl e, r2, fs1)"
    using second_promotion_fails [OF sample_registers_once p(2)] by blast
  with p show ?thesis by blast
qed

end
