(* ===== verification/Api.thy ===== *)
theory Api
  imports Rca Promotion Scoring_Client Replay_Service
begin

text \<open>
  The HTTP interface (\<open>api.py\<close>): one definition per route over the database, the scorer, the command
  producer, the provenance verifier and the report generator.

  A response is \<open>ApiOk\<close> with its status and data, or \<open>ApiError\<close> with its status, error code and
  message; a route whose code raises gives \<open>Inl\<close>, which the framework answers with status 500.  Request
  bodies are records; \<open>tz\<close> says which of their datetimes carry a timezone.
\<close>

section \<open>Responses\<close>

datatype 'a api_response = ApiOk int 'a | ApiError int string string

definition store_unavailable_response :: "'a api_response" where
  "store_unavailable_response = ApiError 503 ''STORE_UNAVAILABLE'' ''Database store not configured''"

definition producer_unavailable_response :: "string \<Rightarrow> 'a api_response" where
  "producer_unavailable_response message = ApiError 503 ''PRODUCER_UNAVAILABLE'' message"

definition invalid_request_response :: "'a api_response" where
  "invalid_request_response = ApiError 422 ''INVALID_REQUEST'' ''request validation failed''"

definition alert_not_found_response :: "'a api_response" where
  "alert_not_found_response = ApiError 404 ''ALERT_NOT_FOUND'' ''Alert not found''"

text \<open>The exception handlers of the application: a contract error of the scorer is a conflict.\<close>

definition handle_exceptions :: "exn + 'a api_response \<Rightarrow> exn + 'a api_response" where
  "handle_exceptions r = (case r of
      Inl (ScoringContractError msg) \<Rightarrow> Inr (ApiError 409 ''SCORING_CONTRACT_MISMATCH'' msg)
    | _ \<Rightarrow> r)"

section \<open>Scoring\<close>

text \<open>FastAPI validates the body before the route runs.\<close>

definition valid_score_body :: "tzinfo \<Rightarrow> (nat \<Rightarrow> bool) \<Rightarrow> ScoreRequestV1 \<Rightarrow> bool" where
  "valid_score_body tz bin_tz request \<longleftrightarrow>
     validate_coverage bin_tz (fv_coverage (sr_feature_vector request)) = Inr (fv_coverage (sr_feature_vector request)) \<and>
     validate_feature_vector tz (sr_feature_vector request) = Inr (sr_feature_vector request) \<and>
     validate_score_request request = Inr request"

definition score_decision ::
  "(uuid_name \<Rightarrow> uuid) \<Rightarrow> datetime \<Rightarrow> ChampionScorer \<Rightarrow> FeatureVectorV1 \<Rightarrow> ScoredVector \<Rightarrow> ScoreDecisionV1"
where
  "score_decision uuid5 now s feature result =
     (let i = uuid5 (DecisionName (fv_window_id feature) (cm_model_version (cs_manifest s))) in
      \<lparr>message_id = i, replay_session_id = replay_session_id feature,
       source_dataset_sha256 = source_dataset_sha256 feature, contract_sha256 = contract_sha256 feature,
       source_timestamp = source_timestamp feature, emitted_at = now, decision_id = i,
       window_id = fv_window_id feature, model_version = cm_model_version (cs_manifest s),
       score = sv_score result, threshold = sv_threshold result, is_anomaly = sv_is_anomaly result,
       evidence_vector = sv_evidence_vector result\<rparr>)"

definition score_route ::
  "(uuid_name \<Rightarrow> uuid) \<Rightarrow> datetime \<Rightarrow> ChampionScorer \<Rightarrow> tzinfo \<Rightarrow> (nat \<Rightarrow> bool) \<Rightarrow> ScoreRequestV1
     \<Rightarrow> exn + ScoreDecisionV1 api_response"
where
  "score_route uuid5 now s tz bin_tz request =
     (if \<not> valid_score_body tz bin_tz request then Inr invalid_request_response
      else handle_exceptions
        (if sr_model_version request \<noteq> cm_model_version (cs_manifest s)
         then Inl (ScoringContractError ''Model version mismatch'')
         else bind_err (score_vector s (sr_feature_vector request)) (\<lambda>result.
           bind_err (validate_decision runtime_tz (score_decision uuid5 now s (sr_feature_vector request) result))
             (\<lambda>decision. Inr (ApiOk 200 decision)))))"

section \<open>Replay control\<close>

record StartReplayRequestV1 =
  sq_range_start :: datetime
  sq_range_end :: datetime
  sq_speed :: int

text \<open>The field constraint, then \<open>bounded_range\<close>: comparing a naive with an aware datetime raises
  \<open>TypeError\<close>, which Pydantic does not turn into a validation error.\<close>

definition bounded_range :: "tzinfo \<Rightarrow> StartReplayRequestV1 \<Rightarrow> exn + StartReplayRequestV1" where
  "bounded_range tz body =
     run_checks
       [(sq_speed body \<notin> {1, 100, 1000}, ValueError ''speed''),
        (tz ''range_start'' \<noteq> tz ''range_end'', TypeError ''can't compare offset-naive and offset-aware datetimes''),
        (sq_range_start body \<ge> sq_range_end body, ValueError ''range_start must precede range_end'')] body"

record request_ids =
  rq_session :: uuid
  rq_message :: uuid
  rq_command :: uuid

text \<open>\<open>scorer.manifest\<close> is only read when it is a dictionary; a \<open>ChampionScorer\<close> holds a
  \<open>ChampionManifest\<close> object, for which the argument is None.\<close>

definition start_command_of ::
  "(string, sha256) table option \<Rightarrow> request_ids \<Rightarrow> datetime \<Rightarrow> StartReplayRequestV1 \<Rightarrow> ReplayCommandV1"
where
  "start_command_of manifest_dict ids now body =
     (let digest = (\<lambda>name. case manifest_dict of None \<Rightarrow> zero_sha
            | Some m \<Rightarrow> (case map_of m name of Some v \<Rightarrow> v | None \<Rightarrow> zero_sha)) in
      \<lparr>message_id = rq_message ids, replay_session_id = rq_session ids,
       source_dataset_sha256 = digest ''source_dataset_sha256'', contract_sha256 = digest ''contract_sha256'',
       source_timestamp = sq_range_start body, emitted_at = now, command_id = rq_command ids, action = START,
       speed = sq_speed body, range_start = Some (sq_range_start body), range_end = Some (sq_range_end body)\<rparr>)"

definition command_tz :: "tzinfo \<Rightarrow> tzinfo" where
  "command_tz tz f = (if f = ''emitted_at'' then True else if f = ''source_timestamp'' then tz ''range_start'' else tz f)"

type_synonym 'k command_producer = "ReplayCommandV1 \<Rightarrow> ('k, unit) io"

text \<open>\<open>InMemoryCommandProducer\<close> of \<open>runtime_kafka.py\<close>\<close>

definition in_memory_producer :: "ReplayCommandV1 list command_producer" where
  "in_memory_producer cmd commands = (Inr (), commands @ [cmd])"

definition publish_or_503 :: "string \<Rightarrow> ('k, unit) io \<Rightarrow> 'a \<Rightarrow> ('k, 'a api_response) io" where
  "publish_or_503 message publish data w =
     (case publish w of
        (Inl _, w') \<Rightarrow> (Inr (producer_unavailable_response message), w')
      | (Inr _, w') \<Rightarrow> (Inr (ApiOk 202 data), w'))"

definition start_replay ::
  "'k command_producer option \<Rightarrow> (string, sha256) table option \<Rightarrow> request_ids \<Rightarrow> datetime \<Rightarrow> tzinfo
     \<Rightarrow> StartReplayRequestV1 \<Rightarrow> ('k, uuid api_response) io"
where
  "start_replay producer manifest_dict ids now tz body w =
     (case bounded_range tz body of
        Inl (ValueError _) \<Rightarrow> (Inr invalid_request_response, w)
      | Inl e \<Rightarrow> (Inl e, w)
      | Inr _ \<Rightarrow>
          (case producer of
             None \<Rightarrow> (Inr (producer_unavailable_response ''Kafka replay command producer is not configured''), w)
           | Some publish \<Rightarrow>
               (case validate_command (command_tz tz) (start_command_of manifest_dict ids now body) of
                  Inl e \<Rightarrow> (Inl e, w)
                | Inr cmd \<Rightarrow> publish_or_503 ''Failed to publish replay command to Kafka'' (publish cmd) (rq_session ids) w)))"

definition control_command_of :: "request_ids \<Rightarrow> datetime \<Rightarrow> uuid \<Rightarrow> ReplayAction \<Rightarrow> ReplayCommandV1" where
  "control_command_of ids now session act =
     \<lparr>message_id = rq_message ids, replay_session_id = session, source_dataset_sha256 = zero_sha,
      contract_sha256 = zero_sha, source_timestamp = dt_2020, emitted_at = now, command_id = rq_command ids,
      action = act, speed = 100, range_start = None, range_end = None\<rparr>"

definition control_replay ::
  "'k command_producer option \<Rightarrow> request_ids \<Rightarrow> datetime \<Rightarrow> uuid \<Rightarrow> ReplayAction \<Rightarrow> ('k, string api_response) io"
where
  "control_replay producer ids now session act w =
     (if act \<notin> {PAUSE, RESUME, STOP} then (Inr invalid_request_response, w)
      else case producer of
        None \<Rightarrow> (Inr (producer_unavailable_response ''Kafka replay command producer is not configured''), w)
      | Some publish \<Rightarrow>
          (case validate_command runtime_tz (control_command_of ids now session act) of
             Inl e \<Rightarrow> (Inl e, w)
           | Inr cmd \<Rightarrow> publish_or_503 ''Failed to publish replay command to Kafka'' (publish cmd) ''accepted'' w))"

section \<open>Queries\<close>

definition get_replay_route :: "RuntimeDB option \<Rightarrow> uuid \<Rightarrow> ReplaySessionRecord api_response" where
  "get_replay_route store session =
     (case store of
        None \<Rightarrow> store_unavailable_response
      | Some db \<Rightarrow> (case get_replay db session of
          None \<Rightarrow> ApiError 404 ''REPLAY_NOT_FOUND'' ''Replay session not found''
        | Some r \<Rightarrow> ApiOk 200 r))"

definition list_alerts_route ::
  "RuntimeDB option \<Rightarrow> uuid \<Rightarrow> uuid option \<Rightarrow> int \<Rightarrow> AlertSummaryRecord list api_response"
where
  "list_alerts_route store session after limit =
     (if limit < 1 \<or> 100 < limit then invalid_request_response
      else case store of
        None \<Rightarrow> store_unavailable_response
      | Some db \<Rightarrow> ApiOk 200 (list_alerts db session after (nat limit)))"

definition get_alert_route :: "(uuid \<Rightarrow> string) \<Rightarrow> RuntimeDB option \<Rightarrow> uuid \<Rightarrow> AlertDetailRecord api_response" where
  "get_alert_route uuid_str store alert_id =
     (case store of
        None \<Rightarrow> store_unavailable_response
      | Some db \<Rightarrow> (case get_alert_detail uuid_str db alert_id of
          None \<Rightarrow> alert_not_found_response
        | Some d \<Rightarrow> ApiOk 200 d))"

text \<open>\<open>readyz\<close>: \<open>reachable\<close> is the outcome of \<open>check_connection\<close> when a store is configured.\<close>

definition readyz ::
  "('b, 'm) codec_scheme \<Rightarrow> bool option \<Rightarrow> 'r ChampionProvenanceVerifier option \<Rightarrow> 'r \<times> 'b files \<Rightarrow> string option api_response"
where
  "readyz cd reachable verifier w =
     (let db_status = (case reachable of None \<Rightarrow> ''UNKNOWN'' | Some True \<Rightarrow> ''HEALTHY'' | Some False \<Rightarrow> ''UNAVAILABLE'') in
      case map_option (\<lambda>v. verify_provenance cd v w) verifier of
        Some (False, reason) \<Rightarrow> ApiError 503 ''CHAMPION_PROVENANCE_MISMATCH''
          (case reason of Some r \<Rightarrow> if r \<noteq> [] then r else ''Champion provenance verification failed''
             | None \<Rightarrow> ''Champion provenance verification failed'')
      | _ \<Rightarrow> (if db_status = ''UNAVAILABLE''
              then ApiError 503 ''DATABASE_UNAVAILABLE'' ''Configured database is not reachable''
              else ApiOk 200 (map_option (\<lambda>_. db_status) reachable)))"

section \<open>Root-cause reports\<close>

text \<open>The existing report of an alert and its evidence is returned; otherwise a report is made and stored.\<close>

definition generate_alert_rca ::
  "('b, 'm) rca_env_scheme \<Rightarrow> 'b files \<Rightarrow> report_ids \<Rightarrow> report_ids \<Rightarrow> OpenAiRcaGenerator option \<Rightarrow> uuid
     \<Rightarrow> (RuntimeDB option, RcaReportV1 api_response) io"
where
  "generate_alert_rca env fs ids fallback_ids gen alert_id w =
     (case w of
        None \<Rightarrow> (Inr store_unavailable_response, w)
      | Some db \<Rightarrow>
     (if get_alert_detail (uuid_text env) db alert_id = None then (Inr alert_not_found_response, w) else
     (case gather_evidence env db fs None alert_id of
        Inl (AlertNotFound _) \<Rightarrow> (Inr alert_not_found_response, w)
      | Inl e \<Rightarrow> (Inl e, w)
      | Inr bundle \<Rightarrow>
     (case get_rca db (uuid_text env alert_id) (Some (rb_bundle_sha256 bundle)) of
        Some existing \<Rightarrow> (Inr (ApiOk 200 existing), w)
      | None \<Rightarrow>
     (case (case gen of None \<Rightarrow> evidence_only_report env fallback_ids bundle ''provider_not_configured''
              | Some g \<Rightarrow> generate_report env ids fallback_ids g bundle) of
        Inl e \<Rightarrow> (Inl e, w)
      | Inr report \<Rightarrow>
     (case save_rca (uuid_text env) db report of
        Inl _ \<Rightarrow> (Inr (ApiError 503 ''RCA_PERSISTENCE_FAILED'' ''RCA report could not be persisted; retry the request''), w)
      | Inr (db', saved) \<Rightarrow> (Inr (ApiOk 200 saved), Some db')))))))"

section \<open>The event stream of the console\<close>

text \<open>The events of the stream; a snapshot is empty when there is no store.\<close>

datatype sse_item =
    SseSnapshot "(ReplaySessionRecord option \<times> AlertSummaryRecord list) option"
  | SseResync
  | SseEvent ConsoleEventV1
  | SseHeartbeat

text \<open>What is sent before the live events.  \<open>last_event_id\<close> is the header; an empty header is \<open>Some None\<close>.\<close>

definition stream_start :: "RuntimeDB option \<Rightarrow> uuid \<Rightarrow> console_event_id option option \<Rightarrow> sse_item list" where
  "stream_start store session last_event_id =
     (let snapshot = SseSnapshot (map_option (\<lambda>db. (get_replay db session, list_alerts db session None 50)) store) in
      case (last_event_id, store) of
        (Some after, Some db) \<Rightarrow>
          (case events_after db session after 100 of
             [] \<Rightarrow> [SseResync, snapshot]
           | missed \<Rightarrow> snapshot # map SseEvent missed)
      | _ \<Rightarrow> [snapshot])"

text \<open>One round of the live loop: an item of the subscriber's queue, or the timeout.\<close>

fun live_item :: "queue_item option \<Rightarrow> sse_item" where
  "live_item None = SseHeartbeat"
| "live_item (Some ResyncRequired) = SseResync"
| "live_item (Some (Event e)) = SseEvent e"

definition encode_sse :: "string \<Rightarrow> string \<Rightarrow> string option \<Rightarrow> string" where
  "encode_sse event data sse_id =
     (case sse_id of Some i \<Rightarrow> if i \<noteq> [] then ''id: '' @ i @ [CHR 0x0A] else [] | None \<Rightarrow> []) @
     ''event: '' @ event @ [CHR 0x0A] @ ''data: '' @ data @ [CHR 0x0A, CHR 0x0A]"

section \<open>Scoring through the client\<close>

text \<open>What the client receives: the body of an unhandled exception is no JSON document.\<close>

definition http_of :: "exn + ScoreDecisionV1 api_response \<Rightarrow> ScoreResponse option http_outcome" where
  "http_of r = (case r of
      Inl _ \<Rightarrow> HttpResponse 500 None
    | Inr (ApiOk status d) \<Rightarrow> HttpResponse status (Some (ScoreResponseV1 d))
    | Inr (ApiError status c msg) \<Rightarrow> HttpResponse status (Some (ErrorResponseV1 \<lparr>code = c, api_message = msg\<rparr>)))"

definition api_client :: "string \<Rightarrow> RetryPolicy \<Rightarrow> ScoreResponse option ScoringClient" where
  "api_client model policy =
     \<lparr>sc_model_version = model, sc_retry_policy = policy,
      sc_decode_ok = (\<lambda>b. case b of Some (ScoreResponseV1 d) \<Rightarrow> Inr d | _ \<Rightarrow> Inl ''invalid JSON''),
      sc_decode_error = (\<lambda>b. case b of Some (ErrorResponseV1 e) \<Rightarrow> Some e | _ \<Rightarrow> None),
      sc_text = (\<lambda>_. ''Internal Server Error'')\<rparr>"

text \<open>A scoring call of the client whose every request is answered by the route.\<close>

definition call_api ::
  "(uuid_name \<Rightarrow> uuid) \<Rightarrow> (nat \<Rightarrow> datetime) \<Rightarrow> ChampionScorer \<Rightarrow> ScoreResponse option ScoringClient \<Rightarrow> FeatureVectorV1
     \<Rightarrow> (exn + ScoreDecisionV1) \<times> real list"
where
  "call_api uuid5 now s c f = score_feature c
     (\<lambda>n. http_of (score_route uuid5 (now n) s runtime_tz (\<lambda>_. False)
        \<lparr>sr_model_version = sc_model_version c, sr_feature_vector = f\<rparr>)) f"

definition well_formed_vector :: "FeatureVectorV1 \<Rightarrow> bool" where
  "well_formed_vector f \<longleftrightarrow> validate_coverage (\<lambda>_. False) (fv_coverage f) = Inr (fv_coverage f) \<and>
     validate_feature_vector runtime_tz f = Inr f"

lemma well_formed_vector_facts:
  assumes "well_formed_vector f"
  shows "is_hex64 (source_dataset_sha256 f)" "is_hex64 (contract_sha256 f)"
    "length (fv_feature_values f) = length (fv_feature_names f)" "list_all isfinite (fv_feature_values f)"
  using assms by (auto simp: well_formed_vector_def validate_feature_vector_def err_simps check_defs list_all_iff
      split: if_splits)

definition servable :: "ChampionScorer \<Rightarrow> bool" where
  "servable s \<longleftrightarrow> length (cs_median s) = length (cm_feature_names (cs_manifest s)) \<and>
     length (cs_mad s) = length (cm_feature_names (cs_manifest s)) \<and> sound_baseline s \<and>
     isfinite (cm_threshold (cs_manifest s)) \<and> cm_model_version (cs_manifest s) \<noteq> [] \<and>
     length (cm_model_version (cs_manifest s)) \<le> 200"

lemma identity_error:
  "validate_identity s f = Inl e \<Longrightarrow> \<exists>msg. e = ScoringContractError msg"
  by (auto simp: validate_identity_def split: if_splits)

lemma score_route_decision:
  assumes "servable s" "well_formed_vector f" "validate_identity s f = Inr ()"
    and "cs_detector s [fv_feature_values f] = Inr (Fin x # xs)"
  shows "\<exists>d. score_route uuid5 now s runtime_tz (\<lambda>_. False)
      \<lparr>sr_model_version = cm_model_version (cs_manifest s), sr_feature_vector = f\<rparr> = Inr (ApiOk 200 d) \<and>
    matches_feature (api_client (cm_model_version (cs_manifest s)) policy) f d \<and> score d = Fin x \<and>
    decision_id d = uuid5 (DecisionName (fv_window_id f) (cm_model_version (cs_manifest s))) \<and>
    (is_anomaly d \<longleftrightarrow> pf_le (cm_threshold (cs_manifest s)) (Fin x)) \<and>
    map feature_name (evidence_vector d) = fv_feature_names f \<and>
    map feature_value (evidence_vector d) = fv_feature_values f"
proof -
  note f = well_formed_vector_facts [OF assms(2)]
  obtain sv where sv: "score_vector s f = Inr sv" "sv_score sv = Fin x" "sv_threshold sv = cm_threshold (cs_manifest s)"
    "sv_is_anomaly sv \<longleftrightarrow> pf_le (cm_threshold (cs_manifest s)) (Fin x)"
    "map feature_name (sv_evidence_vector sv) = fv_feature_names f"
    "map feature_value (sv_evidence_vector sv) = fv_feature_values f"
    using champion_scores [of s f "Fin x" xs] assms f by (auto simp: servable_def)
  let ?r = "\<lparr>sr_model_version = cm_model_version (cs_manifest s), sr_feature_vector = f\<rparr>"
  have body: "valid_score_body runtime_tz (\<lambda>_. False) ?r"
    using assms(1,2) by (auto simp: valid_score_body_def well_formed_vector_def validate_score_request_def servable_def check_defs)
  have "validate_decision runtime_tz (score_decision uuid5 now s f sv) = Inr (score_decision uuid5 now s f sv)"
    using assms(1) f sv(2,3) by (auto simp: validate_decision_def score_decision_def Let_def check_defs servable_def Suc_le_eq)
  then have "score_route uuid5 now s runtime_tz (\<lambda>_. False) ?r = Inr (ApiOk 200 (score_decision uuid5 now s f sv))"
    using body sv(1) by (simp add: score_route_def handle_exceptions_def)
  then show ?thesis using sv by (auto simp: score_decision_def Let_def matches_feature_def api_client_def)
qed

lemma score_route_conflict:
  assumes "servable s" "well_formed_vector f" "validate_identity s f \<noteq> Inr ()"
  shows "\<exists>msg. score_route uuid5 now s runtime_tz (\<lambda>_. False)
      \<lparr>sr_model_version = cm_model_version (cs_manifest s), sr_feature_vector = f\<rparr> = Inr (ApiError 409 ''SCORING_CONTRACT_MISMATCH'' msg)"
proof -
  obtain e where e: "validate_identity s f = Inl e" using assms(3) by (cases "validate_identity s f") auto
  have "valid_score_body runtime_tz (\<lambda>_. False) \<lparr>sr_model_version = cm_model_version (cs_manifest s), sr_feature_vector = f\<rparr>"
    using assms(1,2) by (auto simp: valid_score_body_def well_formed_vector_def validate_score_request_def servable_def check_defs)
  then show ?thesis using identity_error [OF e] e by (auto simp: score_route_def score_vector_def handle_exceptions_def)
qed

text \<open>
  C14 (refinement): the scoring service is the loaded champion.  For a servable scorer and a well-formed
  feature vector, a call of the scoring client through the HTTP route makes one request and never sleeps.
  When contract, data set and feature order match the manifest it returns the decision with the detector's
  score, the manifest's threshold test, the deterministic id of window and model, and one evidence value per
  feature; otherwise it fails for good with the contract error and is not retried.
\<close>

theorem score_service_refines_champion:
  assumes "servable s" "well_formed_vector f" "cs_detector s [fv_feature_values f] = Inr (Fin x # xs)"
    and "0 < attempts policy"
  shows "if validate_identity s f = Inr ()
    then \<exists>d. call_api uuid5 now s (api_client (cm_model_version (cs_manifest s)) policy) f = (Inr d, []) \<and>
      matches_feature (api_client (cm_model_version (cs_manifest s)) policy) f d \<and> score d = Fin x \<and>
      decision_id d = uuid5 (DecisionName (fv_window_id f) (cm_model_version (cs_manifest s))) \<and>
      (is_anomaly d \<longleftrightarrow> pf_le (cm_threshold (cs_manifest s)) (Fin x)) \<and>
      map feature_name (evidence_vector d) = fv_feature_names f \<and>
      map feature_value (evidence_vector d) = fv_feature_values f
    else \<exists>msg. call_api uuid5 now s (api_client (cm_model_version (cs_manifest s)) policy) f =
      (Inl (PermanentScoringError (''SCORING_CONTRACT_MISMATCH: '' @ msg)), [])"
proof -
  let ?c = "api_client (cm_model_version (cs_manifest s)) policy"
  obtain n where n: "attempts policy = Suc n" using assms(4) gr0_conv_Suc by blast
  have req: "validate_score_request \<lparr>sr_model_version = sc_model_version ?c, sr_feature_vector = f\<rparr> \<noteq> Inl e" for e
    using assms(1) by (auto simp: validate_score_request_def servable_def check_defs api_client_def)
  have model: "sc_model_version ?c = cm_model_version (cs_manifest s)" "attempts (sc_retry_policy ?c) = Suc n"
    using n by (simp_all add: api_client_def)
  have call: "call_api uuid5 now s ?c f = score_loop ?c (\<lambda>n. http_of (score_route uuid5 (now n) s runtime_tz (\<lambda>_. False)
      \<lparr>sr_model_version = cm_model_version (cs_manifest s), sr_feature_vector = f\<rparr>)) f 0 (Suc n)"
    using req model by (auto simp: call_api_def score_feature_def split: sum.splits)
  show ?thesis
  proof (cases "validate_identity s f = Inr ()")
    case True
    from score_route_decision [OF assms(1,2) True assms(3), of uuid5 "now 0" policy] obtain d where
      d: "score_route uuid5 (now 0) s runtime_tz (\<lambda>_. False)
        \<lparr>sr_model_version = cm_model_version (cs_manifest s), sr_feature_vector = f\<rparr> = Inr (ApiOk 200 d)"
      "matches_feature ?c f d" "score d = Fin x"
      "decision_id d = uuid5 (DecisionName (fv_window_id f) (cm_model_version (cs_manifest s)))"
      "is_anomaly d \<longleftrightarrow> pf_le (cm_threshold (cs_manifest s)) (Fin x)"
      "map feature_name (evidence_vector d) = fv_feature_names f"
      "map feature_value (evidence_vector d) = fv_feature_values f" by blast
    have "attempt_outcome ?c (http_of (Inr (ApiOk 200 d))) f = Inr d"
      using d(2) by (simp add: attempt_outcome_def http_of_def validated_decision_def matches_feature_def api_client_def)
    then have "call_api uuid5 now s ?c f = (Inr d, [])" using d(1) by (simp add: call)
    with True d show ?thesis by auto
  next
    case False
    obtain msg where msg: "score_route uuid5 (now 0) s runtime_tz (\<lambda>_. False)
        \<lparr>sr_model_version = cm_model_version (cs_manifest s), sr_feature_vector = f\<rparr> = Inr (ApiError 409 ''SCORING_CONTRACT_MISMATCH'' msg)"
      using score_route_conflict [OF assms(1,2) False] by blast
    have "attempt_outcome ?c (http_of (Inr (ApiError 409 ''SCORING_CONTRACT_MISMATCH'' msg))) f =
        Inl (PermanentScoringError (''SCORING_CONTRACT_MISMATCH: '' @ msg))"
      by (simp add: attempt_outcome_def http_of_def validated_decision_def api_client_def retryable_statuses_def)
    then have "call_api uuid5 now s ?c f = (Inl (PermanentScoringError (''SCORING_CONTRACT_MISMATCH: '' @ msg)), [])"
      using msg by (simp add: call)
    with False show ?thesis by auto
  qed
qed

theorem score_service_refines_champion_witness:
  "(\<exists>d. call_api (\<lambda>_. 9) (\<lambda>_. 0) scorer_sample (api_client ''m1'' default_retry_policy) sample_feature = (Inr d, []) \<and>
      score d = Fin 4 \<and> is_anomaly d \<and> decision_id d = 9) \<and>
   (\<exists>msg. call_api (\<lambda>_. 9) (\<lambda>_. 0) scorer_sample (api_client ''m1'' default_retry_policy)
      (sample_feature\<lparr>fv_feature_names := [''other'']\<rparr>) = (Inl (PermanentScoringError (''SCORING_CONTRACT_MISMATCH: '' @ msg)), []))"
proof -
  let ?other = "sample_feature\<lparr>fv_feature_names := [''other'']\<rparr>"
  have s: "servable scorer_sample"
    by (simp add: servable_def scorer_sample_def champion_manifest_sample_def sound_baseline_def)
  have f: "well_formed_vector sample_feature" "well_formed_vector ?other"
    by (simp_all add: well_formed_vector_def sample_feature_def validate_coverage_def validate_feature_vector_def
        check_defs numeral_nat upt_rec)
  have x: "cs_detector scorer_sample [fv_feature_values sample_feature] = Inr (Fin 4 # [])"
    "cs_detector scorer_sample [fv_feature_values ?other] = Inr (Fin 4 # [])" "0 < attempts default_retry_policy"
    by (simp_all add: scorer_sample_def default_retry_policy_def)
  have i: "validate_identity scorer_sample sample_feature = Inr ()" "validate_identity scorer_sample ?other \<noteq> Inr ()"
    "cm_model_version (cs_manifest scorer_sample) = ''m1''" "cm_threshold (cs_manifest scorer_sample) = Fin 3"
    by (simp_all add: validate_identity_def scorer_sample_def champion_manifest_sample_def sample_feature_def)
  show ?thesis
    using score_service_refines_champion [OF s f(1) x(1,3), of "\<lambda>_. 9" "\<lambda>_. 0"]
      score_service_refines_champion [OF s f(2) x(2,3), of "\<lambda>_. 9" "\<lambda>_. 0"] i
    by auto
qed

section \<open>A reported alert keeps its report\<close>

lemma find_rca_append:
  "find_rca (db\<lparr>rca_reports := rca_reports db @ xs\<rparr>) alert bundle =
     (case find_rca db alert bundle of Some r \<Rightarrow> Some r
      | None \<Rightarrow> List.find (\<lambda>r. rca_alert_id r = alert \<and> evidence_bundle_sha256 r = bundle) (map snd xs))"
proof -
  have "List.find P (ys @ zs) = (case List.find P ys of Some r \<Rightarrow> Some r | None \<Rightarrow> List.find P zs)" for P :: "RcaReportV1 \<Rightarrow> bool" and ys zs
    by (induction ys) auto
  then show ?thesis by (simp add: find_rca_def)
qed

lemma save_rca_found:
  assumes "save_rca us db report = Inr (db', saved)"
  shows "saved = report" "find_rca db' (rca_alert_id report) (evidence_bundle_sha256 report) = Some report"
    "same_evidence db db'"
proof -
  from assms obtain db1 where db1: "db1 = db \<and> find_rca db (rca_alert_id report) (evidence_bundle_sha256 report) \<noteq> None \<or>
      find_rca db (rca_alert_id report) (evidence_bundle_sha256 report) = None \<and>
      db1 = db\<lparr>rca_reports := rca_reports db @ [(report_id report, report)]\<rparr>"
    "(case find_rca db1 (rca_alert_id report) (evidence_bundle_sha256 report) of
        None \<Rightarrow> Inr (db1, report)
      | Some existing \<Rightarrow> if existing \<noteq> report then Inl IdentityMismatchError else Inr (db1, existing)) = Inr (db', saved)"
    unfolding save_rca_def bind_err_eq_Inr by (auto split: if_splits)
  have "find_rca db1 (rca_alert_id report) (evidence_bundle_sha256 report) \<noteq> None"
    using db1(1) by (auto simp: find_rca_append)
  with db1(2) show "saved = report" "find_rca db' (rca_alert_id report) (evidence_bundle_sha256 report) = Some report"
    by (auto split: option.splits if_splits)
  show "same_evidence db db'" using db1 by (auto simp: same_evidence_def split: option.splits if_splits)
qed

lemma save_rca_fresh:
  assumes "find_rca db (rca_alert_id report) (evidence_bundle_sha256 report) = None"
    and "map_of (rca_reports db) (report_id report) = None" "rca_alert_id report \<in> set (map (us \<circ> fst) (alerts db))"
  shows "save_rca us db report = Inr (db\<lparr>rca_reports := rca_reports db @ [(report_id report, report)]\<rparr>, report)"
  using assms by (simp add: save_rca_def find_rca_append)

text \<open>The reports the route makes answer the bundle they were made for.\<close>

lemma made_report_identity:
  assumes "evidence_only_report env ids b reason = Inr r"
  shows "rca_alert_id r = rb_alert_id b" "evidence_bundle_sha256 r = rb_bundle_sha256 b"
  using assms by (auto simp: evidence_only_report_def Let_def bind_err_eq_Inr validate_rca_report_def run_checks_Inr)

lemma generated_report_identity:
  assumes "generate_report env ids fallback_ids g b = Inr r"
  shows "rca_alert_id r = rb_alert_id b \<and> evidence_bundle_sha256 r = rb_bundle_sha256 b"
proof (cases "bind_err (generate_draft g (document_text env (JObj (bundle_dump env b))) (map ri_evidence_id (rb_items b)))
    (complete_report env ids b (og_model g))")
  case (Inl e)
  with assms show ?thesis using made_report_identity by (auto simp: generate_report_def)
next
  case (Inr x)
  then obtain d where "complete_report env ids b (og_model g) d = Inr x" by (auto simp: bind_err_eq_Inr)
  moreover have "x = r" using Inr assms by (simp add: generate_report_def)
  ultimately show ?thesis by (auto simp: complete_report_def validate_rca_report_def run_checks_Inr)
qed

lemma answered_report:
  assumes "generate_alert_rca env fs ids fallback_ids gen alert_id (Some db) = (Inr (ApiOk 200 r), w)"
  obtains bu db' where "gather_evidence env db fs None alert_id = Inr bu" "w = Some db'" "same_evidence db db'"
    "get_rca db' (uuid_text env alert_id) (Some (rb_bundle_sha256 bu)) = Some r"
proof -
  from assms obtain bu where bu: "gather_evidence env db fs None alert_id = Inr bu"
    by (auto simp: generate_alert_rca_def alert_not_found_response_def split: if_splits sum.splits exn.splits)
  note b = gather_evidence_bundle [OF bu]
  have sha: "rb_bundle_sha256 bu \<noteq> []"
    using b(1) by (auto simp: validate_bundle_def is_hex64_def split: if_splits)
  show thesis
  proof (cases "get_rca db (uuid_text env alert_id) (Some (rb_bundle_sha256 bu))")
    case (Some existing)
    with assms b(4) bu have "existing = r" "w = Some db" by (simp_all add: generate_alert_rca_def)
    with that [OF bu] Some show thesis by (simp add: same_evidence_def)
  next
    case None
    with assms b(4) bu obtain report db' where made:
      "(case gen of None \<Rightarrow> evidence_only_report env fallback_ids bu ''provider_not_configured''
        | Some g \<Rightarrow> generate_report env ids fallback_ids g bu) = Inr report"
      "save_rca (uuid_text env) db report = Inr (db', r)" "w = Some db'"
      by (auto simp: generate_alert_rca_def split: sum.splits prod.splits)
    have "rca_alert_id report = rb_alert_id bu \<and> evidence_bundle_sha256 report = rb_bundle_sha256 bu"
      using made(1) by (cases gen) (auto dest: made_report_identity generated_report_identity)
    then have "rca_alert_id report = uuid_text env alert_id" "evidence_bundle_sha256 report = rb_bundle_sha256 bu"
      using b(3) by simp_all
    with save_rca_found [OF made(2)] sha have "get_rca db' (uuid_text env alert_id) (Some (rb_bundle_sha256 bu)) = Some r"
      by (simp add: get_rca_def)
    with that [OF bu] made(3) save_rca_found(3) [OF made(2)] show thesis by blast
  qed
qed

text \<open>
  C16 (safety): the first report on an alert's evidence is final.  Once the route has answered with a report,
  every later request on the same alert, as long as its evidence is unchanged and reports are only added,
  is answered with that report and changes nothing, whatever provider is configured by then.  The report of
  a provider outage is stored like any other, so an outage during the first request makes the analysis of
  that evidence UNAVAILABLE for good.
\<close>

theorem first_rca_is_final:
  assumes "generate_alert_rca env fs ids fallback_ids gen alert_id (Some db) = (Inr (ApiOk 200 r), Some db1)"
    and "same_evidence db1 db2" "rca_reports db2 = rca_reports db1 @ later"
  shows "generate_alert_rca env fs ids2 fallback_ids2 gen2 alert_id (Some db2) = (Inr (ApiOk 200 r), Some db2)"
proof -
  obtain bu db' where st: "gather_evidence env db fs None alert_id = Inr bu" "Some db1 = Some db'" "same_evidence db db'"
    "get_rca db' (uuid_text env alert_id) (Some (rb_bundle_sha256 bu)) = Some r"
    by (rule answered_report [OF assms(1)])
  have same: "same_evidence db db2" using st(2,3) assms(2) by (simp add: same_evidence_def)
  have g: "gather_evidence env db2 fs None alert_id = Inr bu" 
    unfolding gather_same_evidence [OF same] by (rule st(1))
  note b = gather_evidence_bundle [OF g]
  have sha: "rb_bundle_sha256 bu \<noteq> []"
    using b(1) by (auto simp: validate_bundle_def is_hex64_def split: if_splits)
  have "find_rca db1 (uuid_text env alert_id) (rb_bundle_sha256 bu) = Some r"
    using st(2,4) sha by (simp add: get_rca_def)
  moreover have "find_rca db2 a b = find_rca (db1\<lparr>rca_reports := rca_reports db1 @ later\<rparr>) a b" for a b
    using assms(3) by (simp add: find_rca_def)
  ultimately have "get_rca db2 (uuid_text env alert_id) (Some (rb_bundle_sha256 bu)) = Some r"
    using sha by (simp add: get_rca_def find_rca_append)
  with g b(4) show ?thesis by (auto simp: generate_alert_rca_def)
qed

lemma new_report_stored:
  assumes "gather_evidence env db fs None alert_id = Inr bu" "find_rca db (uuid_text env alert_id) (rb_bundle_sha256 bu) = None"
    and "generate_report env ids fallback_ids g bu = Inr r" "grounded bu r" "map_of (rca_reports db) (report_id r) = None"
  shows "generate_alert_rca env fs ids fallback_ids (Some g) alert_id (Some db) =
    (Inr (ApiOk 200 r), Some (db\<lparr>rca_reports := rca_reports db @ [(report_id r, r)]\<rparr>))"
proof -
  note b = gather_evidence_bundle [OF assms(1)]
  have ids: "rca_alert_id r = uuid_text env alert_id" "evidence_bundle_sha256 r = rb_bundle_sha256 bu"
    using assms(4) b(3) by (simp_all add: grounded_def)
  have "alert_id \<in> fst ` set (alerts db)"
    using b(4) by (force simp: get_alert_detail_def dest: map_of_SomeD split: option.splits)
  then have saved: "save_rca (uuid_text env) db r = Inr (db\<lparr>rca_reports := rca_reports db @ [(report_id r, r)]\<rparr>, r)"
    using assms(2,5) ids by (intro save_rca_fresh) auto
  have none: "get_rca db (uuid_text env alert_id) (Some (rb_bundle_sha256 bu)) = None"
    using assms(2) b(1) by (auto simp: get_rca_def validate_bundle_def is_hex64_def split: if_splits)
  show ?thesis
    using assms(1,3) b(4) none saved by (auto simp: generate_alert_rca_def)
qed

text \<open>
  C15 (functional): reports are grounded in the evidence.  For an alert whose evidence was gathered (the four
  tools in their order, with different evidence ids) and has no report yet, the route answers with a valid
  report that is stored: its evidence ids are those of the bundle and every observation cites at least one
  of them and nothing else.  It is COMPLETE exactly when the provider answered with a draft that passes
  validation and cites known evidence only, and then carries that draft; any other answer or exception of
  the provider gives the UNAVAILABLE evidence-only report.
\<close>

theorem rca_reports_grounded:
  assumes "gather_evidence env db fs None alert_id = Inr bu" "distinct (map ri_evidence_id (rb_items bu))"
    and "\<forall>e. length (class_name env e) \<le> 400"
    and "find_rca db (uuid_text env alert_id) (rb_bundle_sha256 bu) = None"
    and "map_of (rca_reports db) (''rca-'' @ rn_hex12 ids) = None"
    and "map_of (rca_reports db) (''rca-fallback-'' @ rn_hex12 fallback_ids) = None"
  shows "\<exists>r db'. generate_alert_rca env fs ids fallback_ids (Some g) alert_id (Some db) = (Inr (ApiOk 200 r), Some db') \<and>
    rca_reports db' = rca_reports db @ [(report_id r, r)] \<and> grounded bu r \<and>
    map ri_tool_name (rb_items bu) = RCA_TOOL_NAMES \<and> validate_rca_report runtime_tz r = Inr r \<and>
    (case generate_draft g (document_text env (JObj (bundle_dump env bu))) (map ri_evidence_id (rb_items bu)) of
       Inr d \<Rightarrow> rca_status r = RCA_COMPLETE \<and> rca_summary r = pd_summary d \<and> observations r = pd_observations d
     | Inl _ \<Rightarrow> rca_status r = RCA_UNAVAILABLE)"
proof -
  obtain r where r: "generate_report env ids fallback_ids g bu = Inr r" "grounded bu r"
    "validate_rca_report runtime_tz r = Inr r"
    "case generate_draft g (document_text env (JObj (bundle_dump env bu))) (map ri_evidence_id (rb_items bu)) of
       Inr d \<Rightarrow> rca_status r = RCA_COMPLETE \<and> rca_summary r = pd_summary d \<and> observations r = pd_observations d \<and>
         report_id r = ''rca-'' @ rn_hex12 ids
     | Inl _ \<Rightarrow> rca_status r = RCA_UNAVAILABLE \<and> report_id r = ''rca-fallback-'' @ rn_hex12 fallback_ids"
    using generate_report_grounded [OF gathered_sound [OF assms(1,2)] assms(3)] by blast
  have "map_of (rca_reports db) (report_id r) = None"
    using r(4) assms(5,6) by (auto split: sum.splits)
  from new_report_stored [OF assms(1,4) r(1,2) this] show ?thesis
    using gather_evidence_bundle(2) [OF assms(1)] r(2-4) by (auto split: sum.splits)
qed

section \<open>A sample alert\<close>

definition tool_digits :: "(string \<times> char) list" where
  "tool_digits = zip RCA_TOOL_NAMES ''1234''"

text \<open>Documents are their own texts; the digest of an item repeats a digit of its tool.\<close>

definition rca_env_sample :: "Provenance.json rca_env" where
  "rca_env_sample = \<lparr>render = (\<lambda>d. d), loads = Inr,
     sha256_bytes = (\<lambda>d. case d of
         JObj [(_, _), (_, Provenance.JText t)] \<Rightarrow> (case map_of tool_digits t of Some c \<Rightarrow> replicate 64 c | None \<Rightarrow> zero_sha)
       | _ \<Rightarrow> zero_sha),
     repr_json = (\<lambda>_. []), float_text = (\<lambda>_. Inl (ValueError ''could not convert string to float'')),
     uuid_text = (\<lambda>_. ''u''), uuid_of_text = (\<lambda>_. None), isoformat = (\<lambda>_. ''t''), isoformat_utc = (\<lambda>_. ''t''),
     document_text = (\<lambda>_. ''{}''), class_name = (\<lambda>_. ''Exception'')\<rparr>"

definition alert_db_sample :: RuntimeDB where
  "alert_db_sample = empty_db\<lparr>alerts := [(5, \<lparr>al_alert_id = 5, al_replay_session_id = 7, al_machine_id = ''metropt3'',
     al_state = ROW_OPEN, al_first_detection = 0, al_last_detection = seconds 300, al_resolved_at = None,
     al_latest_decision_id = 2, al_policy_sha256 = zero_sha\<rparr>)]\<rparr>"

definition ids_sample :: report_ids where
  "ids_sample = \<lparr>rn_message_id = 3, rn_session_id = 4, rn_hex12 = ''0'', rn_now = 0\<rparr>"

definition draft_sample :: ProviderRcaDraft where
  "draft_sample = \<lparr>pd_summary = ''s'',
     pd_observations = [\<lparr>obs_claim = ''c'', obs_evidence_ids = [''evidence-'' @ replicate 24 CHR ''2'']\<rparr>],
     pd_uncertainty = [''u''], pd_next_checks = []\<rparr>"

definition generator_sample :: "exn + ProviderRcaDraft option \<Rightarrow> OpenAiRcaGenerator" where
  "generator_sample answer = \<lparr>og_client = (\<lambda>_ _. answer), og_model = ''gpt'', og_timeout_seconds = Fin 20\<rparr>"

lemma sample_digest_long: "length kvs \<noteq> 2 \<Longrightarrow> sha256_bytes rca_env_sample (JObj kvs) = zero_sha"
  by (auto simp: rca_env_sample_def split: list.splits prod.splits Provenance.json.splits)

lemma has_nan_obj: "has_nan (JObj kvs) \<longleftrightarrow> (\<exists>v \<in> snd ` set kvs. has_nan v)"
  by (force simp: list_ex_iff)

lemma sample_item:
  assumes "\<not> has_nan (JObj facts)" "map_of tool_digits tool = Some c"
  shows "new_item rca_env_sample tool alert facts = Inr \<lparr>ri_evidence_id = ''evidence-'' @ replicate 24 c, ri_tool_name = tool,
    ri_observed_at = al_last_detection alert, ri_facts = facts\<rparr>"
proof -
  have nan: "\<not> has_nan (JObj (sort_key fst facts))" using assms(1) unfolding has_nan_obj by simp
  have "sha256_bytes rca_env_sample (render rca_env_sample (sort_keys
      (JObj [(''facts'', JObj (sort_key fst facts)), (''tool_name'', Provenance.JText tool)]))) = replicate 64 c"
    using assms(2) by (simp add: rca_env_sample_def)
  moreover have "\<not> has_nan (JObj [(''facts'', JObj (sort_key fst facts)), (''tool_name'', Provenance.JText tool)])"
    using nan unfolding has_nan_obj [of "[_, _]"] by simp
  ultimately have "evidence_id rca_env_sample tool facts = Inr (''evidence-'' @ replicate 24 c)"
    by (simp only: evidence_id_def json_sha256_def canonical_json_bytes_def if_False bind_err_Inr take_replicate) simp
  moreover have "tool \<in> set RCA_TOOL_NAMES"
    using assms(2) by (auto simp: tool_digits_def dest!: map_of_SomeD set_zip_leftD)
  ultimately show ?thesis by (simp add: new_item_def)
qed

lemma sample_bundle:
  obtains bu where "gather_evidence rca_env_sample alert_db_sample (\<lambda>_. None) None 5 = Inr bu"
    "map ri_evidence_id (rb_items bu) = map (\<lambda>c. ''evidence-'' @ replicate 24 c) ''1234''"
proof -
  let ?e = rca_env_sample and ?a = "snd (hd (alerts alert_db_sample))"
  let ?d = "\<lparr>ad_alert = ?a, ad_events = [], ad_evidence = [], ad_decisions = [], ad_rca = None\<rparr> :: AlertDetailRecord"
  have detail: "get_alert_detail (uuid_text ?e) alert_db_sample 5 = Some ?d"
    by (simp add: get_alert_detail_def alert_db_sample_def latest_rca_def)
  have tools: "map_of tool_digits ''get_alert'' = Some CHR ''1''" "map_of tool_digits ''get_score_evidence'' = Some CHR ''2''"
    "map_of tool_digits ''get_model_provenance'' = Some CHR ''3''" "map_of tool_digits ''get_system_health'' = Some CHR ''4''"
    by (simp_all add: tool_digits_def RCA_TOOL_NAMES_def)
  have facts: "\<exists>f. get_alert_evidence ?e ?d = new_item ?e ''get_alert'' ?a f \<and> \<not> has_nan (JObj f)"
    "\<exists>f. get_score_evidence ?e ?d = new_item ?e ''get_score_evidence'' ?a f \<and> \<not> has_nan (JObj f)"
    "\<exists>f. get_model_provenance_evidence ?e (\<lambda>_. None) None ?d = new_item ?e ''get_model_provenance'' ?a f \<and> \<not> has_nan (JObj f)"
    "\<exists>f. get_system_health_evidence ?e ?d = new_item ?e ''get_system_health'' ?a f \<and> \<not> has_nan (JObj f)"
    unfolding has_nan_obj get_alert_evidence_def get_score_evidence_def get_model_provenance_evidence_def
      get_system_health_evidence_def Let_def
    by (simp_all add: manifest_facts_def del: has_nan.simps, (intro exI conjI, rule refl, simp)+)
  obtain f1 f2 f3 f4 where items:
    "get_alert_evidence ?e ?d = new_item ?e ''get_alert'' ?a f1" "\<not> has_nan (JObj f1)"
    "get_score_evidence ?e ?d = new_item ?e ''get_score_evidence'' ?a f2" "\<not> has_nan (JObj f2)"
    "get_model_provenance_evidence ?e (\<lambda>_. None) None ?d = new_item ?e ''get_model_provenance'' ?a f3" "\<not> has_nan (JObj f3)"
    "get_system_health_evidence ?e ?d = new_item ?e ''get_system_health'' ?a f4" "\<not> has_nan (JObj f4)"
    using facts by (elim exE conjE)
  let ?i = "\<lambda>c t f. \<lparr>ri_evidence_id = ''evidence-'' @ replicate 24 c, ri_tool_name = t,
    ri_observed_at = al_last_detection ?a, ri_facts = f\<rparr>"
  let ?items = "[?i CHR ''1'' ''get_alert'' f1, ?i CHR ''2'' ''get_score_evidence'' f2,
    ?i CHR ''3'' ''get_model_provenance'' f3, ?i CHR ''4'' ''get_system_health'' f4]"
  let ?raw = "raw_bundle ?e 5 [] ?items"
  let ?doc = "AList.update ''bundle_sha256'' (Provenance.JText []) (bundle_dump ?e ?raw)"
  have "\<not> has_nan (JObj ?doc)"
    using items(2,4,6,8) unfolding bundle_dump_def raw_bundle_def by (simp add: item_dump_def)
  then have "compute_self_hash ?e (bundle_dump ?e ?raw) ''bundle_sha256'' = Inr zero_sha"
    using sample_digest_long [of "sort_key fst (map (map_prod id sort_keys) ?doc)"]
    by (simp add: compute_self_hash_def json_sha256_def canonical_json_bytes_def bundle_dump_def)
      (simp add: rca_env_sample_def)
  moreover have "validate_bundle (?raw\<lparr>rb_bundle_sha256 := zero_sha\<rparr>) = Inr (?raw\<lparr>rb_bundle_sha256 := zero_sha\<rparr>)"
    by (simp add: validate_bundle_def raw_bundle_def rca_env_sample_def)
  ultimately have "gather_evidence ?e alert_db_sample (\<lambda>_. None) None 5 = Inr (?raw\<lparr>rb_bundle_sha256 := zero_sha\<rparr>)"
    using items sample_item tools by (simp add: gather_evidence_def detail Let_def)
  then show thesis by (rule that) (simp add: raw_bundle_def)
qed

lemma sample_generates:
  assumes "gather_evidence rca_env_sample alert_db_sample (\<lambda>_. None) None 5 = Inr bu"
    and "map ri_evidence_id (rb_items bu) = map (\<lambda>c. ''evidence-'' @ replicate 24 c) ''1234''"
  shows "generate_draft (generator_sample (Inr (Some draft_sample))) js (map ri_evidence_id (rb_items bu)) = Inr draft_sample"
    "generate_draft (generator_sample (Inl e)) js (map ri_evidence_id (rb_items bu)) = Inl e"
    "distinct (map ri_evidence_id (rb_items bu))" "\<forall>e. length (class_name rca_env_sample e) \<le> 400"
    "find_rca alert_db_sample a b = None" "map_of (rca_reports alert_db_sample) i = None"
  unfolding assms(2)
  by (simp_all add: generate_draft_def generator_sample_def validate_draft_def draft_sample_def validate_rca_observation_def
      check_defs check_citations_def rca_env_sample_def find_rca_def alert_db_sample_def)

theorem rca_reports_grounded_witness:
  "\<exists>r db. generate_alert_rca rca_env_sample (\<lambda>_. None) ids_sample ids_sample
      (Some (generator_sample (Inr (Some draft_sample)))) 5 (Some alert_db_sample) = (Inr (ApiOk 200 r), Some db) \<and>
     rca_status r = RCA_COMPLETE \<and> rca_summary r = ''s''"
proof -
  obtain bu where bu: "gather_evidence rca_env_sample alert_db_sample (\<lambda>_. None) None 5 = Inr bu"
    "map ri_evidence_id (rb_items bu) = map (\<lambda>c. ''evidence-'' @ replicate 24 c) ''1234''"
    by (rule sample_bundle)
  note s = sample_generates [OF bu]
  from rca_reports_grounded [OF bu(1) s(3-6) s(6), of ids_sample ids_sample "generator_sample (Inr (Some draft_sample))"]
  show ?thesis unfolding s(1) by (auto simp: draft_sample_def)
qed

theorem first_rca_is_final_witness:
  "\<exists>r db. generate_alert_rca rca_env_sample (\<lambda>_. None) ids_sample ids_sample
      (Some (generator_sample (Inl (RuntimeError ''timeout'')))) 5 (Some alert_db_sample) = (Inr (ApiOk 200 r), Some db) \<and>
     rca_status r = RCA_UNAVAILABLE \<and>
     generate_alert_rca rca_env_sample (\<lambda>_. None) ids_sample ids_sample
      (Some (generator_sample (Inr (Some draft_sample)))) 5 (Some db) = (Inr (ApiOk 200 r), Some db)"
proof -
  let ?g = "generator_sample (Inl (RuntimeError ''timeout''))"
  obtain bu where bu: "gather_evidence rca_env_sample alert_db_sample (\<lambda>_. None) None 5 = Inr bu"
    "map ri_evidence_id (rb_items bu) = map (\<lambda>c. ''evidence-'' @ replicate 24 c) ''1234''"
    by (rule sample_bundle)
  note s = sample_generates [OF bu]
  obtain r where r: "generate_report rca_env_sample ids_sample ids_sample ?g bu = Inr r" "grounded bu r" "rca_status r = RCA_UNAVAILABLE"
    using generate_report_grounded [OF gathered_sound [OF bu(1) s(3)] s(4), of ids_sample ids_sample ?g] unfolding s(2) by auto
  note first = new_report_stored [OF bu(1) s(5) r(1,2) s(6)]
  note first_rca_is_final [OF first, of "alert_db_sample\<lparr>rca_reports := rca_reports alert_db_sample @ [(report_id r, r)]\<rparr>" "[]"
      ids_sample ids_sample "Some (generator_sample (Inr (Some draft_sample)))"]
  then show ?thesis using first r(3) by (auto simp: same_evidence_def)
qed

section \<open>A replay started through the interface\<close>

text \<open>
  C39 (error): the interface cannot start a replay.  A scorer loaded from a package holds a manifest object,
  whose digests \<open>start_replay\<close> does not read: the command it publishes carries two zero digests.  For every
  valid request the route answers 202 with a session id, and the replay service, when its source has other
  digests, publishes a FAILED status with \<open>REPLAY_SOURCE_IDENTITY_MISMATCH\<close> for that session and starts nothing.
\<close>

theorem api_start_is_refused:
  assumes "sq_range_start body < sq_range_end body" "sq_speed body \<in> {1, 100, 1000}"
    and "is_hex64 (src_source_dataset_sha256 (rv_source sv))" "is_hex64 (src_contract_sha256 (rv_source sv))"
    and "src_source_dataset_sha256 (rv_source sv) \<noteq> zero_sha \<or> src_contract_sha256 (rv_source sv) \<noteq> zero_sha"
    and "\<not> session_running w" "sl_send sl = Acked"
  shows "\<exists>cmd st. start_replay (Some in_memory_producer) None ids now (\<lambda>_. False) body commands =
      (Inr (ApiOk 202 (rq_session ids)), commands @ [cmd]) \<and>
    handle_command sv sl cmd w = (Inr (), w\<lparr>rw_statuses := rw_statuses w @ [st]\<rparr>) \<and> status_state st = FAILED \<and>
    status_error_code st = Some ''REPLAY_SOURCE_IDENTITY_MISMATCH'' \<and> replay_session_id st = rq_session ids"
proof -
  let ?cmd = "start_command_of None ids now body"
  have cmd: "source_dataset_sha256 ?cmd = zero_sha" "contract_sha256 ?cmd = zero_sha" "action ?cmd = START"
    "replay_session_id ?cmd = rq_session ids"
    by (simp_all add: start_command_of_def Let_def)
  have tz: "command_tz (\<lambda>_. False) = runtime_tz" by (rule ext) (simp add: command_tz_def runtime_tz_def)
  have "validate_command runtime_tz ?cmd = Inr ?cmd"
    using assms(1,2) by (simp add: validate_command_def validate_start_command_def start_command_of_def Let_def check_defs)
  then have start: "start_replay (Some in_memory_producer) None ids now (\<lambda>_. False) body commands =
      (Inr (ApiOk 202 (rq_session ids)), commands @ [?cmd])"
    using assms(1,2) by (simp add: start_replay_def bounded_range_def tz publish_or_503_def in_memory_producer_def)
  let ?c = "mark_failed (created (rq_session ids) (src_source_dataset_sha256 (rv_source sv)) (src_contract_sha256 (rv_source sv)))
    ''REPLAY_SOURCE_IDENTITY_MISMATCH'' 0 (source_timestamp ?cmd)"
  obtain st where st: "controller_status (rv_uuid5 sv) ?c (sl_now sl) = Inr st" "status_state st = FAILED"
    "status_error_code st = Some ''REPLAY_SOURCE_IDENTITY_MISMATCH''" "replay_session_id st = rq_session ids"
    using assms(3,4) by (simp add: controller_status_def mark_failed_def created_def runtime_id_def validate_status_def
        check_defs first_some_def)
  have "handle_command sv sl ?cmd w = (Inr (), w\<lparr>rw_statuses := rw_statuses w @ [st]\<rparr>)"
    using assms(5-7) cmd st(1)
    by (auto simp: handle_command_def handle_start_command_def publish_controller_def publish_status_def send_def bind_io_def
        lift_io_def)
  with start st show ?thesis by blast
qed

theorem api_start_is_refused_witness:
  "\<exists>cmd st. start_replay (Some in_memory_producer) None \<lparr>rq_session = 1, rq_message = 2, rq_command = 3\<rparr> 0 (\<lambda>_. False)
      \<lparr>sq_range_start = 0, sq_range_end = 10, sq_speed = 100\<rparr> [] = (Inr (ApiOk 202 1), [cmd]) \<and>
    status_error_code st = Some ''REPLAY_SOURCE_IDENTITY_MISMATCH'' \<and>
    handle_command \<lparr>rv_source = sample_source\<lparr>src_contract_sha256 := replicate 64 CHR ''1''\<rparr>, rv_enable_pacing = False,
        rv_uuid5 = (\<lambda>_. 0)\<rparr> \<lparr>sl_now = 0, sl_uuid = 1, sl_command_uuid = 2, sl_clock = (\<lambda>_. 0), sl_send = Acked\<rparr> cmd
      \<lparr>rw_db = None, rw_telemetry = [], rw_statuses = [], rw_quarantine = [], rw_active = None\<rparr> =
    (Inr (), \<lparr>rw_db = None, rw_telemetry = [], rw_statuses = [st], rw_quarantine = [], rw_active = None\<rparr>)"
proof -
  let ?body = "\<lparr>sq_range_start = 0, sq_range_end = 10, sq_speed = 100\<rparr>"
  let ?sv = "\<lparr>rv_source = sample_source\<lparr>src_contract_sha256 := replicate 64 CHR ''1''\<rparr>, rv_enable_pacing = False, rv_uuid5 = (\<lambda>_. 0)\<rparr>"
  let ?sl = "\<lparr>sl_now = 0, sl_uuid = 1, sl_command_uuid = 2, sl_clock = (\<lambda>_. 0), sl_send = Acked\<rparr>"
  let ?w = "\<lparr>rw_db = None, rw_telemetry = [], rw_statuses = [], rw_quarantine = [], rw_active = None\<rparr>"
  let ?ids = "\<lparr>rq_session = 1, rq_message = 2, rq_command = 3\<rparr>"
  have "sq_range_start ?body < sq_range_end ?body" "sq_speed ?body \<in> {1, 100, 1000}"
    "is_hex64 (src_source_dataset_sha256 (rv_source ?sv))" "is_hex64 (src_contract_sha256 (rv_source ?sv))"
    "src_source_dataset_sha256 (rv_source ?sv) \<noteq> zero_sha \<or> src_contract_sha256 (rv_source ?sv) \<noteq> zero_sha"
    "\<not> session_running ?w" "sl_send ?sl = Acked"
    by (simp_all add: sample_source_def is_hex64_def list_all_iff hex_chars_def zero_sha_def session_running_def)
  from api_start_is_refused [OF this, of ?ids 0 "[]"] show ?thesis by auto
qed

section \<open>A reconnecting console\<close>

text \<open>
  C40 (error): a console that reconnects gets at most a hundred missed events.  With the id of a stored event
  in \<open>Last-Event-ID\<close> the stream begins with the snapshot and the next hundred durable events of the session
  in order; what lies beyond them is skipped without a \<open>resync_required\<close>.  A console that missed nothing is
  told to resynchronise, as if its id were unknown.
\<close>

theorem reconnect_delivers_hundred:
  assumes "console_inv db" "session_log db session = seen @ e # missed"
  shows "stream_start (Some db) session (Some (Some (ce_event_id e))) =
    (if missed = [] then [SseResync, SseSnapshot (Some (get_replay db session, list_alerts db session None 50))]
     else SseSnapshot (Some (get_replay db session, list_alerts db session None 50)) # map SseEvent (take 100 missed))"
  by (simp add: stream_start_def Let_def events_after_log(2) [OF assms] split: list.split)

theorem reconnect_delivers_hundred_witness:
  "\<exists>db. fold_err append_console_event sample_console_db (map sample_console_event [1, 2, 3]) = Inr db \<and>
     stream_start (Some db) 7 (Some (Some (ce_event_id (sample_console_event 1)))) =
       [SseSnapshot (Some (get_replay db 7, list_alerts db 7 None 50)), SseEvent (sample_console_event 2), SseEvent (sample_console_event 3)]"
proof -
  let ?es = "map sample_console_event [1, 2, 3]"
  obtain db where db: "fold_err append_console_event sample_console_db ?es = Inr db"
    and log: "session_log db 7 = [] @ sample_console_event 1 # [sample_console_event 2, sample_console_event 3]"
    by (simp add: sample_console_db_def record_replay_status_def append_console_event_def upsert_def
        sample_console_event_def decode_console_def sample_status_def session_log_def)
  have "console_inv sample_console_db" "list_all ce_durable ?es"
    by (simp_all add: console_inv_def sample_console_db_def record_replay_status_def keys_def sample_console_event_def decode_console_def)
  then have "console_inv db" using append_run_inv db by blast
  from reconnect_delivers_hundred [OF this log] db show ?thesis by (intro exI [of _ db]) simp
qed

end
