(* ===== verification/Lab_Contracts.thy ===== *)
theory Lab_Contracts
  imports Runtime_Messages Tables
begin

text \<open>
  \<open>lab/contracts.py\<close>: the equipment, pipes and sensors of a virtual lab with the constraints of
  their classes, and the structural validation that decides whether a lab can be run.

  A parameter value is a float or a boolean; a boolean is also a number, as in Python.  The digest of
  a definition (SHA-256 of its canonical JSON) is an argument; error messages are left out, error
  codes and the references they carry are kept.
\<close>

datatype AssetType = COMPRESSOR | TANK | ISOLATION_VALVE | CONTROL_VALVE | DEMAND
datatype PortName = Port_A | Port_B | Port_OUT | Port_IN
datatype SensorKind = PRESSURE | FLOW

fun VALID_PORTS_BY_ASSET_TYPE :: "AssetType \<Rightarrow> PortName list" where
  "VALID_PORTS_BY_ASSET_TYPE COMPRESSOR = [Port_OUT]"
| "VALID_PORTS_BY_ASSET_TYPE TANK = [Port_A, Port_B]"
| "VALID_PORTS_BY_ASSET_TYPE ISOLATION_VALVE = [Port_A, Port_B]"
| "VALID_PORTS_BY_ASSET_TYPE CONTROL_VALVE = [Port_A, Port_B]"
| "VALID_PORTS_BY_ASSET_TYPE DEMAND = [Port_IN]"

datatype param = PFloat pyfloat | PBool bool

fun num_of :: "param \<Rightarrow> pyfloat" where
  "num_of (PFloat v) = v"
| "num_of (PBool b) = Fin (if b then 1 else 0)"

fun DEFAULT_PARAMETERS_BY_ASSET_TYPE :: "AssetType \<Rightarrow> (string, param) table" where
  "DEFAULT_PARAMETERS_BY_ASSET_TYPE TANK =
     [(''volume_m3'', PFloat (Fin (1 / 2))), (''initial_pressure_pa'', PFloat (Fin 400000))]"
| "DEFAULT_PARAMETERS_BY_ASSET_TYPE COMPRESSOR =
     [(''q_nom_kg_s'', PFloat (Fin (2 / 100))), (''p_max_pa'', PFloat (Fin 900000)), (''load'', PFloat (Fin 1)),
      (''enabled'', PBool True), (''initial_pressure_pa'', PFloat (Fin 400000))]"
| "DEFAULT_PARAMETERS_BY_ASSET_TYPE ISOLATION_VALVE =
     [(''conductance_kg_s_pa'', PFloat (Fin (2 / 10 ^ 7))), (''opening'', PFloat (Fin 1)),
      (''initial_pressure_pa'', PFloat (Fin 400000))]"
| "DEFAULT_PARAMETERS_BY_ASSET_TYPE CONTROL_VALVE =
     [(''conductance_kg_s_pa'', PFloat (Fin (2 / 10 ^ 7))), (''opening'', PFloat (Fin 1)),
      (''initial_pressure_pa'', PFloat (Fin 400000))]"
| "DEFAULT_PARAMETERS_BY_ASSET_TYPE DEMAND =
     [(''conductance_kg_s_pa'', PFloat (Fin (1 / 10 ^ 8))), (''load_factor'', PFloat (Fin 1)),
      (''initial_pressure_pa'', PFloat (Fin 400000))]"

record PortRef =
  pr_asset_id :: uuid
  pr_port :: PortName

type_synonym point = "pyfloat \<times> pyfloat \<times> pyfloat"

record Asset =
  asset_id :: uuid
  asset_type :: AssetType
  position_m :: point
  rotation_y_rad :: pyfloat
  parameters :: "(string, param) table"

record Pipe =
  pipe_id :: uuid
  from_port :: PortRef
  to_port :: PortRef
  conductance_kg_s_pa :: pyfloat
  waypoints_m :: "point list"

datatype sensor_target = PortTarget PortRef | PipeTarget uuid

record Sensor =
  sensor_id :: uuid
  sensor_kind :: SensorKind
  sensor_target :: sensor_target
  noise_std :: pyfloat
  alarm_low :: "pyfloat option"
  alarm_high :: "pyfloat option"

record LabDefinition =
  lab_id :: uuid
  revision :: int
  lab_name :: string
  assets :: "Asset list"
  pipes :: "Pipe list"
  sensors :: "Sensor list"
  scene_revision :: string

section \<open>Field constraints\<close>

definition in_bounds :: "real \<Rightarrow> real \<Rightarrow> pyfloat \<Rightarrow> bool" where
  "in_bounds lo hi v \<longleftrightarrow> pf_le (Fin lo) v \<and> pf_le v (Fin hi)"

fun finite_point :: "point \<Rightarrow> bool" where
  "finite_point (x, y, z) \<longleftrightarrow> isfinite x \<and> isfinite y \<and> isfinite z"

definition validate_position :: "point \<Rightarrow> exn + point" where
  "validate_position p = (case p of (x, y, z) \<Rightarrow> run_checks
     [(\<not> finite_point p, ValueError ''position_m coordinates must be finite''),
      (\<not> in_bounds (- 12) 12 x, ValueError ''position X out of range''),
      (pf_lt (Fin (1 / 10 ^ 6)) (pf_abs y), ValueError ''position Y must be 0''),
      (\<not> in_bounds (- 8) 8 z, ValueError ''position Z out of range'')] (x, Fin 0, z))"

definition merged_param :: "Asset \<Rightarrow> string \<Rightarrow> param" where
  "merged_param a k = (case map_of (parameters a) k of Some v \<Rightarrow> v
     | None \<Rightarrow> (case map_of (DEFAULT_PARAMETERS_BY_ASSET_TYPE (asset_type a)) k of
         Some v \<Rightarrow> v | None \<Rightarrow> PBool False))"

definition bound_check :: "Asset \<Rightarrow> string \<Rightarrow> real \<Rightarrow> real \<Rightarrow> bool \<times> exn" where
  "bound_check a k lo hi = (\<not> in_bounds lo hi (num_of (merged_param a k)), ValueError (k @ '' out of range''))"

definition type_checks :: "Asset \<Rightarrow> (bool \<times> exn) list" where
  "type_checks a = (case asset_type a of
       TANK \<Rightarrow> [bound_check a ''volume_m3'' (1 / 100) 10]
     | COMPRESSOR \<Rightarrow> [bound_check a ''q_nom_kg_s'' (1 / 1000) (2 / 10),
         bound_check a ''p_max_pa'' 200000 1500000, bound_check a ''load'' 0 1,
         (case merged_param a ''enabled'' of PBool _ \<Rightarrow> False | _ \<Rightarrow> True, ValueError ''enabled must be a boolean'')]
     | ISOLATION_VALVE \<Rightarrow> [bound_check a ''conductance_kg_s_pa'' (1 / 10 ^ 12) (1 / 10 ^ 6),
         (num_of (merged_param a ''opening'') \<notin> {Fin 0, Fin 1}, ValueError ''isolation valve opening must be 0 or 1'')]
     | CONTROL_VALVE \<Rightarrow> [bound_check a ''conductance_kg_s_pa'' (1 / 10 ^ 12) (1 / 10 ^ 6),
         bound_check a ''opening'' 0 1]
     | DEMAND \<Rightarrow> [bound_check a ''conductance_kg_s_pa'' (1 / 10 ^ 12) (1 / 10 ^ 6),
         bound_check a ''load_factor'' 0 2])"

definition validate_parameters :: "Asset \<Rightarrow> exn + Asset" where
  "validate_parameters a = run_checks
     ((\<not> list_all (\<lambda>k. k \<in> fst ` set (DEFAULT_PARAMETERS_BY_ASSET_TYPE (asset_type a))) (map fst (parameters a)),
       ValueError ''Extra parameter keys not allowed'')
      # bound_check a ''initial_pressure_pa'' 101325 1500000 # type_checks a) a"

definition validate_asset :: "Asset \<Rightarrow> exn + Asset" where
  "validate_asset a =
     bind_err (validate_position (position_m a)) (\<lambda>p.
     bind_err (run_checks [(\<not> isfinite (rotation_y_rad a), ValueError ''rotation_y_rad must be finite'')] ()) (\<lambda>_.
       validate_parameters (a\<lparr>position_m := p\<rparr>)))"

definition validate_pipe :: "Pipe \<Rightarrow> exn + Pipe" where
  "validate_pipe p = run_checks
     [(\<not> in_bounds (1 / 10 ^ 12) (1 / 10 ^ 6) (conductance_kg_s_pa p), ValueError ''conductance_kg_s_pa''),
      (\<not> isfinite (conductance_kg_s_pa p), ValueError ''conductance_kg_s_pa must be finite''),
      (16 < length (waypoints_m p), ValueError ''Maximum 16 waypoints allowed''),
      (\<not> list_all finite_point (waypoints_m p), ValueError ''Each waypoint must be 3 finite floats''),
      (from_port p = to_port p, ValueError ''Pipe cannot connect a port to itself'')] p"

definition sensor_hysteresis :: "SensorKind \<Rightarrow> real" where
  "sensor_hysteresis k = (case k of PRESSURE \<Rightarrow> 10000 | FLOW \<Rightarrow> 1 / 1000)"

definition validate_sensor :: "Sensor \<Rightarrow> exn + Sensor" where
  "validate_sensor s = run_checks
     ([(\<not> isfinite (noise_std s) \<or> pf_lt (noise_std s) (Fin 0), ValueError ''noise_std must be finite non-negative'')]
      @ (case sensor_kind s of
           PRESSURE \<Rightarrow>
             [(case sensor_target s of PortTarget _ \<Rightarrow> False | _ \<Rightarrow> True, ValueError ''PRESSURE sensor target must be PortRef''),
              (\<not> in_bounds 0 10000 (noise_std s), ValueError ''PRESSURE noise_std out of range'')]
         | FLOW \<Rightarrow>
             [(case sensor_target s of PipeTarget _ \<Rightarrow> False | _ \<Rightarrow> True, ValueError ''FLOW sensor target must be a pipe UUID''),
              (\<not> in_bounds 0 (1 / 100) (noise_std s), ValueError ''FLOW noise_std out of range'')])
      @ [(case alarm_low s of Some v \<Rightarrow> \<not> isfinite v | None \<Rightarrow> False, ValueError ''alarm_low must be finite''),
         (case alarm_high s of Some v \<Rightarrow> \<not> isfinite v | None \<Rightarrow> False, ValueError ''alarm_high must be finite''),
         (case (alarm_low s, alarm_high s) of
            (Some low, Some high) \<Rightarrow> pf_le (pf_sub high (Fin (sensor_hysteresis (sensor_kind s))))
              (pf_add low (Fin (sensor_hysteresis (sensor_kind s))))
          | _ \<Rightarrow> False, ValueError ''Alarm bounds invalid'')]) s"

definition validate_definition :: "LabDefinition \<Rightarrow> exn + LabDefinition" where
  "validate_definition d =
     bind_err (run_checks
       [(revision d < 1, ValueError ''revision''),
        (lab_name d = [] \<or> 80 < length (lab_name d), ValueError ''name'')] ()) (\<lambda>_.
     bind_err (map_err validate_asset (assets d)) (\<lambda>as.
     bind_err (map_err validate_pipe (pipes d)) (\<lambda>ps.
     bind_err (map_err validate_sensor (sensors d)) (\<lambda>ss.
       Inr (d\<lparr>assets := as, pipes := ps, sensors := ss\<rparr>)))))"

section \<open>Structural validation\<close>

datatype lab_code = EMPTY_LAB | DUPLICATE_ASSET_ID | DUPLICATE_PIPE_ID | INVALID_PORT_REF | SELF_LOOP_PIPE
  | DUPLICATE_PIPE | DUPLICATE_SENSOR_ID | INVALID_SENSOR_TARGET

record LabValidationError =
  lve_code :: lab_code
  lve_asset_ids :: "uuid list"
  lve_port_refs :: "PortRef list"

record LabValidationResult =
  run_eligible :: bool
  lvr_definition_digest :: sha256
  lvr_errors :: "LabValidationError list"

definition lab_error :: "lab_code \<Rightarrow> uuid list \<Rightarrow> PortRef list \<Rightarrow> LabValidationError" where
  "lab_error c as ps = \<lparr>lve_code = c, lve_asset_ids = as, lve_port_refs = ps\<rparr>"

text \<open>The loop over the assets: the errors and \<open>asset_map\<close>.\<close>

definition check_asset ::
  "LabValidationError list \<times> (uuid \<rightharpoonup> Asset) \<Rightarrow> Asset \<Rightarrow> LabValidationError list \<times> (uuid \<rightharpoonup> Asset)"
where
  "check_asset = (\<lambda>(errors, asset_map) a.
     (errors @ (if asset_id a \<in> dom asset_map then [lab_error DUPLICATE_ASSET_ID [asset_id a] []] else []),
      asset_map(asset_id a \<mapsto> a)))"

definition port_valid :: "(uuid \<rightharpoonup> Asset) \<Rightarrow> PortRef \<Rightarrow> bool" where
  "port_valid asset_map p = (case asset_map (pr_asset_id p) of None \<Rightarrow> False
     | Some a \<Rightarrow> pr_port p \<in> set (VALID_PORTS_BY_ASSET_TYPE (asset_type a)))"

type_synonym pipe_check_state =
  "LabValidationError list \<times> uuid set \<times> (uuid \<times> PortName) set set"

definition check_pipe :: "(uuid \<rightharpoonup> Asset) \<Rightarrow> pipe_check_state \<Rightarrow> Pipe \<Rightarrow> pipe_check_state" where
  "check_pipe asset_map = (\<lambda>(errors, pipe_ids, connected_pairs) p.
     (let f = from_port p; t = to_port p;
          pair_key = {(pr_asset_id f, pr_port f), (pr_asset_id t, pr_port t)}
      in (errors
           @ (if pipe_id p \<in> pipe_ids then [lab_error DUPLICATE_PIPE_ID [] []] else [])
           @ (if \<not> port_valid asset_map f then [lab_error INVALID_PORT_REF [] [f]] else [])
           @ (if \<not> port_valid asset_map t then [lab_error INVALID_PORT_REF [] [t]] else [])
           @ (if card pair_key = 1 then [lab_error SELF_LOOP_PIPE [] [f, t]]
              else if pair_key \<in> connected_pairs then [lab_error DUPLICATE_PIPE [] [f, t]] else []),
          insert (pipe_id p) pipe_ids, insert pair_key connected_pairs)))"

definition check_sensor ::
  "(uuid \<rightharpoonup> Asset) \<Rightarrow> uuid set \<Rightarrow> LabValidationError list \<times> uuid set \<Rightarrow> Sensor
     \<Rightarrow> exn + LabValidationError list \<times> uuid set"
where
  "check_sensor asset_map pipe_ids = (\<lambda>(errors, sensor_ids) s.
     (let errors1 = errors @ (if sensor_id s \<in> sensor_ids then [lab_error DUPLICATE_SENSOR_ID [] []] else []);
          sensor_ids1 = insert (sensor_id s) sensor_ids
      in case (sensor_kind s, sensor_target s) of
           (PRESSURE, PortTarget t) \<Rightarrow>
             Inr (errors1 @ (if port_valid asset_map t then [] else [lab_error INVALID_SENSOR_TARGET [] [t]]), sensor_ids1)
         | (FLOW, PipeTarget t) \<Rightarrow>
             Inr (errors1 @ (if t \<in> pipe_ids then [] else [lab_error INVALID_SENSOR_TARGET [] []]), sensor_ids1)
         | _ \<Rightarrow> Inl AssertionError))"

definition validate_lab :: "(LabDefinition \<Rightarrow> sha256) \<Rightarrow> LabDefinition \<Rightarrow> exn + LabValidationResult" where
  "validate_lab digest_of d =
     (if assets d = [] then
        Inr \<lparr>run_eligible = False, lvr_definition_digest = digest_of d, lvr_errors = [lab_error EMPTY_LAB [] []]\<rparr>
      else
        (let (errors1, asset_map) = foldl check_asset ([], \<lambda>_. None) (assets d);
             (errors2, pipe_ids, _) = foldl (check_pipe asset_map) (errors1, {}, {}) (pipes d)
         in bind_err (fold_err (check_sensor asset_map pipe_ids) (errors2, {}) (sensors d)) (\<lambda>(errors, _).
              Inr \<lparr>run_eligible = (errors = []), lvr_definition_digest = digest_of d, lvr_errors = errors\<rparr>)))"

section \<open>What an eligible lab guarantees\<close>

definition sensor_valid :: "(uuid \<rightharpoonup> Asset) \<Rightarrow> uuid set \<Rightarrow> Sensor \<Rightarrow> bool" where
  "sensor_valid m ids s \<longleftrightarrow> (case (sensor_kind s, sensor_target s) of
     (PRESSURE, PortTarget t) \<Rightarrow> port_valid m t | (FLOW, PipeTarget t) \<Rightarrow> t \<in> ids | _ \<Rightarrow> False)"

definition asset_table :: "LabDefinition \<Rightarrow> uuid \<rightharpoonup> Asset" where
  "asset_table d = map_of (map (\<lambda>a. (asset_id a, a)) (assets d))"

definition lab_ok :: "LabDefinition \<Rightarrow> bool" where
  "lab_ok d \<longleftrightarrow> assets d \<noteq> [] \<and> distinct (map asset_id (assets d)) \<and> distinct (map pipe_id (pipes d)) \<and>
     distinct (map sensor_id (sensors d)) \<and>
     (\<forall>p \<in> set (pipes d). from_port p \<noteq> to_port p \<and>
        port_valid (asset_table d) (from_port p) \<and> port_valid (asset_table d) (to_port p)) \<and>
     (\<forall>s \<in> set (sensors d). sensor_valid (asset_table d) (pipe_id ` set (pipes d)) s)"

lemma check_asset_run:
  "foldl check_asset (es, m) as = (es', m') \<Longrightarrow>
     m' = m ++ map_of (map (\<lambda>a. (asset_id a, a)) (rev as)) \<and>
     (es' = [] \<longrightarrow> es = [] \<and> distinct (map asset_id as) \<and> (\<forall>a \<in> set as. asset_id a \<notin> dom m))"
proof (induction as arbitrary: es m)
  case (Cons a as)
  from Cons.prems have "foldl check_asset (fst (check_asset (es, m) a), m(asset_id a \<mapsto> a)) as = (es', m')"
    by (simp add: check_asset_def)
  note ih = Cons.IH [OF this]
  have "m' = m ++ map_of (map (\<lambda>a. (asset_id a, a)) (rev (a # as)))"
    using ih by (auto simp: map_add_def fun_eq_iff split: option.splits)
  moreover have "es' = [] \<longrightarrow> es = [] \<and> distinct (map asset_id (a # as)) \<and> (\<forall>b \<in> set (a # as). asset_id b \<notin> dom m)"
    using ih by (auto simp: check_asset_def split: if_splits)
  ultimately show ?case by blast
qed simp

lemma check_pipe_run:
  "foldl (check_pipe m) (es, ids, prs) ps = (es', ids', prs') \<Longrightarrow>
     ids' = ids \<union> pipe_id ` set ps \<and>
     (es' = [] \<longrightarrow> es = [] \<and> distinct (map pipe_id ps) \<and> (\<forall>p \<in> set ps. pipe_id p \<notin> ids \<and>
        from_port p \<noteq> to_port p \<and> port_valid m (from_port p) \<and> port_valid m (to_port p)))"
proof (induction ps arbitrary: es ids prs)
  case (Cons p ps)
  obtain es1 prs1 where c: "check_pipe m (es, ids, prs) p = (es1, insert (pipe_id p) ids, prs1)"
    by (simp add: check_pipe_def Let_def)
  have "es1 = [] \<longrightarrow> es = [] \<and> pipe_id p \<notin> ids \<and> from_port p \<noteq> to_port p \<and>
      port_valid m (from_port p) \<and> port_valid m (to_port p)"
    using c by (auto simp: check_pipe_def Let_def split: if_splits)
  with Cons.IH [of es1 "insert (pipe_id p) ids" prs1] Cons.prems c show ?case by auto
qed simp

lemma check_sensor_run:
  "fold_err (check_sensor m ids) (es, seen) ss = Inr (es', seen') \<Longrightarrow> es' = [] \<Longrightarrow>
     es = [] \<and> distinct (map sensor_id ss) \<and> (\<forall>s \<in> set ss. sensor_id s \<notin> seen \<and> sensor_valid m ids s)"
proof (induction ss arbitrary: es seen)
  case (Cons s ss)
  from Cons.prems(1) obtain es1 where c: "check_sensor m ids (es, seen) s = Inr (es1, insert (sensor_id s) seen)"
    "fold_err (check_sensor m ids) (es1, insert (sensor_id s) seen) ss = Inr (es', seen')"
    by (auto simp: bind_err_eq_Inr check_sensor_def Let_def split: SensorKind.splits sensor_target.splits)
  have "es1 = [] \<longrightarrow> es = [] \<and> sensor_id s \<notin> seen \<and> sensor_valid m ids s"
    using c(1) by (auto simp: check_sensor_def sensor_valid_def Let_def
        split: SensorKind.splits sensor_target.splits if_splits)
  with Cons.IH [OF c(2) Cons.prems(2)] show ?case by auto
qed simp

lemma map_of_rev_distinct:
  "distinct (map fst xs) \<Longrightarrow> map_of (rev xs) = map_of xs"
  by (metis distinct_rev map_of_inject_set rev_map set_rev)

lemma eligible_lab_ok:
  assumes "validate_lab digest_of d = Inr r" "run_eligible r"
  shows "lab_ok d"
proof -
  have ne: "assets d \<noteq> []" using assms by (auto simp: validate_lab_def)
  obtain es1 m where a: "foldl check_asset ([], \<lambda>_. None) (assets d) = (es1, m)" by (meson surj_pair)
  obtain es2 ids prs where p: "foldl (check_pipe m) (es1, {}, {}) (pipes d) = (es2, ids, prs)"
    by (metis prod_cases3)
  obtain seen where s: "fold_err (check_sensor m ids) (es2, {}) (sensors d) = Inr ([], seen)"
    using assms ne a p by (auto simp: validate_lab_def bind_err_eq_Inr)
  note s' = check_sensor_run [OF s refl]
  note p' = check_pipe_run [OF p]
  note a' = check_asset_run [OF a]
  have "distinct (map asset_id (assets d))" using s' p' a' by simp
  then have "m = asset_table d"
    using a' map_of_rev_distinct [of "map (\<lambda>a. (asset_id a, a)) (assets d)"]
    by (simp add: asset_table_def comp_def rev_map)
  then show ?thesis using ne s' p' a' by (auto simp: lab_ok_def)
qed

end
