(* ===== verification/Lab_Network.thy ===== *)
theory Lab_Network
  imports Lab_Contracts
begin

text \<open>
  \<open>lab/simulation/network.py\<close>: compilation of a lab definition into a network of nodes and edges.

  The string identifiers of nodes and edges (\<open>str(asset_id)\<close>, \<open>f"{asset_id}:A"\<close>,
  \<open>f"{asset_id}:internal"\<close>, \<open>str(pipe_id)\<close>) are the values of \<open>lab_key\<close>; a dictionary is a map.
  Parameters of assets are finite numbers, which their classes enforce; matrices are functions of
  two indices, read below the number of nodes.  Floating-point rounding is not modelled.
\<close>

definition R_AIR :: real where "R_AIR = 28705 / 100"
definition T_REF :: real where "T_REF = 29315 / 100"
definition P_ATM :: real where "P_ATM = 101325"
definition DT_DEFAULT :: real where "DT_DEFAULT = 5 / 100"

datatype lab_key = AssetKey uuid | PortKey uuid PortName | InternalKey uuid | PipeKey uuid

record NetworkNode =
  node_id :: lab_key
  node_index :: nat
  nn_asset_id :: uuid
  port_group :: string
  volume_m3 :: real
  capacitance :: real
  initial_pressure_pa :: real

record NetworkEdge =
  edge_id :: lab_key
  from_node :: nat
  to_node :: nat
  base_conductance :: real
  ne_asset_id :: "uuid option"
  is_valve :: bool

record CompressorSource =
  cs_asset_id :: uuid
  cs_node_index :: nat
  q_nom_kg_s :: real
  p_max_pa :: real
  nominal_load :: real
  cs_enabled :: bool

record DemandSink =
  ds_asset_id :: uuid
  ds_node_index :: nat
  ds_base_conductance :: real
  nominal_load_factor :: real

record CompiledNetwork =
  cn_definition_digest :: string
  nodes :: "NetworkNode list"
  node_id_to_index :: "lab_key \<rightharpoonup> nat"
  port_to_node_index :: "uuid \<times> PortName \<rightharpoonup> nat"
  edges :: "NetworkEdge list"
  edge_id_to_index :: "lab_key \<rightharpoonup> nat"
  compressors :: "CompressorSource list"
  demands :: "DemandSink list"
  sensor_targets :: "uuid \<rightharpoonup> SensorKind \<times> nat \<times> int"
  volumes :: "real list"
  capacitances :: "real list"
  c_over_dt :: "real list"
  base_laplacian :: "nat \<times> nat \<Rightarrow> real"

section \<open>Nodes\<close>

definition param_real :: "Asset \<Rightarrow> string \<Rightarrow> real \<Rightarrow> real" where
  "param_real a k dflt = (case map_of (parameters a) k of Some v \<Rightarrow> the_fin (num_of v) | None \<Rightarrow> dflt)"

definition param_bool :: "Asset \<Rightarrow> string \<Rightarrow> bool \<Rightarrow> bool" where
  "param_bool a k dflt = (case map_of (parameters a) k of
     Some (PBool b) \<Rightarrow> b | Some (PFloat v) \<Rightarrow> v \<noteq> Fin 0 | None \<Rightarrow> dflt)"

type_synonym node_state = "NetworkNode list \<times> (lab_key \<rightharpoonup> nat) \<times> (uuid \<times> PortName \<rightharpoonup> nat)"

text \<open>Appending one node: its index is the running counter, which is the number of nodes so far.\<close>

definition add_node :: "Asset \<Rightarrow> lab_key \<Rightarrow> string \<Rightarrow> real \<Rightarrow> PortName list \<Rightarrow> node_state \<Rightarrow> node_state" where
  "add_node a key grp vol ports = (\<lambda>(ns, ids, pidx).
     (ns @ [\<lparr>node_id = key, node_index = length ns, nn_asset_id = asset_id a, port_group = grp, volume_m3 = vol,
             capacitance = vol / (R_AIR * T_REF),
             initial_pressure_pa = param_real a ''initial_pressure_pa'' 400000\<rparr>],
      ids(key \<mapsto> length ns), foldl (\<lambda>m p. m((asset_id a, p) \<mapsto> length ns)) pidx ports))"

definition add_asset :: "node_state \<Rightarrow> Asset \<Rightarrow> node_state" where
  "add_asset st a = (case asset_type a of
       TANK \<Rightarrow> add_node a (AssetKey (asset_id a)) ''AB'' (param_real a ''volume_m3'' (1 / 2)) [Port_A, Port_B] st
     | COMPRESSOR \<Rightarrow> add_node a (AssetKey (asset_id a)) ''OUT'' (2 / 100) [Port_OUT] st
     | DEMAND \<Rightarrow> add_node a (AssetKey (asset_id a)) ''IN'' (1 / 100) [Port_IN] st
     | _ \<Rightarrow> add_node a (PortKey (asset_id a) Port_B) ''B'' (5 / 1000) [Port_B]
            (add_node a (PortKey (asset_id a) Port_A) ''A'' (5 / 1000) [Port_A] st))"

definition is_valve_asset :: "Asset \<Rightarrow> bool" where
  "is_valve_asset a \<longleftrightarrow> asset_type a \<in> {ISOLATION_VALVE, CONTROL_VALVE}"

definition index_of :: "('k \<rightharpoonup> nat) \<Rightarrow> 'k \<Rightarrow> exn + nat" where
  "index_of m k = (case m k of Some i \<Rightarrow> Inr i | None \<Rightarrow> Inl (KeyError ''index''))"

section \<open>Edges, sources, sinks and sensors\<close>

definition pipe_edge :: "(uuid \<times> PortName \<rightharpoonup> nat) \<Rightarrow> Pipe \<Rightarrow> exn + NetworkEdge" where
  "pipe_edge pidx p =
     bind_err (index_of pidx (pr_asset_id (from_port p), pr_port (from_port p))) (\<lambda>i.
     bind_err (index_of pidx (pr_asset_id (to_port p), pr_port (to_port p))) (\<lambda>j.
       Inr \<lparr>edge_id = PipeKey (pipe_id p), from_node = i, to_node = j,
            base_conductance = the_fin (conductance_kg_s_pa p), ne_asset_id = None, is_valve = False\<rparr>))"

definition valve_edge :: "(uuid \<times> PortName \<rightharpoonup> nat) \<Rightarrow> Asset \<Rightarrow> exn + NetworkEdge" where
  "valve_edge pidx a =
     bind_err (index_of pidx (asset_id a, Port_A)) (\<lambda>i.
     bind_err (index_of pidx (asset_id a, Port_B)) (\<lambda>j.
       Inr \<lparr>edge_id = InternalKey (asset_id a), from_node = i, to_node = j,
            base_conductance = param_real a ''conductance_kg_s_pa'' (2 / 10 ^ 7) * param_real a ''opening'' 1,
            ne_asset_id = Some (asset_id a), is_valve = True\<rparr>))"

definition edge_indices :: "NetworkEdge list \<Rightarrow> lab_key \<rightharpoonup> nat" where
  "edge_indices es = foldl (\<lambda>m (i, e). m(edge_id e \<mapsto> i)) (\<lambda>_. None) (enumerate 0 es)"

definition compressor_source :: "(uuid \<times> PortName \<rightharpoonup> nat) \<Rightarrow> Asset \<Rightarrow> exn + CompressorSource" where
  "compressor_source pidx a =
     bind_err (index_of pidx (asset_id a, Port_OUT)) (\<lambda>i.
       Inr \<lparr>cs_asset_id = asset_id a, cs_node_index = i, q_nom_kg_s = param_real a ''q_nom_kg_s'' (2 / 100),
            p_max_pa = param_real a ''p_max_pa'' 900000, nominal_load = param_real a ''load'' 1,
            cs_enabled = param_bool a ''enabled'' True\<rparr>)"

definition demand_sink :: "(uuid \<times> PortName \<rightharpoonup> nat) \<Rightarrow> Asset \<Rightarrow> exn + DemandSink" where
  "demand_sink pidx a =
     bind_err (index_of pidx (asset_id a, Port_IN)) (\<lambda>i.
       Inr \<lparr>ds_asset_id = asset_id a, ds_node_index = i,
            ds_base_conductance = param_real a ''conductance_kg_s_pa'' (1 / 10 ^ 8),
            nominal_load_factor = param_real a ''load_factor'' 1\<rparr>)"

definition sensor_entry ::
  "(uuid \<times> PortName \<rightharpoonup> nat) \<Rightarrow> (lab_key \<rightharpoonup> nat) \<Rightarrow> Sensor \<Rightarrow> exn + uuid \<times> SensorKind \<times> nat \<times> int"
where
  "sensor_entry pidx eidx s = (case (sensor_kind s, sensor_target s) of
       (PRESSURE, PortTarget t) \<Rightarrow>
         bind_err (index_of pidx (pr_asset_id t, pr_port t)) (\<lambda>i. Inr (sensor_id s, PRESSURE, i, 1))
     | (FLOW, PipeTarget t) \<Rightarrow> bind_err (index_of eidx (PipeKey t)) (\<lambda>i. Inr (sensor_id s, FLOW, i, 1))
     | (PRESSURE, PipeTarget t) \<Rightarrow> Inl (RuntimeError ''AttributeError'')
     | (FLOW, PortTarget t) \<Rightarrow> Inl (KeyError ''index''))"

definition bump :: "(nat \<times> nat \<Rightarrow> real) \<Rightarrow> nat \<times> nat \<Rightarrow> real \<Rightarrow> nat \<times> nat \<Rightarrow> real" where
  "bump m ij x = m(ij := m ij + x)"

text \<open>The four updates of the Laplacian for an edge between \<open>i\<close> and \<open>j\<close>.\<close>

definition stamp_edge :: "nat \<Rightarrow> nat \<Rightarrow> real \<Rightarrow> (nat \<times> nat \<Rightarrow> real) \<Rightarrow> nat \<times> nat \<Rightarrow> real" where
  "stamp_edge i j k m = bump (bump (bump (bump m (i, i) k) (j, j) k) (i, j) (- k)) (j, i) (- k)"

definition laplacian :: "(nat \<times> nat \<times> real) list \<Rightarrow> nat \<times> nat \<Rightarrow> real" where
  "laplacian links = foldl (\<lambda>m (i, j, k). stamp_edge i j k m) (\<lambda>_. 0) links"

definition compile_lab :: "real \<Rightarrow> LabDefinition \<Rightarrow> exn + CompiledNetwork" where
  "compile_lab dt d =
     (let sorted_assets = sort_key asset_id (assets d);
          (ns, ids, pidx) = foldl add_asset ([], \<lambda>_. None, \<lambda>_. None) sorted_assets
      in if ns = [] then Inl (ValueError ''Cannot compile empty network with 0 nodes'')
         else
           bind_err (map_err (pipe_edge pidx) (sort_key pipe_id (pipes d))) (\<lambda>pes.
           bind_err (map_err (valve_edge pidx) (filter is_valve_asset sorted_assets)) (\<lambda>ves.
           bind_err (map_err (compressor_source pidx) (filter (\<lambda>a. asset_type a = COMPRESSOR) sorted_assets)) (\<lambda>cs.
           bind_err (map_err (demand_sink pidx) (filter (\<lambda>a. asset_type a = DEMAND) sorted_assets)) (\<lambda>ds.
           bind_err (map_err (sensor_entry pidx (edge_indices (pes @ ves))) (sensors d)) (\<lambda>ss.
             Inr \<lparr>cn_definition_digest = scene_revision d, nodes = ns, node_id_to_index = ids,
                  port_to_node_index = pidx, edges = pes @ ves, edge_id_to_index = edge_indices (pes @ ves),
                  compressors = cs, demands = ds, sensor_targets = foldl (\<lambda>m (k, v). m(k \<mapsto> v)) (\<lambda>_. None) ss,
                  volumes = map volume_m3 ns, capacitances = map capacitance ns,
                  c_over_dt = map (\<lambda>n. capacitance n / dt) ns,
                  base_laplacian = laplacian (map (\<lambda>e. (from_node e, to_node e, base_conductance e)) (pes @ ves))\<rparr>))))))"

section \<open>The class constraints as facts on the compiled parameters\<close>

lemma in_boundsD: "in_bounds lo hi v \<Longrightarrow> lo \<le> the_fin v \<and> the_fin v \<le> hi"
  by (cases v) (auto simp: in_bounds_def)

lemma param_real_bounds:
  assumes "in_bounds lo hi (num_of (merged_param a k))"
    and "map_of (DEFAULT_PARAMETERS_BY_ASSET_TYPE (asset_type a)) k = Some (PFloat (Fin dflt))"
  shows "lo \<le> param_real a k dflt \<and> param_real a k dflt \<le> hi"
  using in_boundsD [OF assms(1)] assms(2)
  by (auto simp: merged_param_def param_real_def split: option.splits)

definition asset_ok :: "Asset \<Rightarrow> bool" where
  "asset_ok a \<longleftrightarrow> 0 < param_real a ''initial_pressure_pa'' 400000 \<and>
     param_real a ''initial_pressure_pa'' 400000 \<le> 1500000 \<and>
     (asset_type a = TANK \<longrightarrow> 0 < param_real a ''volume_m3'' (1 / 2)) \<and>
     (is_valve_asset a \<longrightarrow> 0 \<le> param_real a ''conductance_kg_s_pa'' (2 / 10 ^ 7) * param_real a ''opening'' 1) \<and>
     (asset_type a = COMPRESSOR \<longrightarrow> 0 < param_real a ''q_nom_kg_s'' (2 / 100) \<and>
        0 < param_real a ''p_max_pa'' 900000 \<and> param_real a ''p_max_pa'' 900000 \<le> 1500000) \<and>
     (asset_type a = DEMAND \<longrightarrow> 0 \<le> param_real a ''conductance_kg_s_pa'' (1 / 10 ^ 8))"

lemma validate_parameters_ok:
  assumes "validate_parameters a = Inr a'"
  shows "a' = a \<and> asset_ok a"
proof -
  have chk: "a' = a" "in_bounds 101325 1500000 (num_of (merged_param a ''initial_pressure_pa''))"
    "\<forall>(violated, e) \<in> set (type_checks a). \<not> violated"
    using assms unfolding validate_parameters_def run_checks_Inr by (auto simp: bound_check_def)
  have init: "0 < param_real a ''initial_pressure_pa'' 400000" "param_real a ''initial_pressure_pa'' 400000 \<le> 1500000"
    using param_real_bounds [OF chk(2), of 400000] by (cases "asset_type a"; auto)+
  show ?thesis
  proof (cases "asset_type a")
    case COMPRESSOR
    then have "in_bounds (1 / 1000) (2 / 10) (num_of (merged_param a ''q_nom_kg_s''))"
      "in_bounds 200000 1500000 (num_of (merged_param a ''p_max_pa''))"
      using chk(3) by (auto simp: type_checks_def bound_check_def)
    from param_real_bounds [OF this(1), of "2 / 100"] param_real_bounds [OF this(2), of 900000] chk(1) init COMPRESSOR
    show ?thesis by (force simp: asset_ok_def is_valve_asset_def)
  next
    case TANK
    then have "in_bounds (1 / 100) 10 (num_of (merged_param a ''volume_m3''))"
      using chk(3) by (auto simp: type_checks_def bound_check_def)
    from this [THEN param_real_bounds, of "1 / 2"] chk(1) init TANK show ?thesis
      by (force simp: asset_ok_def is_valve_asset_def)
  next
    case ISOLATION_VALVE
    then have "in_bounds (1 / 10 ^ 12) (1 / 10 ^ 6) (num_of (merged_param a ''conductance_kg_s_pa''))"
      "num_of (merged_param a ''opening'') \<in> {Fin 0, Fin 1}"
      using chk(3) by (auto simp: type_checks_def bound_check_def)
    moreover from this(2) have "in_bounds 0 1 (num_of (merged_param a ''opening''))"
      by (auto simp: in_bounds_def)
    ultimately have "0 \<le> param_real a ''conductance_kg_s_pa'' (2 / 10 ^ 7)" "0 \<le> param_real a ''opening'' 1"
      using param_real_bounds [of _ _ a "''conductance_kg_s_pa''" "2 / 10 ^ 7"]
        param_real_bounds [of _ _ a "''opening''" 1] ISOLATION_VALVE by force+
    with chk(1) init ISOLATION_VALVE show ?thesis by (simp add: asset_ok_def is_valve_asset_def)
  next
    case CONTROL_VALVE
    then have "in_bounds (1 / 10 ^ 12) (1 / 10 ^ 6) (num_of (merged_param a ''conductance_kg_s_pa''))"
      "in_bounds 0 1 (num_of (merged_param a ''opening''))"
      using chk(3) by (auto simp: type_checks_def bound_check_def)
    then have "0 \<le> param_real a ''conductance_kg_s_pa'' (2 / 10 ^ 7)" "0 \<le> param_real a ''opening'' 1"
      using param_real_bounds [of _ _ a "''conductance_kg_s_pa''" "2 / 10 ^ 7"]
        param_real_bounds [of _ _ a "''opening''" 1] CONTROL_VALVE by force+
    with chk(1) init CONTROL_VALVE show ?thesis by (simp add: asset_ok_def is_valve_asset_def)
  next
    case DEMAND
    then have "in_bounds (1 / 10 ^ 12) (1 / 10 ^ 6) (num_of (merged_param a ''conductance_kg_s_pa''))"
      using chk(3) by (auto simp: type_checks_def bound_check_def)
    from this [THEN param_real_bounds, of "1 / 10 ^ 8"] chk(1) init DEMAND show ?thesis
      by (force simp: asset_ok_def is_valve_asset_def)
  qed
qed

lemma validate_definition_ok:
  assumes "validate_definition d0 = Inr d"
  shows "(\<forall>a \<in> set (assets d). asset_ok a) \<and> (\<forall>p \<in> set (pipes d). 0 \<le> the_fin (conductance_kg_s_pa p))"
proof -
  from assms obtain as ps ss where parts: "map_err validate_asset (assets d0) = Inr as"
    "map_err validate_pipe (pipes d0) = Inr ps" "d = d0\<lparr>assets := as, pipes := ps, sensors := ss\<rparr>"
    by (auto simp: validate_definition_def bind_err_eq_Inr)
  have "asset_ok a" if "a \<in> set as" for a
    using that map_err_elements [OF parts(1)]
    by (auto simp: validate_asset_def bind_err_eq_Inr dest!: validate_parameters_ok)
  moreover have "0 \<le> the_fin (conductance_kg_s_pa p)" if "p \<in> set ps" for p
  proof -
    from that map_err_elements [OF parts(2)] obtain q where "validate_pipe q = Inr p" by blast
    then have "in_bounds (1 / 10 ^ 12) (1 / 10 ^ 6) (conductance_kg_s_pa p)"
      unfolding validate_pipe_def run_checks_Inr by auto
    from in_boundsD [OF this] show ?thesis by (meson less_eq_real_def order_trans zero_le_divide_1_iff zero_le_power zero_le_numeral)
  qed
  ultimately show ?thesis using parts(3) by simp
qed

section \<open>Eligible labs compile\<close>

definition nodes_ok :: "node_state \<Rightarrow> bool" where
  "nodes_ok = (\<lambda>(ns, ids, pidx). map node_index ns = [0..<length ns] \<and> ran pidx \<subseteq> {..<length ns} \<and>
     (\<forall>n \<in> set ns. 0 < capacitance n \<and> 0 < initial_pressure_pa n \<and> initial_pressure_pa n \<le> 1500000))"

definition port_dom :: "node_state \<Rightarrow> (uuid \<times> PortName) set" where
  "port_dom = (\<lambda>(ns, ids, pidx). dom pidx)"

lemma foldl_ports:
  "dom (foldl (\<lambda>m p. m((k, p) \<mapsto> i)) pidx ports) = dom pidx \<union> {k} \<times> set ports \<and>
   ran (foldl (\<lambda>m p. m((k, p) \<mapsto> i)) pidx ports) \<subseteq> insert i (ran pidx)"
proof (induction ports arbitrary: pidx)
  case (Cons p ports)
  have "ran (pidx((k, p) \<mapsto> i)) \<subseteq> insert i (ran pidx)" by (auto simp: ran_def)
  with Cons [of "pidx((k, p) \<mapsto> i)"] show ?case by (auto simp del: fun_upd_apply)
qed auto

lemma add_node_ok:
  assumes "nodes_ok st" "0 < vol" "0 < param_real a ''initial_pressure_pa'' 400000"
    "param_real a ''initial_pressure_pa'' 400000 \<le> 1500000"
  shows "nodes_ok (add_node a key grp vol ports st)"
    and "port_dom (add_node a key grp vol ports st) = port_dom st \<union> {asset_id a} \<times> set ports"
  using assms foldl_ports [of "asset_id a" "length (fst st)" "snd (snd st)" ports]
  by (cases st; fastforce simp: nodes_ok_def add_node_def port_dom_def R_AIR_def T_REF_def)+

lemma add_asset_ok:
  assumes "nodes_ok st" "asset_ok a"
  shows "nodes_ok (add_asset st a) \<and>
    port_dom (add_asset st a) = port_dom st \<union> {asset_id a} \<times> set (VALID_PORTS_BY_ASSET_TYPE (asset_type a))"
  using assms
  by (cases "asset_type a") (auto simp: add_asset_def add_node_ok asset_ok_def)

lemma add_assets_ok:
  "nodes_ok st \<Longrightarrow> \<forall>a \<in> set as. asset_ok a \<Longrightarrow> nodes_ok (foldl add_asset st as) \<and>
     port_dom (foldl add_asset st as) =
       port_dom st \<union> (\<Union>a \<in> set as. {asset_id a} \<times> set (VALID_PORTS_BY_ASSET_TYPE (asset_type a)))"
proof (induction as arbitrary: st)
  case (Cons a as)
  from add_asset_ok [of st a] Cons.prems have "nodes_ok (add_asset st a)"
    "port_dom (add_asset st a) = port_dom st \<union> {asset_id a} \<times> set (VALID_PORTS_BY_ASSET_TYPE (asset_type a))"
    by auto
  with Cons.IH [of "add_asset st a"] Cons.prems show ?case by auto
qed simp

lemma add_assets_length: "length (fst st) + length as \<le> length (fst (foldl add_asset st as))"
proof (induction as arbitrary: st)
  case (Cons a as)
  have "length (fst st) < length (fst (add_asset st a))"
    by (cases st; cases "asset_type a") (simp_all add: add_asset_def add_node_def)
  with Cons [of "add_asset st a"] show ?case by simp
qed simp

lemma map_err_total:
  assumes "\<And>x. x \<in> set xs \<Longrightarrow> \<exists>y. f x = Inr y \<and> P x y"
  shows "\<exists>ys. map_err f xs = Inr ys \<and> (\<forall>y \<in> set ys. \<exists>x \<in> set xs. P x y) \<and> (\<forall>x \<in> set xs. \<exists>y \<in> set ys. P x y)"
  using assms
proof (induction xs)
  case (Cons x xs)
  then obtain ys where "map_err f xs = Inr ys" "\<forall>y \<in> set ys. \<exists>x \<in> set xs. P x y" "\<forall>x \<in> set xs. \<exists>y \<in> set ys. P x y"
    by auto
  moreover obtain y where "f x = Inr y" "P x y" using Cons.prems [of x] by auto
  ultimately show ?case by auto
qed simp

lemma index_of_ran: "k \<in> dom m \<Longrightarrow> ran m \<subseteq> {..<n} \<Longrightarrow> \<exists>i. index_of m k = Inr i \<and> i < n"
  by (auto simp: index_of_def ran_def split: option.splits)

lemma edge_indices_snoc: "edge_indices (es @ [e]) = (edge_indices es)(edge_id e \<mapsto> length es)"
  by (simp add: edge_indices_def enumerate_append_eq)

lemma edge_indices_ok:
  "dom (edge_indices es) = edge_id ` set es \<and> ran (edge_indices es) \<subseteq> {..<length es}"
proof (induction es rule: rev_induct)
  case (snoc e es)
  have "ran ((edge_indices es)(edge_id e \<mapsto> length es)) \<subseteq> insert (length es) (ran (edge_indices es))"
    by (auto simp: ran_def)
  moreover have "dom ((edge_indices es)(edge_id e \<mapsto> length es)) = insert (edge_id e) (dom (edge_indices es))"
    by simp
  ultimately show ?case using snoc unfolding edge_indices_snoc
    by (simp del: fun_upd_apply dom_fun_upd add: subset_iff less_Suc_eq) blast
qed (simp add: edge_indices_def)

definition network_ok :: "CompiledNetwork \<Rightarrow> bool" where
  "network_ok n \<longleftrightarrow> nodes n \<noteq> [] \<and> map node_index (nodes n) = [0..<length (nodes n)] \<and>
     capacitances n = map capacitance (nodes n) \<and>
     (\<forall>x \<in> set (nodes n). 0 < capacitance x \<and> 0 < initial_pressure_pa x \<and> initial_pressure_pa x \<le> 1500000) \<and>
     ran (port_to_node_index n) \<subseteq> {..<length (nodes n)} \<and>
     (\<forall>e \<in> set (edges n). from_node e < length (nodes n) \<and> to_node e < length (nodes n) \<and> 0 \<le> base_conductance e) \<and>
     (\<forall>c \<in> set (compressors n). cs_node_index c < length (nodes n) \<and> 0 < q_nom_kg_s c \<and>
        0 < p_max_pa c \<and> p_max_pa c \<le> 1500000) \<and>
     (\<forall>s \<in> set (demands n). ds_node_index s < length (nodes n) \<and> 0 \<le> ds_base_conductance s) \<and>
     (\<forall>s k i g. sensor_targets n s = Some (k, i, g) \<longrightarrow>
        i < (case k of PRESSURE \<Rightarrow> length (nodes n) | FLOW \<Rightarrow> length (edges n)))"

lemma sensor_map_ok:
  "(\<forall>(s, k, i, g) \<in> set xs. P k i) \<Longrightarrow> (\<forall>s k i g. m s = Some (k, i, g) \<longrightarrow> P k i) \<Longrightarrow>
     foldl (\<lambda>m (k, v). m(k \<mapsto> v)) m xs s = Some (k, i, g) \<Longrightarrow> P k i"
proof (induction xs arbitrary: m)
  case (Cons x xs)
  obtain s' k' i' g' where x: "x = (s', k', i', g')" by (cases x)
  have "\<forall>s k i g. (m(s' \<mapsto> (k', i', g'))) s = Some (k, i, g) \<longrightarrow> P k i"
    using Cons.prems(1,2) x by simp
  with Cons.IH [of "m(s' \<mapsto> (k', i', g'))"] Cons.prems(1,3) x show ?case by auto
qed auto

lemma port_valid_dom:
  assumes "port_valid (asset_table d) p"
  shows "(pr_asset_id p, pr_port p) \<in> (\<Union>a \<in> set (assets d). {asset_id a} \<times> set (VALID_PORTS_BY_ASSET_TYPE (asset_type a)))"
proof -
  from assms obtain a where "asset_table d (pr_asset_id p) = Some a"
    "pr_port p \<in> set (VALID_PORTS_BY_ASSET_TYPE (asset_type a))"
    by (auto simp: port_valid_def split: option.splits)
  moreover from this(1) have "a \<in> set (assets d)" "asset_id a = pr_asset_id p"
    unfolding asset_table_def by (auto dest!: map_of_SomeD)
  ultimately show ?thesis by force
qed

text \<open>Every reference the later stages look up is a port some node was created for.\<close>

lemma compile_stages:
  assumes ok: "lab_ok d" and assets: "\<forall>a \<in> set (assets d). asset_ok a"
    and pipes: "\<forall>p \<in> set (pipes d). 0 \<le> the_fin (conductance_kg_s_pa p)"
    and ran: "ran pidx \<subseteq> {..<n}"
    and dom: "dom pidx = (\<Union>a \<in> set (assets d). {asset_id a} \<times> set (VALID_PORTS_BY_ASSET_TYPE (asset_type a)))"
  shows "p \<in> set (pipes d) \<Longrightarrow> \<exists>e. pipe_edge pidx p = Inr e \<and>
      (edge_id e = PipeKey (pipe_id p) \<and> from_node e < n \<and> to_node e < n \<and> 0 \<le> base_conductance e)"
    and "a \<in> set (assets d) \<Longrightarrow> is_valve_asset a \<Longrightarrow> \<exists>e. valve_edge pidx a = Inr e \<and>
      (from_node e < n \<and> to_node e < n \<and> 0 \<le> base_conductance e)"
    and "a \<in> set (assets d) \<Longrightarrow> asset_type a = COMPRESSOR \<Longrightarrow> \<exists>c. compressor_source pidx a = Inr c \<and>
      (cs_node_index c < n \<and> 0 < q_nom_kg_s c \<and> 0 < p_max_pa c \<and> p_max_pa c \<le> 1500000)"
    and "a \<in> set (assets d) \<Longrightarrow> asset_type a = DEMAND \<Longrightarrow> \<exists>c. demand_sink pidx a = Inr c \<and>
      (ds_node_index c < n \<and> 0 \<le> ds_base_conductance c)"
    and "s \<in> set (sensors d) \<Longrightarrow> PipeKey ` pipe_id ` set (pipes d) \<subseteq> Map.dom eidx \<Longrightarrow> Map.ran eidx \<subseteq> {..<m} \<Longrightarrow>
      \<exists>x. sensor_entry pidx eidx s = Inr x \<and> (case x of (sid, k, i, g) \<Rightarrow>
        sid = sensor_id s \<and> i < (case k of PRESSURE \<Rightarrow> n | FLOW \<Rightarrow> m))"
proof -
  have port: "\<exists>i. index_of pidx (pr_asset_id r, pr_port r) = Inr i \<and> i < n" if "port_valid (asset_table d) r" for r
    using index_of_ran [OF _ ran] port_valid_dom [OF that] dom by simp
  have own: "\<exists>i. index_of pidx (asset_id a, q) = Inr i \<and> i < n"
    if "a \<in> set (assets d)" "q \<in> set (VALID_PORTS_BY_ASSET_TYPE (asset_type a))" for a q
    using index_of_ran [OF _ ran, of "(asset_id a, q)"] that dom by auto
  {
    assume p: "p \<in> set (pipes d)"
    then have "port_valid (asset_table d) (from_port p)" "port_valid (asset_table d) (to_port p)"
      using ok by (simp_all add: lab_ok_def)
    from this [THEN port] pipes p show "\<exists>e. pipe_edge pidx p = Inr e \<and>
      (edge_id e = PipeKey (pipe_id p) \<and> from_node e < n \<and> to_node e < n \<and> 0 \<le> base_conductance e)"
      by (auto simp: pipe_edge_def)
  }
  {
    assume a: "a \<in> set (assets d)" "is_valve_asset a"
    then have "Port_A \<in> set (VALID_PORTS_BY_ASSET_TYPE (asset_type a))" "Port_B \<in> set (VALID_PORTS_BY_ASSET_TYPE (asset_type a))"
      by (auto simp: is_valve_asset_def)
    from this [THEN own [OF a(1)]] assets a show "\<exists>e. valve_edge pidx a = Inr e \<and>
      (from_node e < n \<and> to_node e < n \<and> 0 \<le> base_conductance e)"
      by (auto simp: valve_edge_def asset_ok_def)
  }
  {
    assume "a \<in> set (assets d)" "asset_type a = COMPRESSOR"
    with own [of a Port_OUT] assets show "\<exists>c. compressor_source pidx a = Inr c \<and>
      (cs_node_index c < n \<and> 0 < q_nom_kg_s c \<and> 0 < p_max_pa c \<and> p_max_pa c \<le> 1500000)"
      by (auto simp: compressor_source_def asset_ok_def)
  }
  {
    assume "a \<in> set (assets d)" "asset_type a = DEMAND"
    with own [of a Port_IN] assets show "\<exists>c. demand_sink pidx a = Inr c \<and>
      (ds_node_index c < n \<and> 0 \<le> ds_base_conductance c)"
      by (auto simp: demand_sink_def asset_ok_def)
  }
  {
    assume s: "s \<in> set (sensors d)" and e: "PipeKey ` pipe_id ` set (pipes d) \<subseteq> Map.dom eidx" "Map.ran eidx \<subseteq> {..<m}"
    have "sensor_valid (asset_table d) (pipe_id ` set (pipes d)) s" using ok s by (simp add: lab_ok_def)
    then consider t where "sensor_kind s = PRESSURE" "sensor_target s = PortTarget t" "port_valid (asset_table d) t"
      | t where "sensor_kind s = FLOW" "sensor_target s = PipeTarget t" "t \<in> pipe_id ` set (pipes d)"
      by (auto simp: sensor_valid_def split: SensorKind.splits sensor_target.splits)
    then show "\<exists>x. sensor_entry pidx eidx s = Inr x \<and> (case x of (sid, k, i, g) \<Rightarrow>
        sid = sensor_id s \<and> i < (case k of PRESSURE \<Rightarrow> n | FLOW \<Rightarrow> m))"
    proof cases
      case 1
      with port [OF 1(3)] show ?thesis by (auto simp: sensor_entry_def)
    next
      case 2
      then have "PipeKey t \<in> Map.dom eidx" using e(1) by blast
      from index_of_ran [OF this e(2)] 2 show ?thesis by (auto simp: sensor_entry_def)
    qed
  }
qed

definition edge_ok :: "nat \<Rightarrow> NetworkEdge \<Rightarrow> bool" where
  "edge_ok n e \<longleftrightarrow> from_node e < n \<and> to_node e < n \<and> 0 \<le> base_conductance e"

definition equipment_ok :: "nat \<Rightarrow> CompressorSource list \<Rightarrow> DemandSink list \<Rightarrow> bool" where
  "equipment_ok n cs ds \<longleftrightarrow>
     (\<forall>c \<in> set cs. cs_node_index c < n \<and> 0 < q_nom_kg_s c \<and> 0 < p_max_pa c \<and> p_max_pa c \<le> 1500000) \<and>
     (\<forall>c \<in> set ds. ds_node_index c < n \<and> 0 \<le> ds_base_conductance c)"

lemma compile_equipment:
  assumes ok: "lab_ok d" and vals: "\<forall>a \<in> set (assets d). asset_ok a"
      "\<forall>p \<in> set (pipes d). 0 \<le> the_fin (conductance_kg_s_pa p)"
    and ran: "ran pidx \<subseteq> {..<n}"
    and dom: "dom pidx = (\<Union>a \<in> set (assets d). {asset_id a} \<times> set (VALID_PORTS_BY_ASSET_TYPE (asset_type a)))"
  shows "\<exists>pes ves cs ds. map_err (pipe_edge pidx) (sort_key pipe_id (pipes d)) = Inr pes \<and>
    map_err (valve_edge pidx) (filter is_valve_asset (sort_key asset_id (assets d))) = Inr ves \<and>
    map_err (compressor_source pidx) (filter (\<lambda>a. asset_type a = COMPRESSOR) (sort_key asset_id (assets d))) = Inr cs \<and>
    map_err (demand_sink pidx) (filter (\<lambda>a. asset_type a = DEMAND) (sort_key asset_id (assets d))) = Inr ds \<and>
    (\<forall>e \<in> set (pes @ ves). edge_ok n e) \<and> (\<forall>p \<in> set (pipes d). PipeKey (pipe_id p) \<in> edge_id ` set pes) \<and>
    equipment_ok n cs ds"
proof -
  let ?as = "sort_key asset_id (assets d)"
  note stages = compile_stages [OF ok vals ran dom]
  let ?ps = "sort_key pipe_id (pipes d)" and ?valves = "filter is_valve_asset ?as"
  let ?comps = "filter (\<lambda>a. asset_type a = COMPRESSOR) ?as" and ?dems = "filter (\<lambda>a. asset_type a = DEMAND) ?as"
  have "\<exists>pes. map_err (pipe_edge pidx) ?ps = Inr pes \<and>
      (\<forall>e \<in> set pes. \<exists>p \<in> set ?ps. edge_id e = PipeKey (pipe_id p) \<and> edge_ok n e) \<and>
      (\<forall>p \<in> set ?ps. \<exists>e \<in> set pes. edge_id e = PipeKey (pipe_id p) \<and> edge_ok n e)"
    unfolding edge_ok_def by (rule map_err_total, rule stages(1)) simp_all
  then obtain pes where pes: "map_err (pipe_edge pidx) ?ps = Inr pes" "\<forall>e \<in> set pes. edge_ok n e"
    "\<forall>p \<in> set (pipes d). PipeKey (pipe_id p) \<in> edge_id ` set pes"
    by (metis image_eqI set_sort)
  have "\<exists>ves. map_err (valve_edge pidx) ?valves = Inr ves \<and>
      (\<forall>e \<in> set ves. \<exists>a \<in> set ?valves. edge_ok n e) \<and> (\<forall>a \<in> set ?valves. \<exists>e \<in> set ves. edge_ok n e)"
    unfolding edge_ok_def by (rule map_err_total, rule stages(2)) simp_all
  then obtain ves where ves: "map_err (valve_edge pidx) ?valves = Inr ves" "\<forall>e \<in> set ves. edge_ok n e" by blast
  have "\<exists>cs. map_err (compressor_source pidx) ?comps = Inr cs \<and>
      (\<forall>c \<in> set cs. \<exists>a \<in> set ?comps. cs_node_index c < n \<and> 0 < q_nom_kg_s c \<and> 0 < p_max_pa c \<and> p_max_pa c \<le> 1500000) \<and>
      (\<forall>a \<in> set ?comps. \<exists>c \<in> set cs. cs_node_index c < n \<and> 0 < q_nom_kg_s c \<and> 0 < p_max_pa c \<and> p_max_pa c \<le> 1500000)"
    by (rule map_err_total, rule stages(3)) simp_all
  then obtain cs where cs: "map_err (compressor_source pidx) ?comps = Inr cs"
    "\<forall>c \<in> set cs. cs_node_index c < n \<and> 0 < q_nom_kg_s c \<and> 0 < p_max_pa c \<and> p_max_pa c \<le> 1500000" by blast
  have "\<exists>ds. map_err (demand_sink pidx) ?dems = Inr ds \<and>
      (\<forall>c \<in> set ds. \<exists>a \<in> set ?dems. ds_node_index c < n \<and> 0 \<le> ds_base_conductance c) \<and>
      (\<forall>a \<in> set ?dems. \<exists>c \<in> set ds. ds_node_index c < n \<and> 0 \<le> ds_base_conductance c)"
    by (rule map_err_total, rule stages(4)) simp_all
  then obtain ds where ds: "map_err (demand_sink pidx) ?dems = Inr ds"
    "\<forall>c \<in> set ds. ds_node_index c < n \<and> 0 \<le> ds_base_conductance c" by blast
  from pes ves cs ds show ?thesis unfolding equipment_ok_def by (intro exI conjI) auto
qed

lemma compile_sensors:
  assumes ok: "lab_ok d" and vals: "\<forall>a \<in> set (assets d). asset_ok a"
      "\<forall>p \<in> set (pipes d). 0 \<le> the_fin (conductance_kg_s_pa p)"
    and ran: "ran pidx \<subseteq> {..<n}"
    and dom: "dom pidx = (\<Union>a \<in> set (assets d). {asset_id a} \<times> set (VALID_PORTS_BY_ASSET_TYPE (asset_type a)))"
    and pes: "\<forall>p \<in> set (pipes d). PipeKey (pipe_id p) \<in> edge_id ` set es"
  shows "\<exists>ss. map_err (sensor_entry pidx (edge_indices es)) (sensors d) = Inr ss \<and>
    (\<forall>s k i g. foldl (\<lambda>m (k, v). m(k \<mapsto> v)) (\<lambda>_. None) ss s = Some (k, i, g) \<longrightarrow>
       i < (case k of PRESSURE \<Rightarrow> n | FLOW \<Rightarrow> length es))"
proof -
  have e: "PipeKey ` pipe_id ` set (pipes d) \<subseteq> Map.dom (edge_indices es)" "Map.ran (edge_indices es) \<subseteq> {..<length es}"
    using edge_indices_ok [of es] pes by auto
  define entry_ok where "entry_ok x \<longleftrightarrow> (case x of (sid, k, i, g) \<Rightarrow>
      i < (case k of PRESSURE \<Rightarrow> n | FLOW \<Rightarrow> length es))" for x :: "uuid \<times> SensorKind \<times> nat \<times> int"
  have "\<exists>ss. map_err (sensor_entry pidx (edge_indices es)) (sensors d) = Inr ss \<and>
      (\<forall>x \<in> set ss. \<exists>s \<in> set (sensors d). entry_ok x) \<and> (\<forall>s \<in> set (sensors d). \<exists>x \<in> set ss. entry_ok x)"
  proof (rule map_err_total)
    fix s assume "s \<in> set (sensors d)"
    from compile_stages(5) [OF ok vals ran dom this e] show "\<exists>x. sensor_entry pidx (edge_indices es) s = Inr x \<and> entry_ok x"
      unfolding entry_ok_def by blast
  qed
  then obtain ss where ss: "map_err (sensor_entry pidx (edge_indices es)) (sensors d) = Inr ss" "\<forall>x \<in> set ss. entry_ok x"
    by blast
  have "i < (case k of PRESSURE \<Rightarrow> n | FLOW \<Rightarrow> length es)"
    if "foldl (\<lambda>m (k, v). m(k \<mapsto> v)) (\<lambda>_. None) ss s = Some (k, i, g)" for s k i g
    by (rule sensor_map_ok [where P = "\<lambda>k i. i < (case k of PRESSURE \<Rightarrow> n | FLOW \<Rightarrow> length es)",
          OF _ _ that]) (use ss(2) in \<open>auto simp: entry_ok_def\<close>)
  with ss(1) show ?thesis by blast
qed

lemma lab_ok_compiles:
  assumes ok: "lab_ok d" and vals: "\<forall>a \<in> set (assets d). asset_ok a"
      "\<forall>p \<in> set (pipes d). 0 \<le> the_fin (conductance_kg_s_pa p)"
  shows "\<exists>n. compile_lab dt d = Inr n \<and> network_ok n"
proof -
  let ?as = "sort_key asset_id (assets d)"
  obtain ns ids pidx where st: "foldl add_asset ([], \<lambda>_. None, \<lambda>_. None) ?as = (ns, ids, pidx)"
    by (metis prod_cases3)
  have "nodes_ok ([], \<lambda>_. None, \<lambda>_. None)" by (simp add: nodes_ok_def)
  from add_assets_ok [OF this, of ?as] vals st have nodes: "nodes_ok (ns, ids, pidx)"
    and dom: "dom pidx = (\<Union>a \<in> set (assets d). {asset_id a} \<times> set (VALID_PORTS_BY_ASSET_TYPE (asset_type a)))"
    by (auto simp: port_dom_def)
  have ran: "ran pidx \<subseteq> {..<length ns}" using nodes by (simp add: nodes_ok_def)
  have ne: "ns \<noteq> []"
    using add_assets_length [of "([], \<lambda>_. None, \<lambda>_. None)" ?as] ok st by (auto simp: lab_ok_def)
  obtain pes ves cs ds where parts: "map_err (pipe_edge pidx) (sort_key pipe_id (pipes d)) = Inr pes"
    "map_err (valve_edge pidx) (filter is_valve_asset ?as) = Inr ves"
    "map_err (compressor_source pidx) (filter (\<lambda>a. asset_type a = COMPRESSOR) ?as) = Inr cs"
    "map_err (demand_sink pidx) (filter (\<lambda>a. asset_type a = DEMAND) ?as) = Inr ds"
    and es: "\<forall>e \<in> set (pes @ ves). edge_ok (length ns) e" "\<forall>p \<in> set (pipes d). PipeKey (pipe_id p) \<in> edge_id ` set pes"
    and eq: "equipment_ok (length ns) cs ds"
    using compile_equipment [OF ok vals ran dom] by blast
  have "\<forall>p \<in> set (pipes d). PipeKey (pipe_id p) \<in> edge_id ` set (pes @ ves)" using es(2) by auto
  from compile_sensors [OF ok vals ran dom this] obtain ss where
    ss: "map_err (sensor_entry pidx (edge_indices (pes @ ves))) (sensors d) = Inr ss"
    and targets: "\<forall>s k i g. foldl (\<lambda>m (k, v). m(k \<mapsto> v)) (\<lambda>_. None) ss s = Some (k, i, g) \<longrightarrow>
       i < (case k of PRESSURE \<Rightarrow> length ns | FLOW \<Rightarrow> length (pes @ ves))" by blast
  obtain n where n: "compile_lab dt d = Inr n" "nodes n = ns" "edges n = pes @ ves" "compressors n = cs" "demands n = ds"
    "sensor_targets n = foldl (\<lambda>m (k, v). m(k \<mapsto> v)) (\<lambda>_. None) ss" "capacitances n = map capacitance ns"
    "port_to_node_index n = pidx"
    using st ne parts ss by (simp add: compile_lab_def)
  have "network_ok n"
    using ne es(1) eq nodes targets ran
    unfolding network_ok_def nodes_ok_def edge_ok_def equipment_ok_def n(2-8) by (simp only: prod.case) blast
  with n(1) show ?thesis by blast
qed

text \<open>
  C22 (type): an eligible lab compiles.  For a lab definition that its classes accept and that
  \<open>validate_lab\<close> finds eligible, compilation never raises: every port, pipe and sensor reference
  resolves, the nodes are numbered consecutively from zero, every index an edge, source, sink or
  sensor carries is in range, and capacitances, pressures and conductances have the signs the
  solver relies on.
\<close>

theorem eligible_lab_compiles:
  assumes "validate_definition d0 = Inr d" "validate_lab digest_of d = Inr r" "run_eligible r"
  shows "\<exists>n. compile_lab dt d = Inr n \<and> network_ok n"
  using lab_ok_compiles [OF eligible_lab_ok [OF assms(2,3)]] validate_definition_ok [OF assms(1)] by blast

text \<open>A compressor, an open valve and a consumer in a row, with a pressure and a flow sensor.\<close>

definition sample_lab :: LabDefinition where
  "sample_lab =
     (let asset = (\<lambda>i t. \<lparr>asset_id = i, asset_type = t, position_m = (Fin 0, Fin 0, Fin 0),
            rotation_y_rad = Fin 0, parameters = []\<rparr>);
          port = (\<lambda>i p. \<lparr>pr_asset_id = i, pr_port = p\<rparr>);
          pipe = (\<lambda>i f t. \<lparr>pipe_id = i, from_port = f, to_port = t, conductance_kg_s_pa = Fin (2 / 10 ^ 7), waypoints_m = []\<rparr>)
      in \<lparr>lab_id = 1, revision = 1, lab_name = ''demo'',
          assets = [asset 10 COMPRESSOR, asset 11 ISOLATION_VALVE, asset 12 DEMAND],
          pipes = [pipe 20 (port 10 Port_OUT) (port 11 Port_A), pipe 21 (port 11 Port_B) (port 12 Port_IN)],
          sensors = [\<lparr>sensor_id = 30, sensor_kind = PRESSURE, sensor_target = PortTarget (port 12 Port_IN),
              noise_std = Fin 0, alarm_low = Some (Fin 200000), alarm_high = Some (Fin 600000)\<rparr>,
            \<lparr>sensor_id = 31, sensor_kind = FLOW, sensor_target = PipeTarget 21, noise_std = Fin 0,
              alarm_low = None, alarm_high = None\<rparr>],
          scene_revision = ''scene-v1''\<rparr>)"

lemma sample_lab_valid:
  "validate_definition sample_lab = Inr sample_lab"
  by (simp add: validate_definition_def sample_lab_def Let_def validate_asset_def validate_position_def in_bounds_def
      validate_parameters_def bound_check_def merged_param_def type_checks_def validate_pipe_def validate_sensor_def
      sensor_hysteresis_def)

lemma sample_lab_eligible:
  "\<exists>r. validate_lab (\<lambda>_. zero_sha) sample_lab = Inr r \<and> run_eligible r"
  by (simp add: validate_lab_def sample_lab_def Let_def check_asset_def check_pipe_def check_sensor_def port_valid_def
      doubleton_eq_iff)

theorem eligible_lab_compiles_witness:
  "\<exists>n. compile_lab DT_DEFAULT sample_lab = Inr n \<and> network_ok n"
  using sample_lab_eligible eligible_lab_compiles [OF sample_lab_valid] by blast

end
