(* ===== verification/Lab_Solver.thy ===== *)
theory Lab_Solver
  imports Lab_Network
begin

text \<open>
  \<open>lab/simulation/solver.py\<close>: one implicit time step of the pneumatic network, with the active-set
  iteration for sources and sinks that switch off, the physical sanity gates and the conservation
  gate.  The solution of the linear system (\<open>numpy.linalg.solve\<close>) is an argument, \<open>None\<close> standing for
  \<open>LinAlgError\<close>; pressures of a state are Python floats, all other quantities finite reals, the values
  of a fault included.  The conductance the step computes for an edge is stored with the edge itself:
  the source keeps it under the index of the edge's id, and ids are distinct in eligible labs.
\<close>

datatype FaultKind = LEAK | VALVE_STUCK | SENSOR_BIAS | SENSOR_DROPOUT | COMPRESSOR_UNAVAILABLE
datatype operating_mode = Mode_RUNNING | Mode_OFF | Mode_UNAVAILABLE

record PhysicalState =
  ps_tick :: nat
  pressures_pa :: "lab_key \<rightharpoonup> pyfloat"
  flows_kg_s :: "lab_key \<rightharpoonup> real"
  operating_modes :: "uuid \<rightharpoonup> operating_mode"

record ActiveFault =
  target_id :: uuid
  fault_kind :: FaultKind
  fault_port :: "string option"
  fault_values :: "string \<rightharpoonup> real"

record ControlState =
  setpoints :: "uuid \<rightharpoonup> (string \<rightharpoonup> param)"
  active_faults :: "ActiveFault list"

definition numerical_failure :: "string \<Rightarrow> exn" where
  "numerical_failure msg = RuntimeError (''NumericalFailureError: '' @ msg)"

section \<open>Controls and faults\<close>

text \<open>\<open>max(lo, min(hi, v))\<close> with Python's treatment of NaN.\<close>

definition clamp :: "real \<Rightarrow> real \<Rightarrow> pyfloat \<Rightarrow> real" where
  "clamp lo hi v =
     (let m = (if pf_lt v (Fin hi) then v else Fin hi) in the_fin (if pf_lt (Fin lo) m then m else Fin lo))"

definition setpoint :: "ControlState \<Rightarrow> uuid \<Rightarrow> string \<Rightarrow> pyfloat \<Rightarrow> pyfloat" where
  "setpoint controls a k dflt = (case setpoints controls a of None \<Rightarrow> dflt
     | Some sp \<Rightarrow> (case sp k of None \<Rightarrow> dflt | Some v \<Rightarrow> num_of v))"

text \<open>\<open>faults_by_target[target][kind]\<close>: the last active fault of that kind.\<close>

definition fault_on :: "ControlState \<Rightarrow> uuid \<Rightarrow> FaultKind \<Rightarrow> ActiveFault option" where
  "fault_on controls a kind =
     (case filter (\<lambda>f. target_id f = a \<and> fault_kind f = kind) (active_faults controls) of
        [] \<Rightarrow> None | fs \<Rightarrow> Some (last fs))"

definition fault_value :: "ActiveFault \<Rightarrow> string \<Rightarrow> real \<Rightarrow> real" where
  "fault_value f k dflt = (case fault_values f k of None \<Rightarrow> dflt | Some v \<Rightarrow> v)"

definition edge_conductance :: "ControlState \<Rightarrow> NetworkEdge \<Rightarrow> real" where
  "edge_conductance controls e =
     (case ne_asset_id e of
        Some a \<Rightarrow>
          (if is_valve e then
             base_conductance e * clamp 0 1
               (case fault_on controls a VALVE_STUCK of
                  Some f \<Rightarrow> Fin (fault_value f ''opening'' 0)
                | None \<Rightarrow> setpoint controls a ''opening'' (Fin 1))
           else base_conductance e)
      | None \<Rightarrow> base_conductance e)"

definition compressor_enabled :: "ControlState \<Rightarrow> CompressorSource \<Rightarrow> bool" where
  "compressor_enabled controls c =
     (case fault_on controls (cs_asset_id c) COMPRESSOR_UNAVAILABLE of
        Some _ \<Rightarrow> False
      | None \<Rightarrow> setpoint controls (cs_asset_id c) ''enabled'' (Fin (if cs_enabled c then 1 else 0)) \<noteq> Fin 0)"

definition compressor_mode :: "ControlState \<Rightarrow> CompressorSource \<Rightarrow> operating_mode" where
  "compressor_mode controls c =
     (case fault_on controls (cs_asset_id c) COMPRESSOR_UNAVAILABLE of
        Some _ \<Rightarrow> Mode_UNAVAILABLE
      | None \<Rightarrow> if compressor_enabled controls c then Mode_RUNNING else Mode_OFF)"

record comp_config =
  cc_node :: nat
  cc_flow :: real
  cc_p_max :: real
  cc_on :: bool

text \<open>\<open>cc_flow\<close> is \<open>q_nom * load\<close>, \<open>cc_on\<close> is \<open>enabled and load > 0\<close>.\<close>

definition comp_configs :: "CompiledNetwork \<Rightarrow> ControlState \<Rightarrow> comp_config list" where
  "comp_configs network controls = map (\<lambda>c.
     (let load = clamp 0 1 (setpoint controls (cs_asset_id c) ''load'' (Fin (nominal_load c)))
      in \<lparr>cc_node = cs_node_index c, cc_flow = q_nom_kg_s c * load, cc_p_max = p_max_pa c,
          cc_on = (compressor_enabled controls c \<and> 0 < load)\<rparr>)) (compressors network)"

definition demand_configs :: "CompiledNetwork \<Rightarrow> ControlState \<Rightarrow> (nat \<times> real) list" where
  "demand_configs network controls = map (\<lambda>d. (ds_node_index d, ds_base_conductance d *
     clamp 0 2 (setpoint controls (ds_asset_id d) ''load_factor'' (Fin (nominal_load_factor d))))) (demands network)"

definition port_of :: "string \<Rightarrow> PortName option" where
  "port_of p = map_of [(''A'', Port_A), (''B'', Port_B), (''OUT'', Port_OUT), (''IN'', Port_IN)] p"

text \<open>An absent or empty port means the first node of the asset; a port the asset does not have gives no leak.\<close>

definition leak_node :: "CompiledNetwork \<Rightarrow> ActiveFault \<Rightarrow> nat option" where
  "leak_node network f =
     (if fault_port f \<in> {None, Some []}
      then map_option node_index (find (\<lambda>n. nn_asset_id n = target_id f) (nodes network))
      else (case port_of (the (fault_port f)) of
              Some p \<Rightarrow> port_to_node_index network (target_id f, p) | None \<Rightarrow> None))"

definition leak_configs :: "CompiledNetwork \<Rightarrow> ControlState \<Rightarrow> (nat \<times> real) list" where
  "leak_configs network controls = List.map_filter (\<lambda>f.
     if fault_kind f = LEAK
     then map_option (\<lambda>i. (i, fault_value f ''conductance_kg_s_pa'' (1 / 10 ^ 8))) (leak_node network f)
     else None) (active_faults controls)"

section \<open>The linear system\<close>

text \<open>A boundary term adds \<open>da\<close> to \<open>a_vec\<close> and \<open>db\<close> to \<open>b_vec\<close> at its node.\<close>

type_synonym boundary = "(nat \<times> real \<times> real) list"

definition active_terms ::
  "comp_config list \<Rightarrow> (nat \<times> real) list \<Rightarrow> (nat \<times> real) list \<Rightarrow> (nat \<Rightarrow> real) \<Rightarrow> boundary"
where
  "active_terms cs ds ls p =
     map (\<lambda>c. (cc_node c, cc_flow c, cc_flow c / cc_p_max c)) (filter (\<lambda>c. cc_on c \<and> p (cc_node c) < cc_p_max c) cs)
     @ map (\<lambda>(i, k). (i, k * P_ATM, k)) (filter (\<lambda>(i, k). P_ATM < p i \<and> 0 < k) (ds @ ls))"

definition accumulate :: "boundary \<Rightarrow> (nat \<Rightarrow> real) \<times> (nat \<Rightarrow> real)" where
  "accumulate bs = foldl (\<lambda>(a, b) (i, da, db). (a(i := a i + da), b(i := b i + db))) (\<lambda>_. 0, \<lambda>_. 0) bs"

type_synonym linear_solver = "nat \<Rightarrow> (nat \<times> nat \<Rightarrow> real) \<Rightarrow> (nat \<Rightarrow> real) \<Rightarrow> (nat \<Rightarrow> real) option"

definition system_matrix :: "(nat \<Rightarrow> real) \<Rightarrow> (nat \<Rightarrow> real) \<Rightarrow> (nat \<times> nat \<Rightarrow> real) \<Rightarrow> nat \<times> nat \<Rightarrow> real" where
  "system_matrix c b L = (\<lambda>(i, j). (if i = j then c i + b i else 0) + L (i, j))"

definition system_rhs :: "(nat \<Rightarrow> real) \<Rightarrow> (nat \<Rightarrow> real) \<Rightarrow> (nat \<Rightarrow> real) \<Rightarrow> nat \<Rightarrow> real" where
  "system_rhs c a p_prev = (\<lambda>i. c i * p_prev i + a i)"

definition active_set_match :: "comp_config list \<Rightarrow> (nat \<times> real) list \<Rightarrow> (nat \<Rightarrow> real) \<Rightarrow> (nat \<Rightarrow> real) \<Rightarrow> bool" where
  "active_set_match cs ds p_curr p_sol \<longleftrightarrow>
     list_all (\<lambda>c. (p_sol (cc_node c) < cc_p_max c) = (p_curr (cc_node c) < cc_p_max c)) (filter cc_on cs) \<and>
     list_all (\<lambda>(i, k). (P_ATM < p_sol i) = (P_ATM < p_curr i)) (filter (\<lambda>(i, k). 0 < k) ds)"

definition close_enough :: "nat \<Rightarrow> (nat \<Rightarrow> real) \<Rightarrow> (nat \<Rightarrow> real) \<Rightarrow> bool" where
  "close_enough n p_curr p_sol \<longleftrightarrow> list_all (\<lambda>i. \<bar>p_sol i - p_curr i\<bar> \<le> 1 / 10 ^ 7) [0..<n]"

text \<open>The loop over \<open>range(16)\<close>; the flag is \<open>converged\<close>.\<close>

fun active_set ::
  "nat \<Rightarrow> linear_solver \<Rightarrow> nat \<Rightarrow> (nat \<Rightarrow> real) \<Rightarrow> (nat \<times> nat \<Rightarrow> real) \<Rightarrow> comp_config list \<Rightarrow> (nat \<times> real) list
     \<Rightarrow> (nat \<times> real) list \<Rightarrow> (nat \<Rightarrow> real) \<Rightarrow> (nat \<Rightarrow> real) \<Rightarrow> exn + (nat \<Rightarrow> real) \<times> bool"
where
  "active_set 0 solve n c L cs ds ls p_prev p_curr = Inr (p_curr, False)"
| "active_set (Suc fuel) solve n c L cs ds ls p_prev p_curr =
     (let (a, b) = accumulate (active_terms cs ds ls p_curr) in
      case solve n (system_matrix c b L) (system_rhs c a p_prev) of
        None \<Rightarrow> Inl (numerical_failure ''Singular matrix in solver iteration'')
      | Some p_sol \<Rightarrow>
          (if active_set_match cs ds p_curr p_sol \<and> close_enough n p_curr p_sol then Inr (p_sol, True)
           else active_set fuel solve n c L cs ds ls p_prev p_sol))"

section \<open>One step\<close>

definition node_pressure :: "PhysicalState \<Rightarrow> NetworkNode \<Rightarrow> pyfloat" where
  "node_pressure state node = (case pressures_pa state (node_id node) of
     Some v \<Rightarrow> v | None \<Rightarrow> Fin (initial_pressure_pa node))"

definition previous_pressures :: "CompiledNetwork \<Rightarrow> PhysicalState \<Rightarrow> exn + (nat \<Rightarrow> real)" where
  "previous_pressures network state =
     fold_err (\<lambda>p node. case node_pressure state node of
         Fin v \<Rightarrow> if v \<le> 0 then Inl (numerical_failure ''Initial node pressure invalid'')
                  else Inr (p(node_index node := v))
       | _ \<Rightarrow> Inl (numerical_failure ''Initial node pressure invalid'')) (\<lambda>_. 0) (nodes network)"

definition source_flow :: "comp_config list \<Rightarrow> (nat \<Rightarrow> real) \<Rightarrow> real" where
  "source_flow cs p = sum_list (map (\<lambda>c. cc_flow c * max 0 (1 - p (cc_node c) / cc_p_max c)) (filter cc_on cs))"

definition sink_flow :: "(nat \<times> real) list \<Rightarrow> (nat \<Rightarrow> real) \<Rightarrow> real" where
  "sink_flow ks p = sum_list (map (\<lambda>(i, k). k * max 0 (p i - P_ATM)) (filter (\<lambda>(i, k). 0 < k) ks))"

definition conservation_error ::
  "real \<Rightarrow> real list \<Rightarrow> comp_config list \<Rightarrow> (nat \<times> real) list \<Rightarrow> (nat \<times> real) list \<Rightarrow> (nat \<Rightarrow> real) \<Rightarrow> (nat \<Rightarrow> real) \<Rightarrow> real"
where
  "conservation_error dt caps cs ds ls p_prev p_next =
     \<bar>(\<Sum>i < length caps. caps ! i * p_next i - caps ! i * p_prev i)
       - dt * (source_flow cs p_next - (sink_flow ds p_next + sink_flow ls p_next))\<bar>"

definition allowed_tolerance :: "real list \<Rightarrow> (nat \<Rightarrow> real) \<Rightarrow> real" where
  "allowed_tolerance caps p_prev = 1 / 10 ^ 9 + 1 / 10 ^ 8 * (\<Sum>i < length caps. \<bar>caps ! i * p_prev i\<bar>)"

definition dict_of :: "('k \<times> 'v) list \<Rightarrow> 'k \<rightharpoonup> 'v" where
  "dict_of kvs = foldl (\<lambda>m (k, v). m(k \<mapsto> v)) (\<lambda>_. None) kvs"

definition step_lab ::
  "linear_solver \<Rightarrow> real \<Rightarrow> CompiledNetwork \<Rightarrow> PhysicalState \<Rightarrow> ControlState \<Rightarrow> exn + PhysicalState"
where
  "step_lab solve dt network state controls =
     bind_err (previous_pressures network state) (\<lambda>p_prev.
       (let n = length (nodes network); caps = capacitances network;
            cs = comp_configs network controls; ds = demand_configs network controls;
            ls = leak_configs network controls;
            L = laplacian (map (\<lambda>e. (from_node e, to_node e, edge_conductance controls e)) (edges network))
        in bind_err (active_set 16 solve n (\<lambda>i. caps ! i / dt) L cs ds ls p_prev p_prev) (\<lambda>(p_next, _).
             run_checks
               [(list_ex (\<lambda>i. p_next i \<le> 0) [0..<n], numerical_failure ''Non-positive absolute pressure in solution''),
                (list_ex (\<lambda>i. 2000000 < p_next i) [0..<n], numerical_failure ''Extreme pressure exceeding 2.0 MPa limit''),
                (allowed_tolerance caps p_prev < conservation_error dt caps cs ds ls p_prev p_next,
                 numerical_failure ''Conservation gate violation'')]
               \<lparr>ps_tick = ps_tick state + 1,
                pressures_pa = dict_of (map (\<lambda>x. (node_id x, Fin (p_next (node_index x)))) (nodes network)),
                flows_kg_s = dict_of (map (\<lambda>e. (edge_id e,
                  edge_conductance controls e * (p_next (from_node e) - p_next (to_node e)))) (edges network)),
                operating_modes = dict_of (map (\<lambda>c. (cs_asset_id c, compressor_mode controls c)) (compressors network))\<rparr>)))"

section \<open>The Laplacian\<close>

lemma bump_apply: "bump m (a, b) x (i, j) = m (i, j) + (if i = a \<and> j = b then x else 0)"
  by (simp add: bump_def)

definition link_flow :: "(nat \<Rightarrow> real) \<Rightarrow> nat \<Rightarrow> nat \<times> nat \<times> real \<Rightarrow> real" where
  "link_flow p i = (\<lambda>(f, t, k). (if i = f then k * (p f - p t) else 0) + (if i = t then k * (p t - p f) else 0))"

lemma delta_row: "b < (n::nat) \<Longrightarrow> (\<Sum>j < n. (if i = a \<and> j = b then x else 0) * p j) = (if i = a then x * p b else (0::real))"
proof -
  assume "b < n"
  have "(\<Sum>j < n. (if i = a \<and> j = b then x else 0) * p j) = (\<Sum>j < n. if j = b then (if i = a then x * p b else 0) else 0)"
    by (rule sum.cong) auto
  with \<open>b < n\<close> show ?thesis by simp
qed

lemma stamp_edge_row:
  assumes "f < n" "t < n"
  shows "(\<Sum>j < n. stamp_edge f t k m (i, j) * p j) = (\<Sum>j < n. m (i, j) * p j) + link_flow p i (f, t, k)"
proof -
  have "(\<Sum>j < n. stamp_edge f t k m (i, j) * p j) = (\<Sum>j < n. m (i, j) * p j)
      + (\<Sum>j < n. (if i = f \<and> j = f then k else 0) * p j) + (\<Sum>j < n. (if i = t \<and> j = t then k else 0) * p j)
      + (\<Sum>j < n. (if i = f \<and> j = t then - k else 0) * p j) + (\<Sum>j < n. (if i = t \<and> j = f then - k else 0) * p j)"
    unfolding stamp_edge_def bump_apply by (simp add: sum.distrib [symmetric] distrib_right)
  also have "\<dots> = (\<Sum>j < n. m (i, j) * p j) + link_flow p i (f, t, k)"
    unfolding delta_row [OF assms(1)] delta_row [OF assms(2)] by (simp add: link_flow_def algebra_simps)
  finally show ?thesis .
qed

lemma laplacian_snoc: "laplacian (ls @ [(f, t, k)]) = stamp_edge f t k (laplacian ls)"
  by (simp add: laplacian_def)

lemma laplacian_row:
  "\<forall>(f, t, k) \<in> set ls. f < n \<and> t < n \<Longrightarrow>
     (\<Sum>j < n. laplacian ls (i, j) * p j) = sum_list (map (link_flow p i) ls)"
proof (induction ls rule: rev_induct)
  case (snoc x ls)
  obtain f t k where x: "x = (f, t, k)" by (cases x)
  with snoc show ?case by (simp add: laplacian_snoc stamp_edge_row)
qed (simp add: laplacian_def)

text \<open>What flows out of one end of a link flows into the other.\<close>

lemma link_flow_sum: "f < n \<Longrightarrow> t < n \<Longrightarrow> (\<Sum>i < n. link_flow p i (f, t, k)) = 0"
  by (simp add: link_flow_def sum.distrib algebra_simps)

lemma laplacian_conserves:
  assumes "\<forall>(f, t, k) \<in> set ls. f < n \<and> t < n"
  shows "(\<Sum>i < n. \<Sum>j < n. laplacian ls (i, j) * p j) = 0"
proof -
  have "(\<Sum>i < n. \<Sum>j < n. laplacian ls (i, j) * p j) = (\<Sum>i < n. sum_list (map (link_flow p i) ls))"
    using laplacian_row [OF assms] by simp
  also have "\<dots> = sum_list (map (\<lambda>l. \<Sum>i < n. link_flow p i l) ls)"
    by (induction ls) (simp_all add: sum.distrib)
  also have "\<dots> = 0"
    using assms by (induction ls) (auto simp: link_flow_sum)
  finally show ?thesis .
qed

lemma link_flow_extreme:
  assumes "\<forall>(f, t, k) \<in> set ls. f < n \<and> t < n \<and> 0 \<le> k"
  shows "\<forall>j < n. p i \<le> p j \<Longrightarrow> (\<Sum>j < n. laplacian ls (i, j) * p j) \<le> 0"
    and "\<forall>j < n. p j \<le> p i \<Longrightarrow> 0 \<le> (\<Sum>j < n. laplacian ls (i, j) * p j)"
proof -
  have links: "\<forall>(f, t, k) \<in> set ls. f < n \<and> t < n" using assms by auto
  have mem: "f < n \<and> t < n \<and> 0 \<le> k" if "(f, t, k) \<in> set ls" for f t k using assms that by auto
  show "(\<Sum>j < n. laplacian ls (i, j) * p j) \<le> 0" if "\<forall>j < n. p i \<le> p j"
  proof -
    have "link_flow p i (f, t, k) \<le> 0" if "(f, t, k) \<in> set ls" for f t k
      using mem [OF that] \<open>\<forall>j < n. p i \<le> p j\<close> by (auto simp: link_flow_def intro!: mult_nonneg_nonpos)
    then show ?thesis unfolding laplacian_row [OF links] by (auto intro!: sum_list_nonpos)
  qed
  show "0 \<le> (\<Sum>j < n. laplacian ls (i, j) * p j)" if "\<forall>j < n. p j \<le> p i"
  proof -
    have "0 \<le> link_flow p i (f, t, k)" if "(f, t, k) \<in> set ls" for f t k
      using mem [OF that] \<open>\<forall>j < n. p j \<le> p i\<close> by (auto simp: link_flow_def)
    then show ?thesis unfolding laplacian_row [OF links] by (auto intro!: sum_list_nonneg)
  qed
qed

section \<open>Boundary terms\<close>

lemma accumulate_snoc:
  "accumulate (bs @ [(i, da, db)]) =
     ((fst (accumulate bs))(i := fst (accumulate bs) i + da), (snd (accumulate bs))(i := snd (accumulate bs) i + db))"
  by (simp add: accumulate_def case_prod_beta)

definition at_node :: "nat \<Rightarrow> boundary \<Rightarrow> boundary" where
  "at_node i bs = filter (\<lambda>(j, _). j = i) bs"

lemma accumulate_at:
  "accumulate bs = (\<lambda>i. sum_list (map (\<lambda>(j, da, db). da) (at_node i bs)), \<lambda>i. sum_list (map (\<lambda>(j, da, db). db) (at_node i bs)))"
proof (induction bs rule: rev_induct)
  case (snoc x bs)
  obtain i da db where x: "x = (i, da, db)" by (cases x)
  show ?case unfolding x accumulate_snoc snoc by (auto simp: fun_eq_iff at_node_def)
qed (simp add: accumulate_def at_node_def)

text \<open>Summing the node equations' boundary terms over all nodes.\<close>

lemma accumulate_total:
  assumes "\<forall>(i, da, db) \<in> set bs. i < n"
  shows "(\<Sum>i < n. fst (accumulate bs) i - snd (accumulate bs) i * p i) =
    sum_list (map (\<lambda>(i, da, db). da - db * p i) bs)"
  using assms
proof (induction bs rule: rev_induct)
  case (snoc x bs)
  obtain i da db where x: "x = (i, da, db)" by (cases x)
  have i: "i < n" using snoc.prems x by simp
  have "(\<Sum>j < n. fst (accumulate (bs @ [x])) j - snd (accumulate (bs @ [x])) j * p j) =
      (\<Sum>j < n. (fst (accumulate bs) j - snd (accumulate bs) j * p j) + (if j = i then da - db * p i else 0))"
    unfolding x accumulate_snoc by (rule sum.cong) (auto simp: algebra_simps)
  with snoc i x show ?case by (simp add: sum.distrib)
qed (simp add: accumulate_def)

section \<open>Exact solutions are physical\<close>

definition exact_solver :: "linear_solver \<Rightarrow> bool" where
  "exact_solver solve \<longleftrightarrow>
     (\<forall>n A b p. solve n A b = Some p \<longrightarrow> (\<forall>i < n. (\<Sum>j < n. A (i, j) * p j) = b i))"

lemma system_row:
  assumes "i < n"
  shows "(\<Sum>j < n. system_matrix c b L (i, j) * p j) = (c i + b i) * p i + (\<Sum>j < n. L (i, j) * p j)"
proof -
  have "(\<Sum>j < n. system_matrix c b L (i, j) * p j) =
      (\<Sum>j < n. (if j = i then (c i + b i) * p i else 0) + L (i, j) * p j)"
    by (rule sum.cong) (auto simp: system_matrix_def algebra_simps)
  with assms show ?thesis by (simp add: sum.distrib)
qed

lemma extreme_node:
  fixes p :: "nat \<Rightarrow> real"
  assumes "0 < n"
  shows "\<exists>i < n. \<forall>j < n. p i \<le> p j" "\<exists>i < n. \<forall>j < n. p j \<le> p i"
proof -
  have fin: "finite (p ` {..<n})" "p ` {..<n} \<noteq> {}" using assms by auto
  obtain i where "i < n" "p i = Min (p ` {..<n})" using Min_in [OF fin] by force
  then show "\<exists>i < n. \<forall>j < n. p i \<le> p j" using Min_le [OF fin(1)] by auto
  obtain k where "k < n" "p k = Max (p ` {..<n})" using Max_in [OF fin] by force
  then show "\<exists>i < n. \<forall>j < n. p j \<le> p i" using Max_ge [OF fin(1)] by auto
qed

definition terms_ok :: "nat \<Rightarrow> real \<Rightarrow> boundary \<Rightarrow> bool" where
  "terms_ok n M bs \<longleftrightarrow> (\<forall>(i, da, db) \<in> set bs. i < n \<and> 0 \<le> da \<and> 0 \<le> db \<and> da \<le> db * M)"

lemma accumulate_bounds:
  assumes "terms_ok n M bs"
  shows "0 \<le> fst (accumulate bs) i" "0 \<le> snd (accumulate bs) i" "fst (accumulate bs) i \<le> snd (accumulate bs) i * M"
proof -
  have mem: "0 \<le> da \<and> 0 \<le> db \<and> da \<le> db * M" if "(j, da, db) \<in> set (at_node i bs)" for j da db
    using that assms by (auto simp: terms_ok_def at_node_def)
  then show "0 \<le> fst (accumulate bs) i" "0 \<le> snd (accumulate bs) i"
    by (auto simp: accumulate_at intro!: sum_list_nonneg)
  have "sum_list (map (\<lambda>(j, da, db). da) xs) \<le> sum_list (map (\<lambda>(j, da, db). db) xs) * M"
    if "\<And>j da db. (j, da, db) \<in> set xs \<Longrightarrow> da \<le> db * M" for xs :: boundary
    using that by (induction xs) (fastforce simp: distrib_right)+
  from this [of "at_node i bs"] mem show "fst (accumulate bs) i \<le> snd (accumulate bs) i * M"
    by (simp add: accumulate_at)
qed

text \<open>The discrete minimum and maximum principle.\<close>

lemma solution_physical:
  assumes n: "0 < n" and c: "\<forall>i < n. 0 < c i" and prev: "\<forall>i < n. 0 < pp i \<and> pp i \<le> M"
    and links: "\<forall>(f, t, k) \<in> set ls. f < n \<and> t < n \<and> 0 \<le> k" and bs: "terms_ok n M bs"
    and eq: "\<forall>i < n. (\<Sum>j < n. system_matrix c (snd (accumulate bs)) (laplacian ls) (i, j) * p j) =
      system_rhs c (fst (accumulate bs)) pp i"
  shows "\<forall>i < n. 0 < p i \<and> p i \<le> M"
proof -
  let ?a = "fst (accumulate bs)" and ?b = "snd (accumulate bs)"
  have row: "(c i + ?b i) * p i + (\<Sum>j < n. laplacian ls (i, j) * p j) = c i * pp i + ?a i" if "i < n" for i
    using eq that by (simp add: system_row system_rhs_def)
  obtain i where i: "i < n" "\<forall>j < n. p i \<le> p j" using extreme_node(1) [OF n] by blast
  have "0 < c i * pp i + ?a i" using c prev i(1) accumulate_bounds(1) [OF bs] by (simp add: add_pos_nonneg)
  also have "\<dots> \<le> (c i + ?b i) * p i" using row [OF i(1)] link_flow_extreme(1) [OF links i(2)] by linarith
  finally have low: "0 < p i"
    using c i(1) accumulate_bounds(2) [OF bs, of i] by (meson add_pos_nonneg less_le_not_le linorder_not_le zero_less_mult_pos)
  obtain k where k: "k < n" "\<forall>j < n. p j \<le> p k" using extreme_node(2) [OF n] by blast
  have "(c k + ?b k) * p k \<le> c k * pp k + ?a k"
    using row [OF k(1)] link_flow_extreme(2) [OF links k(2)] by linarith
  also have "\<dots> \<le> c k * M + ?b k * M"
    using c prev k(1) accumulate_bounds(3) [OF bs] by (intro add_mono mult_left_mono) (auto simp: less_imp_le)
  also have "\<dots> = (c k + ?b k) * M" by (simp add: distrib_right)
  finally have "p k \<le> M" using c k(1) accumulate_bounds(2) [OF bs, of k] by (simp add: add_pos_nonneg)
  with low show ?thesis using i(2) k(2) by (meson less_le_trans order_trans)
qed

section \<open>A converged step conserves mass\<close>

lemma solution_balance:
  assumes "\<forall>(f, t, k) \<in> set ls. f < n \<and> t < n" "\<forall>(i, da, db) \<in> set bs. i < n"
    and eq: "\<forall>i < n. (\<Sum>j < n. system_matrix c (snd (accumulate bs)) (laplacian ls) (i, j) * p j) =
      system_rhs c (fst (accumulate bs)) pp i"
  shows "(\<Sum>i < n. c i * p i - c i * pp i) = sum_list (map (\<lambda>(i, da, db). da - db * p i) bs)"
proof -
  let ?a = "fst (accumulate bs)" and ?b = "snd (accumulate bs)"
  have "c i * p i - c i * pp i = (?a i - ?b i * p i) - (\<Sum>j < n. laplacian ls (i, j) * p j)" if "i < n" for i
  proof -
    have "(c i + ?b i) * p i + (\<Sum>j < n. laplacian ls (i, j) * p j) = c i * pp i + ?a i"
      using eq that by (simp add: system_row system_rhs_def)
    then show ?thesis by (simp add: distrib_right)
  qed
  then have "(\<Sum>i < n. c i * p i - c i * pp i) =
      (\<Sum>i < n. (?a i - ?b i * p i) - (\<Sum>j < n. laplacian ls (i, j) * p j))" by simp
  also have "\<dots> = sum_list (map (\<lambda>(i, da, db). da - db * p i) bs)"
    using accumulate_total [OF assms(2)] laplacian_conserves [OF assms(1)] by (simp add: sum_subtractf)
  finally show ?thesis .
qed

lemma matched_sources:
  "list_all (\<lambda>c. (p (cc_node c) < cc_p_max c) = (q (cc_node c) < cc_p_max c)) (filter cc_on cs) \<Longrightarrow>
   \<forall>c \<in> set cs. 0 < cc_p_max c \<Longrightarrow>
   sum_list (map (\<lambda>c. cc_flow c - cc_flow c / cc_p_max c * p (cc_node c))
     (filter (\<lambda>c. cc_on c \<and> q (cc_node c) < cc_p_max c) cs)) = source_flow cs p"
proof (induction cs)
  case (Cons c cs)
  have "cc_flow c - cc_flow c / cc_p_max c * p (cc_node c) = cc_flow c * max 0 (1 - p (cc_node c) / cc_p_max c)"
    if "p (cc_node c) < cc_p_max c"
    using that Cons.prems(2) by (simp add: max_def field_simps)
  moreover have "cc_flow c * max 0 (1 - p (cc_node c) / cc_p_max c) = 0" if "\<not> p (cc_node c) < cc_p_max c"
    using that Cons.prems(2) by (simp add: max_def field_simps)
  ultimately show ?case using Cons by (auto simp: source_flow_def)
qed (simp add: source_flow_def)

lemma boundary_sinks:
  "sum_list (map (\<lambda>(i, da, db). da - db * p i) (map (\<lambda>(i, k). (i, k * P_ATM, k)) ks)) =
     sum_list (map (\<lambda>(i, k). k * P_ATM - k * p i) ks)"
  by (induction ks) auto

lemma boundary_sources:
  "sum_list (map (\<lambda>(i, da, db). da - db * p i) (map (\<lambda>c. (cc_node c, cc_flow c, cc_flow c / cc_p_max c)) cs)) =
     sum_list (map (\<lambda>c. cc_flow c - cc_flow c / cc_p_max c * p (cc_node c)) cs)"
  by (simp add: comp_def)

lemma matched_sinks:
  "list_all (\<lambda>(i, k). (P_ATM < p i) = (P_ATM < q i)) (filter (\<lambda>(i, k). 0 < k) ds) \<Longrightarrow>
   sum_list (map (\<lambda>(i, k). k * P_ATM - k * p i) (filter (\<lambda>(i, k). P_ATM < q i \<and> 0 < k) ds)) = - sink_flow ds p"
proof (induction ds)
  case (Cons d ds)
  obtain i k where d: "d = (i, k)" by (cases d)
  have "k * P_ATM - k * p i = - (k * max 0 (p i - P_ATM))" if "P_ATM < p i"
    using that by (simp add: algebra_simps)
  moreover have "k * max 0 (p i - P_ATM) = 0" if "\<not> P_ATM < p i" using that by simp
  ultimately show ?case using Cons by (auto simp: sink_flow_def d)
qed (simp add: sink_flow_def)

lemma near_sinks:
  "\<forall>(i, k) \<in> set ls. \<bar>p i - q i\<bar> \<le> d \<Longrightarrow>
   \<bar>sum_list (map (\<lambda>(i, k). k * P_ATM - k * p i) (filter (\<lambda>(i, k). P_ATM < q i \<and> 0 < k) ls)) + sink_flow ls p\<bar>
     \<le> d * sum_list (map snd (filter (\<lambda>(i, k). 0 < k) ls))"
proof (induction ls)
  case (Cons x ls)
  obtain i k where x: "x = (i, k)" by (cases x)
  have near: "\<bar>p i - q i\<bar> \<le> d" using Cons.prems x by simp
  let ?t = "(if P_ATM < q i then k * P_ATM - k * p i else 0) + k * max 0 (p i - P_ATM)"
  have "\<bar>?t\<bar> \<le> d * k" if "0 < k"
  proof -
    have "\<bar>?t\<bar> = k * \<bar>(if P_ATM < q i then P_ATM - p i else 0) + max 0 (p i - P_ATM)\<bar>"
      using that by (simp add: abs_mult [symmetric] algebra_simps max_def)
    also have "\<bar>(if P_ATM < q i then P_ATM - p i else 0) + max 0 (p i - P_ATM)\<bar> \<le> d"
      using near by (auto simp: max_def)
    finally show ?thesis using that by (simp add: mult.commute)
  qed
  moreover let ?S = "sum_list (map (\<lambda>(i, k). k * P_ATM - k * p i) (filter (\<lambda>(i, k). P_ATM < q i \<and> 0 < k) ls))"
  have "sum_list (map (\<lambda>(i, k). k * P_ATM - k * p i) (filter (\<lambda>(i, k). P_ATM < q i \<and> 0 < k) (x # ls))) + sink_flow (x # ls) p =
      (?S + sink_flow ls p) + (if 0 < k then ?t else 0)"
    by (simp add: x sink_flow_def)
  moreover have "d * sum_list (map snd (filter (\<lambda>(i, k). 0 < k) (x # ls))) =
      d * sum_list (map snd (filter (\<lambda>(i, k). 0 < k) ls)) + (if 0 < k then d * k else 0)"
    by (simp add: x distrib_left)
  moreover have "\<bar>?S + sink_flow ls p\<bar> \<le> d * sum_list (map snd (filter (\<lambda>(i, k). 0 < k) ls))"
    using Cons by simp
  ultimately show ?case by (auto intro: order_trans [OF abs_triangle_ineq add_mono])
qed (simp add: sink_flow_def)

section \<open>The step of a compiled network\<close>

text \<open>Pressures every node can have: positive and at most the highest admissible rating.\<close>

definition physical_state :: "CompiledNetwork \<Rightarrow> PhysicalState \<Rightarrow> bool" where
  "physical_state network st \<longleftrightarrow>
     (\<forall>x \<in> set (nodes network). \<exists>v. node_pressure st x = Fin v \<and> 0 < v \<and> v \<le> 1500000)"

lemma clamp_bounds: "lo \<le> hi \<Longrightarrow> lo \<le> clamp lo hi v \<and> clamp lo hi v \<le> hi"
  by (cases v) (auto simp: clamp_def Let_def)

lemma network_index_set:
  assumes "network_ok network"
  shows "node_index ` set (nodes network) = {..<length (nodes network)}"
proof -
  have "map node_index (nodes network) = [0..<length (nodes network)]" using assms by (simp add: network_ok_def)
  then show ?thesis by (metis atLeast_upt set_map)
qed

lemma comp_configs_ok:
  assumes "network_ok network" "c \<in> set (comp_configs network controls)"
  shows "cc_node c < length (nodes network) \<and> 0 \<le> cc_flow c \<and> 0 < cc_p_max c \<and> cc_p_max c \<le> 1500000"
  using assms clamp_bounds [of 0 1] by (auto simp: comp_configs_def network_ok_def Let_def less_imp_le)

lemma demand_configs_ok:
  assumes "network_ok network" "(i, k) \<in> set (demand_configs network controls)"
  shows "i < length (nodes network)"
  using assms by (auto simp: demand_configs_def network_ok_def)

lemma leak_configs_ok:
  assumes "network_ok network" "(i, k) \<in> set (leak_configs network controls)"
  shows "i < length (nodes network)"
proof -
  from assms(2) obtain f where "leak_node network f = Some i"
    by (auto simp: leak_configs_def List.map_filter_def split: if_splits)
  then consider p where "port_to_node_index network (target_id f, p) = Some i"
    | x where "x \<in> set (nodes network)" "node_index x = i"
    by (auto simp: leak_node_def find_Some_iff split: option.splits if_splits dest: nth_mem)
  then show ?thesis
  proof cases
    case 1
    then have "i \<in> ran (port_to_node_index network)" by (rule ranI)
    with assms(1) show ?thesis by (auto simp: network_ok_def)
  next
    case 2
    with network_index_set [OF assms(1)] show ?thesis by blast
  qed
qed

lemma active_terms_ok:
  assumes "network_ok network"
  shows "terms_ok (length (nodes network)) 1500000 (active_terms (comp_configs network controls)
    (demand_configs network controls) (leak_configs network controls) p)"
proof -
  have "cc_flow c \<le> cc_flow c / cc_p_max c * 1500000 \<and> 0 \<le> cc_flow c / cc_p_max c"
    if "c \<in> set (comp_configs network controls)" for c
  proof -
    have "cc_flow c * cc_p_max c \<le> cc_flow c * 1500000" using comp_configs_ok [OF assms that] by (simp add: mult_left_mono)
    then show ?thesis using comp_configs_ok [OF assms that] by (simp add: field_simps)
  qed
  then show ?thesis
    using comp_configs_ok [OF assms] demand_configs_ok [OF assms] leak_configs_ok [OF assms]
    by (auto simp: terms_ok_def active_terms_def P_ATM_def)
qed

lemma edge_links_ok:
  assumes "network_ok network"
  shows "\<forall>(f, t, k) \<in> set (map (\<lambda>e. (from_node e, to_node e, edge_conductance controls e)) (edges network)).
    f < length (nodes network) \<and> t < length (nodes network) \<and> 0 \<le> k"
  using assms clamp_bounds [of 0 1]
  by (auto simp: network_ok_def edge_conductance_def split: option.splits)

lemma previous_pressures_ok:
  assumes "network_ok network" "physical_state network st"
  shows "\<exists>p. previous_pressures network st = Inr p \<and> (\<forall>i < length (nodes network). 0 < p i \<and> p i \<le> 1500000)"
proof -
  let ?f = "\<lambda>p node. case node_pressure st node of
         Fin v \<Rightarrow> if v \<le> 0 then Inl (numerical_failure ''Initial node pressure invalid'')
                  else Inr (p(node_index node := v))
       | _ \<Rightarrow> Inl (numerical_failure ''Initial node pressure invalid'')"
  have "\<exists>p'. fold_err ?f p xs = Inr p' \<and>
      (\<forall>i. (i \<in> node_index ` set xs \<or> 0 < p i \<and> p i \<le> 1500000) \<longrightarrow> 0 < p' i \<and> p' i \<le> 1500000)"
    if "\<forall>x \<in> set xs. \<exists>v. node_pressure st x = Fin v \<and> 0 < v \<and> v \<le> 1500000" for p xs
    using that
  proof (induction xs arbitrary: p)
    case (Cons x xs)
    then obtain v where v: "node_pressure st x = Fin v" "0 < v" "v \<le> 1500000" by auto
    from Cons.IH [of "p(node_index x := v)"] Cons.prems obtain p' where
      "fold_err ?f (p(node_index x := v)) xs = Inr p'"
      "\<forall>i. (i \<in> node_index ` set xs \<or> 0 < (p(node_index x := v)) i \<and> (p(node_index x := v)) i \<le> 1500000) \<longrightarrow>
        0 < p' i \<and> p' i \<le> 1500000"
      by (auto simp del: fun_upd_apply)
    with v show ?case by (intro exI [of _ p'] conjI) (simp, auto split: if_splits)
  qed simp
  from this [of "nodes network" "\<lambda>_. 0"] assms(2) obtain p where
    p: "previous_pressures network st = Inr p"
      "\<forall>i \<in> node_index ` set (nodes network). 0 < p i \<and> p i \<le> 1500000"
    unfolding physical_state_def previous_pressures_def by blast
  moreover have "node_index ` set (nodes network) = {..<length (nodes network)}"
    by (rule network_index_set [OF assms(1)])
  ultimately show ?thesis by auto
qed

text \<open>The result of the iteration solves the last system it set up.\<close>

lemma active_set_solution:
  "active_set (Suc fuel) solve n c L cs ds ls p_prev p_curr = Inr (p, conv) \<Longrightarrow>
     \<exists>q. solve n (system_matrix c (snd (accumulate (active_terms cs ds ls q))) L)
           (system_rhs c (fst (accumulate (active_terms cs ds ls q))) p_prev) = Some p \<and>
       (conv \<longrightarrow> active_set_match cs ds q p \<and> close_enough n q p)"
proof (induction fuel arbitrary: p_curr)
  case 0
  then show ?case by (auto simp: Let_def case_prod_beta split: option.splits if_splits)
next
  case (Suc fuel)
  show ?case
  proof (cases "\<exists>q. active_set (Suc fuel) solve n c L cs ds ls p_prev q = Inr (p, conv)")
    case True
    with Suc.IH show ?thesis by blast
  next
    case False
    with Suc.prems show ?thesis
      by (subst (asm) active_set.simps(2)) (auto simp: Let_def case_prod_beta split: option.splits if_splits)
  qed
qed

lemma active_set_error:
  "active_set fuel solve n c L cs ds ls p_prev p_curr = Inl e \<Longrightarrow>
     e = numerical_failure ''Singular matrix in solver iteration''"
  by (induction fuel arbitrary: p_curr) (auto simp: Let_def case_prod_beta split: option.splits if_splits)

lemma converged_conservation:
  assumes ok: "network_ok network" and dt: "0 < dt"
    and cfg: "cs = comp_configs network controls" "ds = demand_configs network controls" "ls = leak_configs network controls"
    and links: "links = map (\<lambda>e. (from_node e, to_node e, edge_conductance controls e)) (edges network)"
    and eq: "\<forall>i < length (nodes network). (\<Sum>j < length (nodes network).
        system_matrix (\<lambda>i. capacitances network ! i / dt) (snd (accumulate (active_terms cs ds ls q))) (laplacian links) (i, j) * p j) =
      system_rhs (\<lambda>i. capacitances network ! i / dt) (fst (accumulate (active_terms cs ds ls q))) p_prev i"
    and match: "active_set_match cs ds q p" "close_enough (length (nodes network)) q p"
  shows "conservation_error dt (capacitances network) cs ds ls p_prev p
    \<le> dt * (1 / 10 ^ 7 * sum_list (map snd (filter (\<lambda>(i, k). 0 < k) ls)))"
proof -
  let ?n = "length (nodes network)" and ?c = "\<lambda>i. capacitances network ! i / dt"
  have n: "length (capacitances network) = ?n" using ok by (simp add: network_ok_def)
  have terms: "terms_ok ?n 1500000 (active_terms cs ds ls q)" unfolding cfg by (rule active_terms_ok [OF ok])
  have "\<forall>(i, da, db) \<in> set (active_terms cs ds ls q). i < ?n" using terms by (auto simp: terms_ok_def)
  moreover have "\<forall>(f, t, k) \<in> set links. f < ?n \<and> t < ?n" using edge_links_ok [OF ok, of controls] links by auto
  ultimately have "(\<Sum>i < ?n. ?c i * p i - ?c i * p_prev i) =
      sum_list (map (\<lambda>(i, da, db). da - db * p i) (active_terms cs ds ls q))"
    using solution_balance eq by blast
  moreover have "(\<Sum>i < ?n. capacitances network ! i * p i - capacitances network ! i * p_prev i) =
      dt * (\<Sum>i < ?n. ?c i * p i - ?c i * p_prev i)"
    using dt by (simp add: sum_distrib_left right_diff_distrib)
  ultimately have mass: "(\<Sum>i < ?n. capacitances network ! i * p i - capacitances network ! i * p_prev i) =
      dt * sum_list (map (\<lambda>(i, da, db). da - db * p i) (active_terms cs ds ls q))" by simp
  define leaks where "leaks = sum_list (map (\<lambda>(i, k). k * P_ATM - k * p i) (filter (\<lambda>(i, k). P_ATM < q i \<and> 0 < k) ls))"
  have pmax: "\<forall>c \<in> set cs. 0 < cc_p_max c" using comp_configs_ok [OF ok] cfg(1) by blast
  have bal: "sum_list (map (\<lambda>(i, da, db). da - db * p i) (active_terms cs ds ls q)) = source_flow cs p - sink_flow ds p + leaks"
    using matched_sources [of p q cs] matched_sinks [of p q ds] match(1) pmax
    by (simp add: active_terms_def active_set_match_def boundary_sinks boundary_sources leaks_def del: map_map)
  have near: "\<bar>leaks + sink_flow ls p\<bar> \<le> 1 / 10 ^ 7 * sum_list (map snd (filter (\<lambda>(i, k). 0 < k) ls))"
    unfolding leaks_def
    by (rule near_sinks) (use match(2) leak_configs_ok [OF ok] cfg(3) in \<open>auto simp: close_enough_def list_all_iff\<close>)
  have "conservation_error dt (capacitances network) cs ds ls p_prev p =
      \<bar>dt * (source_flow cs p - sink_flow ds p + leaks) - dt * (source_flow cs p - (sink_flow ds p + sink_flow ls p))\<bar>"
    by (simp only: conservation_error_def n mass bal)
  also have "\<dots> = \<bar>dt * (leaks + sink_flow ls p)\<bar>" by (simp add: algebra_simps)
  also have "\<dots> = dt * \<bar>leaks + sink_flow ls p\<bar>" using dt by (simp add: abs_mult)
  finally show ?thesis using near dt by simp
qed

lemma dict_of_ran: "dict_of kvs k = Some v \<Longrightarrow> (k, v) \<in> set kvs"
  by (induction kvs rule: rev_induct) (auto simp: dict_of_def split: if_splits)

lemma dict_of_dom: "(k, v) \<in> set kvs \<Longrightarrow> \<exists>v. dict_of kvs k = Some v"
  by (induction kvs rule: rev_induct) (auto simp: dict_of_def)

lemma stepped_state_physical:
  assumes "network_ok network" "\<forall>i < length (nodes network). 0 < p i \<and> p i \<le> 1500000"
    and "pressures_pa st = dict_of (map (\<lambda>x. (node_id x, Fin (p (node_index x)))) (nodes network))"
  shows "physical_state network st"
  unfolding physical_state_def
proof
  fix x assume x: "x \<in> set (nodes network)"
  let ?kvs = "map (\<lambda>x. (node_id x, Fin (p (node_index x)))) (nodes network)"
  obtain v where v: "dict_of ?kvs (node_id x) = Some v" using dict_of_dom [of "node_id x" "Fin (p (node_index x))" ?kvs] x by auto
  from dict_of_ran [OF this] obtain y where "y \<in> set (nodes network)" "v = Fin (p (node_index y))" by auto
  with network_index_set [OF assms(1)] assms(2) v assms(3)
  show "\<exists>v. node_pressure st x = Fin v \<and> 0 < v \<and> v \<le> 1500000" by (auto simp: node_pressure_def)
qed

text \<open>The iteration of the step: its pressures and whether it converged.\<close>

definition lab_iteration ::
  "linear_solver \<Rightarrow> real \<Rightarrow> CompiledNetwork \<Rightarrow> ControlState \<Rightarrow> (nat \<Rightarrow> real) \<Rightarrow> exn + (nat \<Rightarrow> real) \<times> bool"
where
  "lab_iteration solve dt network controls p_prev =
     active_set 16 solve (length (nodes network)) (\<lambda>i. capacitances network ! i / dt)
       (laplacian (map (\<lambda>e. (from_node e, to_node e, edge_conductance controls e)) (edges network)))
       (comp_configs network controls) (demand_configs network controls) (leak_configs network controls) p_prev p_prev"

definition total_leak :: "CompiledNetwork \<Rightarrow> ControlState \<Rightarrow> real" where
  "total_leak network controls = sum_list (map snd (filter (\<lambda>(i, k). 0 < k) (leak_configs network controls)))"

lemma iteration_physical:
  assumes ok: "network_ok network" and exact: "exact_solver solve" and dt: "0 < dt"
    and prev: "\<forall>i < length (nodes network). 0 < p_prev i \<and> p_prev i \<le> 1500000"
    and it: "lab_iteration solve dt network controls p_prev = Inr (p, conv)"
  shows "(\<forall>i < length (nodes network). 0 < p i \<and> p i \<le> 1500000) \<and>
    (conv \<longrightarrow> conservation_error dt (capacitances network) (comp_configs network controls)
       (demand_configs network controls) (leak_configs network controls) p_prev p
       \<le> dt * (1 / 10 ^ 7 * total_leak network controls))"
proof -
  let ?n = "length (nodes network)" and ?c = "\<lambda>i. capacitances network ! i / dt"
  let ?links = "map (\<lambda>e. (from_node e, to_node e, edge_conductance controls e)) (edges network)"
  let ?bs = "active_terms (comp_configs network controls) (demand_configs network controls) (leak_configs network controls)"
  have "16 = Suc 15" by simp
  from active_set_solution [OF it [unfolded lab_iteration_def this]] obtain q where
    q: "solve ?n (system_matrix ?c (snd (accumulate (?bs q))) (laplacian ?links))
       (system_rhs ?c (fst (accumulate (?bs q))) p_prev) = Some p"
      "conv \<longrightarrow> active_set_match (comp_configs network controls) (demand_configs network controls) q p \<and>
         close_enough ?n q p" by blast
  have eq: "\<forall>i < ?n. (\<Sum>j < ?n. system_matrix ?c (snd (accumulate (?bs q))) (laplacian ?links) (i, j) * p j) =
      system_rhs ?c (fst (accumulate (?bs q))) p_prev i"
    using exact q(1) unfolding exact_solver_def by blast
  have n: "0 < ?n" and c: "\<forall>i < ?n. 0 < ?c i" using ok dt by (auto simp: network_ok_def)
  have "\<forall>i < ?n. 0 < p i \<and> p i \<le> 1500000"
    by (rule solution_physical [OF n c prev edge_links_ok [OF ok] active_terms_ok [OF ok] eq])
  moreover have "conservation_error dt (capacitances network) (comp_configs network controls)
       (demand_configs network controls) (leak_configs network controls) p_prev p
       \<le> dt * (1 / 10 ^ 7 * total_leak network controls)" if conv
    using converged_conservation [OF ok dt refl refl refl refl eq] q(2) that unfolding total_leak_def by blast
  ultimately show ?thesis by blast
qed

text \<open>
  C6 (safety): the simulation stays physical.  On a network compiled from an eligible lab, with
  pressures between zero and the highest admissible rating and any controls and faults whose leaks
  are not absurdly large, a step with an exact linear solver keeps the pressures of all nodes in that
  range, so the gates for non-positive and extreme pressures never fire; and the conservation gate
  fires only when the active-set iteration did not converge, because a converged step balances the
  stored mass with the sources and sinks up to the leaks that switched within the tolerance.
\<close>

theorem solver_step_physical:
  assumes "network_ok network" "exact_solver solve" "0 < dt" "physical_state network state"
    and "dt * total_leak network controls \<le> 1 / 100"
  shows "case step_lab solve dt network state controls of
      Inr st \<Rightarrow> physical_state network st \<and> ps_tick st = ps_tick state + 1
    | Inl e \<Rightarrow> e = numerical_failure ''Singular matrix in solver iteration'' \<or>
        e = numerical_failure ''Conservation gate violation'' \<and>
        (\<exists>p_prev p. previous_pressures network state = Inr p_prev \<and>
           lab_iteration solve dt network controls p_prev = Inr (p, False))"
proof -
  obtain pp where pp: "previous_pressures network state = Inr pp"
    "\<forall>i < length (nodes network). 0 < pp i \<and> pp i \<le> 1500000"
    using previous_pressures_ok [OF assms(1,4)] by blast
  have step: "step_lab solve dt network state controls = bind_err (lab_iteration solve dt network controls pp) (\<lambda>(p, _).
     run_checks
       [(list_ex (\<lambda>i. p i \<le> 0) [0..<length (nodes network)], numerical_failure ''Non-positive absolute pressure in solution''),
        (list_ex (\<lambda>i. 2000000 < p i) [0..<length (nodes network)], numerical_failure ''Extreme pressure exceeding 2.0 MPa limit''),
        (allowed_tolerance (capacitances network) pp < conservation_error dt (capacitances network) (comp_configs network controls)
           (demand_configs network controls) (leak_configs network controls) pp p, numerical_failure ''Conservation gate violation'')]
       \<lparr>ps_tick = ps_tick state + 1,
        pressures_pa = dict_of (map (\<lambda>x. (node_id x, Fin (p (node_index x)))) (nodes network)),
        flows_kg_s = dict_of (map (\<lambda>e. (edge_id e,
          edge_conductance controls e * (p (from_node e) - p (to_node e)))) (edges network)),
        operating_modes = dict_of (map (\<lambda>c. (cs_asset_id c, compressor_mode controls c)) (compressors network))\<rparr>)"
    by (simp add: step_lab_def pp(1) lab_iteration_def Let_def)
  show ?thesis
  proof (cases "lab_iteration solve dt network controls pp")
    case (Inl e)
    then have "e = numerical_failure ''Singular matrix in solver iteration''"
      unfolding lab_iteration_def by (rule active_set_error)
    with Inl step show ?thesis by simp
  next
    case (Inr r)
    obtain p conv where r: "r = (p, conv)" by (cases r)
    note phys = iteration_physical [OF assms(1-3) pp(2) Inr [unfolded r]]
    have range: "\<not> list_ex (\<lambda>i. p i \<le> 0) [0..<length (nodes network)]"
      "\<not> list_ex (\<lambda>i. 2000000 < p i) [0..<length (nodes network)]"
      using phys by (force simp: list_ex_iff)+
    have "1 / 10 ^ 9 \<le> allowed_tolerance (capacitances network) pp"
      unfolding allowed_tolerance_def by (simp add: sum_nonneg)
    moreover have "dt * (1 / 10 ^ 7 * total_leak network controls) \<le> 1 / 10 ^ 9"
      using assms(5) by (simp add: field_simps)
    ultimately have "conv \<longrightarrow> \<not> allowed_tolerance (capacitances network) pp < conservation_error dt (capacitances network)
        (comp_configs network controls) (demand_configs network controls) (leak_configs network controls) pp p"
      using phys by linarith
    then show ?thesis
      using step Inr r range pp(1) stepped_state_physical [OF assms(1), of p] phys by (cases conv) auto
  qed
qed

text \<open>A single tank and a solver for one unknown.\<close>

definition tank_network :: CompiledNetwork where
  "tank_network =
     (let node = \<lparr>node_id = AssetKey 10, node_index = 0, nn_asset_id = 10, port_group = ''AB'', volume_m3 = 1 / 2,
            capacitance = 1 / 100000, initial_pressure_pa = 400000\<rparr>
      in \<lparr>cn_definition_digest = ''scene-v1'', nodes = [node], node_id_to_index = [AssetKey 10 \<mapsto> 0],
          port_to_node_index = [(10, Port_A) \<mapsto> 0, (10, Port_B) \<mapsto> 0], edges = [], edge_id_to_index = (\<lambda>_. None),
          compressors = [], demands = [], sensor_targets = (\<lambda>_. None), volumes = [1 / 2],
          capacitances = [1 / 100000], c_over_dt = [1 / 5000], base_laplacian = (\<lambda>_. 0)\<rparr>)"

definition scalar_solver :: linear_solver where
  "scalar_solver n A b = (if n = 1 \<and> A (0, 0) \<noteq> 0 then Some (\<lambda>_. b 0 / A (0, 0)) else None)"

definition tank_leak :: ControlState where
  "tank_leak = \<lparr>setpoints = (\<lambda>_. None), active_faults = [\<lparr>target_id = 10, fault_kind = LEAK,
     fault_port = Some ''A'', fault_values = [''conductance_kg_s_pa'' \<mapsto> 1 / 10 ^ 8]\<rparr>]\<rparr>"

definition start_state :: PhysicalState where
  "start_state = \<lparr>ps_tick = 0, pressures_pa = (\<lambda>_. None), flows_kg_s = (\<lambda>_. None), operating_modes = (\<lambda>_. None)\<rparr>"

lemma tank_network_ok: "network_ok tank_network"
  by (auto simp: network_ok_def tank_network_def Let_def ran_def)

theorem solver_step_physical_witness:
  "exact_solver scalar_solver \<and> total_leak tank_network tank_leak = 1 / 10 ^ 8 \<and>
   (case step_lab scalar_solver DT_DEFAULT tank_network start_state tank_leak of
      Inr st \<Rightarrow> physical_state tank_network st \<and> ps_tick st = 1
    | Inl e \<Rightarrow> e = numerical_failure ''Singular matrix in solver iteration'' \<or>
        e = numerical_failure ''Conservation gate violation'')"
proof -
  have exact: "exact_solver scalar_solver" by (auto simp: exact_solver_def scalar_solver_def split: if_splits)
  have phys: "physical_state tank_network start_state"
    by (simp add: physical_state_def node_pressure_def tank_network_def start_state_def)
  have leak: "total_leak tank_network tank_leak = 1 / 10 ^ 8"
    by (simp add: total_leak_def leak_configs_def leak_node_def port_of_def map_filter_simps fault_value_def tank_network_def tank_leak_def)
  then have "DT_DEFAULT * total_leak tank_network tank_leak \<le> 1 / 100" by (simp add: DT_DEFAULT_def)
  from solver_step_physical [OF tank_network_ok exact _ phys this] exact leak show ?thesis
    by (auto simp: DT_DEFAULT_def start_state_def split: sum.splits)
qed

section \<open>What a successful step returns\<close>

lemma step_lab_result:
  assumes "step_lab solve dt n state controls = Inr state'"
  shows "\<exists>p. ps_tick state' = ps_tick state + 1 \<and>
    pressures_pa state' = dict_of (map (\<lambda>x. (node_id x, Fin (p (node_index x)))) (nodes n)) \<and>
    flows_kg_s state' = dict_of (map (\<lambda>e. (edge_id e, edge_conductance controls e * (p (from_node e) - p (to_node e)))) (edges n))"
  using assms unfolding step_lab_def Let_def bind_err_eq_Inr
  by (elim exE conjE) (auto simp only: split_paired_all prod.case run_checks_Inr PhysicalState.simps)

section \<open>A valve compiled closed\<close>

lemma compiled_valve_edges:
  assumes "compile_lab dt d = Inr n" "lab_ok d" "a \<in> set (assets d)" "is_valve_asset a"
  shows "(\<exists>e \<in> set (edges n). edge_id e = InternalKey (asset_id a)) \<and>
    (\<forall>e \<in> set (edges n). edge_id e = InternalKey (asset_id a) \<longrightarrow> is_valve e \<and> ne_asset_id e = Some (asset_id a) \<and>
       base_conductance e = param_real a ''conductance_kg_s_pa'' (2 / 10 ^ 7) * param_real a ''opening'' 1)"
proof -
  let ?as = "sort_key asset_id (assets d)"
  obtain ns ids pidx where st: "foldl add_asset ([], \<lambda>_. None, \<lambda>_. None) ?as = (ns, ids, pidx)"
    by (metis prod_cases3)
  from assms(1) st obtain pes ves where parts: "map_err (pipe_edge pidx) (sort_key pipe_id (pipes d)) = Inr pes"
    "map_err (valve_edge pidx) (filter is_valve_asset ?as) = Inr ves" "edges n = pes @ ves"
    by (auto simp: compile_lab_def Let_def bind_err_eq_Inr split: if_splits)
  have pipe: "edge_id e \<noteq> InternalKey (asset_id a)" if "e \<in> set pes" for e
  proof -
    from that map_err_elements [OF parts(1)] obtain p where "pipe_edge pidx p = Inr e" by blast
    then show ?thesis by (auto simp: pipe_edge_def bind_err_eq_Inr)
  qed
  have valve: "\<exists>b \<in> set (assets d). edge_id e = InternalKey (asset_id b) \<and> is_valve e \<and> ne_asset_id e = Some (asset_id b) \<and>
      base_conductance e = param_real b ''conductance_kg_s_pa'' (2 / 10 ^ 7) * param_real b ''opening'' 1"
    if "e \<in> set ves" for e
  proof -
    from that map_err_elements [OF parts(2)] obtain b where "b \<in> set (assets d)" "valve_edge pidx b = Inr e" by auto
    then show ?thesis by (auto simp: valve_edge_def bind_err_eq_Inr)
  qed
  have "a \<in> set (filter is_valve_asset ?as)" using assms(3,4) by simp
  then obtain e where "e \<in> set ves" "valve_edge pidx a = Inr e" using map_err_elements [OF parts(2)] by blast
  then have "\<exists>e \<in> set (edges n). edge_id e = InternalKey (asset_id a)"
    using parts(3) by (force simp: valve_edge_def bind_err_eq_Inr)
  moreover have "b = a" if "b \<in> set (assets d)" "asset_id b = asset_id a" for b
    using that assms(2,3) by (auto simp: lab_ok_def distinct_map inj_on_def)
  ultimately show ?thesis using pipe valve parts(3) by fastforce
qed

text \<open>
  A valve compiled closed can never be opened.  The compiler multiplies the conductance of
  a valve with its initial opening and the step multiplies the result with the current opening, so for
  a valve whose definition has opening zero no control command and no fault lets any air through.
\<close>

theorem closed_valve_never_opens:
  assumes "compile_lab dt d = Inr n" "lab_ok d" "a \<in> set (assets d)" "is_valve_asset a"
    and "map_of (parameters a) ''opening'' = Some (PFloat (Fin 0))"
    and "step_lab solve dt' n state controls = Inr state'"
  shows "flows_kg_s state' (InternalKey (asset_id a)) = Some 0"
proof -
  obtain p where flows: "flows_kg_s state' = dict_of (map (\<lambda>e. (edge_id e,
      edge_conductance controls e * (p (from_node e) - p (to_node e)))) (edges n))" (is "_ = dict_of ?kvs")
    using step_lab_result [OF assms(6)] by blast
  note valves = compiled_valve_edges [OF assms(1-4)]
  have zero: "edge_conductance controls e = 0" if "e \<in> set (edges n)" "edge_id e = InternalKey (asset_id a)" for e
    using that valves assms(5) by (auto simp: edge_conductance_def param_real_def)
  obtain e where "e \<in> set (edges n)" "edge_id e = InternalKey (asset_id a)" using valves by blast
  then have "(InternalKey (asset_id a), edge_conductance controls e * (p (from_node e) - p (to_node e))) \<in> set ?kvs"
    by force
  from dict_of_dom [OF this] obtain v where v: "dict_of ?kvs (InternalKey (asset_id a)) = Some v" by blast
  from dict_of_ran [OF this] zero have "v = 0" by auto
  with v flows show ?thesis by simp
qed

text \<open>A lab of one closed valve with a pressure sensor, controls that open it, and a solver for diagonal systems of two unknowns.\<close>

definition closed_lab :: LabDefinition where
  "closed_lab =
     \<lparr>lab_id = 2, revision = 1, lab_name = ''closed'',
      assets = [\<lparr>asset_id = 11, asset_type = ISOLATION_VALVE, position_m = (Fin 0, Fin 0, Fin 0),
        rotation_y_rad = Fin 0, parameters = [(''opening'', PFloat (Fin 0))]\<rparr>],
      pipes = [], sensors = [\<lparr>sensor_id = 30, sensor_kind = PRESSURE,
        sensor_target = PortTarget \<lparr>pr_asset_id = 11, pr_port = Port_A\<rparr>, noise_std = Fin 500, alarm_low = None,
        alarm_high = Some (Fin 600000)\<rparr>], scene_revision = ''scene-v1''\<rparr>"

definition diagonal_solver :: linear_solver where
  "diagonal_solver n A b =
     (if n = 2 \<and> A (0, 0) \<noteq> 0 \<and> A (1, 1) \<noteq> 0 \<and> A (0, 1) = 0 \<and> A (1, 0) = 0
      then Some (\<lambda>i. b i / A (i, i)) else None)"

definition opened :: ControlState where
  "opened = \<lparr>setpoints = [11 \<mapsto> [''opening'' \<mapsto> PFloat (Fin 1)]], active_faults = []\<rparr>"

definition valve_capacity :: real where
  "valve_capacity = 5 / 1000 / (R_AIR * T_REF)"

text \<open>Two nodes at the same pressure without any flow between them.\<close>

definition idle_network :: "CompiledNetwork \<Rightarrow> bool" where
  "idle_network n \<longleftrightarrow> (\<exists>x0 x1 e. nodes n = [x0, x1] \<and> node_index x0 = 0 \<and> node_index x1 = 1 \<and> node_id x0 = PortKey 11 Port_A \<and>
     node_id x1 = PortKey 11 Port_B \<and> initial_pressure_pa x0 = 400000 \<and> initial_pressure_pa x1 = 400000 \<and>
     edges n = [e] \<and> from_node e = 0 \<and> to_node e = 1 \<and> base_conductance e = 0) \<and>
     capacitances n = [valve_capacity, valve_capacity] \<and> compressors n = [] \<and> demands n = []"

definition idle_pressures :: "nat \<Rightarrow> real" where
  "idle_pressures = (\<lambda>_. 0)(0 := 400000, Suc 0 := 400000)"

lemma closed_lab_compiles: "\<exists>n. compile_lab DT_DEFAULT closed_lab = Inr n \<and> idle_network n"
  by (simp add: compile_lab_def closed_lab_def Let_def add_asset_def add_node_def valve_edge_def index_of_def is_valve_asset_def
      sensor_entry_def param_real_def valve_capacity_def idle_network_def)

lemma idle_previous:
  assumes "idle_network n"
    and "\<forall>p \<in> {Port_A, Port_B}. pressures_pa st (PortKey 11 p) \<in> {None, Some (Fin 400000)}"
  shows "previous_pressures n st = Inr idle_pressures"
  using assms by (auto simp: idle_network_def previous_pressures_def node_pressure_def idle_pressures_def)

lemma idle_step:
  assumes n: "idle_network n" and st: "previous_pressures n st = Inr idle_pressures" and ctl: "active_faults controls = []"
  shows "\<exists>st'. step_lab diagonal_solver DT_DEFAULT n st controls = Inr st' \<and> previous_pressures n st' = Inr idle_pressures"
proof -
  let ?pp = "idle_pressures"
  let ?links = "map (\<lambda>e. (from_node e, to_node e, edge_conductance controls e)) (edges n)"
  let ?c = "\<lambda>i. [valve_capacity, valve_capacity] ! i / DT_DEFAULT"
  have len: "length (nodes n) = 2" "capacitances n = [valve_capacity, valve_capacity]" using n by (auto simp: idle_network_def)
  have cap: "0 < valve_capacity" by (simp add: valve_capacity_def R_AIR_def T_REF_def)
  have none: "comp_configs n controls = []" "demand_configs n controls = []" "leak_configs n controls = []"
    using n ctl by (simp_all add: idle_network_def comp_configs_def demand_configs_def leak_configs_def map_filter_simps)
  have "edge_conductance controls e = 0" if "base_conductance e = 0" for e
    using that by (simp add: edge_conductance_def split: option.splits)
  then have lap: "laplacian ?links ij = 0" for ij
    using n by (cases ij) (auto simp: idle_network_def laplacian_def stamp_edge_def bump_def)
  have acc: "accumulate (active_terms [] [] [] p) = (\<lambda>_. 0, \<lambda>_. 0)" for p
    by (simp add: accumulate_def active_terms_def)
  define p where "p i = system_rhs ?c (\<lambda>_. 0) ?pp i / system_matrix ?c (\<lambda>_. 0) (laplacian ?links) (i, i)" for i
  have solved: "diagonal_solver 2 (system_matrix ?c (\<lambda>_. 0) (laplacian ?links)) (system_rhs ?c (\<lambda>_. 0) ?pp) = Some p"
    using cap by (simp add: diagonal_solver_def system_matrix_def lap DT_DEFAULT_def fun_eq_iff p_def)
  have p: "p 0 = 400000" "p (Suc 0) = 400000" "?pp 0 = 400000" "?pp (Suc 0) = 400000"
    using cap by (simp_all add: p_def system_matrix_def system_rhs_def lap DT_DEFAULT_def idle_pressures_def)
  have "active_set (Suc 15) diagonal_solver 2 ?c (laplacian ?links) [] [] [] ?pp ?pp = Inr (p, True)"
    by (simp only: active_set.simps acc Let_def prod.case solved option.case)
       (simp add: active_set_match_def close_enough_def p upt_rec)
  then have "active_set 16 diagonal_solver 2 ?c (laplacian ?links) [] [] [] ?pp ?pp = Inr (p, True)" by simp
  moreover have "\<not> allowed_tolerance [valve_capacity, valve_capacity] ?pp <
      conservation_error DT_DEFAULT [valve_capacity, valve_capacity] [] [] [] ?pp p"
    by (simp add: conservation_error_def allowed_tolerance_def source_flow_def sink_flow_def p numeral_2_eq_2 not_less add_nonneg_nonneg)
  ultimately obtain st' where st': "step_lab diagonal_solver DT_DEFAULT n st controls = Inr st'"
    "pressures_pa st' = dict_of (map (\<lambda>x. (node_id x, Fin (p (node_index x)))) (nodes n))"
    by (simp add: step_lab_def len st none Let_def p upt_rec)
  have "previous_pressures n st' = Inr idle_pressures"
    by (rule idle_previous [OF n]) (use n p st'(2) in \<open>auto simp: idle_network_def dict_of_def\<close>)
  with st'(1) show ?thesis by blast
qed

lemma closed_lab_steps:
  assumes "idle_network n"
  shows "\<exists>st. step_lab diagonal_solver DT_DEFAULT n start_state opened = Inr st"
  using idle_step [OF assms idle_previous [OF assms, of start_state], of opened] by (auto simp: start_state_def opened_def)

theorem closed_valve_never_opens_witness:
  "\<exists>n st. compile_lab DT_DEFAULT closed_lab = Inr n \<and>
     step_lab diagonal_solver DT_DEFAULT n start_state opened = Inr st \<and>
     flows_kg_s st (InternalKey 11) = Some 0"
proof -
  let ?a = "hd (assets closed_lab)"
  have ok: "lab_ok closed_lab" "?a \<in> set (assets closed_lab)" "is_valve_asset ?a" "asset_id ?a = 11"
    "map_of (parameters ?a) ''opening'' = Some (PFloat (Fin 0))"
    by (simp_all add: lab_ok_def closed_lab_def is_valve_asset_def sensor_valid_def port_valid_def asset_table_def)
  obtain n where n: "compile_lab DT_DEFAULT closed_lab = Inr n"
      "\<exists>st. step_lab diagonal_solver DT_DEFAULT n start_state opened = Inr st"
    using closed_lab_compiles closed_lab_steps by blast
  then show ?thesis using closed_valve_never_opens [OF n(1) ok(1-3,5)] ok(4) by auto
qed

end
