(* ===== verification/Lab_Sensors.thy ===== *)
theory Lab_Sensors
  imports Lab_Solver
begin

text \<open>
  \<open>lab/simulation/sensors.py\<close>: sampling the sensors of a run from a physical state, with noise from a
  hash of seed, sensor and tick and with the active sensor faults; and the classes of
  \<open>lab/contracts.py\<close> a run consists of.  The SHA-256 digest of the noise key is the argument
  \<open>noise_digest\<close>, a list of bytes.  The lemmas connect the keys under which \<open>observe\<close> looks values up
  with the node and edge indices the compiler assigned to the sensor.
\<close>

datatype RunStatus = Run_CREATED | Run_RUNNING | Run_PAUSED | Run_STOPPED | Run_COMPLETED | Run_FAILED
datatype ObservationQuality = Quality_GOOD | Quality_MISSING | Quality_INVALID
datatype ObservationUnit = Unit_Pa | Unit_kg_s

record RunSpec =
  rs_lab_id :: uuid
  rs_lab_revision :: int
  rs_seed :: int
  rs_speed :: int
  rs_max_ticks :: "nat option"
  rs_baseline_id :: "uuid option"

record SimulationRun =
  sr_run_id :: uuid
  sr_spec :: RunSpec
  sr_status :: RunStatus
  sr_definition :: LabDefinition
  sr_definition_digest :: sha256
  sr_scene_digest :: sha256
  sr_profile_digest :: sha256
  sr_sampling_digest :: sha256
  sr_baseline_id :: "uuid option"
  sr_model_version :: string
  sr_dt :: real
  sr_epoch :: string
  sr_profile_id :: string
  sr_tick :: nat
  sr_control_revision :: nat
  sr_event_sequence :: nat

record Observation =
  ob_run_id :: uuid
  ob_asset_id :: uuid
  ob_sensor_id :: uuid
  ob_tick :: nat
  ob_unit :: ObservationUnit
  ob_value :: "pyfloat option"
  ob_quality :: ObservationQuality
  ob_profile_digest :: sha256
  ob_source_mode :: string

section \<open>Noise\<close>

definition big_endian :: "nat list \<Rightarrow> nat" where
  "big_endian bs = foldl (\<lambda>n b. n * 256 + b) 0 bs"

definition TWO_POW_64 :: real where "TWO_POW_64 = 2 ^ 64"

type_synonym noise_digest = "int \<Rightarrow> uuid \<Rightarrow> nat \<Rightarrow> nat list"

definition compute_gaussian_noise :: "noise_digest \<Rightarrow> int \<Rightarrow> uuid \<Rightarrow> nat \<Rightarrow> real" where
  "compute_gaussian_noise noise_digest seed sensor tick =
     (let digest = noise_digest seed sensor tick;
          n1 = big_endian (take 8 digest);
          n2 = big_endian (take 8 (drop 8 digest));
          u1 = (real n1 + 1 / 2) / TWO_POW_64;
          u2 = (real n2 + 1 / 2) / TWO_POW_64
      in sqrt (- 2 * ln u1) * cos (2 * pi * u2))"

section \<open>Observation\<close>

definition target_asset_id :: "Sensor \<Rightarrow> uuid" where
  "target_asset_id s = (case sensor_target s of PortTarget t \<Rightarrow> pr_asset_id t | PipeTarget u \<Rightarrow> u)"

definition pressure_key :: "Asset \<Rightarrow> PortRef \<Rightarrow> lab_key" where
  "pressure_key a t = (if is_valve_asset a then PortKey (pr_asset_id t) (pr_port t) else AssetKey (pr_asset_id t))"

text \<open>\<open>sensor_faults\<close>: one fault per target, the last one in the list.\<close>

definition sensor_fault :: "ControlState \<Rightarrow> Sensor \<Rightarrow> ActiveFault option" where
  "sensor_fault controls s = dict_of (map (\<lambda>f. (target_id f, f)) (active_faults controls)) (sensor_id s)"

definition new_observation :: "SimulationRun \<Rightarrow> PhysicalState \<Rightarrow> Sensor \<Rightarrow> pyfloat option \<Rightarrow> ObservationQuality \<Rightarrow> Observation" where
  "new_observation run state s v q =
     \<lparr>ob_run_id = sr_run_id run, ob_asset_id = target_asset_id s, ob_sensor_id = sensor_id s, ob_tick = ps_tick state,
      ob_unit = (case sensor_kind s of PRESSURE \<Rightarrow> Unit_Pa | FLOW \<Rightarrow> Unit_kg_s), ob_value = v, ob_quality = q,
      ob_profile_digest = sr_profile_digest run, ob_source_mode = ''SIMULATION''\<rparr>"

text \<open>What follows once the true value of a sensor is known.\<close>

definition has_fault :: "FaultKind \<Rightarrow> ActiveFault option \<Rightarrow> bool" where
  "has_fault k fault = (case fault of None \<Rightarrow> False | Some f \<Rightarrow> fault_kind f = k)"

definition sensor_bias :: "ActiveFault option \<Rightarrow> real" where
  "sensor_bias fault = (case fault of
     Some f \<Rightarrow> if fault_kind f = SENSOR_BIAS then fault_value f ''bias'' 0 else 0 | None \<Rightarrow> 0)"

definition sample_sensor ::
  "noise_digest \<Rightarrow> SimulationRun \<Rightarrow> PhysicalState \<Rightarrow> ControlState \<Rightarrow> Sensor \<Rightarrow> pyfloat option \<Rightarrow> Observation"
where
  "sample_sensor noise_digest run state controls s truth =
     (case truth of
        None \<Rightarrow> new_observation run state s None Quality_MISSING
      | Some tv \<Rightarrow>
          (if has_fault SENSOR_DROPOUT (sensor_fault controls s) then new_observation run state s None Quality_MISSING
           else
             (let z = compute_gaussian_noise noise_digest (rs_seed (sr_spec run)) (sensor_id s) (ps_tick state);
                  measured = pf_add (pf_add tv (Fin (the_fin (noise_std s) * z))) (Fin (sensor_bias (sensor_fault controls s)))
              in if \<not> isfinite measured then new_observation run state s None Quality_INVALID
                 else if sensor_kind s = PRESSURE \<and> pf_lt measured (Fin 0)
                 then new_observation run state s (Some measured) Quality_INVALID
                 else new_observation run state s (Some measured) Quality_GOOD)))"

definition observe_sensor ::
  "noise_digest \<Rightarrow> SimulationRun \<Rightarrow> PhysicalState \<Rightarrow> ControlState \<Rightarrow> Sensor \<Rightarrow> exn + Observation list"
where
  "observe_sensor noise_digest run state controls s =
     (case (sensor_kind s, sensor_target s) of
        (PRESSURE, PortTarget t) \<Rightarrow>
          (case List.find (\<lambda>a. asset_id a = pr_asset_id t) (assets (sr_definition run)) of
             None \<Rightarrow> Inr []
           | Some a \<Rightarrow> Inr [sample_sensor noise_digest run state controls s (pressures_pa state (pressure_key a t))])
      | (FLOW, PipeTarget u) \<Rightarrow>
          Inr [sample_sensor noise_digest run state controls s
                 (Some (Fin (case flows_kg_s state (PipeKey u) of Some q \<Rightarrow> q | None \<Rightarrow> 0)))]
      | _ \<Rightarrow> Inl AssertionError)"

definition observe ::
  "noise_digest \<Rightarrow> SimulationRun \<Rightarrow> PhysicalState \<Rightarrow> ControlState \<Rightarrow> exn + Observation list"
where
  "observe noise_digest run state controls =
     bind_err (map_err (observe_sensor noise_digest run state controls) (sensors (sr_definition run)))
       (\<lambda>obs. Inr (concat obs))"

section \<open>The noise is bounded\<close>

definition digest_ok :: "noise_digest \<Rightarrow> bool" where
  "digest_ok nd \<longleftrightarrow> (\<forall>seed s t. length (nd seed s t) = 32 \<and> (\<forall>b \<in> set (nd seed s t). b < 256))"

lemma big_endian_less: "\<forall>b \<in> set bs. b < 256 \<Longrightarrow> big_endian bs < 256 ^ length bs"
proof (induction bs rule: rev_induct)
  case (snoc b bs)
  then have "big_endian bs + 1 \<le> 256 ^ length bs" "b < 256" by auto
  then have "big_endian bs * 256 + 256 \<le> 256 ^ length bs * 256" by (metis add_mult_distrib mult_1 mult_le_mono1)
  with \<open>b < 256\<close> show ?case by (simp add: big_endian_def)
qed (simp add: big_endian_def)

lemma noise_bounded:
  assumes "digest_ok nd"
  shows "\<bar>compute_gaussian_noise nd seed s t\<bar> \<le> 12"
proof -
  let ?d = "nd seed s t"
  let ?u = "(real (big_endian (take 8 ?d)) + 1 / 2) / TWO_POW_64"
  have "\<forall>b \<in> set (take 8 ?d). b < 256" "length (take 8 ?d) = 8"
    using assms by (auto simp: digest_ok_def dest: in_set_takeD)
  with big_endian_less [of "take 8 ?d"] have "big_endian (take 8 ?d) < 256 ^ 8" by simp
  then have n: "real (big_endian (take 8 ?d)) + 1 \<le> 2 ^ 64" by simp
  then have u: "inverse (2 ^ 65) \<le> ?u" "?u \<le> 1" "0 < ?u" by (simp_all add: TWO_POW_64_def field_simps)
  have "ln (inverse (2 ^ 65)) \<le> ln ?u" using u by (subst ln_le_cancel_iff) auto
  moreover have "ln (inverse (2 ^ 65)) = - 65 * ln (2::real)" by (simp only: ln_inverse ln_realpow)
  moreover have "ln (2::real) \<le> 1" using ln_add_one_self_le_self [of 1] by simp
  ultimately have "- 2 * ln ?u \<le> 144" by linarith
  then have root: "sqrt (- 2 * ln ?u) \<le> 12" by (simp add: real_le_lsqrt real_sqrt_le_iff sqrt_le_D)
  have pos: "0 \<le> sqrt (- 2 * ln ?u)" using u by simp
  have "\<bar>compute_gaussian_noise nd seed s t\<bar> = sqrt (- 2 * ln ?u) *
      \<bar>cos (2 * pi * ((real (big_endian (take 8 (drop 8 ?d))) + 1 / 2) / TWO_POW_64))\<bar>"
    using pos by (simp add: compute_gaussian_noise_def Let_def abs_mult)
  also have "\<dots> \<le> sqrt (- 2 * ln ?u) * 1" using pos by (intro mult_left_mono) auto
  finally show ?thesis using root by simp
qed

section \<open>Looking a sensor's value up\<close>

lemma dict_of_snoc: "dict_of (kvs @ [(k, v)]) = (dict_of kvs)(k \<mapsto> v)"
  by (simp add: dict_of_def)

lemma dict_of_distinct: "distinct (map fst kvs) \<Longrightarrow> (k, v) \<in> set kvs \<Longrightarrow> dict_of kvs k = Some v"
proof (induction kvs rule: rev_induct)
  case (snoc x kvs)
  obtain k' v' where x: "x = (k', v')" by (cases x)
  with snoc show ?case by (force simp: dict_of_snoc)
qed simp

text \<open>The node a port is compiled to carries the key under which the sensor looks its pressure up.\<close>

definition ports_named :: "Asset set \<Rightarrow> node_state \<Rightarrow> bool" where
  "ports_named A = (\<lambda>(ns, ids, pidx). \<forall>aid p i. pidx (aid, p) = Some i \<longrightarrow> i < length ns \<and>
     (\<exists>a \<in> A. asset_id a = aid \<and> node_id (ns ! i) = pressure_key a \<lparr>pr_asset_id = aid, pr_port = p\<rparr>))"

lemma foldl_ports_lookup:
  "foldl (\<lambda>m p. m((k, p) \<mapsto> i)) pidx ports x = (if fst x = k \<and> snd x \<in> set ports then Some i else pidx x)"
  by (induction ports arbitrary: pidx) (auto simp: prod_eq_iff)

lemma add_node_named:
  assumes "ports_named A st" "a \<in> A" "\<forall>p \<in> set ports. key = pressure_key a \<lparr>pr_asset_id = asset_id a, pr_port = p\<rparr>"
  shows "ports_named A (add_node a key grp vol ports st)"
  using assms by (cases st) (auto simp: ports_named_def add_node_def foldl_ports_lookup nth_append less_Suc_eq)

lemma add_asset_named:
  assumes "ports_named A st" "a \<in> A"
  shows "ports_named A (add_asset st a)"
  using assms
  by (cases "asset_type a") (auto simp: add_asset_def pressure_key_def is_valve_asset_def intro!: add_node_named)

lemma add_assets_named: "ports_named A st \<Longrightarrow> set as \<subseteq> A \<Longrightarrow> ports_named A (foldl add_asset st as)"
  by (induction as arbitrary: st) (simp_all add: add_asset_named)

lemma edge_indices_nth: "edge_indices es k = Some i \<Longrightarrow> i < length es \<and> edge_id (es ! i) = k"
proof (induction es rule: rev_induct)
  case (snoc e es)
  then show ?case by (auto simp: edge_indices_snoc nth_append split: if_splits)
qed (simp add: edge_indices_def)

text \<open>The value the compiled network assigns to a sensor: the pressure of its node, the flow of its edge.\<close>

definition sensor_truth :: "CompiledNetwork \<Rightarrow> PhysicalState \<Rightarrow> Sensor \<Rightarrow> pyfloat option" where
  "sensor_truth n st s = (case sensor_targets n (sensor_id s) of
       None \<Rightarrow> None
     | Some (PRESSURE, i, _) \<Rightarrow> pressures_pa st (node_id (nodes n ! i))
     | Some (FLOW, i, _) \<Rightarrow> map_option Fin (flows_kg_s st (edge_id (edges n ! i))))"

lemma compiled_sensor:
  assumes "compile_lab dt d = Inr n" "lab_ok d" "s \<in> set (sensors d)"
  shows "(\<exists>t a i. sensor_kind s = PRESSURE \<and> sensor_target s = PortTarget t \<and> sensor_targets n (sensor_id s) = Some (PRESSURE, i, 1) \<and>
       i < length (nodes n) \<and> List.find (\<lambda>a. asset_id a = pr_asset_id t) (assets d) = Some a \<and> node_id (nodes n ! i) = pressure_key a t) \<or>
     (\<exists>u i. sensor_kind s = FLOW \<and> sensor_target s = PipeTarget u \<and> sensor_targets n (sensor_id s) = Some (FLOW, i, 1) \<and>
       i < length (edges n) \<and> edge_id (edges n ! i) = PipeKey u)"
proof -
  let ?as = "sort_key asset_id (assets d)"
  obtain ns ids pidx where st: "foldl add_asset ([], \<lambda>_. None, \<lambda>_. None) ?as = (ns, ids, pidx)"
    by (metis prod_cases3)
  from assms(1) st obtain es ss where n: "map_err (sensor_entry pidx (edge_indices es)) (sensors d) = Inr ss"
    "nodes n = ns" "edges n = es" "sensor_targets n = dict_of ss"
    by (auto simp: compile_lab_def Let_def bind_err_eq_Inr dict_of_def split: if_splits)
  have "ports_named (set (assets d)) ([], \<lambda>_. None, \<lambda>_. None)" by (simp add: ports_named_def)
  from add_assets_named [OF this, of ?as] st have named: "ports_named (set (assets d)) (ns, ids, pidx)" by simp
  have "list_all2 (\<lambda>s x. fst x = sensor_id s) (sensors d) ss"
    using map_err_list_all2 [OF n(1)]
    by (rule list_all2_mono) (auto simp: sensor_entry_def bind_err_eq_Inr split: SensorKind.splits sensor_target.splits)
  then have "map fst ss = map sensor_id (sensors d)" by (induction rule: list_all2_induct) auto
  with assms(2) have "distinct (map fst ss)" by (simp add: lab_ok_def)
  then have lookup: "sensor_targets n k = Some v" if "(k, v) \<in> set ss" for k v
    using dict_of_distinct that n(4) by metis
  from map_err_elements [OF n(1)] assms(3) obtain x where x: "sensor_entry pidx (edge_indices es) s = Inr x" "x \<in> set ss"
    by blast
  then consider t i where "sensor_kind s = PRESSURE" "sensor_target s = PortTarget t" "pidx (pr_asset_id t, pr_port t) = Some i"
      "x = (sensor_id s, PRESSURE, i, 1)"
    | u i where "sensor_kind s = FLOW" "sensor_target s = PipeTarget u" "edge_indices es (PipeKey u) = Some i"
      "x = (sensor_id s, FLOW, i, 1)"
    by (auto simp: sensor_entry_def bind_err_eq_Inr index_of_def split: SensorKind.splits sensor_target.splits option.splits)
  then show ?thesis
  proof cases
    case 1
    from 1(3) named obtain a where a: "a \<in> set (assets d)" "asset_id a = pr_asset_id t" "i < length ns"
      "node_id (ns ! i) = pressure_key a t"
      by (fastforce simp: ports_named_def pressure_key_def)
    have "List.find (\<lambda>a. asset_id a = pr_asset_id t) (assets d) = Some a"
      by (rule find_unique) (use a assms(2) in \<open>auto simp: lab_ok_def distinct_map inj_on_def\<close>)
    with 1 a n(2) lookup x(2) show ?thesis by blast
  next
    case 2
    with edge_indices_nth [OF 2(3)] n(3) lookup x(2) show ?thesis by blast
  qed
qed

lemma observe_sensor_truth:
  assumes "compile_lab dt d = Inr n" "lab_ok d" "s \<in> set (sensors d)" "sr_definition run = d"
    and "step_lab solve dt' n st0 controls = Inr st"
  shows "\<exists>tv. sensor_truth n st s = Some (Fin tv) \<and>
    observe_sensor nd run st controls' s = Inr [sample_sensor nd run st controls' s (Some (Fin tv))]"
proof -
  obtain p where step: "pressures_pa st = dict_of (map (\<lambda>x. (node_id x, Fin (p (node_index x)))) (nodes n))"
    "flows_kg_s st = dict_of (map (\<lambda>e. (edge_id e, edge_conductance controls e * (p (from_node e) - p (to_node e)))) (edges n))"
    using step_lab_result [OF assms(5)] by blast
  have pressure: "\<exists>v. pressures_pa st (node_id x) = Some (Fin v)" if "x \<in> set (nodes n)" for x
  proof -
    have "(node_id x, Fin (p (node_index x))) \<in> set (map (\<lambda>x. (node_id x, Fin (p (node_index x)))) (nodes n))"
      using that by auto
    from dict_of_dom [OF this] obtain v where "dict_of (map (\<lambda>x. (node_id x, Fin (p (node_index x)))) (nodes n)) (node_id x) = Some v" by blast
    with dict_of_ran [OF this] step(1) show ?thesis by auto
  qed
  have flow: "\<exists>v. flows_kg_s st (edge_id e) = Some v" if "e \<in> set (edges n)" for e
    unfolding step(2) by (rule dict_of_dom [of _ "edge_conductance controls e * (p (from_node e) - p (to_node e))"]) (use that in force)
  from compiled_sensor [OF assms(1-3)] show ?thesis
  proof (elim disjE exE conjE)
    fix t a i assume h: "sensor_kind s = PRESSURE" "sensor_target s = PortTarget t" "sensor_targets n (sensor_id s) = Some (PRESSURE, i, 1)"
      "i < length (nodes n)" "List.find (\<lambda>a. asset_id a = pr_asset_id t) (assets d) = Some a" "node_id (nodes n ! i) = pressure_key a t"
    from pressure [of "nodes n ! i"] h(4) obtain v where "pressures_pa st (pressure_key a t) = Some (Fin v)" using h(6) by auto
    with h assms(4) show ?thesis by (simp add: sensor_truth_def observe_sensor_def)
  next
    fix u i assume h: "sensor_kind s = FLOW" "sensor_target s = PipeTarget u" "sensor_targets n (sensor_id s) = Some (FLOW, i, 1)"
      "i < length (edges n)" "edge_id (edges n ! i) = PipeKey u"
    from flow [of "edges n ! i"] h(4) obtain v where "flows_kg_s st (PipeKey u) = Some v" using h(5) by auto
    with h assms(4) show ?thesis by (simp add: sensor_truth_def observe_sensor_def)
  qed
qed

section \<open>Observations are faithful\<close>

lemma validate_definition_noise:
  assumes "validate_definition d0 = Inr d" "s \<in> set (sensors d)"
  shows "0 \<le> the_fin (noise_std s)"
proof -
  from assms(1) obtain ss where "map_err validate_sensor (sensors d0) = Inr ss" "sensors d = ss"
    by (auto simp: validate_definition_def bind_err_eq_Inr)
  with assms(2) obtain s0 where "validate_sensor s0 = Inr s" using map_err_elements by blast
  then have "isfinite (noise_std s)" "\<not> pf_lt (noise_std s) (Fin 0)"
    unfolding validate_sensor_def run_checks_Inr by auto
  then show ?thesis by (cases "noise_std s") auto
qed

text \<open>An observation that reports the true value up to the bias of the active fault and twelve standard deviations.\<close>

definition faithful :: "CompiledNetwork \<Rightarrow> PhysicalState \<Rightarrow> ControlState \<Rightarrow> Sensor \<Rightarrow> Observation \<Rightarrow> bool" where
  "faithful n st controls s ob \<longleftrightarrow> ob_sensor_id ob = sensor_id s \<and> ob_tick ob = ps_tick st \<and>
     (if has_fault SENSOR_DROPOUT (sensor_fault controls s) then ob_value ob = None \<and> ob_quality ob = Quality_MISSING
      else \<exists>tv v. sensor_truth n st s = Some (Fin tv) \<and> ob_value ob = Some (Fin v) \<and>
        \<bar>v - (tv + sensor_bias (sensor_fault controls s))\<bar> \<le> 12 * the_fin (noise_std s) \<and>
        ob_quality ob = (if sensor_kind s = PRESSURE \<and> v < 0 then Quality_INVALID else Quality_GOOD))"

lemma sample_faithful:
  assumes "digest_ok nd" "0 \<le> the_fin (noise_std s)" "sensor_truth n st s = Some (Fin tv)"
  shows "faithful n st controls s (sample_sensor nd run st controls s (Some (Fin tv)))"
proof -
  let ?z = "compute_gaussian_noise nd (rs_seed (sr_spec run)) (sensor_id s) (ps_tick st)"
  have "the_fin (noise_std s) * \<bar>?z\<bar> \<le> the_fin (noise_std s) * 12"
    using noise_bounded [OF assms(1)] assms(2) by (rule mult_left_mono)
  then have "\<bar>the_fin (noise_std s) * ?z\<bar> \<le> 12 * the_fin (noise_std s)" using assms(2) by (simp add: abs_mult)
  with assms(3) show ?thesis
    by (simp add: faithful_def sample_sensor_def new_observation_def Let_def)
qed

lemma observe_run:
  assumes "compile_lab dt d = Inr n" "lab_ok d" "sr_definition run = d" "step_lab solve dt' n st0 controls = Inr st"
  shows "observe nd run st controls' = Inr (map (\<lambda>s. sample_sensor nd run st controls' s (sensor_truth n st s)) (sensors d)) \<and>
    (\<forall>s \<in> set (sensors d). \<exists>tv. sensor_truth n st s = Some (Fin tv))"
proof -
  have truth: "\<exists>tv. sensor_truth n st s = Some (Fin tv)"
    "observe_sensor nd run st controls' s = Inr [sample_sensor nd run st controls' s (sensor_truth n st s)]"
    if "s \<in> set (sensors d)" for s
    using observe_sensor_truth [OF assms(1,2) that assms(3,4)] by force+
  have "map_err (observe_sensor nd run st controls') (sensors d) =
      Inr (map (\<lambda>s. [sample_sensor nd run st controls' s (sensor_truth n st s)]) (sensors d))"
    by (rule map_err_Inr) (rule truth(2))
  with truth(1) assms(3) show ?thesis by (simp add: observe_def concat_map_singleton)
qed

text \<open>
  C21 (functional): every sensor of an eligible lab is observed.  After a step of the compiled network,
  sampling never raises and gives exactly one observation per sensor, in the order of the definition,
  of the current tick.  Unless the sensor's fault drops it out, its value is the pressure of the node
  or the flow of the edge that the compiler resolved the sensor to, plus the bias of its fault and
  a noise of at most twelve standard deviations, and only a negative pressure is marked invalid.
\<close>

theorem observations_faithful:
  assumes "validate_definition d0 = Inr d" "validate_lab digest_of d = Inr r" "run_eligible r" "sr_definition run = d"
    and "compile_lab dt d = Inr n" "step_lab solve dt' n st0 controls = Inr st" "digest_ok nd"
  shows "\<exists>obs. observe nd run st controls' = Inr obs \<and> list_all2 (faithful n st controls') (sensors d) obs"
proof -
  have ok: "lab_ok d" by (rule eligible_lab_ok [OF assms(2,3)])
  note obs = observe_run [OF assms(5) ok assms(4,6), of nd controls']
  have "faithful n st controls' s (sample_sensor nd run st controls' s (sensor_truth n st s))" if "s \<in> set (sensors d)" for s
    using obs that sample_faithful [OF assms(7) validate_definition_noise [OF assms(1) that]] by fastforce
  with obs show ?thesis by (auto simp: list_all2_map2 list_all2_same)
qed

definition closed_run :: SimulationRun where
  "closed_run = \<lparr>sr_run_id = 40, sr_spec = \<lparr>rs_lab_id = 2, rs_lab_revision = 1, rs_seed = 42, rs_speed = 1,
     rs_max_ticks = Some 40, rs_baseline_id = None\<rparr>, sr_status = Run_CREATED, sr_definition = closed_lab,
     sr_definition_digest = zero_sha, sr_scene_digest = zero_sha, sr_profile_digest = zero_sha, sr_sampling_digest = zero_sha,
     sr_baseline_id = None, sr_model_version = ''pneumatic-isothermal-v1'', sr_dt = DT_DEFAULT,
     sr_epoch = ''2000-01-01T00:00:00Z'', sr_profile_id = ''lab-sensor-robust-v1'', sr_tick = 0, sr_control_revision = 0,
     sr_event_sequence = 0\<rparr>"

lemma closed_lab_valid:
  "validate_definition closed_lab = Inr closed_lab"
  "\<exists>r. validate_lab (\<lambda>_. zero_sha) closed_lab = Inr r \<and> run_eligible r"
  by (simp_all add: validate_definition_def closed_lab_def Let_def validate_asset_def validate_position_def in_bounds_def
      validate_parameters_def bound_check_def merged_param_def type_checks_def validate_sensor_def
      sensor_hysteresis_def validate_lab_def check_asset_def check_sensor_def port_valid_def)

theorem observations_faithful_witness:
  "\<exists>n st obs. compile_lab DT_DEFAULT closed_lab = Inr n \<and>
     step_lab diagonal_solver DT_DEFAULT n start_state opened = Inr st \<and>
     observe (\<lambda>_ _ _. replicate 32 0) closed_run st opened = Inr obs \<and>
     list_all2 (faithful n st opened) (sensors closed_lab) obs"
proof -
  obtain n st where n: "compile_lab DT_DEFAULT closed_lab = Inr n" "step_lab diagonal_solver DT_DEFAULT n start_state opened = Inr st"
    using closed_lab_compiles closed_lab_steps by metis
  obtain r where r: "validate_lab (\<lambda>_. zero_sha) closed_lab = Inr r" "run_eligible r" using closed_lab_valid(2) by blast
  have "sr_definition closed_run = closed_lab" "digest_ok (\<lambda>_ _ _. replicate 32 0)"
    by (simp_all add: closed_run_def digest_ok_def)
  from observations_faithful [OF closed_lab_valid(1) r this(1) n this(2)] n show ?thesis by blast
qed

end
