(* ===== verification/Lab_Analysis.thy ===== *)
theory Lab_Analysis
  imports Lab_Sensors
begin

text \<open>
  \<open>lab/analysis.py\<close>: the process-limit and data-quality rules applied to the observations of one sensor,
  with the alert and event classes of \<open>lab/contracts.py\<close>, and the evidence bundle of an alert
  (\<open>lab/evidence.py\<close>).  \<open>evaluate_sensor_observation\<close> changes its state object before it can raise, so
  it returns the state with the result.  The identifiers \<open>uuid4\<close> would give are arguments.
\<close>

datatype EventKind = Event_RUN_STATUS | Event_COMMAND | Event_OBSERVATION | Event_ALERT
datatype AlertOrigin = PROCESS_LIMIT | DATA_QUALITY | Origin_ML
datatype AlertKind = BELOW_LIMIT | ABOVE_LIMIT | Kind_MISSING | Kind_INVALID | Kind_ANOMALY
datatype LabAlertState = Alert_OPEN | Alert_RESOLVED

record LabAlert =
  la_alert_id :: uuid
  la_run_id :: uuid
  la_asset_id :: uuid
  la_sensor_id :: uuid
  la_origin :: AlertOrigin
  la_kind :: AlertKind
  la_state :: LabAlertState
  la_first_tick :: int
  la_last_tick :: int
  la_resolved_tick :: "int option"
  la_evidence_ids :: "uuid list"

datatype lab_payload = AlertPayload LabAlert | JsonPayload string

record LabEvent =
  le_event_id :: uuid
  le_run_id :: uuid
  le_sequence :: nat
  le_kind :: EventKind
  le_tick :: nat
  le_payload :: lab_payload

record SensorAnalysisState =
  sa_sensor_id :: uuid
  high_violations :: nat
  low_violations :: nat
  normal_streak :: nat
  bad_quality_streak :: nat
  good_quality_streak :: nat
  active_process_alert :: "LabAlert option"
  active_quality_alert :: "LabAlert option"
  recent_observations :: "Observation list"

definition new_analysis_state :: "uuid \<Rightarrow> SensorAnalysisState" where
  "new_analysis_state s = \<lparr>sa_sensor_id = s, high_violations = 0, low_violations = 0, normal_streak = 0,
     bad_quality_streak = 0, good_quality_streak = 0, active_process_alert = None, active_quality_alert = None,
     recent_observations = []\<rparr>"

text \<open>The identifiers drawn during one evaluation.\<close>

record eval_ids =
  ei_quality_alert :: uuid
  ei_quality_event :: uuid
  ei_process_alert :: uuid
  ei_process_event :: uuid

section \<open>Operations\<close>

definition open_alert :: "uuid \<Rightarrow> Observation \<Rightarrow> Sensor \<Rightarrow> AlertOrigin \<Rightarrow> AlertKind \<Rightarrow> int \<Rightarrow> exn + LabAlert" where
  "open_alert aid obs s origin kind window = run_checks [(int (ob_tick obs) - window < 0, ValueError ''first_tick'')]
     \<lparr>la_alert_id = aid, la_run_id = ob_run_id obs, la_asset_id = target_asset_id s, la_sensor_id = sensor_id s,
      la_origin = origin, la_kind = kind, la_state = Alert_OPEN, la_first_tick = int (ob_tick obs) - window,
      la_last_tick = int (ob_tick obs), la_resolved_tick = None, la_evidence_ids = []\<rparr>"

definition resolve_alert :: "Observation \<Rightarrow> LabAlert \<Rightarrow> LabAlert" where
  "resolve_alert obs a = a\<lparr>la_state := Alert_RESOLVED, la_last_tick := int (ob_tick obs),
     la_resolved_tick := Some (int (ob_tick obs))\<rparr>"

definition alert_event :: "uuid \<Rightarrow> Observation \<Rightarrow> LabAlert \<Rightarrow> LabEvent" where
  "alert_event eid obs a = \<lparr>le_event_id = eid, le_run_id = ob_run_id obs, le_sequence = 0, le_kind = Event_ALERT,
     le_tick = ob_tick obs, le_payload = AlertPayload a\<rparr>"

definition remember :: "Observation \<Rightarrow> SensorAnalysisState \<Rightarrow> SensorAnalysisState" where
  "remember obs st = (let xs = recent_observations st @ [obs]
     in st\<lparr>recent_observations := (if 20 < length xs then tl xs else xs)\<rparr>)"

type_synonym analysis_output = "LabAlert list \<times> LabEvent list"

text \<open>The branch for \<open>MISSING\<close> and \<open>INVALID\<close> observations.\<close>

definition evaluate_bad ::
  "eval_ids \<Rightarrow> Observation \<Rightarrow> Sensor \<Rightarrow> SensorAnalysisState \<Rightarrow> (exn + analysis_output) \<times> SensorAnalysisState"
where
  "evaluate_bad ids obs s st =
     (let st1 = st\<lparr>bad_quality_streak := bad_quality_streak st + 1, good_quality_streak := 0, normal_streak := 0\<rparr>
      in if 2 \<le> bad_quality_streak st1 \<and> active_quality_alert st1 = None then
           (case open_alert (ei_quality_alert ids) obs s DATA_QUALITY
               (if ob_quality obs = Quality_MISSING then Kind_MISSING else Kind_INVALID) 20 of
              Inl e \<Rightarrow> (Inl e, st1)
            | Inr a \<Rightarrow> (Inr ([a], [alert_event (ei_quality_event ids) obs a]), st1\<lparr>active_quality_alert := Some a\<rparr>))
         else (Inr ([], []), st1))"

text \<open>A \<open>GOOD\<close> observation: recovery of the data quality.\<close>

definition evaluate_recovery ::
  "eval_ids \<Rightarrow> Observation \<Rightarrow> SensorAnalysisState \<Rightarrow> analysis_output \<times> SensorAnalysisState"
where
  "evaluate_recovery ids obs st =
     (let st1 = st\<lparr>good_quality_streak := good_quality_streak st + 1\<rparr>
      in case active_quality_alert st1 of
           Some a \<Rightarrow>
             (if 3 \<le> good_quality_streak st1 then
                (([resolve_alert obs a], [alert_event (ei_quality_event ids) obs (resolve_alert obs a)]),
                 st1\<lparr>active_quality_alert := None, bad_quality_streak := 0\<rparr>)
              else (([], []), st1))
         | None \<Rightarrow> (([], []), st1))"

definition raise_process ::
  "eval_ids \<Rightarrow> Observation \<Rightarrow> Sensor \<Rightarrow> AlertKind \<Rightarrow> nat \<Rightarrow> SensorAnalysisState \<Rightarrow> (exn + analysis_output) \<times> SensorAnalysisState"
where
  "raise_process ids obs s kind violations st =
     (if 3 \<le> violations \<and> active_process_alert st = None then
        (case open_alert (ei_process_alert ids) obs s PROCESS_LIMIT kind 40 of
           Inl e \<Rightarrow> (Inl e, st)
         | Inr a \<Rightarrow> (Inr ([a], [alert_event (ei_process_event ids) obs a]), st\<lparr>active_process_alert := Some a\<rparr>))
      else (Inr ([], []), st))"

definition is_above :: "Sensor \<Rightarrow> pyfloat \<Rightarrow> bool" where
  "is_above s v = (case alarm_high s of None \<Rightarrow> False | Some h \<Rightarrow> pf_lt h v)"

definition is_below :: "Sensor \<Rightarrow> pyfloat \<Rightarrow> bool" where
  "is_below s v = (case alarm_low s of None \<Rightarrow> False | Some l \<Rightarrow> pf_lt v l)"

definition is_safely_inside :: "Sensor \<Rightarrow> pyfloat \<Rightarrow> bool" where
  "is_safely_inside s v \<longleftrightarrow>
     (case alarm_high s of None \<Rightarrow> True | Some h \<Rightarrow> \<not> pf_le (pf_sub h (Fin (sensor_hysteresis (sensor_kind s)))) v) \<and>
     (case alarm_low s of None \<Rightarrow> True | Some l \<Rightarrow> \<not> pf_le v (pf_add l (Fin (sensor_hysteresis (sensor_kind s)))))"

definition evaluate_limits ::
  "eval_ids \<Rightarrow> Observation \<Rightarrow> Sensor \<Rightarrow> pyfloat \<Rightarrow> SensorAnalysisState \<Rightarrow> (exn + analysis_output) \<times> SensorAnalysisState"
where
  "evaluate_limits ids obs s v st =
     (if is_above s v then
        (let st1 = st\<lparr>high_violations := high_violations st + 1, low_violations := 0, normal_streak := 0\<rparr>
         in raise_process ids obs s ABOVE_LIMIT (high_violations st1) st1)
      else if is_below s v then
        (let st1 = st\<lparr>low_violations := low_violations st + 1, high_violations := 0, normal_streak := 0\<rparr>
         in raise_process ids obs s BELOW_LIMIT (low_violations st1) st1)
      else if is_safely_inside s v then
        (let st1 = st\<lparr>normal_streak := normal_streak st + 1, high_violations := 0, low_violations := 0\<rparr>
         in case active_process_alert st1 of
              Some a \<Rightarrow>
                (if 5 \<le> normal_streak st1 then
                   (Inr ([resolve_alert obs a], [alert_event (ei_process_event ids) obs (resolve_alert obs a)]),
                    st1\<lparr>active_process_alert := None\<rparr>)
                 else (Inr ([], []), st1))
            | None \<Rightarrow> (Inr ([], []), st1))
      else (Inr ([], []), st))"

definition evaluate_sensor_observation ::
  "eval_ids \<Rightarrow> Observation \<Rightarrow> Sensor \<Rightarrow> SensorAnalysisState \<Rightarrow> (exn + analysis_output) \<times> SensorAnalysisState"
where
  "evaluate_sensor_observation ids obs s state =
     (let st = remember obs state
      in if ob_quality obs \<in> {Quality_MISSING, Quality_INVALID} then evaluate_bad ids obs s st
         else
           (let ((as, es), st1) = evaluate_recovery ids obs st
            in case ob_value obs of
                 None \<Rightarrow> (Inr (as, es), st1)
               | Some v \<Rightarrow>
                   (case evaluate_limits ids obs s v st1 of
                      (Inl e, st2) \<Rightarrow> (Inl e, st2)
                    | (Inr (as', es'), st2) \<Rightarrow> (Inr (as @ as', es @ es'), st2))))"

text \<open>The evaluation of a sequence of observations: the alerts emitted.\<close>

definition analysis_step ::
  "Sensor \<Rightarrow> SensorAnalysisState \<times> LabAlert list \<Rightarrow> eval_ids \<times> Observation \<Rightarrow> exn + SensorAnalysisState \<times> LabAlert list"
where
  "analysis_step s = (\<lambda>(st, out) (ids, obs). case evaluate_sensor_observation ids obs s st of
     (Inl e, _) \<Rightarrow> Inl e | (Inr (as, _), st') \<Rightarrow> Inr (st', out @ as))"

section \<open>Evidence\<close>

record LabEvidenceBundle =
  eb_evidence_id :: uuid
  eb_source :: string
  eb_run_id :: uuid
  eb_asset_id :: uuid
  eb_sensor_id :: uuid
  eb_definition_digest :: sha256
  eb_profile_digest :: sha256
  eb_baseline_id :: "uuid option"
  eb_tick_range :: "int \<times> int"
  eb_observations :: "Observation list"
  eb_features :: "real list"
  eb_score :: "real option"
  eb_threshold :: "real option"
  eb_rule_origin :: AlertOrigin
  eb_system_health :: "(string, string) table"

definition create_alert_evidence ::
  "(uuid \<times> uuid \<times> AlertOrigin \<times> int \<times> int \<Rightarrow> uuid) \<Rightarrow> LabAlert \<Rightarrow> Observation list \<Rightarrow> SimulationRun
     \<Rightarrow> real list option \<Rightarrow> real option \<Rightarrow> real option \<Rightarrow> LabEvidenceBundle"
where
  "create_alert_evidence uuid5 alert obs run feats sc th =
     \<lparr>eb_evidence_id = uuid5 (sr_run_id run, la_sensor_id alert, la_origin alert, la_first_tick alert, la_last_tick alert),
      eb_source = ''SIMULATION'', eb_run_id = sr_run_id run, eb_asset_id = la_asset_id alert,
      eb_sensor_id = la_sensor_id alert, eb_definition_digest = sr_definition_digest run,
      eb_profile_digest = sr_profile_digest run, eb_baseline_id = sr_baseline_id run,
      eb_tick_range = (la_first_tick alert, la_last_tick alert),
      eb_observations = filter (\<lambda>ob. ob_sensor_id ob = la_sensor_id alert \<and> la_first_tick alert \<le> int (ob_tick ob) \<and>
        int (ob_tick ob) \<le> la_last_tick alert) obs,
      eb_features = (case feats of None \<Rightarrow> [] | Some xs \<Rightarrow> xs), eb_score = sc, eb_threshold = th,
      eb_rule_origin = la_origin alert,
      eb_system_health = [(''simulation'', ''RUNNING''), (''kafka'', ''CONNECTED''), (''database'', ''HEALTHY'')]\<rparr>"

section \<open>Alerts open and resolve in pairs\<close>

text \<open>The alerts of one origin: each one opened is followed by its own resolution.\<close>

definition paired :: "LabAlert list \<Rightarrow> bool" where
  "paired as \<longleftrightarrow> (\<forall>i < length as. if even i then la_state (as ! i) = Alert_OPEN
     else \<exists>obs. as ! i = resolve_alert obs (as ! (i - 1)))"

definition unresolved :: "LabAlert list \<Rightarrow> LabAlert option" where
  "unresolved as = (if odd (length as) then Some (last as) else None)"

definition of_origin :: "AlertOrigin \<Rightarrow> LabAlert list \<Rightarrow> LabAlert list" where
  "of_origin origin as = filter (\<lambda>a. la_origin a = origin) as"

definition analysis_inv :: "SensorAnalysisState \<times> LabAlert list \<Rightarrow> bool" where
  "analysis_inv = (\<lambda>(st, out).
     paired (of_origin PROCESS_LIMIT out) \<and> active_process_alert st = unresolved (of_origin PROCESS_LIMIT out) \<and>
     paired (of_origin DATA_QUALITY out) \<and> active_quality_alert st = unresolved (of_origin DATA_QUALITY out))"

lemma paired_open:
  "paired as \<Longrightarrow> unresolved as = None \<Longrightarrow> la_state a = Alert_OPEN \<Longrightarrow> paired (as @ [a]) \<and> unresolved (as @ [a]) = Some a"
  by (auto simp: paired_def unresolved_def nth_append less_Suc_eq split: if_splits)

lemma paired_resolve:
  assumes "paired as" "unresolved as = Some a"
  shows "paired (as @ [resolve_alert obs a]) \<and> unresolved (as @ [resolve_alert obs a]) = None"
proof -
  from assms(2) have "as \<noteq> []" "odd (length as)" "a = as ! (length as - 1)"
    by (cases "as = []"; auto simp: unresolved_def last_conv_nth split: if_splits)+
  with assms(1) show ?thesis by (auto simp: paired_def unresolved_def nth_append less_Suc_eq)
qed

lemma of_origin_append [simp]: "of_origin k (xs @ ys) = of_origin k xs @ of_origin k ys"
  by (simp add: of_origin_def)

lemma of_origin_Nil [simp]: "of_origin k [] = []"
  by (simp add: of_origin_def)

lemma of_origin_single: "of_origin k [a] = (if la_origin a = k then [a] else [])"
  by (simp add: of_origin_def)

lemma resolve_origin [simp]: "la_origin (resolve_alert obs a) = la_origin a"
  by (simp add: resolve_alert_def)

lemma open_alert_Inr:
  "open_alert aid obs s origin kind w = Inr a \<Longrightarrow> la_state a = Alert_OPEN \<and> la_origin a = origin \<and> w \<le> int (ob_tick obs)"
  by (auto simp: open_alert_def split: if_splits)

lemma unresolved_origin: "unresolved (of_origin k as) = Some a \<Longrightarrow> la_origin a = k"
  by (auto simp: unresolved_def of_origin_def split: if_splits dest!: last_in_set [rotated] dest: odd_pos)

lemma remember_simps [simp]:
  "high_violations (remember obs st) = high_violations st" "low_violations (remember obs st) = low_violations st"
  "normal_streak (remember obs st) = normal_streak st" "bad_quality_streak (remember obs st) = bad_quality_streak st"
  "good_quality_streak (remember obs st) = good_quality_streak st"
  "active_process_alert (remember obs st) = active_process_alert st"
  "active_quality_alert (remember obs st) = active_quality_alert st"
  by (simp_all add: remember_def Let_def)

lemma evaluate_bad_inv:
  assumes "analysis_inv (st, out)" "evaluate_bad ids obs s st = (Inr (as, es), st')"
  shows "analysis_inv (st', out @ as)"
  using assms paired_open [of "of_origin DATA_QUALITY out"]
  by (auto simp: analysis_inv_def evaluate_bad_def Let_def of_origin_single split: if_splits sum.splits dest!: open_alert_Inr)

lemma evaluate_recovery_inv:
  assumes "analysis_inv (st, out)" "evaluate_recovery ids obs st = ((as, es), st')"
  shows "analysis_inv (st', out @ as)"
proof (cases "active_quality_alert st")
  case None
  with assms show ?thesis by (auto simp: analysis_inv_def evaluate_recovery_def)
next
  case (Some a)
  with assms(1) have "paired (of_origin DATA_QUALITY out)" "unresolved (of_origin DATA_QUALITY out) = Some a" "la_origin a = DATA_QUALITY"
    by (auto simp: analysis_inv_def intro: unresolved_origin)
  with assms Some paired_resolve show ?thesis
    by (auto simp: analysis_inv_def evaluate_recovery_def Let_def of_origin_single split: if_splits)
qed

lemma raise_process_inv:
  assumes "analysis_inv (st, out)" "raise_process ids obs s k v st = (Inr (as, es), st')"
  shows "analysis_inv (st', out @ as)"
  using assms paired_open [of "of_origin PROCESS_LIMIT out"]
  by (auto simp: analysis_inv_def raise_process_def of_origin_single split: if_splits sum.splits dest!: open_alert_Inr)

lemma evaluate_limits_inv:
  assumes "analysis_inv (st, out)" "evaluate_limits ids obs s v st = (Inr (as, es), st')"
  shows "analysis_inv (st', out @ as)"
proof -
  have upd: "analysis_inv (st\<lparr>high_violations := h, low_violations := l, normal_streak := m\<rparr>, out)"
    "analysis_inv (st\<lparr>low_violations := l, high_violations := h, normal_streak := m\<rparr>, out)"
    "analysis_inv (st\<lparr>normal_streak := m, high_violations := h, low_violations := l\<rparr>, out)" for h l m
    using assms(1) by (simp_all add: analysis_inv_def)
  consider "is_above s v" | "\<not> is_above s v" "is_below s v" | "\<not> is_above s v" "\<not> is_below s v" by blast
  then show ?thesis
  proof cases
    case 1
    with assms(2) show ?thesis by (auto simp: evaluate_limits_def Let_def intro: raise_process_inv [OF upd(1)])
  next
    case 2
    with assms(2) show ?thesis by (auto simp: evaluate_limits_def Let_def intro: raise_process_inv [OF upd(2)])
  next
    case 3
    show ?thesis
    proof (cases "active_process_alert st")
      case None
      with 3 assms upd show ?thesis by (auto simp: evaluate_limits_def Let_def split: if_splits)
    next
      case (Some a)
      with assms(1) have "paired (of_origin PROCESS_LIMIT out)" "unresolved (of_origin PROCESS_LIMIT out) = Some a" "la_origin a = PROCESS_LIMIT"
        by (auto simp: analysis_inv_def intro: unresolved_origin)
      with 3 assms Some paired_resolve show ?thesis
        by (auto simp: analysis_inv_def evaluate_limits_def Let_def of_origin_single split: if_splits)
    qed
  qed
qed

lemma analysis_step_inv:
  assumes "analysis_inv c" "analysis_step s c x = Inr c'"
  shows "analysis_inv c'"
proof -
  obtain st out ids obs where [simp]: "c = (st, out)" "x = (ids, obs)" by (cases c, cases x)
  have rem: "analysis_inv (remember obs st, out)" using assms(1) by (simp add: analysis_inv_def)
  show ?thesis
  proof (cases "ob_quality obs \<in> {Quality_MISSING, Quality_INVALID}")
    case True
    with assms(2) evaluate_bad_inv [OF rem] show ?thesis
      by (auto simp: analysis_step_def evaluate_sensor_observation_def split: sum.splits prod.splits)
  next
    case False
    obtain as es st1 where r: "evaluate_recovery ids obs (remember obs st) = ((as, es), st1)" by (metis prod_cases3 surj_pair)
    note inv1 = evaluate_recovery_inv [OF rem r]
    show ?thesis
    proof (cases "ob_value obs")
      case None
      with False r inv1 assms(2) show ?thesis by (auto simp: analysis_step_def evaluate_sensor_observation_def)
    next
      case (Some v)
      with False r assms(2) evaluate_limits_inv [OF inv1] show ?thesis
        by (auto simp: analysis_step_def evaluate_sensor_observation_def split: sum.splits prod.splits)
    qed
  qed
qed

interpretation lab_analysis: inv_machine "analysis_step s" analysis_inv for s
  by unfold_locales (rule analysis_step_inv)

section \<open>Evaluation does not raise on sampled observations\<close>

text \<open>No counter exceeds the number of observations evaluated, and sampled observations are twenty ticks apart.\<close>

definition counters_le :: "nat \<Rightarrow> SensorAnalysisState \<Rightarrow> bool" where
  "counters_le n st \<longleftrightarrow> high_violations st \<le> n \<and> low_violations st \<le> n \<and> bad_quality_streak st \<le> n"

lemma open_alert_total: "w \<le> int (ob_tick obs) \<Longrightarrow> \<exists>a. open_alert aid obs s origin kind w = Inr a"
  by (simp add: open_alert_def)

lemma evaluate_bad_total:
  assumes "counters_le n st" "20 * n \<le> ob_tick obs"
  shows "\<exists>r st'. evaluate_bad ids obs s st = (Inr r, st') \<and> counters_le (Suc n) st'"
proof (cases "1 \<le> bad_quality_streak st \<and> active_quality_alert st = None")
  case True
  with assms have "20 \<le> int (ob_tick obs)" by (auto simp: counters_le_def)
  from open_alert_total [OF this] obtain a where "open_alert (ei_quality_alert ids) obs s DATA_QUALITY
      (if ob_quality obs = Quality_MISSING then Kind_MISSING else Kind_INVALID) 20 = Inr a" by blast
  with True assms(1) show ?thesis by (auto simp: evaluate_bad_def counters_le_def Let_def)
next
  case False
  with assms(1) show ?thesis by (auto simp: evaluate_bad_def counters_le_def Let_def)
qed

lemma evaluate_recovery_counters:
  assumes "counters_le n st" "evaluate_recovery ids obs st = (r, st')"
  shows "counters_le n st'"
  using assms by (auto simp: evaluate_recovery_def counters_le_def Let_def split: option.splits if_splits)

lemma raise_process_total:
  assumes "v \<le> Suc n" "20 * n \<le> ob_tick obs"
  shows "\<exists>r st'. raise_process ids obs s k v st = (Inr r, st') \<and>
    high_violations st' = high_violations st \<and> low_violations st' = low_violations st \<and>
    bad_quality_streak st' = bad_quality_streak st"
proof (cases "3 \<le> v \<and> active_process_alert st = None")
  case True
  with assms have "40 \<le> int (ob_tick obs)" by linarith
  from open_alert_total [OF this] obtain a where "open_alert (ei_process_alert ids) obs s PROCESS_LIMIT k 40 = Inr a" by blast
  with True show ?thesis by (simp add: raise_process_def)
qed (auto simp: raise_process_def)

lemma evaluate_limits_total:
  assumes "counters_le n st" "20 * n \<le> ob_tick obs"
  shows "\<exists>r st'. evaluate_limits ids obs s v st = (Inr r, st') \<and> counters_le (Suc n) st'"
proof -
  consider "is_above s v" | "\<not> is_above s v" "is_below s v" | "\<not> is_above s v" "\<not> is_below s v" by blast
  then show ?thesis
  proof cases
    case 1
    have "Suc (high_violations st) \<le> Suc n" using assms(1) by (simp add: counters_le_def)
    from raise_process_total [OF this assms(2), of ids s ABOVE_LIMIT
        "st\<lparr>high_violations := Suc (high_violations st), low_violations := 0, normal_streak := 0\<rparr>"] 1 assms(1)
    show ?thesis by (auto simp: evaluate_limits_def Let_def counters_le_def)
  next
    case 2
    have "Suc (low_violations st) \<le> Suc n" using assms(1) by (simp add: counters_le_def)
    from raise_process_total [OF this assms(2), of ids s BELOW_LIMIT
        "st\<lparr>low_violations := Suc (low_violations st), high_violations := 0, normal_streak := 0\<rparr>"] 2 assms(1)
    show ?thesis by (auto simp: evaluate_limits_def Let_def counters_le_def)
  next
    case 3
    with assms(1) show ?thesis
      by (auto simp: evaluate_limits_def counters_le_def Let_def split: option.splits)
  qed
qed

lemma analysis_step_total:
  assumes "counters_le n st" "20 * n \<le> ob_tick obs"
  shows "\<exists>st' out'. analysis_step s (st, out) (ids, obs) = Inr (st', out') \<and> counters_le (Suc n) st'"
proof -
  have rem: "counters_le n (remember obs st)" using assms(1) by (simp add: counters_le_def)
  show ?thesis
  proof (cases "ob_quality obs \<in> {Quality_MISSING, Quality_INVALID}")
    case True
    with evaluate_bad_total [OF rem assms(2), of ids s] show ?thesis
      by (auto simp: analysis_step_def evaluate_sensor_observation_def)
  next
    case False
    obtain as es st1 where r: "evaluate_recovery ids obs (remember obs st) = ((as, es), st1)" by (metis prod_cases3 surj_pair)
    note c1 = evaluate_recovery_counters [OF rem r]
    show ?thesis
    proof (cases "ob_value obs")
      case None
      with False r c1 show ?thesis by (simp add: analysis_step_def evaluate_sensor_observation_def counters_le_def)
    next
      case (Some v)
      with False r evaluate_limits_total [OF c1 assms(2), of ids s v] show ?thesis
        by (auto simp: analysis_step_def evaluate_sensor_observation_def)
    qed
  qed
qed

lemma analysis_run_total:
  assumes "counters_le n st" "\<forall>i < length xs. 20 * (n + i) \<le> ob_tick (snd (xs ! i))"
  shows "\<exists>c. fold_err (analysis_step s) (st, out) xs = Inr c"
  using assms
proof (induction xs arbitrary: n st out)
  case (Cons x xs)
  obtain ids obs where x: "x = (ids, obs)" by (cases x)
  have "20 * n \<le> ob_tick obs" using Cons.prems(2) x by force
  from analysis_step_total [OF Cons.prems(1) this] obtain st' out' where
    st': "analysis_step s (st, out) (ids, obs) = Inr (st', out')" "counters_le (Suc n) st'" by blast
  have "\<forall>i < length xs. 20 * (Suc n + i) \<le> ob_tick (snd (xs ! i))" using Cons.prems(2) by force
  from Cons.IH [OF st'(2) this] st'(1) x show ?case by simp
qed simp

section \<open>Detection and clearing\<close>

definition good_value :: "(pyfloat \<Rightarrow> bool) \<Rightarrow> Observation \<Rightarrow> bool" where
  "good_value P obs \<longleftrightarrow> ob_quality obs = Quality_GOOD \<and> (case ob_value obs of None \<Rightarrow> False | Some v \<Rightarrow> P v)"

lemma recovery_process [simp]:
  "evaluate_recovery ids obs st = (r, st') \<Longrightarrow> active_process_alert st' = active_process_alert st \<and>
     high_violations st' = high_violations st \<and> low_violations st' = low_violations st \<and> normal_streak st' = normal_streak st"
  by (auto simp: evaluate_recovery_def Let_def split: option.splits if_splits)

lemma good_step:
  assumes "good_value P (snd x)" "analysis_step s (st, out) x = Inr (st', out')"
  shows "\<exists>v r0 st1 r. P v \<and> evaluate_recovery (fst x) (snd x) (remember (snd x) st) = (r0, st1) \<and>
    evaluate_limits (fst x) (snd x) s v st1 = (Inr r, st')"
  using assms
  by (cases x) (auto simp: analysis_step_def evaluate_sensor_observation_def good_value_def
      split: option.splits sum.splits prod.splits)

lemma above_step:
  assumes "good_value (is_above s) (snd x)" "analysis_step s (st, out) x = Inr (st', out')"
  shows "high_violations st' = Suc (high_violations st) \<and> (3 \<le> high_violations st' \<longrightarrow> active_process_alert st' \<noteq> None)"
proof -
  from good_step [OF assms] obtain v r0 st1 r where h: "is_above s v"
    "evaluate_recovery (fst x) (snd x) (remember (snd x) st) = (r0, st1)"
    "evaluate_limits (fst x) (snd x) s v st1 = (Inr r, st')" by blast
  from recovery_process [OF h(2)] h show ?thesis
    by (auto simp: evaluate_limits_def raise_process_def Let_def split: if_splits sum.splits)
qed

lemma safe_step:
  assumes "good_value (\<lambda>v. \<not> is_above s v \<and> \<not> is_below s v \<and> is_safely_inside s v) (snd x)"
    and "analysis_step s (st, out) x = Inr (st', out')"
  shows "normal_streak st' = Suc (normal_streak st) \<and> (5 \<le> normal_streak st' \<longrightarrow> active_process_alert st' = None)"
proof -
  from good_step [OF assms] obtain v r0 st1 r where h: "\<not> is_above s v \<and> \<not> is_below s v \<and> is_safely_inside s v"
    "evaluate_recovery (fst x) (snd x) (remember (snd x) st) = (r0, st1)"
    "evaluate_limits (fst x) (snd x) s v st1 = (Inr r, st')" by blast
  from recovery_process [OF h(2)] h show ?thesis
    by (auto simp: evaluate_limits_def Let_def split: if_splits option.splits)
qed

lemma streak_run:
  assumes step: "\<And>st out x st' out'. P x \<Longrightarrow> f (st, out) x = Inr (st', out') \<Longrightarrow> c st' = Suc (c st) \<and> (k \<le> c st' \<longrightarrow> Q st')"
    and "fold_err f (st, out) zs = Inr (st', out')" "list_all P zs" "k \<le> length zs" "zs \<noteq> []"
  shows "Q st'"
proof -
  have "c st' = c st + length zs \<and> (zs \<noteq> [] \<longrightarrow> k \<le> c st' \<longrightarrow> Q st')"
    using assms(2,3)
  proof (induction zs arbitrary: st' out' rule: rev_induct)
    case (snoc z zs)
    then obtain st1 out1 where "fold_err f (st, out) zs = Inr (st1, out1)" "f (st1, out1) z = Inr (st', out')"
      by (force simp: fold_err_append bind_err_eq_Inr)
    with snoc step [of z st1 out1 st' out'] show ?case by simp
  qed simp
  with assms(4,5) show ?thesis by simp
qed

text \<open>
  C20 (invariant): the alert life cycle of a lab sensor.  On observations at least twenty ticks apart the
  evaluation never raises.  Of each origin, alerts are emitted in pairs, one opened and then the same
  one resolved, and the state keeps exactly the one that is open.  Three consecutive values above the
  limit leave a process alert open, and five consecutive values inside the hysteresis band leave none.
\<close>

theorem lab_alerts_life_cycle:
  assumes "\<forall>i < length xs. 20 * i \<le> ob_tick (snd (xs ! i))"
  shows "\<exists>st out. fold_err (analysis_step s) (new_analysis_state sid, []) xs = Inr (st, out) \<and>
    paired (of_origin PROCESS_LIMIT out) \<and> active_process_alert st = unresolved (of_origin PROCESS_LIMIT out) \<and>
    paired (of_origin DATA_QUALITY out) \<and> active_quality_alert st = unresolved (of_origin DATA_QUALITY out) \<and>
    (\<forall>ys zs. xs = ys @ zs \<longrightarrow> length zs = 3 \<longrightarrow> list_all (\<lambda>z. good_value (is_above s) (snd z)) zs \<longrightarrow>
       active_process_alert st \<noteq> None) \<and>
    (\<forall>ys zs. xs = ys @ zs \<longrightarrow> length zs = 5 \<longrightarrow>
       list_all (\<lambda>z. good_value (\<lambda>v. \<not> is_above s v \<and> \<not> is_below s v \<and> is_safely_inside s v) (snd z)) zs \<longrightarrow>
       active_process_alert st = None)"
proof -
  have "counters_le 0 (new_analysis_state sid)" by (simp add: counters_le_def new_analysis_state_def)
  from analysis_run_total [OF this, of xs s "[]"] assms obtain st out where
    run: "fold_err (analysis_step s) (new_analysis_state sid, []) xs = Inr (st, out)" by auto
  have "analysis_inv (new_analysis_state sid, [])"
    by (simp add: analysis_inv_def new_analysis_state_def paired_def unresolved_def)
  from lab_analysis.run_inv [OF this run] have inv: "analysis_inv (st, out)" .
  have split: "\<exists>st1 out1. fold_err (analysis_step s) (st1, out1) zs = Inr (st, out)" if "xs = ys @ zs" for ys zs
    using run that by (force simp: fold_err_append bind_err_eq_Inr)
  have above: "active_process_alert st \<noteq> None"
    if xs: "xs = ys @ zs" and zs: "length zs = 3" "list_all (\<lambda>z. good_value (is_above s) (snd z)) zs" for ys zs
  proof -
    from split [OF xs] obtain st1 out1 where "fold_err (analysis_step s) (st1, out1) zs = Inr (st, out)" by blast
    then show ?thesis
    proof (rule streak_run [where c = high_violations and k = 3 and P = "\<lambda>z. good_value (is_above s) (snd z)", rotated])
      show "high_violations st' = Suc (high_violations st) \<and> (3 \<le> high_violations st' \<longrightarrow> active_process_alert st' \<noteq> None)"
        if "good_value (is_above s) (snd x)" "analysis_step s (st, out) x = Inr (st', out')" for st out x st' out'
        using that by (rule above_step)
    qed (use zs in auto)
  qed
  have safe: "active_process_alert st = None"
    if xs: "xs = ys @ zs" and zs: "length zs = 5"
      "list_all (\<lambda>z. good_value (\<lambda>v. \<not> is_above s v \<and> \<not> is_below s v \<and> is_safely_inside s v) (snd z)) zs" for ys zs
  proof -
    from split [OF xs] obtain st1 out1 where "fold_err (analysis_step s) (st1, out1) zs = Inr (st, out)" by blast
    then show ?thesis
    proof (rule streak_run [where c = normal_streak and k = 5 and
          P = "\<lambda>z. good_value (\<lambda>v. \<not> is_above s v \<and> \<not> is_below s v \<and> is_safely_inside s v) (snd z)", rotated])
      show "normal_streak st' = Suc (normal_streak st) \<and> (5 \<le> normal_streak st' \<longrightarrow> active_process_alert st' = None)"
        if "good_value (\<lambda>v. \<not> is_above s v \<and> \<not> is_below s v \<and> is_safely_inside s v) (snd x)"
          "analysis_step s (st, out) x = Inr (st', out')" for st out x st' out'
        using that by (rule safe_step)
    qed (use zs in auto)
  qed
  from run inv above safe show ?thesis unfolding analysis_inv_def by blast
qed

definition pressure_sensor :: Sensor where
  "pressure_sensor = \<lparr>sensor_id = 30, sensor_kind = PRESSURE, sensor_target = PortTarget \<lparr>pr_asset_id = 11, pr_port = Port_A\<rparr>,
     noise_std = Fin 0, alarm_low = None, alarm_high = Some (Fin 600000)\<rparr>"

definition reading :: "nat \<Rightarrow> real \<Rightarrow> Observation" where
  "reading t v = \<lparr>ob_run_id = 40, ob_asset_id = 11, ob_sensor_id = 30, ob_tick = t, ob_unit = Unit_Pa, ob_value = Some (Fin v),
     ob_quality = Quality_GOOD, ob_profile_digest = zero_sha, ob_source_mode = ''SIMULATION''\<rparr>"

definition ids_at :: "nat \<Rightarrow> eval_ids" where
  "ids_at t = \<lparr>ei_quality_alert = 4 * t, ei_quality_event = 4 * t + 1, ei_process_alert = 4 * t + 2, ei_process_event = 4 * t + 3\<rparr>"

theorem lab_alerts_life_cycle_witness:
  "\<exists>st out. fold_err (analysis_step pressure_sensor) (new_analysis_state 30, [])
      [(ids_at 20, reading 20 700000), (ids_at 40, reading 40 710000), (ids_at 60, reading 60 720000)] = Inr (st, out) \<and>
    paired (of_origin PROCESS_LIMIT out) \<and> active_process_alert st \<noteq> None"
proof -
  let ?xs = "[(ids_at 20, reading 20 700000), (ids_at 40, reading 40 710000), (ids_at 60, reading 60 720000)]"
  have ticks: "\<forall>i < length ?xs. 20 * i \<le> ob_tick (snd (?xs ! i))"
    by (auto simp: reading_def less_Suc_eq numeral_3_eq_3)
  have "list_all (\<lambda>z. good_value (is_above pressure_sensor) (snd z)) ?xs"
    by (simp add: good_value_def reading_def is_above_def pressure_sensor_def)
  moreover have "?xs = [] @ ?xs" "length ?xs = 3" by simp_all
  ultimately show ?thesis using lab_alerts_life_cycle [OF ticks, of pressure_sensor 30] by blast
qed

section \<open>Violations that are not consecutive\<close>

definition in_band :: "Sensor \<Rightarrow> pyfloat \<Rightarrow> bool" where
  "in_band s v \<longleftrightarrow> \<not> is_above s v \<and> \<not> is_below s v \<and> \<not> is_safely_inside s v"

text \<open>A state with a number of violations behind it and no alert open.\<close>

definition counting :: "nat \<Rightarrow> SensorAnalysisState \<Rightarrow> bool" where
  "counting k st \<longleftrightarrow> high_violations st = k \<and> active_process_alert st = None \<and> active_quality_alert st = None"

lemma quiet_good:
  assumes "ob_quality obs = Quality_GOOD" "ob_value obs = Some v" "active_quality_alert st = None"
  shows "evaluate_sensor_observation ids obs s st =
    evaluate_limits ids obs s v ((remember obs st)\<lparr>good_quality_streak := good_quality_streak st + 1\<rparr>)"
  using assms
  by (simp add: evaluate_sensor_observation_def evaluate_recovery_def Let_def split: prod.splits sum.splits)

lemma band_step:
  assumes "counting k st" "good_value (in_band s) (snd x)"
  shows "\<exists>st'. analysis_step s (st, out) x = Inr (st', out) \<and> counting k st'"
  using assms
  by (cases x) (auto simp: counting_def good_value_def analysis_step_def quiet_good evaluate_limits_def in_band_def split: option.splits)

lemma band_run:
  assumes "counting k st" "list_all (\<lambda>x. good_value (in_band s) (snd x)) xs"
  shows "\<exists>st'. fold_err (analysis_step s) (st, out) xs = Inr (st', out) \<and> counting k st'"
  using assms
proof (induction xs arbitrary: st)
  case (Cons x xs)
  from band_step [OF Cons.prems(1), of s x out] Cons.prems(2) obtain st1 where
    st1: "analysis_step s (st, out) x = Inr (st1, out)" "counting k st1" by auto
  from Cons.IH [OF st1(2)] Cons.prems(2) st1(1) show ?case by simp
qed simp

lemma violation_step:
  assumes "counting k st" "good_value (is_above s) (snd x)" "k < 2"
  shows "\<exists>st'. analysis_step s (st, out) x = Inr (st', out) \<and> counting (Suc k) st'"
  using assms
  by (cases x) (auto simp: counting_def good_value_def analysis_step_def quiet_good evaluate_limits_def raise_process_def Let_def
      split: option.splits)

lemma third_violation:
  assumes "counting 2 st" "good_value (is_above s) (snd x)" "40 \<le> ob_tick (snd x)"
  shows "\<exists>st' a. analysis_step s (st, out) x = Inr (st', out @ [a]) \<and> la_kind a = ABOVE_LIMIT \<and> la_sensor_id a = sensor_id s \<and>
    la_first_tick a = int (ob_tick (snd x)) - 40 \<and> la_last_tick a = int (ob_tick (snd x))"
  using assms
  by (cases x) (auto simp: counting_def good_value_def analysis_step_def quiet_good evaluate_limits_def raise_process_def open_alert_def Let_def
      split: option.splits)

lemma scattered_run:
  assumes "good_value (is_above s) (snd a)" "good_value (is_above s) (snd b)" "good_value (is_above s) (snd c)"
    and "list_all (\<lambda>x. good_value (in_band s) (snd x)) (mid1 @ mid2)" "40 \<le> ob_tick (snd c)"
  shows "\<exists>st al. fold_err (analysis_step s) (new_analysis_state sid, []) (a # mid1 @ b # mid2 @ [c]) = Inr (st, [al]) \<and>
    la_kind al = ABOVE_LIMIT \<and> la_sensor_id al = sensor_id s \<and>
    la_first_tick al = int (ob_tick (snd c)) - 40 \<and> la_last_tick al = int (ob_tick (snd c))"
proof -
  have "counting 0 (new_analysis_state sid)" by (simp add: counting_def new_analysis_state_def)
  from violation_step [OF this assms(1), of "[]"] obtain s1 where
    s1: "analysis_step s (new_analysis_state sid, []) a = Inr (s1, [])" "counting 1 s1" by auto
  from band_run [OF s1(2), of s mid1 "[]"] assms(4) obtain s2 where
    s2: "fold_err (analysis_step s) (s1, []) mid1 = Inr (s2, [])" "counting 1 s2" by auto
  from violation_step [OF s2(2) assms(2), of "[]"] obtain s3 where
    s3: "analysis_step s (s2, []) b = Inr (s3, [])" "counting 2 s3" by (auto simp: numeral_2_eq_2)
  from band_run [OF s3(2), of s mid2 "[]"] assms(4) obtain s4 where
    s4: "fold_err (analysis_step s) (s3, []) mid2 = Inr (s4, [])" "counting 2 s4" by auto
  from third_violation [OF s4(2) assms(3,5), of "[]"] s1(1) s2(1) s3(1) s4(1) show ?thesis
    by (auto simp: fold_err_append)
qed

text \<open>
  Three violations need not be consecutive to open an alert, although the alert claims so.
  Values between the limit and the hysteresis boundary neither count nor reset the violations, so
  any number of them may lie between three values above the limit.  The alert that the third one opens
  starts forty ticks before it, as for three consecutive samples, and its evidence bundle holds just
  that one violation when two or more such values precede it.
\<close>

theorem scattered_violations_open_alert:
  assumes "good_value (is_above s) (snd a)" "good_value (is_above s) (snd b)" "good_value (is_above s) (snd c)"
    and "list_all (\<lambda>x. good_value (in_band s) (snd x)) (mid1 @ mid2)" "2 \<le> length mid2"
    and "xs = a # mid1 @ b # mid2 @ [c]" "\<forall>x \<in> set xs. ob_sensor_id (snd x) = sensor_id s"
    and "map (\<lambda>x. ob_tick (snd x)) xs = map (\<lambda>i. 20 * Suc i) [0..<length xs]"
  shows "\<exists>st al. fold_err (analysis_step s) (new_analysis_state sid, []) xs = Inr (st, [al]) \<and> la_kind al = ABOVE_LIMIT \<and>
    filter (good_value (is_above s)) (eb_observations (create_alert_evidence uuid5 al (map snd xs) run feats sc th)) = [snd c]"
proof -
  have tick: "ob_tick (snd (xs ! i)) = 20 * Suc i" if "i < length xs" for i
    using arg_cong [OF assms(8), of "\<lambda>ts. ts ! i"] that by simp
  let ?pre = "a # mid1 @ [b]"
  have len: "length xs = length ?pre + length mid2 + 1" using assms(6) by simp
  have c: "ob_tick (snd c) = 20 * length xs" using tick [of "length xs - 1"] assms(6) len by (simp add: nth_append)
  have early: "int (ob_tick (snd x)) < int (ob_tick (snd c)) - 40" if "x \<in> set ?pre" for x
  proof -
    from that obtain i where "i < length ?pre" "x = ?pre ! i" by (metis in_set_conv_nth)
    moreover have "xs = ?pre @ (mid2 @ [c])" using assms(6) by simp
    ultimately have "i < length ?pre" "xs ! i = x" by (simp_all only: nth_append if_True)
    with tick [of i] c len assms(5) show ?thesis by simp
  qed
  obtain st al where run: "fold_err (analysis_step s) (new_analysis_state sid, []) xs = Inr (st, [al])" "la_kind al = ABOVE_LIMIT"
    "la_sensor_id al = sensor_id s" "la_first_tick al = int (ob_tick (snd c)) - 40" "la_last_tick al = int (ob_tick (snd c))"
    using scattered_run [OF assms(1-4), of sid] c len assms(6) by auto
  let ?in = "\<lambda>ob. ob_sensor_id ob = la_sensor_id al \<and> la_first_tick al \<le> int (ob_tick ob) \<and> int (ob_tick ob) \<le> la_last_tick al"
  have "filter ?in (map snd ?pre) = []"
    unfolding filter_empty_conv set_map ball_simps run(4) using early by (metis (no_types, lifting) linorder_not_le imageE)
  moreover have "\<not> good_value (is_above s) (snd x)" if "x \<in> set mid2" for x
    using that assms(4) by (auto simp: list_all_iff good_value_def in_band_def split: option.splits)
  then have "filter (good_value (is_above s)) (filter ?in (map snd mid2)) = []" by (auto simp: filter_empty_conv)
  moreover have "map snd xs = map snd ?pre @ map snd mid2 @ [snd c]" using assms(6) by simp
  moreover have "?in (snd c)" using run(3-5) assms(6,7) by auto
  ultimately have "filter (good_value (is_above s)) (filter ?in (map snd xs)) = [snd c]"
    using assms(3) by (simp only: filter_append) simp
  with run(1,2) show ?thesis by (auto simp: create_alert_evidence_def)
qed

definition scattered_readings :: "(eval_ids \<times> Observation) list" where
  "scattered_readings = (ids_at 20, reading 20 700000) # [] @ (ids_at 40, reading 40 700000) #
     [(ids_at 60, reading 60 595000), (ids_at 80, reading 80 595000)] @ [(ids_at 100, reading 100 700000)]"

theorem scattered_violations_open_alert_witness:
  "\<exists>st al. fold_err (analysis_step pressure_sensor) (new_analysis_state 30, []) scattered_readings = Inr (st, [al]) \<and>
     la_kind al = ABOVE_LIMIT \<and> filter (good_value (is_above pressure_sensor))
       (eb_observations (create_alert_evidence (\<lambda>_. 1) al (map snd scattered_readings) closed_run None None None)) =
       [reading 100 700000]"
proof -
  have above: "good_value (is_above pressure_sensor) (snd (ids_at t, reading t' 700000))" for t t'
    by (simp add: good_value_def reading_def is_above_def pressure_sensor_def)
  have band: "list_all (\<lambda>x. good_value (in_band pressure_sensor) (snd x))
      ([] @ [(ids_at 60, reading 60 595000), (ids_at 80, reading 80 595000)])"
    by (simp add: good_value_def reading_def in_band_def is_above_def is_below_def is_safely_inside_def pressure_sensor_def
        sensor_hysteresis_def pf_sub_def)
  have "\<forall>x \<in> set scattered_readings. ob_sensor_id (snd x) = sensor_id pressure_sensor"
    "map (\<lambda>x. ob_tick (snd x)) scattered_readings = map (\<lambda>i. 20 * Suc i) [0..<length scattered_readings]"
    by (simp_all add: scattered_readings_def reading_def pressure_sensor_def)
  from scattered_violations_open_alert [OF above above above band _ scattered_readings_def this] show ?thesis by simp
qed

end
