(* ===== verification/Lab_Store.thy ===== *)
theory Lab_Store
  imports Lab_Analysis Tables "HOL-Library.Product_Lexorder"
begin

text \<open>
  \<open>lab/store.py\<close>: \<open>LabStore\<close> over the tables of \<open>db/migrations/006_virtual_lab.sql\<close>, with their primary keys,
  unique constraints and foreign keys.  A method runs in one transaction: it returns an exception, and
  the database is unchanged, or a result with the new database.  Columns that nothing reads
  (\<open>created_at\<close> and \<open>updated_at\<close> of a run, \<open>bytes_recorded\<close>, \<open>parent_run_id\<close>, leases) are left out.
  Digests of canonical JSON are the arguments collected in \<open>lab_env\<close>.
\<close>

declare map_of_append [simp del]

datatype CommandStatus = Cmd_ACCEPTED | Cmd_APPLIED | Cmd_REJECTED | Cmd_FAILED

datatype cmd_value = VNum pyfloat | VBool bool | VStr string | VDict "(string \<times> real) list" | VNull

record EngineCheckpoint =
  ec_schema_version :: string
  ec_tick :: nat
  ec_physical :: PhysicalState
  ec_controls :: ControlState
  ec_accepted_scanned_sequence :: nat
  ec_pending_command_ids :: "uuid list"
  ec_definition_digest :: sha256
  ec_profile_digest :: sha256
  ec_sampling_digest :: sha256

record CommandRequest =
  cr_command_id :: uuid
  cr_expected_control_revision :: nat
  cr_action :: string
  cr_target_id :: "uuid option"
  cr_parameters :: "(string, cmd_value) table"

record CommandReceipt =
  rc_command_id :: uuid
  rc_status :: CommandStatus
  rc_accepted_sequence :: nat
  rc_effective_tick :: "nat option"
  rc_control_revision :: nat
  rc_reason_code :: "string option"

record RunSnapshot =
  sn_run_id :: uuid
  sn_tick :: nat
  sn_status :: RunStatus
  sn_control_revision :: nat
  sn_event_sequence :: nat
  sn_physical :: PhysicalState
  sn_observations :: "Observation list"
  sn_pending_commands :: "CommandReceipt list"
  sn_alerts :: "LabAlert list"
  sn_connection_status :: string

section \<open>Tables\<close>

record lab_definition_row =
  ld_name :: string
  ld_current_revision :: int
  ld_created_at :: datetime

record lab_run_row =
  rr_lab_id :: uuid
  rr_lab_revision :: int
  rr_baseline_id :: "uuid option"
  rr_max_ticks :: "nat option"
  rr_model_version :: string
  rr_status :: RunStatus
  rr_seed :: int
  rr_speed :: int
  rr_tick :: nat
  rr_control_revision :: nat
  rr_accepted_sequence :: nat
  rr_event_sequence :: nat
  rr_fence :: nat
  rr_definition_digest :: sha256
  rr_profile_digest :: sha256
  rr_scene_digest :: sha256
  rr_sampling_digest :: sha256
  rr_checkpoint :: EngineCheckpoint

record lab_command_row =
  cw_payload_hash :: sha256
  cw_accepted_sequence :: nat
  cw_action :: string
  cw_target_id :: "uuid option"
  cw_parameters :: "(string, cmd_value) table"
  cw_status :: CommandStatus
  cw_effective_tick :: "nat option"
  cw_reason_code :: "string option"
  cw_control_revision :: nat

record lab_outbox_row =
  ow_run_id :: uuid
  ow_sensor_id :: uuid
  ow_tick :: nat
  ow_topic :: string
  ow_payload :: Observation

record LabDB =
  lab_definitions :: "(uuid, lab_definition_row) table"
  lab_revisions :: "(uuid \<times> int, LabDefinition \<times> sha256) table"
  lab_baselines :: "uuid list"
  lab_runs :: "(uuid, lab_run_row) table"
  lab_commands :: "(uuid \<times> uuid, lab_command_row) table"
  lab_events :: "(uuid \<times> nat, LabEvent) table"
  lab_history :: "(uuid \<times> nat, string) table"
  lab_outbox :: "(uuid, lab_outbox_row \<times> datetime option) table"
  lab_alerts :: "(uuid, LabAlert) table"

definition empty_lab_db :: LabDB where
  "empty_lab_db = \<lparr>lab_definitions = [], lab_revisions = [], lab_baselines = [], lab_runs = [], lab_commands = [],
     lab_events = [], lab_history = [], lab_outbox = [], lab_alerts = []\<rparr>"

record lab_env =
  lv_definition_digest :: "LabDefinition \<Rightarrow> sha256"
  lv_sha256 :: "string \<Rightarrow> sha256"
  lv_payload_hash :: "CommandRequest \<Rightarrow> sha256"

section \<open>Errors\<close>

definition LabNotFoundError :: exn where "LabNotFoundError = RuntimeError ''LabNotFoundError''"
definition LabRevisionConflictError :: exn where "LabRevisionConflictError = RuntimeError ''LabRevisionConflictError''"
definition LabNotRunnableError :: exn where "LabNotRunnableError = RuntimeError ''LabNotRunnableError''"
definition RunNotFoundError :: exn where "RunNotFoundError = RuntimeError ''RunNotFoundError''"
definition InvalidRunStateError :: exn where "InvalidRunStateError = RuntimeError ''InvalidRunStateError''"
definition CommandRevisionConflictError :: exn where
  "CommandRevisionConflictError = RuntimeError ''CommandRevisionConflictError''"
definition CommandIdentityConflictError :: exn where
  "CommandIdentityConflictError = RuntimeError ''CommandIdentityConflictError''"

section \<open>Lab definitions\<close>

definition insert_revision :: "uuid \<Rightarrow> int \<Rightarrow> LabDefinition \<Rightarrow> sha256 \<Rightarrow> LabDB \<Rightarrow> exn + LabDB" where
  "insert_revision l r d dig db =
     (if map_of (lab_revisions db) (l, r) \<noteq> None then Inl unique_violation
      else Inr (db\<lparr>lab_revisions := lab_revisions db @ [((l, r), (d, dig))]\<rparr>))"

definition save_lab :: "lab_env \<Rightarrow> datetime \<Rightarrow> LabDefinition \<Rightarrow> int \<Rightarrow> LabDB \<Rightarrow> exn + LabDefinition \<times> LabDB" where
  "save_lab env now d expected_revision db =
     (let dig = lv_definition_digest env d; l = lab_id d in
      bind_err
        (case map_of (lab_definitions db) l of
           None \<Rightarrow>
             if expected_revision \<notin> {0, 1} then Inl LabRevisionConflictError
             else Inr (1, db\<lparr>lab_definitions := lab_definitions db @
                   [(l, \<lparr>ld_name = lab_name d, ld_current_revision = 1, ld_created_at = now\<rparr>)]\<rparr>)
         | Some row \<Rightarrow>
             if ld_current_revision row \<noteq> expected_revision then Inl LabRevisionConflictError
             else Inr (ld_current_revision row + 1, db\<lparr>lab_definitions := update_row l
                   (\<lambda>r. r\<lparr>ld_current_revision := ld_current_revision row + 1, ld_name := lab_name d\<rparr>) (lab_definitions db)\<rparr>))
        (\<lambda>(new_rev, db1).
           let rev_def = d\<lparr>revision := new_rev\<rparr> in
           bind_err (insert_revision l new_rev rev_def dig db1) (\<lambda>db2. Inr (rev_def, db2))))"

definition get_lab :: "uuid \<Rightarrow> int option \<Rightarrow> LabDB \<Rightarrow> exn + LabDefinition option" where
  "get_lab l rv db =
     (let row = (case rv of
           None \<Rightarrow> (case map_of (lab_definitions db) l of None \<Rightarrow> None
                    | Some d \<Rightarrow> map_of (lab_revisions db) (l, ld_current_revision d))
         | Some r \<Rightarrow> map_of (lab_revisions db) (l, r))
      in case row of None \<Rightarrow> Inr None | Some (d, _) \<Rightarrow> bind_err (validate_definition d) (\<lambda>d'. Inr (Some d')))"

definition list_labs :: "uuid option \<Rightarrow> int \<Rightarrow> LabDB \<Rightarrow> (uuid \<times> lab_definition_row) list" where
  "list_labs after limit db =
     take (nat (min (max 1 limit) 100))
       (sort_key fst (filter (\<lambda>(l, _). case after of None \<Rightarrow> True | Some a \<Rightarrow> a < l) (lab_definitions db)))"

section \<open>Runs\<close>

text \<open>The initial pressures, under the key of every port.\<close>

definition initial_pressures :: "Asset list \<Rightarrow> lab_key \<rightharpoonup> pyfloat" where
  "initial_pressures as = dict_of (concat (map (\<lambda>a.
     map (\<lambda>p. (PortKey (asset_id a) p, Fin (param_real a ''initial_pressure_pa'' 400000)))
       (VALID_PORTS_BY_ASSET_TYPE (asset_type a))) as))"

definition initial_checkpoint :: "(uuid \<rightharpoonup> operating_mode) \<Rightarrow> LabDefinition \<Rightarrow> sha256 \<Rightarrow> sha256 \<Rightarrow> sha256 \<Rightarrow> EngineCheckpoint" where
  "initial_checkpoint modes d def_digest profile_digest sampling_digest =
     \<lparr>ec_schema_version = ''lab-checkpoint-v1'', ec_tick = 0,
      ec_physical = \<lparr>ps_tick = 0, pressures_pa = initial_pressures (assets d), flows_kg_s = (\<lambda>_. None), operating_modes = modes\<rparr>,
      ec_controls = \<lparr>setpoints = (\<lambda>_. None), active_faults = []\<rparr>, ec_accepted_scanned_sequence = 0,
      ec_pending_command_ids = [], ec_definition_digest = def_digest, ec_profile_digest = profile_digest,
      ec_sampling_digest = sampling_digest\<rparr>"

definition initial_modes :: "LabDefinition \<Rightarrow> uuid \<rightharpoonup> operating_mode" where
  "initial_modes d = dict_of (map (\<lambda>a. (asset_id a, if param_bool a ''enabled'' True then Mode_RUNNING else Mode_OFF))
     (filter (\<lambda>a. asset_type a = COMPRESSOR) (assets d)))"

definition new_run :: "lab_env \<Rightarrow> RunSpec \<Rightarrow> uuid \<Rightarrow> LabDefinition \<Rightarrow> SimulationRun" where
  "new_run env spec rid d =
     \<lparr>sr_run_id = rid, sr_spec = spec, sr_status = Run_CREATED, sr_definition = d,
      sr_definition_digest = lv_definition_digest env d, sr_scene_digest = lv_sha256 env ''scene-v1'',
      sr_profile_digest = lv_sha256 env ''lab-sensor-robust-v1'', sr_sampling_digest = lv_sha256 env ''sampling-1hz-v1'',
      sr_baseline_id = rs_baseline_id spec, sr_model_version = ''pneumatic-isothermal-v1'', sr_dt = DT_DEFAULT,
      sr_epoch = ''2000-01-01T00:00:00Z'', sr_profile_id = ''lab-sensor-robust-v1'', sr_tick = 0,
      sr_control_revision = 0, sr_event_sequence = 0\<rparr>"

definition run_row_of :: "SimulationRun \<Rightarrow> lab_run_row" where
  "run_row_of run =
     \<lparr>rr_lab_id = rs_lab_id (sr_spec run), rr_lab_revision = rs_lab_revision (sr_spec run),
      rr_baseline_id = rs_baseline_id (sr_spec run), rr_max_ticks = rs_max_ticks (sr_spec run),
      rr_model_version = sr_model_version run, rr_status = sr_status run, rr_seed = rs_seed (sr_spec run),
      rr_speed = rs_speed (sr_spec run), rr_tick = 0, rr_control_revision = 0, rr_accepted_sequence = 0,
      rr_event_sequence = 0, rr_fence = 0, rr_definition_digest = sr_definition_digest run,
      rr_profile_digest = sr_profile_digest run, rr_scene_digest = sr_scene_digest run,
      rr_sampling_digest = sr_sampling_digest run,
      rr_checkpoint = initial_checkpoint (initial_modes (sr_definition run)) (sr_definition run)
        (sr_definition_digest run) (sr_profile_digest run) (sr_sampling_digest run)\<rparr>"

definition start_run :: "lab_env \<Rightarrow> RunSpec \<Rightarrow> uuid \<Rightarrow> LabDB \<Rightarrow> exn + SimulationRun \<times> LabDB" where
  "start_run env spec rid db =
     bind_err (get_lab (rs_lab_id spec) (Some (rs_lab_revision spec)) db) (\<lambda>found.
     case found of None \<Rightarrow> Inl LabNotFoundError
     | Some d \<Rightarrow>
         bind_err (validate_lab (lv_definition_digest env) d) (\<lambda>r.
         if \<not> run_eligible r then Inl LabNotRunnableError
         else
           (let run = new_run env spec rid d in
            if map_of (lab_runs db) rid \<noteq> None then Inl unique_violation
            else if map_of (lab_revisions db) (rs_lab_id spec, rs_lab_revision spec) = None then Inl fk_violation
            else if (case rs_baseline_id spec of None \<Rightarrow> False | Some b \<Rightarrow> b \<notin> set (lab_baselines db)) then Inl fk_violation
            else Inr (run, db\<lparr>lab_runs := lab_runs db @ [(rid, run_row_of run)]\<rparr>))))"

definition get_run :: "uuid \<Rightarrow> LabDB \<Rightarrow> exn + SimulationRun option" where
  "get_run rid db =
     (case map_of (lab_runs db) rid of None \<Rightarrow> Inr None
      | Some row \<Rightarrow>
          (case map_of (lab_revisions db) (rr_lab_id row, rr_lab_revision row) of None \<Rightarrow> Inr None
           | Some (d0, _) \<Rightarrow>
               bind_err (validate_definition d0) (\<lambda>d.
                 Inr (Some \<lparr>sr_run_id = rid,
                   sr_spec = \<lparr>rs_lab_id = rr_lab_id row, rs_lab_revision = rr_lab_revision row, rs_seed = rr_seed row,
                     rs_speed = rr_speed row, rs_max_ticks = rr_max_ticks row, rs_baseline_id = rr_baseline_id row\<rparr>,
                   sr_status = rr_status row, sr_definition = d, sr_definition_digest = rr_definition_digest row,
                   sr_scene_digest = rr_scene_digest row, sr_profile_digest = rr_profile_digest row,
                   sr_sampling_digest = rr_sampling_digest row, sr_baseline_id = rr_baseline_id row,
                   sr_model_version = rr_model_version row, sr_dt = DT_DEFAULT, sr_epoch = ''2000-01-01T00:00:00Z'',
                   sr_profile_id = ''lab-sensor-robust-v1'', sr_tick = rr_tick row,
                   sr_control_revision = rr_control_revision row, sr_event_sequence = rr_event_sequence row\<rparr>))))"

section \<open>Commands\<close>

definition receipt_of :: "uuid \<Rightarrow> lab_command_row \<Rightarrow> CommandReceipt" where
  "receipt_of c row = \<lparr>rc_command_id = c, rc_status = cw_status row, rc_accepted_sequence = cw_accepted_sequence row,
     rc_effective_tick = cw_effective_tick row, rc_control_revision = cw_control_revision row,
     rc_reason_code = cw_reason_code row\<rparr>"

definition terminal_status :: "RunStatus \<Rightarrow> bool" where
  "terminal_status s \<longleftrightarrow> s \<in> {Run_STOPPED, Run_COMPLETED, Run_FAILED}"

definition command_row :: "lab_env \<Rightarrow> CommandRequest \<Rightarrow> lab_run_row \<Rightarrow> lab_command_row" where
  "command_row env req row =
     \<lparr>cw_payload_hash = lv_payload_hash env req, cw_accepted_sequence = rr_accepted_sequence row + 1,
      cw_action = cr_action req, cw_target_id = cr_target_id req, cw_parameters = cr_parameters req,
      cw_status = Cmd_ACCEPTED, cw_effective_tick = None, cw_reason_code = None,
      cw_control_revision = rr_control_revision row + 1\<rparr>"

definition submit_command :: "lab_env \<Rightarrow> uuid \<Rightarrow> CommandRequest \<Rightarrow> LabDB \<Rightarrow> exn + CommandReceipt \<times> LabDB" where
  "submit_command env rid req db =
     (case map_of (lab_commands db) (rid, cr_command_id req) of
        Some old \<Rightarrow>
          if cw_payload_hash old \<noteq> lv_payload_hash env req then Inl CommandIdentityConflictError
          else Inr (receipt_of (cr_command_id req) old, db)
      | None \<Rightarrow>
          (case map_of (lab_runs db) rid of
             None \<Rightarrow> Inl RunNotFoundError
           | Some row \<Rightarrow>
               if terminal_status (rr_status row) then Inl InvalidRunStateError
               else if cr_expected_control_revision req \<noteq> rr_control_revision row then Inl CommandRevisionConflictError
               else
                 (let new = command_row env req row in
                  if list_ex (\<lambda>((r, _), c). r = rid \<and> cw_accepted_sequence c = cw_accepted_sequence new) (lab_commands db)
                  then Inl unique_violation
                  else Inr (receipt_of (cr_command_id req) new,
                    db\<lparr>lab_commands := lab_commands db @ [((rid, cr_command_id req), new)],
                       lab_runs := update_row rid (\<lambda>r. r\<lparr>rr_control_revision := cw_control_revision new,
                         rr_accepted_sequence := cw_accepted_sequence new\<rparr>) (lab_runs db)\<rparr>))))"

definition get_snapshot :: "uuid \<Rightarrow> LabDB \<Rightarrow> RunSnapshot option" where
  "get_snapshot rid db =
     (case map_of (lab_runs db) rid of None \<Rightarrow> None
      | Some row \<Rightarrow> Some
          \<lparr>sn_run_id = rid, sn_tick = rr_tick row, sn_status = rr_status row, sn_control_revision = rr_control_revision row,
           sn_event_sequence = rr_event_sequence row, sn_physical = ec_physical (rr_checkpoint row), sn_observations = [],
           sn_pending_commands = map (\<lambda>((_, c), w). receipt_of c w) (sort_key (\<lambda>(_, w). cw_accepted_sequence w)
             (filter (\<lambda>((r, _), w). r = rid \<and> cw_status w = Cmd_ACCEPTED) (lab_commands db))),
           sn_alerts = map (\<lambda>a. a\<lparr>la_evidence_ids := []\<rparr>) (sort_key la_first_tick
             (filter (\<lambda>a. la_run_id a = rid \<and> la_state a = Alert_OPEN) (map snd (lab_alerts db)))),
           sn_connection_status = ''CONNECTED''\<rparr>)"

section \<open>Events, history and checkpoints\<close>

definition lab_events_after :: "uuid \<Rightarrow> nat \<Rightarrow> int \<Rightarrow> LabDB \<Rightarrow> LabEvent list" where
  "lab_events_after rid sq limit db =
     take (nat (min (max 1 limit) 1000)) (map snd (sort_key (\<lambda>((_, k), _). k)
       (filter (\<lambda>((r, k), _). r = rid \<and> sq < k) (lab_events db))))"

definition append_history :: "uuid \<Rightarrow> nat \<Rightarrow> string \<Rightarrow> LabDB \<Rightarrow> exn + LabDB" where
  "append_history rid tick frame db =
     (if map_of (lab_history db) (rid, tick) = None \<and> map_of (lab_runs db) rid = None then Inl fk_violation
      else Inr (db\<lparr>lab_history := insert_ignore (rid, tick) frame (lab_history db)\<rparr>))"

definition get_history :: "uuid \<Rightarrow> nat \<Rightarrow> nat option \<Rightarrow> int \<Rightarrow> LabDB \<Rightarrow> string list" where
  "get_history rid from_tick to_tick limit db =
     take (nat (min (max 1 limit) 1000)) (map snd (sort_key (\<lambda>((_, t), _). t)
       (filter (\<lambda>((r, t), _). r = rid \<and> from_tick \<le> t \<and> (case to_tick of None \<Rightarrow> True | Some u \<Rightarrow> t \<le> u)) (lab_history db))))"

definition insert_event :: "uuid \<Rightarrow> LabDB \<Rightarrow> LabEvent \<Rightarrow> exn + LabDB" where
  "insert_event rid db ev =
     (if map_of (lab_events db) (rid, le_sequence ev) \<noteq> None \<or> le_event_id ev \<in> set (map (le_event_id \<circ> snd) (lab_events db))
      then Inl unique_violation
      else Inr (db\<lparr>lab_events := lab_events db @ [((rid, le_sequence ev), ev\<lparr>le_run_id := rid\<rparr>)]\<rparr>))"

definition insert_message :: "LabDB \<Rightarrow> uuid \<times> lab_outbox_row \<Rightarrow> exn + LabDB" where
  "insert_message db = (\<lambda>(mid, row).
     if map_of (lab_outbox db) mid \<noteq> None then Inl unique_violation
     else Inr (db\<lparr>lab_outbox := lab_outbox db @ [(mid, (row, None))]\<rparr>))"

definition checkpoint ::
  "uuid \<Rightarrow> nat \<Rightarrow> nat \<Rightarrow> EngineCheckpoint \<Rightarrow> LabEvent list \<Rightarrow> (uuid \<times> lab_outbox_row) list \<Rightarrow> LabDB \<Rightarrow> exn + bool \<times> LabDB"
where
  "checkpoint rid fence expected_tick chk events messages db =
     (case map_of (lab_runs db) rid of
        None \<Rightarrow> Inr (False, db)
      | Some row \<Rightarrow>
          if rr_fence row \<noteq> fence \<or> rr_tick row \<noteq> expected_tick then Inr (False, db)
          else
            (let db1 = db\<lparr>lab_runs := update_row rid (\<lambda>r. r\<lparr>rr_tick := ec_tick chk, rr_checkpoint := chk,
                   rr_event_sequence := rr_event_sequence r + length events\<rparr>) (lab_runs db)\<rparr>
             in bind_err (fold_err (insert_event rid) db1 events) (\<lambda>db2.
                bind_err (fold_err insert_message db2 messages) (\<lambda>db3. Inr (True, db3)))))"

section \<open>Histories of operations\<close>

text \<open>The operations that change the database; one that raises leaves it as it was.\<close>

datatype lab_op =
    SaveLab datetime LabDefinition int
  | StartRun RunSpec uuid
  | SubmitCommand uuid CommandRequest
  | AppendHistory uuid nat string
  | Checkpoint uuid nat nat EngineCheckpoint "LabEvent list" "(uuid \<times> lab_outbox_row) list"

definition lab_op_result :: "lab_env \<Rightarrow> LabDB \<Rightarrow> lab_op \<Rightarrow> exn + LabDB" where
  "lab_op_result env db op = (case op of
       SaveLab now d r \<Rightarrow> map_sum id snd (save_lab env now d r db)
     | StartRun spec rid \<Rightarrow> map_sum id snd (start_run env spec rid db)
     | SubmitCommand rid req \<Rightarrow> map_sum id snd (submit_command env rid req db)
     | AppendHistory rid t frame \<Rightarrow> append_history rid t frame db
     | Checkpoint rid fence t chk evs msgs \<Rightarrow> map_sum id snd (checkpoint rid fence t chk evs msgs db))"

definition apply_lab_op :: "lab_env \<Rightarrow> LabDB \<Rightarrow> lab_op \<Rightarrow> exn + LabDB" where
  "apply_lab_op env db op = (case lab_op_result env db op of Inl _ \<Rightarrow> Inr db | Inr db' \<Rightarrow> Inr db')"

text \<open>Revisions of a lab and commands of a run, in the order of the tables.\<close>

definition revisions_of :: "LabDB \<Rightarrow> uuid \<Rightarrow> int list" where
  "revisions_of db l = map (snd \<circ> fst) (filter (\<lambda>(k, _). fst k = l) (lab_revisions db))"

definition commands_of :: "LabDB \<Rightarrow> uuid \<Rightarrow> (uuid \<times> lab_command_row) list" where
  "commands_of db rid = map (\<lambda>(k, c). (snd k, c)) (filter (\<lambda>(k, _). fst k = rid) (lab_commands db))"

definition lab_history_ok :: "LabDB \<Rightarrow> uuid \<Rightarrow> bool" where
  "lab_history_ok db l \<longleftrightarrow> revisions_of db l = (case map_of (lab_definitions db) l of
     None \<Rightarrow> [] | Some row \<Rightarrow> [1..ld_current_revision row]) \<and>
     (\<forall>row. map_of (lab_definitions db) l = Some row \<longrightarrow> 1 \<le> ld_current_revision row)"

definition command_log_ok :: "LabDB \<Rightarrow> uuid \<Rightarrow> bool" where
  "command_log_ok db rid \<longleftrightarrow>
     (let n = (case map_of (lab_runs db) rid of None \<Rightarrow> 0 | Some row \<Rightarrow> rr_accepted_sequence row)
      in map (cw_accepted_sequence \<circ> snd) (commands_of db rid) = [1..<Suc n] \<and>
         map (cw_control_revision \<circ> snd) (commands_of db rid) = [1..<Suc n] \<and>
         distinct (map fst (commands_of db rid)) \<and>
         (\<forall>row. map_of (lab_runs db) rid = Some row \<longrightarrow> rr_control_revision row = n))"

definition lab_db_inv :: "LabDB \<Rightarrow> bool" where
  "lab_db_inv db \<longleftrightarrow> (\<forall>l. lab_history_ok db l) \<and> (\<forall>rid. command_log_ok db rid)"

lemma lab_db_inv_frame:
  assumes "lab_db_inv db" "lab_definitions db' = lab_definitions db" "lab_revisions db' = lab_revisions db"
    "lab_commands db' = lab_commands db"
    and "\<And>rid. map_option (\<lambda>r. (rr_accepted_sequence r, rr_control_revision r)) (map_of (lab_runs db') rid) =
      map_option (\<lambda>r. (rr_accepted_sequence r, rr_control_revision r)) (map_of (lab_runs db) rid)"
  shows "lab_db_inv db'"
proof -
  have "command_log_ok db' rid" for rid
  proof -
    have log: "command_log_ok db rid" using assms(1) by (simp add: lab_db_inv_def)
    show ?thesis
    proof (cases "map_of (lab_runs db) rid")
      case None
      with assms(5) [of rid] have "map_of (lab_runs db') rid = None" by (cases "map_of (lab_runs db') rid") auto
      with log None assms(4) show ?thesis by (simp add: command_log_ok_def commands_of_def)
    next
      case (Some row)
      with assms(5) [of rid] obtain row' where "map_of (lab_runs db') rid = Some row'"
        "rr_accepted_sequence row' = rr_accepted_sequence row" "rr_control_revision row' = rr_control_revision row"
        by (cases "map_of (lab_runs db') rid") auto
      with log Some assms(4) show ?thesis by (simp add: command_log_ok_def commands_of_def)
    qed
  qed
  then show ?thesis
    using assms(1-3) by (simp add: lab_db_inv_def lab_history_ok_def revisions_of_def)
qed

lemma save_lab_result:
  assumes "save_lab env now d r db = Inr (d', db')"
  shows "\<exists>new_rev defs. d' = d\<lparr>revision := new_rev\<rparr> \<and> map_of (lab_revisions db) (lab_id d, new_rev) = None \<and>
    db' = db\<lparr>lab_definitions := defs, lab_revisions := lab_revisions db @
      [((lab_id d, new_rev), (d\<lparr>revision := new_rev\<rparr>, lv_definition_digest env d))]\<rparr> \<and>
    (case map_of (lab_definitions db) (lab_id d) of None \<Rightarrow> new_rev = 1
       | Some row \<Rightarrow> new_rev = ld_current_revision row + 1 \<and> ld_current_revision row = r) \<and>
    (\<forall>l. map_option ld_current_revision (map_of defs l) =
      (if l = lab_id d then Some new_rev else map_option ld_current_revision (map_of (lab_definitions db) l)))"
proof (cases "map_of (lab_definitions db) (lab_id d)")
  case None
  let ?defs = "lab_definitions db @ [(lab_id d, \<lparr>ld_name = lab_name d, ld_current_revision = 1, ld_created_at = now\<rparr>)]"
  from None assms have "r \<in> {0, 1}" "map_of (lab_revisions db) (lab_id d, 1) = None" "d' = d\<lparr>revision := 1\<rparr>"
    "db' = db\<lparr>lab_definitions := ?defs, lab_revisions := lab_revisions db @
      [((lab_id d, 1), (d\<lparr>revision := 1\<rparr>, lv_definition_digest env d))]\<rparr>"
    by (auto simp: save_lab_def insert_revision_def Let_def bind_err_eq_Inr simp del: not_None_eq split: if_splits)
  with None show ?thesis by (intro exI [of _ 1] exI [of _ ?defs]) (simp add: map_of_append_new)
next
  case (Some row)
  let ?n = "ld_current_revision row + 1"
  let ?defs = "update_row (lab_id d) (\<lambda>r. r\<lparr>ld_current_revision := ?n, ld_name := lab_name d\<rparr>) (lab_definitions db)"
  from Some assms have "ld_current_revision row = r" "map_of (lab_revisions db) (lab_id d, ?n) = None" "d' = d\<lparr>revision := ?n\<rparr>"
    "db' = db\<lparr>lab_definitions := ?defs, lab_revisions := lab_revisions db @
      [((lab_id d, ?n), (d\<lparr>revision := ?n\<rparr>, lv_definition_digest env d))]\<rparr>"
    by (auto simp: save_lab_def insert_revision_def Let_def bind_err_eq_Inr simp del: not_None_eq split: if_splits)
  with Some show ?thesis by (intro exI [of _ ?n] exI [of _ ?defs]) (simp add: map_of_update_row)
qed

lemma save_lab_inv:
  assumes "lab_db_inv db" "save_lab env now d r db = Inr (d', db')"
  shows "lab_db_inv db'"
proof -
  let ?l = "lab_id d"
  from save_lab_result [OF assms(2)] obtain new_rev defs where
    db': "db' = db\<lparr>lab_definitions := defs, lab_revisions := lab_revisions db @
      [((?l, new_rev), (d\<lparr>revision := new_rev\<rparr>, lv_definition_digest env d))]\<rparr>"
    and new: "(case map_of (lab_definitions db) ?l of None \<Rightarrow> new_rev = 1
       | Some row \<Rightarrow> new_rev = ld_current_revision row + 1 \<and> ld_current_revision row = r)"
    and defs: "\<And>l. map_option ld_current_revision (map_of defs l) =
      (if l = ?l then Some new_rev else map_option ld_current_revision (map_of (lab_definitions db) l))"
    by blast
  have hist: "lab_history_ok db' l" for l
  proof -
    have ok: "lab_history_ok db l" using assms(1) by (simp add: lab_db_inv_def)
    have revs: "revisions_of db' l = revisions_of db l @ (if l = ?l then [new_rev] else [])"
      by (simp add: db' revisions_of_def)
    show ?thesis
    proof (cases "l = ?l")
      case True
      then obtain row where "map_of defs l = Some row" "ld_current_revision row = new_rev" using defs [of l] by auto
      moreover have "revisions_of db l = [1..new_rev - 1]" "1 \<le> new_rev"
        using ok new True by (auto simp: lab_history_ok_def split: option.splits)
      moreover have "[1..new_rev] = [1..new_rev - 1] @ [new_rev]" using calculation(4) by (simp add: upto_rec2)
      ultimately show ?thesis using revs True by (simp add: lab_history_ok_def db')
    next
      case False
      then have same: "map_option ld_current_revision (map_of defs l) = map_option ld_current_revision (map_of (lab_definitions db) l)"
        using defs [of l] by simp
      show ?thesis
        using ok revs False same
        by (cases "map_of defs l"; cases "map_of (lab_definitions db) l") (simp_all add: lab_history_ok_def db')
    qed
  qed
  have "lab_runs db' = lab_runs db" "lab_commands db' = lab_commands db" using db' by simp_all
  then have "command_log_ok db' rid" for rid
    using assms(1) by (simp add: lab_db_inv_def command_log_ok_def commands_of_def)
  with hist show ?thesis by (simp add: lab_db_inv_def)
qed

lemma start_run_result:
  assumes "start_run env spec rid db = Inr (run, db')"
  shows "\<exists>d d0 dig. map_of (lab_revisions db) (rs_lab_id spec, rs_lab_revision spec) = Some (d0, dig) \<and>
    validate_definition d0 = Inr d \<and> run = new_run env spec rid d \<and> map_of (lab_runs db) rid = None \<and>
    db' = db\<lparr>lab_runs := lab_runs db @ [(rid, run_row_of run)]\<rparr> \<and>
    (\<exists>r. validate_lab (lv_definition_digest env) d = Inr r \<and> run_eligible r)"
proof -
  from assms obtain d where d: "get_lab (rs_lab_id spec) (Some (rs_lab_revision spec)) db = Inr (Some d)"
    by (auto simp: start_run_def bind_err_eq_Inr split: option.splits)
  then obtain d0 dig where "map_of (lab_revisions db) (rs_lab_id spec, rs_lab_revision spec) = Some (d0, dig)" "validate_definition d0 = Inr d"
    by (auto simp: get_lab_def Let_def bind_err_eq_Inr split: option.splits)
  moreover from assms d obtain r where r: "validate_lab (lv_definition_digest env) d = Inr r" "run_eligible r"
    by (auto simp: start_run_def bind_err_eq_Inr split: if_splits)
  moreover from assms d r have "map_of (lab_runs db) rid = None" "run = new_run env spec rid d"
    "db' = db\<lparr>lab_runs := lab_runs db @ [(rid, run_row_of run)]\<rparr>"
    by (auto simp: start_run_def Let_def simp del: not_None_eq split: if_splits)
  ultimately show ?thesis by blast
qed

lemma start_run_inv:
  assumes "lab_db_inv db" "start_run env spec rid db = Inr (run, db')"
  shows "lab_db_inv db'"
proof -
  from start_run_result [OF assms(2)] obtain d where new: "map_of (lab_runs db) rid = None"
    and db': "db' = db\<lparr>lab_runs := lab_runs db @ [(rid, run_row_of (new_run env spec rid d))]\<rparr>" by blast
  have "command_log_ok db' r" for r
  proof -
    have "command_log_ok db r" using assms(1) by (simp add: lab_db_inv_def)
    then show ?thesis
      using new by (cases "r = rid") (simp_all add: db' command_log_ok_def commands_of_def map_of_append_new run_row_of_def)
  qed
  with assms(1) show ?thesis by (simp add: lab_db_inv_def lab_history_ok_def revisions_of_def db')
qed

lemma commands_of_fresh:
  assumes "command_log_ok db rid" "map_of (lab_commands db) (rid, c) = None"
  shows "c \<notin> set (map fst (commands_of db rid))"
proof
  assume "c \<in> set (map fst (commands_of db rid))"
  then obtain w where "((rid, c), w) \<in> set (lab_commands db)" by (auto simp: commands_of_def)
  with assms(2) show False by (metis option.discI weak_map_of_SomeI)
qed

lemma submit_command_new:
  assumes "submit_command env rid req db = Inr (rc, db')" "map_of (lab_commands db) (rid, cr_command_id req) = None"
  shows "\<exists>row. map_of (lab_runs db) rid = Some row \<and> \<not> terminal_status (rr_status row) \<and>
    cr_expected_control_revision req = rr_control_revision row \<and>
    rc = receipt_of (cr_command_id req) (command_row env req row) \<and>
    db' = db\<lparr>lab_commands := lab_commands db @ [((rid, cr_command_id req), command_row env req row)],
      lab_runs := update_row rid (\<lambda>r. r\<lparr>rr_control_revision := rr_control_revision row + 1,
        rr_accepted_sequence := rr_accepted_sequence row + 1\<rparr>) (lab_runs db)\<rparr>"
  using assms by (auto simp: submit_command_def Let_def command_row_def split: option.splits if_splits)

lemma submit_command_inv:
  assumes "lab_db_inv db" "submit_command env rid req db = Inr (rc, db')"
  shows "lab_db_inv db'"
proof (cases "map_of (lab_commands db) (rid, cr_command_id req)")
  case None
  from submit_command_new [OF assms(2) None] obtain row where row: "map_of (lab_runs db) rid = Some row"
    and db': "db' = db\<lparr>lab_commands := lab_commands db @ [((rid, cr_command_id req), command_row env req row)],
      lab_runs := update_row rid (\<lambda>r. r\<lparr>rr_control_revision := rr_control_revision row + 1,
        rr_accepted_sequence := rr_accepted_sequence row + 1\<rparr>) (lab_runs db)\<rparr>" by blast
  have cmds: "commands_of db' r = commands_of db r @ (if r = rid then [(cr_command_id req, command_row env req row)] else [])" for r
    by (simp add: db' commands_of_def)
  have "command_log_ok db' r" for r
  proof (cases "r = rid")
    case True
    have log: "command_log_ok db rid" using assms(1) by (simp add: lab_db_inv_def)
    have run: "map_of (lab_runs db') rid = Some (row\<lparr>rr_control_revision := rr_control_revision row + 1,
        rr_accepted_sequence := rr_accepted_sequence row + 1\<rparr>)"
      by (simp add: db' map_of_update_row row)
    have upt: "[Suc 0..<Suc (Suc n)] = [Suc 0..<Suc n] @ [Suc n]" for n by simp
    have new: "cw_accepted_sequence (command_row env req row) = Suc (rr_accepted_sequence row)"
      "cw_control_revision (command_row env req row) = Suc (rr_control_revision row)" by (simp_all add: command_row_def)
    from log commands_of_fresh [OF log None] row True show ?thesis
      by (simp add: command_log_ok_def cmds run new upt Let_def del: upt_Suc)
  next
    case False
    then have "commands_of db' r = commands_of db r" "map_of (lab_runs db') r = map_of (lab_runs db) r"
      by (simp add: cmds, simp add: db' map_of_update_row)
    moreover have "command_log_ok db r" using assms(1) by (simp add: lab_db_inv_def)
    ultimately show ?thesis by (simp only: command_log_ok_def)
  qed
  with assms(1) show ?thesis by (simp add: lab_db_inv_def lab_history_ok_def revisions_of_def db')
next
  case (Some old)
  with assms show ?thesis by (auto simp: submit_command_def split: if_splits)
qed

lemma insert_event_frame:
  "fold_err (insert_event rid) db evs = Inr db' \<Longrightarrow> \<exists>es. db' = db\<lparr>lab_events := es\<rparr>"
proof (induction evs arbitrary: db)
  case Nil
  then show ?case by (intro exI [of _ "lab_events db"]) simp
next
  case (Cons e evs)
  then obtain db1 where "insert_event rid db e = Inr db1" "fold_err (insert_event rid) db1 evs = Inr db'"
    by (auto simp: bind_err_eq_Inr)
  moreover from this(1) obtain es where "db1 = db\<lparr>lab_events := es\<rparr>"
    by (auto simp: insert_event_def split: if_splits)
  ultimately show ?case using Cons.IH [of db1] by auto
qed

lemma insert_message_frame:
  "fold_err insert_message db msgs = Inr db' \<Longrightarrow>
     db' = db\<lparr>lab_outbox := lab_outbox db @ map (\<lambda>(mid, row). (mid, (row, None))) msgs\<rparr>"
proof (induction msgs arbitrary: db)
  case (Cons m msgs)
  then obtain db1 where "insert_message db m = Inr db1" "fold_err insert_message db1 msgs = Inr db'"
    by (auto simp: bind_err_eq_Inr)
  moreover from this(1) have "db1 = db\<lparr>lab_outbox := lab_outbox db @ [(fst m, (snd m, None))]\<rparr>"
    by (cases m) (simp add: insert_message_def split: if_splits)
  ultimately show ?case using Cons.IH [of db1] by (cases m) simp
qed simp

lemma checkpoint_inv:
  assumes "lab_db_inv db" "checkpoint rid fence t chk evs msgs db = Inr (ok, db')"
  shows "lab_db_inv db'"
proof (cases "db' = db")
  case False
  with assms(2) obtain row db1 db2 where row: "map_of (lab_runs db) rid = Some row"
    and db1: "fold_err (insert_event rid) (db\<lparr>lab_runs := update_row rid (\<lambda>r. r\<lparr>rr_tick := ec_tick chk, rr_checkpoint := chk,
        rr_event_sequence := rr_event_sequence r + length evs\<rparr>) (lab_runs db)\<rparr>) evs = Inr db1"
    and db2: "fold_err insert_message db1 msgs = Inr db'"
    by (auto simp: checkpoint_def Let_def bind_err_eq_Inr split: option.splits if_splits)
  obtain es where "db1 = db\<lparr>lab_runs := update_row rid (\<lambda>r. r\<lparr>rr_tick := ec_tick chk, rr_checkpoint := chk,
        rr_event_sequence := rr_event_sequence r + length evs\<rparr>) (lab_runs db), lab_events := es\<rparr>"
    using insert_event_frame [OF db1] by auto
  with insert_message_frame [OF db2] row show ?thesis
    by (intro lab_db_inv_frame [OF assms(1)]) (auto simp: map_of_update_row option.map_comp comp_def)
qed (use assms in simp)

lemma apply_lab_op_inv:
  assumes "lab_db_inv db" "apply_lab_op env db op = Inr db'"
  shows "lab_db_inv db'"
proof (cases "lab_op_result env db op")
  case (Inr d)
  with assms(2) have "d = db'" by (simp add: apply_lab_op_def)
  show ?thesis
  proof (cases op)
    case (SaveLab now def r)
    with Inr \<open>d = db'\<close> save_lab_inv [OF assms(1)] show ?thesis by (auto simp: lab_op_result_def map_sum_def split: sum.splits)
  next
    case (StartRun spec rid)
    with Inr \<open>d = db'\<close> start_run_inv [OF assms(1)] show ?thesis by (auto simp: lab_op_result_def map_sum_def split: sum.splits)
  next
    case (SubmitCommand rid req)
    with Inr \<open>d = db'\<close> submit_command_inv [OF assms(1)] show ?thesis by (auto simp: lab_op_result_def map_sum_def split: sum.splits)
  next
    case (AppendHistory rid t frame)
    with Inr \<open>d = db'\<close> show ?thesis
      by (intro lab_db_inv_frame [OF assms(1)]) (auto simp: lab_op_result_def append_history_def split: if_splits)
  next
    case (Checkpoint rid fence t chk evs msgs)
    with Inr \<open>d = db'\<close> checkpoint_inv [OF assms(1)] show ?thesis by (auto simp: lab_op_result_def map_sum_def split: sum.splits)
  qed
qed (use assms in \<open>simp add: apply_lab_op_def\<close>)

interpretation lab_store: inv_machine "apply_lab_op env" lab_db_inv for env
  by unfold_locales (rule apply_lab_op_inv)

lemma empty_lab_db_inv: "lab_db_inv empty_lab_db"
  by (simp add: lab_db_inv_def lab_history_ok_def command_log_ok_def revisions_of_def commands_of_def empty_lab_db_def)

lemma submit_command_found:
  assumes "submit_command env rid req db = Inr (rc, db')"
  shows "\<exists>w. map_of (lab_commands db') (rid, cr_command_id req) = Some w \<and> cw_payload_hash w = lv_payload_hash env req \<and>
    rc = receipt_of (cr_command_id req) w"
proof (cases "map_of (lab_commands db) (rid, cr_command_id req)")
  case None
  from submit_command_new [OF assms None] None show ?thesis
    by (auto simp: map_of_append_new command_row_def)
next
  case (Some w)
  with assms show ?thesis by (auto simp: submit_command_def split: if_splits)
qed

text \<open>Commands stay in the table, whatever happens later.\<close>

lemma apply_lab_op_keeps_commands:
  assumes "apply_lab_op env db op = Inr db'" "map_of (lab_commands db) k = Some w"
  shows "map_of (lab_commands db') k = Some w"
proof (cases "lab_op_result env db op")
  case (Inr d)
  with assms(1) have d: "d = db'" by (simp add: apply_lab_op_def)
  show ?thesis
  proof (cases op)
    case (SaveLab now def r)
    with Inr d assms(2) show ?thesis
      by (auto simp: lab_op_result_def map_sum_def split: sum.splits dest!: save_lab_result)
  next
    case (SubmitCommand rid req)
    with Inr d obtain rc where sub: "submit_command env rid req db = Inr (rc, db')"
      by (auto simp: lab_op_result_def map_sum_def split: sum.splits)
    show ?thesis
    proof (cases "map_of (lab_commands db) (rid, cr_command_id req)")
      case None
      with submit_command_new [OF sub None] assms(2) show ?thesis by (auto simp: map_of_append_new)
    qed (use sub assms(2) in \<open>auto simp: submit_command_def split: if_splits\<close>)
  next
    case (Checkpoint rid fence t chk evs msgs)
    with Inr d assms(2) show ?thesis
      by (auto simp: lab_op_result_def map_sum_def checkpoint_def Let_def bind_err_eq_Inr
          split: sum.splits option.splits if_splits dest!: insert_event_frame insert_message_frame)
  qed (use Inr d assms(2) in \<open>auto simp: lab_op_result_def map_sum_def start_run_def append_history_def Let_def
      bind_err_eq_Inr split: sum.splits option.splits if_splits\<close>)
qed (use assms in \<open>simp add: apply_lab_op_def\<close>)

lemma run_keeps_commands:
  "fold_err (apply_lab_op env) db ops = Inr db' \<Longrightarrow> map_of (lab_commands db) k = Some w \<Longrightarrow>
     map_of (lab_commands db') k = Some w"
  by (induction ops arbitrary: db) (auto simp: bind_err_eq_Inr dest: apply_lab_op_keeps_commands)

text \<open>
  C11 (invariant): revisions and commands form a linear history.  After any sequence of operations on an
  empty database, failed ones included, the revisions of a lab are numbered from one to its current
  revision without gaps, and the accepted commands of a run are numbered from one, each having raised
  the control revision by one.  A command that is submitted was accepted at the revision it
  expected, and submitting it again at any later time returns the receipt of the first submission and
  changes nothing.
\<close>

theorem lab_history_linear:
  assumes "fold_err (apply_lab_op env) empty_lab_db ops = Inr db"
    and "submit_command env rid req db = Inr (rc, db')" "fold_err (apply_lab_op env) db' ops' = Inr db''"
  shows "(\<forall>l row. map_of (lab_definitions db) l = Some row \<longrightarrow> revisions_of db l = [1..ld_current_revision row]) \<and>
    (\<forall>r row. map_of (lab_runs db) r = Some row \<longrightarrow>
       map (cw_control_revision \<circ> snd) (commands_of db r) = [1..<Suc (rr_control_revision row)]) \<and>
    (map_of (lab_commands db) (rid, cr_command_id req) = None \<longrightarrow>
       rc_control_revision rc = cr_expected_control_revision req + 1) \<and>
    submit_command env rid req db'' = Inr (rc, db'')"
proof -
  have inv: "lab_db_inv db" by (rule lab_store.run_inv [OF empty_lab_db_inv assms(1)])
  from submit_command_found [OF assms(2)] obtain w where "map_of (lab_commands db') (rid, cr_command_id req) = Some w"
    "cw_payload_hash w = lv_payload_hash env req" "rc = receipt_of (cr_command_id req) w" by blast
  with run_keeps_commands [OF assms(3)] have again: "submit_command env rid req db'' = Inr (rc, db'')"
    by (simp add: submit_command_def)
  have log: "command_log_ok db r" "lab_history_ok db l" for r l using inv by (simp_all add: lab_db_inv_def)
  have "rc_control_revision rc = cr_expected_control_revision req + 1" if "map_of (lab_commands db) (rid, cr_command_id req) = None"
    using submit_command_new [OF assms(2) that] by (auto simp: receipt_of_def command_row_def)
  moreover have "map (cw_control_revision \<circ> snd) (commands_of db r) = [1..<Suc (rr_control_revision row)]"
    if "map_of (lab_runs db) r = Some row" for r row
    using log(1) [of r] that by (simp add: command_log_ok_def Let_def)
  moreover have "revisions_of db l = [1..ld_current_revision row]" if "map_of (lab_definitions db) l = Some row" for l row
    using log(2) [of l] that by (simp add: lab_history_ok_def)
  ultimately show ?thesis using again by blast
qed

text \<open>A database with one saved lab and one run of it.\<close>

definition plain_env :: lab_env where
  "plain_env = \<lparr>lv_definition_digest = (\<lambda>_. zero_sha), lv_sha256 = (\<lambda>_. zero_sha), lv_payload_hash = (\<lambda>_. zero_sha)\<rparr>"

definition closed_spec :: RunSpec where
  "closed_spec = \<lparr>rs_lab_id = 2, rs_lab_revision = 1, rs_seed = 42, rs_speed = 1, rs_max_ticks = Some 40, rs_baseline_id = None\<rparr>"

definition saved_db :: LabDB where
  "saved_db = empty_lab_db\<lparr>lab_definitions := [(2, \<lparr>ld_name = ''closed'', ld_current_revision = 1, ld_created_at = 0\<rparr>)],
     lab_revisions := [((2, 1), (closed_lab, zero_sha))]\<rparr>"

definition started_db :: LabDB where
  "started_db = saved_db\<lparr>lab_runs := [(40, run_row_of (new_run plain_env closed_spec 40 closed_lab))]\<rparr>"

lemma closed_lab_fields: "lab_id closed_lab = 2" "lab_name closed_lab = ''closed''" "closed_lab\<lparr>revision := 1\<rparr> = closed_lab" "revision closed_lab = 1"
  by (simp_all add: closed_lab_def)

lemma save_closed_lab: "save_lab plain_env 0 closed_lab 0 empty_lab_db = Inr (closed_lab, saved_db)"
  by (simp add: save_lab_def insert_revision_def closed_lab_fields plain_env_def saved_db_def empty_lab_db_def)

lemma start_closed_run: "start_run plain_env closed_spec 40 saved_db = Inr (new_run plain_env closed_spec 40 closed_lab, started_db)"
proof -
  obtain r where "validate_lab (lv_definition_digest plain_env) closed_lab = Inr r" "run_eligible r"
    using closed_lab_valid(2) by (auto simp: plain_env_def)
  moreover have "get_lab 2 (Some 1) saved_db = Inr (Some closed_lab)"
    by (simp add: get_lab_def saved_db_def closed_lab_valid(1))
  ultimately show ?thesis
    by (simp add: start_run_def closed_spec_def started_db_def saved_db_def empty_lab_db_def Let_def)
qed

definition open_valve :: CommandRequest where
  "open_valve = \<lparr>cr_command_id = 50, cr_expected_control_revision = 0, cr_action = ''SET_VALVE_OPENING'',
     cr_target_id = Some 11, cr_parameters = [(''opening'', VNum (Fin 1))]\<rparr>"

theorem lab_history_linear_witness:
  "\<exists>rc db'. submit_command plain_env 40 open_valve started_db = Inr (rc, db') \<and> rc_control_revision rc = 1 \<and>
     submit_command plain_env 40 open_valve db' = Inr (rc, db')"
proof -
  have ops: "fold_err (apply_lab_op plain_env) empty_lab_db [SaveLab 0 closed_lab 0, StartRun closed_spec 40] = Inr started_db"
    by (simp add: apply_lab_op_def lab_op_result_def save_closed_lab start_closed_run)
  obtain rc db' where sub: "submit_command plain_env 40 open_valve started_db = Inr (rc, db')"
    by (simp add: submit_command_def started_db_def saved_db_def empty_lab_db_def open_valve_def run_row_of_def new_run_def
        terminal_status_def Let_def)
  have "map_of (lab_commands started_db) (40, cr_command_id open_valve) = None"
    by (simp add: started_db_def saved_db_def empty_lab_db_def)
  with lab_history_linear [OF ops sub, of "[]" db'] sub show ?thesis by (simp add: open_valve_def)
qed

section \<open>What is saved can be loaded\<close>

lemma validate_asset_again: "validate_asset a0 = Inr a \<Longrightarrow> validate_asset a = Inr a"
  by (cases a0; cases "position_m a0")
     (auto simp: validate_asset_def validate_position_def bind_err_eq_Inr run_checks_Inr validate_parameters_def split: if_splits)

lemma run_checks_again: "run_checks cs x = Inr y \<Longrightarrow> y = x"
  by (simp add: run_checks_Inr)

lemma validate_pipe_again: "validate_pipe p0 = Inr p \<Longrightarrow> validate_pipe p = Inr p"
  using run_checks_again unfolding validate_pipe_def by metis

lemma validate_sensor_again: "validate_sensor s0 = Inr s \<Longrightarrow> validate_sensor s = Inr s"
  using run_checks_again unfolding validate_sensor_def by metis

lemma validate_definition_again:
  assumes "validate_definition d0 = Inr d" "1 \<le> n"
  shows "validate_definition (d\<lparr>revision := n\<rparr>) = Inr (d\<lparr>revision := n\<rparr>)"
proof -
  from assms(1) obtain as ps ss where p: "map_err validate_asset (assets d0) = Inr as" "map_err validate_pipe (pipes d0) = Inr ps"
    "map_err validate_sensor (sensors d0) = Inr ss" "d = d0\<lparr>assets := as, pipes := ps, sensors := ss\<rparr>"
    "\<not> (lab_name d0 = [] \<or> 80 < length (lab_name d0))"
    by (auto simp: validate_definition_def bind_err_eq_Inr split: if_splits)
  have "map_err validate_asset as = Inr (map id as)"
    by (rule map_err_Inr) (use map_err_elements [OF p(1)] validate_asset_again in fastforce)
  moreover have "map_err validate_pipe ps = Inr (map id ps)"
    by (rule map_err_Inr) (use map_err_elements [OF p(2)] validate_pipe_again in fastforce)
  moreover have "map_err validate_sensor ss = Inr (map id ss)"
    by (rule map_err_Inr) (use map_err_elements [OF p(3)] validate_sensor_again in fastforce)
  ultimately show ?thesis using p(4,5) assms(2) by (simp add: validate_definition_def)
qed

lemma lab_revision_positive:
  assumes "lab_db_inv db" "save_lab env now d r db = Inr (d', db')"
  shows "1 \<le> revision d'"
proof -
  have "lab_history_ok db (lab_id d)" using assms(1) by (simp add: lab_db_inv_def)
  with save_lab_result [OF assms(2)] show ?thesis by (auto simp: lab_history_ok_def split: option.splits)
qed

lemma started_run_loads:
  assumes "start_run env spec rid db = Inr (run, db')"
  shows "get_run rid db' = Inr (Some run)"
proof -
  from start_run_result [OF assms] obtain d d0 dig where
    d: "map_of (lab_revisions db) (rs_lab_id spec, rs_lab_revision spec) = Some (d0, dig)" "validate_definition d0 = Inr d"
    and run: "run = new_run env spec rid d" and new: "map_of (lab_runs db) rid = None"
    and db': "db' = db\<lparr>lab_runs := lab_runs db @ [(rid, run_row_of run)]\<rparr>" by blast
  have "map_of (lab_runs db') rid = Some (run_row_of run)" "lab_revisions db' = lab_revisions db"
    using new by (simp_all add: db' map_of_append_new)
  moreover have "rr_lab_id (run_row_of run) = rs_lab_id spec" "rr_lab_revision (run_row_of run) = rs_lab_revision spec"
    by (simp_all add: run run_row_of_def new_run_def)
  ultimately show ?thesis
    by (simp add: get_run_def d) (cases spec, simp add: run run_row_of_def new_run_def)
qed

text \<open>
  C37 (roundtrip): what the store returned is what it loads.  A definition that was saved is returned by a
  lookup of the lab and of its new revision, and no other revision changes; a run that was started is
  returned by a lookup of its id, field for field.
\<close>

theorem lab_store_roundtrip:
  assumes "fold_err (apply_lab_op env) empty_lab_db ops = Inr db" "validate_definition d0 = Inr d"
    and "save_lab env now d r db = Inr (d1, db1)" "start_run env spec rid db1 = Inr (run, db2)"
  shows "get_lab (lab_id d) None db1 = Inr (Some d1) \<and> get_lab (lab_id d) (Some (revision d1)) db1 = Inr (Some d1) \<and>
    (\<forall>l k. (l, k) \<noteq> (lab_id d, revision d1) \<longrightarrow> get_lab l (Some k) db1 = get_lab l (Some k) db) \<and>
    get_run rid db2 = Inr (Some run)"
proof -
  have inv: "lab_db_inv db" by (rule lab_store.run_inv [OF empty_lab_db_inv assms(1)])
  from save_lab_result [OF assms(3)] obtain n defs where d1: "d1 = d\<lparr>revision := n\<rparr>"
    and fresh: "map_of (lab_revisions db) (lab_id d, n) = None"
    and db1: "db1 = db\<lparr>lab_definitions := defs, lab_revisions := lab_revisions db @
      [((lab_id d, n), (d\<lparr>revision := n\<rparr>, lv_definition_digest env d))]\<rparr>"
    and defs: "\<forall>l. map_option ld_current_revision (map_of defs l) =
      (if l = lab_id d then Some n else map_option ld_current_revision (map_of (lab_definitions db) l))" by blast
  have revs: "map_of (lab_revisions db1) k = (if k = (lab_id d, n) then Some (d1, lv_definition_digest env d) else map_of (lab_revisions db) k)" for k
    using fresh by (simp add: db1 d1 map_of_append_new)
  have valid: "validate_definition d1 = Inr d1"
    using validate_definition_again [OF assms(2)] lab_revision_positive [OF inv assms(3)] d1 by simp
  obtain row where row: "map_of defs (lab_id d) = Some row" "ld_current_revision row = n" using spec [OF defs, of "lab_id d"] by auto
  have "lab_definitions db1 = defs" by (simp add: db1)
  with row have "get_lab (lab_id d) None db1 = Inr (Some d1)" "get_lab (lab_id d) (Some (revision d1)) db1 = Inr (Some d1)"
    using valid d1 by (simp_all add: get_lab_def revs Let_def)
  moreover have "get_lab l (Some k) db1 = get_lab l (Some k) db" if "(l, k) \<noteq> (lab_id d, revision d1)" for l k
    using that d1 by (auto simp: get_lab_def revs Let_def)
  moreover have "get_run rid db2 = Inr (Some run)" by (rule started_run_loads [OF assms(4)])
  ultimately show ?thesis by blast
qed

theorem lab_store_roundtrip_witness:
  "get_lab 2 None saved_db = Inr (Some closed_lab) \<and>
   get_run 40 started_db = Inr (Some (new_run plain_env closed_spec 40 closed_lab))"
proof -
  have "fold_err (apply_lab_op plain_env) empty_lab_db [] = Inr empty_lab_db" by simp
  from lab_store_roundtrip [OF this closed_lab_valid(1) save_closed_lab start_closed_run] closed_lab_fields(1)
  show ?thesis by simp
qed

end
