(* ===== verification/Lab_Engine.thy ===== *)
theory Lab_Engine
  imports Lab_Store
begin

text \<open>
  \<open>lab/engine.py\<close>: the simulation engine, which advances a run in batches of two ticks, samples the
  sensors every twenty ticks and checkpoints every batch together with its outbox messages, and the
  translation of operator commands into controls.  An exception leaves the database of the last
  checkpoint, so the loop returns the database with its result.  The linear solver, the digests of the noise and the
  identifiers drawn by \<open>uuid4\<close> are arguments.  Python's \<open>float\<close> on text is the argument \<open>parse_float\<close>.
\<close>

definition TOPIC_LAB_OBSERVATIONS :: string where
  "TOPIC_LAB_OBSERVATIONS = ''irp.lab.observations.v1''"

record engine_env =
  en_solve :: linear_solver
  en_noise :: noise_digest
  en_uuid :: "nat \<Rightarrow> uuid"

section \<open>Commands\<close>

definition float_of :: "(string \<Rightarrow> pyfloat option) \<Rightarrow> cmd_value \<Rightarrow> exn + pyfloat" where
  "float_of parse_float v = (case v of
       VNum x \<Rightarrow> Inr x
     | VBool b \<Rightarrow> Inr (Fin (if b then 1 else 0))
     | VStr s \<Rightarrow> (case parse_float s of Some x \<Rightarrow> Inr x | None \<Rightarrow> Inl (ValueError ''could not convert string to float''))
     | _ \<Rightarrow> Inl (RuntimeError ''TypeError''))"

definition truthy :: "cmd_value \<Rightarrow> bool" where
  "truthy v = (case v of VNum x \<Rightarrow> x \<noteq> Fin 0 | VBool b \<Rightarrow> b | VStr s \<Rightarrow> s \<noteq> [] | VDict d \<Rightarrow> d \<noteq> [] | VNull \<Rightarrow> False)"

definition get_param :: "(string, cmd_value) table \<Rightarrow> string \<Rightarrow> cmd_value \<Rightarrow> cmd_value" where
  "get_param params k dflt = (case map_of params k of Some v \<Rightarrow> v | None \<Rightarrow> dflt)"

definition set_setpoint :: "uuid \<Rightarrow> string \<Rightarrow> param \<Rightarrow> ControlState \<Rightarrow> ControlState" where
  "set_setpoint target k v controls =
     controls\<lparr>setpoints := (setpoints controls)(target \<mapsto>
       (case setpoints controls target of Some sp \<Rightarrow> sp | None \<Rightarrow> \<lambda>_. None)(k \<mapsto> v))\<rparr>"

definition fault_kind_text :: "FaultKind \<Rightarrow> string" where
  "fault_kind_text k = (case k of LEAK \<Rightarrow> ''LEAK'' | VALVE_STUCK \<Rightarrow> ''VALVE_STUCK'' | SENSOR_BIAS \<Rightarrow> ''SENSOR_BIAS''
     | SENSOR_DROPOUT \<Rightarrow> ''SENSOR_DROPOUT'' | COMPRESSOR_UNAVAILABLE \<Rightarrow> ''COMPRESSOR_UNAVAILABLE'')"

definition without_fault :: "uuid \<Rightarrow> cmd_value \<Rightarrow> ActiveFault list \<Rightarrow> ActiveFault list" where
  "without_fault target kind fs = filter (\<lambda>f. \<not> (target_id f = target \<and> VStr (fault_kind_text (fault_kind f)) = kind)) fs"

text \<open>\<open>ActiveFault(...)\<close> with the validation of its fields.\<close>

definition new_fault :: "uuid \<Rightarrow> cmd_value \<Rightarrow> cmd_value \<Rightarrow> cmd_value \<Rightarrow> exn + ActiveFault" where
  "new_fault target kind port vals =
     (case (List.find (\<lambda>k. VStr (fault_kind_text k) = kind) [LEAK, VALVE_STUCK, SENSOR_BIAS, SENSOR_DROPOUT, COMPRESSOR_UNAVAILABLE],
            port, vals) of
        (Some k, VNull, VDict d) \<Rightarrow> Inr \<lparr>target_id = target, fault_kind = k, fault_port = None, fault_values = map_of d\<rparr>
      | (Some k, VStr p, VDict d) \<Rightarrow> Inr \<lparr>target_id = target, fault_kind = k, fault_port = Some p, fault_values = map_of d\<rparr>
      | _ \<Rightarrow> Inl (ValueError ''ActiveFault''))"

definition required :: "uuid option \<Rightarrow> (uuid \<Rightarrow> exn + 'a) \<Rightarrow> exn + 'a" where
  "required target f = (case target of None \<Rightarrow> Inl AssertionError | Some t \<Rightarrow> f t)"

definition float_setpoint ::
  "(string \<Rightarrow> pyfloat option) \<Rightarrow> ControlState \<Rightarrow> uuid option \<Rightarrow> (string, cmd_value) table \<Rightarrow> string \<Rightarrow> exn + ControlState"
where
  "float_setpoint parse_float controls target params k =
     required target (\<lambda>t. bind_err (float_of parse_float (get_param params k (VNum (Fin 1)))) (\<lambda>v.
       Inr (set_setpoint t k (PFloat v) controls)))"

definition execute_command_in_controls ::
  "(string \<Rightarrow> pyfloat option) \<Rightarrow> ControlState \<Rightarrow> string \<Rightarrow> uuid option \<Rightarrow> (string, cmd_value) table \<Rightarrow> exn + ControlState"
where
  "execute_command_in_controls parse_float controls act target params =
     (if act = ''SET_COMPRESSOR_LOAD'' then float_setpoint parse_float controls target params ''load''
      else if act = ''SET_COMPRESSOR_ENABLED'' then
        required target (\<lambda>t. Inr (set_setpoint t ''enabled'' (PBool (truthy (get_param params ''enabled'' (VBool True)))) controls))
      else if act = ''SET_VALVE_OPENING'' then float_setpoint parse_float controls target params ''opening''
      else if act = ''SET_LOAD_FACTOR'' then float_setpoint parse_float controls target params ''load_factor''
      else if act = ''INJECT_FAULT'' then
        required target (\<lambda>t.
          case map_of params ''kind'' of None \<Rightarrow> Inl (KeyError ''kind'')
          | Some kind \<Rightarrow>
              bind_err (new_fault t kind (get_param params ''port'' VNull) (get_param params ''values'' (VDict []))) (\<lambda>f.
                Inr (controls\<lparr>active_faults := without_fault t kind (active_faults controls) @ [f]\<rparr>)))
      else if act = ''CLEAR_FAULT'' then
        required target (\<lambda>t.
          case map_of params ''kind'' of None \<Rightarrow> Inl (KeyError ''kind'')
          | Some kind \<Rightarrow> Inr (controls\<lparr>active_faults := without_fault t kind (active_faults controls)\<rparr>))
      else Inr controls)"

text \<open>At most one fault per target and kind is active, whatever commands are executed.\<close>

definition faults_unique :: "ControlState \<Rightarrow> bool" where
  "faults_unique controls \<longleftrightarrow> distinct (map (\<lambda>f. (target_id f, fault_kind f)) (active_faults controls))"

lemma new_fault_kind: "new_fault t kind port vals = Inr f \<Longrightarrow> target_id f = t \<and> VStr (fault_kind_text (fault_kind f)) = kind"
  by (auto simp: new_fault_def split: option.splits cmd_value.splits if_splits)

lemma float_setpoint_faults:
  "float_setpoint parse_float controls target params k = Inr c \<Longrightarrow> active_faults c = active_faults controls"
  by (auto simp: float_setpoint_def required_def set_setpoint_def bind_err_eq_Inr split: option.splits)

lemma execute_command_faults_unique:
  assumes "faults_unique controls" "execute_command_in_controls parse_float controls act target params = Inr c"
  shows "faults_unique c"
proof -
  have kept: "faults_unique (controls\<lparr>active_faults := without_fault t kind (active_faults controls)\<rparr>)" for t kind
    using assms(1) by (simp add: faults_unique_def without_fault_def distinct_map_filter)
  have added: "faults_unique (controls\<lparr>active_faults := without_fault t kind (active_faults controls) @ [f]\<rparr>)"
    if "new_fault t kind port vals = Inr f" for t kind port vals f
    using kept [of t kind] new_fault_kind [OF that] by (auto simp: faults_unique_def without_fault_def)
  consider "active_faults c = active_faults controls"
    | t kind where "c = controls\<lparr>active_faults := without_fault t kind (active_faults controls)\<rparr>"
    | t kind port vals f where "new_fault t kind port vals = Inr f"
        "c = controls\<lparr>active_faults := without_fault t kind (active_faults controls) @ [f]\<rparr>"
    using assms(2)
    by (auto simp: execute_command_in_controls_def required_def set_setpoint_def bind_err_eq_Inr
        dest: float_setpoint_faults split: if_splits option.splits)
  then show ?thesis using assms(1) kept added by cases (auto simp: faults_unique_def)
qed

interpretation lab_controls: inv_machine "\<lambda>c (act, target, params). execute_command_in_controls parse_float c act target params"
    faults_unique for parse_float
  by unfold_locales (auto intro: execute_command_faults_unique)

section \<open>The run loop\<close>

definition load_or_create_checkpoint :: "SimulationRun \<Rightarrow> LabDB \<Rightarrow> EngineCheckpoint" where
  "load_or_create_checkpoint run db =
     (case map_of (lab_runs db) (sr_run_id run) of
        Some row \<Rightarrow> rr_checkpoint row
      | None \<Rightarrow> initial_checkpoint (\<lambda>_. None) (sr_definition run) (sr_definition_digest run) (sr_profile_digest run)
          (sr_sampling_digest run))"

definition run_ticks :: "SimulationRun \<Rightarrow> nat" where
  "run_ticks run = (case rs_max_ticks (sr_spec run) of Some n \<Rightarrow> if n = 0 then 1000 else n | None \<Rightarrow> 1000)"

definition outbox_messages :: "engine_env \<Rightarrow> SimulationRun \<Rightarrow> nat \<Rightarrow> Observation list \<Rightarrow> (uuid \<times> lab_outbox_row) list" where
  "outbox_messages env run drawn obs = map (\<lambda>(i, ob). (en_uuid env i,
     \<lparr>ow_run_id = sr_run_id run, ow_sensor_id = ob_sensor_id ob, ow_tick = ob_tick ob, ow_topic = TOPIC_LAB_OBSERVATIONS,
      ow_payload = ob\<rparr>)) (enumerate drawn obs)"

definition observe_tick :: "engine_env \<Rightarrow> SimulationRun \<Rightarrow> ControlState \<Rightarrow> PhysicalState \<Rightarrow> exn + Observation list" where
  "observe_tick env run controls ph = (if ps_tick ph mod 20 = 0 then observe (en_noise env) run ph controls else Inr [])"

fun run_batch ::
  "engine_env \<Rightarrow> SimulationRun \<Rightarrow> CompiledNetwork \<Rightarrow> ControlState \<Rightarrow> nat \<Rightarrow> PhysicalState \<Rightarrow> nat
     \<Rightarrow> (uuid \<times> lab_outbox_row) list \<Rightarrow> exn + PhysicalState \<times> nat \<times> (uuid \<times> lab_outbox_row) list"
where
  "run_batch env run net controls 0 ph drawn msgs = Inr (ph, drawn, msgs)"
| "run_batch env run net controls (Suc b) ph drawn msgs =
     bind_err (step_lab (en_solve env) (sr_dt run) net ph controls) (\<lambda>ph'.
     bind_err (observe_tick env run controls ph') (\<lambda>obs.
       run_batch env run net controls b ph' (drawn + length obs) (msgs @ outbox_messages env run drawn obs)))"

definition next_checkpoint :: "SimulationRun \<Rightarrow> EngineCheckpoint \<Rightarrow> PhysicalState \<Rightarrow> EngineCheckpoint" where
  "next_checkpoint run chk ph =
     \<lparr>ec_schema_version = ''lab-checkpoint-v1'', ec_tick = ps_tick ph, ec_physical = ph, ec_controls = ec_controls chk,
      ec_accepted_scanned_sequence = ec_accepted_scanned_sequence chk, ec_pending_command_ids = [],
      ec_definition_digest = sr_definition_digest run, ec_profile_digest = sr_profile_digest run,
      ec_sampling_digest = sr_sampling_digest run\<rparr>"

lemma run_batch_tick:
  "run_batch env run net controls b ph drawn msgs = Inr (ph', drawn', msgs') \<Longrightarrow> ps_tick ph' = ps_tick ph + b"
proof (induction b arbitrary: ph drawn msgs)
  case (Suc b)
  then obtain ph1 obs where "step_lab (en_solve env) (sr_dt run) net ph controls = Inr ph1"
    "run_batch env run net controls b ph1 (drawn + length obs) (msgs @ outbox_messages env run drawn obs) = Inr (ph', drawn', msgs')"
    by (auto simp: bind_err_eq_Inr)
  with Suc.IH [of ph1] step_lab_result show ?case by fastforce
qed simp

function run_loop ::
  "engine_env \<Rightarrow> SimulationRun \<Rightarrow> CompiledNetwork \<Rightarrow> EngineCheckpoint \<Rightarrow> PhysicalState \<Rightarrow> nat \<Rightarrow> nat \<Rightarrow> LabDB
     \<Rightarrow> (exn + bool) \<times> LabDB"
where
  "run_loop env run net chk ph tick drawn db =
     (if \<not> tick < run_ticks run then (Inr True, db)
      else
        (case run_batch env run net (ec_controls chk) (min 2 (run_ticks run - tick)) ph drawn [] of
           Inl e \<Rightarrow> (Inl e, db)
         | Inr (ph', drawn', msgs) \<Rightarrow>
             (case checkpoint (sr_run_id run) 0 (ec_tick chk) (next_checkpoint run chk ph') [] msgs db of
                Inl e \<Rightarrow> (Inl e, db)
              | Inr (success, db') \<Rightarrow>
                  if \<not> success then (Inr False, db')
                  else run_loop env run net (next_checkpoint run chk ph') ph' (ps_tick ph') drawn' db')))"
  by pat_completeness auto
termination
  by (relation "measure (\<lambda>(env, run, net, chk, ph, tick, drawn, db).
        2 * (run_ticks run - ps_tick ph) + (if tick = ps_tick ph then 0 else 1))")
     (auto dest!: run_batch_tick)

declare run_loop.simps [simp del]

definition run_once :: "engine_env \<Rightarrow> SimulationRun \<Rightarrow> LabDB \<Rightarrow> (exn + bool) \<times> LabDB" where
  "run_once env run db =
     (case compile_lab (sr_dt run) (sr_definition run) of
        Inl e \<Rightarrow> (Inl e, db)
      | Inr net \<Rightarrow>
          (let chk = load_or_create_checkpoint run db
           in run_loop env run net chk (ec_physical chk) (ec_tick chk) 0 db))"

section \<open>The simulation without batches\<close>

text \<open>The reference: one step after the other, an observation whenever the tick is a multiple of twenty.\<close>

fun simulate ::
  "engine_env \<Rightarrow> SimulationRun \<Rightarrow> CompiledNetwork \<Rightarrow> ControlState \<Rightarrow> nat \<Rightarrow> PhysicalState \<Rightarrow> exn + PhysicalState \<times> Observation list"
where
  "simulate env run net controls 0 ph = Inr (ph, [])"
| "simulate env run net controls (Suc n) ph =
     bind_err (step_lab (en_solve env) (sr_dt run) net ph controls) (\<lambda>ph'.
     bind_err (observe_tick env run controls ph') (\<lambda>obs.
     bind_err (simulate env run net controls n ph') (\<lambda>(ph'', rest). Inr (ph'', obs @ rest))))"

lemma simulate_add:
  "simulate env run net controls (m + n) ph = bind_err (simulate env run net controls m ph) (\<lambda>(ph1, o1).
     bind_err (simulate env run net controls n ph1) (\<lambda>(ph2, o2). Inr (ph2, o1 @ o2)))"
proof (induction m arbitrary: ph)
  case 0
  then show ?case by (cases "simulate env run net controls n ph") (auto simp: bind_err_def)
next
  case (Suc m)
  then show ?case
    by (simp add: bind_err_def split: sum.splits prod.splits)
qed

lemma outbox_messages_append:
  "outbox_messages env run k (xs @ ys) = outbox_messages env run k xs @ outbox_messages env run (k + length xs) ys"
  by (simp add: outbox_messages_def enumerate_append_eq)

lemma run_batch_simulate:
  "run_batch env run net controls b ph drawn msgs = bind_err (simulate env run net controls b ph) (\<lambda>(ph', obs).
     Inr (ph', drawn + length obs, msgs @ outbox_messages env run drawn obs))"
proof (induction b arbitrary: ph drawn msgs)
  case 0
  then show ?case by (simp add: outbox_messages_def)
next
  case (Suc b)
  then show ?case
    by (simp add: bind_err_def outbox_messages_append add.assoc split: sum.splits prod.splits)
qed

lemma simulate_tick: "simulate env run net controls n ph = Inr (ph', obs) \<Longrightarrow> ps_tick ph' = ps_tick ph + n"
  using run_batch_tick [of env run net controls n ph 0 "[]" ph'] by (auto simp: run_batch_simulate)

section \<open>Checkpoints of the loop\<close>

lemma insert_messages_ok:
  assumes "distinct (map fst msgs)" "set (map fst msgs) \<inter> set (map fst (lab_outbox db)) = {}"
  shows "fold_err insert_message db msgs = Inr (db\<lparr>lab_outbox := lab_outbox db @ map (\<lambda>(mid, row). (mid, (row, None))) msgs\<rparr>)"
  using assms
proof (induction msgs arbitrary: db)
  case (Cons m msgs)
  obtain mid row where m: "m = (mid, row)" by (cases m)
  have new: "map_of (lab_outbox db) mid = None" using Cons.prems(2) m by (auto simp: map_of_eq_None_iff)
  have "set (map fst msgs) \<inter> set (map fst (lab_outbox (db\<lparr>lab_outbox := lab_outbox db @ [(mid, (row, None))]\<rparr>))) = {}"
    using Cons.prems m by auto
  from Cons.IH [OF _ this] Cons.prems(1) m new show ?case by (simp add: insert_message_def)
qed simp

lemma outbox_messages_ids: "map fst (outbox_messages env run k obs) = map (en_uuid env) [k..<k + length obs]"
  by (induction obs arbitrary: k) (auto simp: outbox_messages_def upt_conv_Cons simp del: upt_Suc)

definition run_at :: "SimulationRun \<Rightarrow> LabDB \<Rightarrow> PhysicalState \<Rightarrow> ControlState \<Rightarrow> bool" where
  "run_at run db ph controls \<longleftrightarrow> (\<exists>row. map_of (lab_runs db) (sr_run_id run) = Some row \<and> rr_fence row = 0 \<and>
     rr_tick row = ps_tick ph \<and> ec_tick (rr_checkpoint row) = ps_tick ph \<and> ec_physical (rr_checkpoint row) = ph \<and>
     ec_controls (rr_checkpoint row) = controls)"

definition unused_ids :: "engine_env \<Rightarrow> nat \<Rightarrow> LabDB \<Rightarrow> bool" where
  "unused_ids env k db \<longleftrightarrow> inj (en_uuid env) \<and> (\<forall>i \<ge> k. en_uuid env i \<notin> set (map fst (lab_outbox db)))"

definition queued :: "engine_env \<Rightarrow> SimulationRun \<Rightarrow> nat \<Rightarrow> Observation list \<Rightarrow> (uuid, lab_outbox_row \<times> datetime option) table" where
  "queued env run k obs = map (\<lambda>(mid, row). (mid, (row, None))) (outbox_messages env run k obs)"

text \<open>What a run leaves of the database besides its own row and the new outbox rows.\<close>

definition run_frame :: "SimulationRun \<Rightarrow> LabDB \<Rightarrow> LabDB \<Rightarrow> bool" where
  "run_frame run db db' \<longleftrightarrow> lab_commands db' = lab_commands db \<and> lab_events db' = lab_events db \<and>
     lab_definitions db' = lab_definitions db \<and> lab_revisions db' = lab_revisions db \<and> lab_alerts db' = lab_alerts db \<and>
     (\<forall>rid. rid \<noteq> sr_run_id run \<longrightarrow> map_of (lab_runs db') rid = map_of (lab_runs db) rid)"

lemma run_frame_trans: "run_frame run a b \<Longrightarrow> run_frame run b c \<Longrightarrow> run_frame run a c"
  by (simp add: run_frame_def)

lemma batch_checkpoint:
  assumes "run_at run db ph controls" "unused_ids env k db" "ec_tick chk = ps_tick ph" "ec_controls chk = controls"
  shows "\<exists>db'. checkpoint (sr_run_id run) 0 (ec_tick chk) (next_checkpoint run chk ph') [] (outbox_messages env run k obs) db = Inr (True, db') \<and>
    run_at run db' ph' controls \<and> unused_ids env (k + length obs) db' \<and> lab_outbox db' = lab_outbox db @ queued env run k obs \<and>
    run_frame run db db'"
proof -
  let ?f = "\<lambda>r. r\<lparr>rr_tick := ps_tick ph', rr_checkpoint := next_checkpoint run chk ph', rr_event_sequence := rr_event_sequence r + 0\<rparr>"
  let ?db1 = "db\<lparr>lab_runs := update_row (sr_run_id run) ?f (lab_runs db)\<rparr>"
  let ?msgs = "outbox_messages env run k obs"
  from assms(1) obtain row where row: "map_of (lab_runs db) (sr_run_id run) = Some row" "rr_fence row = 0" "rr_tick row = ps_tick ph"
    by (auto simp: run_at_def)
  have ids: "distinct (map fst ?msgs)" "set (map fst ?msgs) \<inter> set (map fst (lab_outbox ?db1)) = {}"
    using assms(2) by (auto simp: outbox_messages_ids unused_ids_def distinct_map intro: inj_on_subset)
  let ?db' = "?db1\<lparr>lab_outbox := lab_outbox db @ queued env run k obs\<rparr>"
  have "checkpoint (sr_run_id run) 0 (ec_tick chk) (next_checkpoint run chk ph') [] ?msgs db = Inr (True, ?db')"
    using insert_messages_ok [OF ids] row assms(3) by (simp add: checkpoint_def Let_def next_checkpoint_def queued_def)
  moreover have "run_at run ?db' ph' controls"
    using row assms(4) by (simp add: run_at_def map_of_update_row next_checkpoint_def)
  moreover have "unused_ids env (k + length obs) ?db'"
    using assms(2) outbox_messages_ids [of env run k obs]
    by (auto simp: unused_ids_def queued_def case_prod_beta comp_def dest: injD)
  moreover have "run_frame run db ?db'" by (simp add: run_frame_def map_of_update_row)
  ultimately show ?thesis by (intro exI [of _ ?db']) simp
qed

lemma queued_append: "queued env run k (xs @ ys) = queued env run k xs @ queued env run (k + length xs) ys"
  by (simp add: queued_def outbox_messages_append)

lemma run_loop_simulates:
  assumes "run_at run db ph (ec_controls chk)" "unused_ids env k db" "ec_tick chk = ps_tick ph" "ps_tick ph \<le> run_ticks run"
    and "simulate env run net (ec_controls chk) (run_ticks run - ps_tick ph) ph = Inr (phF, obs)"
  shows "\<exists>db'. run_loop env run net chk ph (ps_tick ph) k db = (Inr True, db') \<and> run_at run db' phF (ec_controls chk) \<and>
    lab_outbox db' = lab_outbox db @ queued env run k obs \<and> run_frame run db db'"
  using assms
proof (induction "run_ticks run - ps_tick ph" arbitrary: chk ph k db obs rule: less_induct)
  case less
  show ?case
  proof (cases "ps_tick ph < run_ticks run")
    case False
    then have "phF = ph" "obs = []" using less.prems(5) by auto
    with False less.prems(1) show ?thesis
      by (subst run_loop.simps) (auto simp: queued_def outbox_messages_def run_frame_def)
  next
    case True
    define b where "b = min 2 (run_ticks run - ps_tick ph)"
    have b: "0 < b" "b \<le> run_ticks run - ps_tick ph" using True by (auto simp: b_def)
    have "simulate env run net (ec_controls chk) (b + (run_ticks run - ps_tick ph - b)) ph = Inr (phF, obs)"
      using less.prems(5) b by simp
    then obtain ph1 o1 o2 where sim: "simulate env run net (ec_controls chk) b ph = Inr (ph1, o1)"
      "simulate env run net (ec_controls chk) (run_ticks run - ps_tick ph - b) ph1 = Inr (phF, o2)" "obs = o1 @ o2"
      unfolding simulate_add by (auto simp: bind_err_eq_Inr)
    have tick: "ps_tick ph1 = ps_tick ph + b" by (rule simulate_tick [OF sim(1)])
    from batch_checkpoint [OF less.prems(1-3) refl, of ph1 o1] obtain db1 where
      chk: "checkpoint (sr_run_id run) 0 (ec_tick chk) (next_checkpoint run chk ph1) [] (outbox_messages env run k o1) db = Inr (True, db1)"
        "run_at run db1 ph1 (ec_controls chk)" "unused_ids env (k + length o1) db1"
        "lab_outbox db1 = lab_outbox db @ queued env run k o1" "run_frame run db db1" by blast
    have ctl: "ec_controls (next_checkpoint run chk ph1) = ec_controls chk" "ec_tick (next_checkpoint run chk ph1) = ps_tick ph1"
      by (simp_all add: next_checkpoint_def)
    have rest: "run_ticks run - ps_tick ph - b = run_ticks run - ps_tick ph1" using tick by simp
    have "run_ticks run - ps_tick ph1 < run_ticks run - ps_tick ph" using tick b by simp
    moreover have "ps_tick ph1 \<le> run_ticks run" using tick b True by linarith
    ultimately have "\<exists>db'. run_loop env run net (next_checkpoint run chk ph1) ph1 (ps_tick ph1) (k + length o1) db1 = (Inr True, db') \<and>
        run_at run db' phF (ec_controls chk) \<and> lab_outbox db' = lab_outbox db1 @ queued env run (k + length o1) o2 \<and> run_frame run db1 db'"
      using less.hyps [of ph1 db1 "next_checkpoint run chk ph1" "k + length o1" o2] chk(2,3) sim(2) unfolding ctl rest by blast
    then
    obtain db' where db': "run_loop env run net (next_checkpoint run chk ph1) ph1 (ps_tick ph1) (k + length o1) db1 = (Inr True, db')"
      "run_at run db' phF (ec_controls chk)" "lab_outbox db' = lab_outbox db1 @ queued env run (k + length o1) o2" "run_frame run db1 db'"
      by blast
    have "run_loop env run net chk ph (ps_tick ph) k db = (Inr True, db')"
      using True chk(1) db'(1) sim(1) by (subst run_loop.simps) (simp add: run_batch_simulate flip: b_def)
    with db'(2-4) chk(4,5) sim(3) run_frame_trans show ?thesis by (auto simp: queued_append)
  qed
qed

section \<open>The sampling schedule\<close>

fun advance_ticks :: "engine_env \<Rightarrow> SimulationRun \<Rightarrow> CompiledNetwork \<Rightarrow> ControlState \<Rightarrow> nat \<Rightarrow> PhysicalState \<Rightarrow> exn + PhysicalState" where
  "advance_ticks env run net controls 0 ph = Inr ph"
| "advance_ticks env run net controls (Suc n) ph =
     bind_err (step_lab (en_solve env) (sr_dt run) net ph controls) (advance_ticks env run net controls n)"

definition schedule :: "LabDefinition \<Rightarrow> nat \<Rightarrow> nat \<Rightarrow> (nat \<times> uuid) list" where
  "schedule d t n = concat (map (\<lambda>t. map (\<lambda>s. (t, sensor_id s)) (sensors d)) (filter (\<lambda>t. t mod 20 = 0) [Suc t..<Suc (t + n)]))"

lemma schedule_Suc:
  "schedule d t (Suc n) = (if Suc t mod 20 = 0 then map (\<lambda>s. (Suc t, sensor_id s)) (sensors d) else []) @ schedule d (Suc t) n"
  by (simp add: schedule_def upt_conv_Cons del: upt_Suc)

lemma sample_fields [simp]:
  "ob_tick (sample_sensor nd run st controls s tv) = ps_tick st" "ob_sensor_id (sample_sensor nd run st controls s tv) = sensor_id s"
  by (auto simp: sample_sensor_def new_observation_def Let_def split: option.splits)

lemma simulate_schedule:
  assumes "compile_lab dt d = Inr net" "lab_ok d" "sr_definition run = d" "advance_ticks env run net controls n ph = Inr phF"
  shows "\<exists>obs. simulate env run net controls n ph = Inr (phF, obs) \<and>
    map (\<lambda>ob. (ob_tick ob, ob_sensor_id ob)) obs = schedule d (ps_tick ph) n"
  using assms(4)
proof (induction n arbitrary: ph)
  case 0
  then show ?case by (simp add: schedule_def)
next
  case (Suc n)
  then obtain ph1 where ph1: "step_lab (en_solve env) (sr_dt run) net ph controls = Inr ph1"
    "advance_ticks env run net controls n ph1 = Inr phF"
    by (auto simp: bind_err_eq_Inr)
  from Suc.IH [OF ph1(2)] obtain rest where rest: "simulate env run net controls n ph1 = Inr (phF, rest)"
    "map (\<lambda>ob. (ob_tick ob, ob_sensor_id ob)) rest = schedule d (ps_tick ph1) n" by blast
  have tick: "ps_tick ph1 = Suc (ps_tick ph)" using step_lab_result [OF ph1(1)] by auto
  have "observe (en_noise env) run ph1 controls =
      Inr (map (\<lambda>s. sample_sensor (en_noise env) run ph1 controls s (sensor_truth net ph1 s)) (sensors d))"
    using observe_run [OF assms(1-3) ph1(1)] by blast
  with ph1(1) rest tick show ?case
    by (auto simp: observe_tick_def schedule_Suc comp_def)
qed

lemma run_once_result:
  assumes "lab_ok (sr_definition run)" "compile_lab (sr_dt run) (sr_definition run) = Inr net"
    and "run_at run db ph controls" "ps_tick ph \<le> run_ticks run" "unused_ids env 0 db"
    and "advance_ticks env run net controls (run_ticks run - ps_tick ph) ph = Inr phF"
  shows "\<exists>db' obs. run_once env run db = (Inr True, db') \<and> run_at run db' phF controls \<and> ps_tick phF = run_ticks run \<and>
    lab_outbox db' = lab_outbox db @ queued env run 0 obs \<and>
    map (\<lambda>ob. (ob_tick ob, ob_sensor_id ob)) obs = schedule (sr_definition run) (ps_tick ph) (run_ticks run - ps_tick ph) \<and>
    run_frame run db db'"
proof -
  from assms(3) obtain row where row: "map_of (lab_runs db) (sr_run_id run) = Some row" "ec_tick (rr_checkpoint row) = ps_tick ph"
    "ec_physical (rr_checkpoint row) = ph" "ec_controls (rr_checkpoint row) = controls" by (auto simp: run_at_def)
  from simulate_schedule [OF assms(2,1) refl assms(6)] obtain obs where
    sim: "simulate env run net controls (run_ticks run - ps_tick ph) ph = Inr (phF, obs)"
    and sched: "map (\<lambda>ob. (ob_tick ob, ob_sensor_id ob)) obs = schedule (sr_definition run) (ps_tick ph) (run_ticks run - ps_tick ph)"
    by blast
  from run_loop_simulates [of run db ph "rr_checkpoint row" env 0 net phF obs] assms(3-5) row sim obtain db' where
    "run_loop env run net (rr_checkpoint row) ph (ps_tick ph) 0 db = (Inr True, db')" "run_at run db' phF controls"
    "lab_outbox db' = lab_outbox db @ queued env run 0 obs" "run_frame run db db'" by auto
  with row assms(2) have "run_once env run db = (Inr True, db')" by (simp add: run_once_def load_or_create_checkpoint_def Let_def)
  moreover have "ps_tick phF = run_ticks run" using simulate_tick [OF sim] assms(4) by simp
  ultimately show ?thesis using \<open>run_at run db' phF controls\<close> \<open>run_frame run db db'\<close>
      \<open>lab_outbox db' = lab_outbox db @ queued env run 0 obs\<close> sched by blast
qed

text \<open>
  C5 (termination): a run ends, and every sample is queued once.  From a checkpoint of an eligible lab whose
  physics can be stepped to the end, \<open>run_once\<close> returns success after finitely many batches: the run
  is checkpointed at its last tick with the state of stepping tick by tick, and the outbox has grown by
  exactly one unpublished observation per sensor for every multiple of twenty ticks after the
  checkpoint it started from, in order, whatever the batches were and wherever an earlier run stopped.
  It neither applies nor marks any command: controls and commands stay as they were.
\<close>

theorem run_once_completes:
  assumes "lab_ok (sr_definition run)" "compile_lab (sr_dt run) (sr_definition run) = Inr net"
    and "run_at run db ph controls" "ps_tick ph \<le> run_ticks run" "unused_ids env 0 db"
    and "advance_ticks env run net controls (run_ticks run - ps_tick ph) ph = Inr phF"
  shows "\<exists>db' obs. run_once env run db = (Inr True, db') \<and> run_at run db' phF controls \<and> ps_tick phF = run_ticks run \<and>
    lab_outbox db' = lab_outbox db @ queued env run 0 obs \<and>
    map (\<lambda>ob. (ob_tick ob, ob_sensor_id ob)) obs = schedule (sr_definition run) (ps_tick ph) (run_ticks run - ps_tick ph) \<and>
    run_frame run db db'"
  using assms by (rule run_once_result)

text \<open>The run of the closed valve, forty ticks from its initial checkpoint.\<close>

definition idle_env :: engine_env where
  "idle_env = \<lparr>en_solve = diagonal_solver, en_noise = (\<lambda>_ _ _. replicate 32 0), en_uuid = id\<rparr>"

definition valve_run :: SimulationRun where
  "valve_run = new_run plain_env closed_spec 40 closed_lab"

definition valve_start :: PhysicalState where
  "valve_start = ec_physical (rr_checkpoint (run_row_of valve_run))"

definition no_controls :: ControlState where
  "no_controls = \<lparr>setpoints = (\<lambda>_. None), active_faults = []\<rparr>"

lemma valve_run_fields: "sr_definition valve_run = closed_lab" "sr_dt valve_run = DT_DEFAULT" "run_ticks valve_run = 40"
  "sr_run_id valve_run = 40" "ps_tick valve_start = 0"
  by (simp_all add: valve_run_def new_run_def run_ticks_def closed_spec_def valve_start_def run_row_of_def initial_checkpoint_def)

lemma idle_advance:
  assumes "idle_network n" "previous_pressures n st = Inr idle_pressures"
  shows "\<exists>st'. advance_ticks idle_env valve_run n no_controls k st = Inr st'"
  using assms(2)
proof (induction k arbitrary: st)
  case (Suc k)
  have "active_faults no_controls = []" by (simp add: no_controls_def)
  from idle_step [OF assms(1) Suc.prems this] obtain st1 where st1: "step_lab diagonal_solver DT_DEFAULT n st no_controls = Inr st1"
    "previous_pressures n st1 = Inr idle_pressures" by blast
  from Suc.IH [OF st1(2)] st1(1) show ?case by (simp add: idle_env_def valve_run_fields)
qed simp

lemma valve_run_at: "run_at valve_run started_db valve_start no_controls"
proof -
  have "map_of (lab_runs started_db) 40 = Some (run_row_of valve_run)" by (simp add: started_db_def valve_run_def)
  then show ?thesis
    by (simp add: run_at_def valve_run_fields valve_start_def)
       (simp add: run_row_of_def initial_checkpoint_def no_controls_def)
qed

lemma valve_run_ready:
  "\<exists>n phF. compile_lab (sr_dt valve_run) (sr_definition valve_run) = Inr n \<and>
     advance_ticks idle_env valve_run n no_controls (run_ticks valve_run - ps_tick valve_start) valve_start = Inr phF"
  "lab_ok (sr_definition valve_run)" "ps_tick valve_start \<le> run_ticks valve_run" "unused_ids idle_env 0 started_db"
  "lab_outbox started_db = []"
  "schedule (sr_definition valve_run) (ps_tick valve_start) (run_ticks valve_run - ps_tick valve_start) = [(20, 30), (40, 30)]"
proof -
  obtain n where n: "compile_lab DT_DEFAULT closed_lab = Inr n" "idle_network n" using closed_lab_compiles by blast
  have "pressures_pa valve_start (PortKey 11 p) = Some (Fin 400000)" if "p \<in> {Port_A, Port_B}" for p
    using that by (auto simp: valve_start_def run_row_of_def initial_checkpoint_def initial_pressures_def valve_run_fields closed_lab_def
        dict_of_def param_real_def)
  then have "previous_pressures n valve_start = Inr idle_pressures" by (intro idle_previous [OF n(2)]) auto
  from idle_advance [OF n(2) this, of 40] n(1) show
    "\<exists>n phF. compile_lab (sr_dt valve_run) (sr_definition valve_run) = Inr n \<and>
       advance_ticks idle_env valve_run n no_controls (run_ticks valve_run - ps_tick valve_start) valve_start = Inr phF"
    by (simp add: valve_run_fields)
  show "lab_ok (sr_definition valve_run)" using eligible_lab_ok closed_lab_valid(2) unfolding valve_run_fields by blast
  show "schedule (sr_definition valve_run) (ps_tick valve_start) (run_ticks valve_run - ps_tick valve_start) = [(20, 30), (40, 30)]"
    unfolding valve_run_fields by (simp add: schedule_def closed_lab_def upt_conv_Cons)
qed (simp_all add: valve_run_fields unused_ids_def idle_env_def started_db_def saved_db_def empty_lab_db_def)

theorem run_once_completes_witness:
  "\<exists>db' phF obs. run_once idle_env valve_run started_db = (Inr True, db') \<and> run_at valve_run db' phF no_controls \<and>
     lab_outbox db' = queued idle_env valve_run 0 obs \<and>
     map (\<lambda>ob. (ob_tick ob, ob_sensor_id ob)) obs = [(20, 30), (40, 30)]"
proof -
  from valve_run_ready(1) obtain n phF where "compile_lab (sr_dt valve_run) (sr_definition valve_run) = Inr n"
    "advance_ticks idle_env valve_run n no_controls (run_ticks valve_run - ps_tick valve_start) valve_start = Inr phF" by blast
  from run_once_completes [OF valve_run_ready(2) this(1) valve_run_at valve_run_ready(3,4) this(2)] show ?thesis
    unfolding valve_run_ready(5,6) append_Nil by (elim exE conjE) (intro exI conjI)
qed

end
