(* ===== verification/Lab_Outbox.thy ===== *)
theory Lab_Outbox
  imports Lab_Engine
begin

text \<open>
  \<open>lab/outbox.py\<close>: publication of the outbox rows of the lab to Kafka.  Whether a send succeeds is an
  argument; the messages acknowledged are part of the result.  A round of the worker's outbox loop
  (\<open>lab/worker.py\<close>) is one call of \<open>dispatch_batch\<close>.
\<close>

type_synonym outbox_entry = "uuid \<times> lab_outbox_row \<times> datetime option"

definition row_order :: "outbox_entry \<Rightarrow> uuid \<times> nat \<times> uuid" where
  "row_order = (\<lambda>(_, row, _). (ow_run_id row, ow_tick row, ow_sensor_id row))"

text \<open>\<open>WHERE published_at IS NULL ORDER BY run_id, tick, sensor_id\<close>.\<close>

definition pending_rows :: "LabDB \<Rightarrow> outbox_entry list" where
  "pending_rows db = sort_key row_order (filter (\<lambda>(_, _, p). p = None) (lab_outbox db))"

definition mark_rows :: "datetime \<Rightarrow> uuid list \<Rightarrow> LabDB \<Rightarrow> LabDB" where
  "mark_rows now ids db = db\<lparr>lab_outbox := map (\<lambda>(mid, row, p). (mid, row, if mid \<in> set ids then Some now else p)) (lab_outbox db)\<rparr>"

definition publish_pending_sync :: "nat \<Rightarrow> datetime \<Rightarrow> LabDB \<Rightarrow> nat \<times> LabDB" where
  "publish_pending_sync limit now db =
     (let rows = take limit (pending_rows db)
      in if rows = [] then (0, db) else (length rows, mark_rows now (map fst rows) db))"

definition dispatch_batch ::
  "bool \<Rightarrow> (lab_outbox_row \<Rightarrow> bool) \<Rightarrow> nat \<Rightarrow> datetime \<Rightarrow> LabDB \<Rightarrow> (nat \<times> outbox_entry list) \<times> LabDB"
where
  "dispatch_batch live sends limit now db =
     (if \<not> live then ((0, []), db)
      else
        (let rows = take limit (pending_rows db);
             published = takeWhile (\<lambda>(_, row, _). sends row) rows
         in if rows = [] then ((0, []), db)
            else ((length published, published),
              if published = [] then db else mark_rows now (map fst published) db)))"

text \<open>What is sent for a row: topic, partition key and payload.\<close>

definition kafka_record :: "outbox_entry \<Rightarrow> string \<times> (uuid \<times> uuid \<times> uuid) \<times> Observation" where
  "kafka_record = (\<lambda>(_, row, _). (ow_topic row, (ow_run_id row, ob_asset_id (ow_payload row), ow_sensor_id row), ow_payload row))"

section \<open>Order and progress\<close>

lemma pending_after_mark:
  "pending_rows (mark_rows now ids db) = filter (\<lambda>m. fst m \<notin> set ids) (pending_rows db)"
proof -
  have "filter (\<lambda>(_, _, p). p = None) (map (\<lambda>(mid, row, p). (mid, row, if mid \<in> set ids then Some now else p)) xs) =
      filter (\<lambda>m. fst m \<notin> set ids) (filter (\<lambda>(_, _, p). p = None) xs)" for xs :: "outbox_entry list"
    by (induction xs) auto
  then show ?thesis by (simp add: pending_rows_def mark_rows_def filter_sort)
qed

lemma mark_ids [simp]: "map fst (lab_outbox (mark_rows now ids db)) = map fst (lab_outbox db)"
  by (simp add: mark_rows_def case_prod_beta comp_def)

lemma pending_distinct: "distinct (map fst (lab_outbox db)) \<Longrightarrow> distinct (map fst (pending_rows db))"
proof -
  assume "distinct (map fst (lab_outbox db))"
  then have "distinct (map fst (filter (\<lambda>(_, _, p). p = None) (lab_outbox db)))" by (simp add: distinct_map_filter)
  moreover have "mset (map fst (pending_rows db)) = mset (map fst (filter (\<lambda>(_, _, p). p = None) (lab_outbox db)))"
    by (simp add: pending_rows_def)
  ultimately show ?thesis using mset_eq_imp_distinct_iff by blast
qed

lemma filter_suffix:
  "distinct (map fst (xs @ ys)) \<Longrightarrow> filter (\<lambda>m. fst m \<notin> set (map fst xs)) (xs @ ys) = ys"
  by (auto simp: filter_id_conv filter_empty_conv)

lemma pending_sorted: "sorted_wrt (\<lambda>a b. row_order a \<le> row_order b) (pending_rows db)"
  unfolding pending_rows_def by (metis sorted_map sorted_sort_key)

text \<open>A batch takes the messages off the front of the pending rows, at least one if its first send succeeds.\<close>

lemma dispatch_batch_prefix:
  assumes "distinct (map fst (lab_outbox db))" "dispatch_batch live sends limit now db = ((n, sent), db')"
  shows "sent @ pending_rows db' = pending_rows db \<and> n = length sent \<and> distinct (map fst (lab_outbox db')) \<and>
    (live \<longrightarrow> (\<forall>row. sends row) \<longrightarrow> 0 < limit \<longrightarrow> pending_rows db \<noteq> [] \<longrightarrow> sent \<noteq> [])"
proof (cases "sent = []")
  case True
  with assms show ?thesis
    by (cases "pending_rows db") (auto simp: dispatch_batch_def Let_def take_Cons' split: if_splits)
next
  case False
  with assms(2) have sent: "sent = takeWhile (\<lambda>(_, row, _). sends row) (take limit (pending_rows db))" "n = length sent"
    "db' = mark_rows now (map fst sent) db"
    by (auto simp: dispatch_batch_def Let_def split: if_splits)
  obtain rest where rest: "pending_rows db = sent @ rest"
    by (metis append.assoc append_take_drop_id sent(1) takeWhile_dropWhile_id)
  with pending_distinct [OF assms(1)] have "distinct (map fst (sent @ rest))" by simp
  from filter_suffix [OF this] have "pending_rows db' = rest" by (simp only: sent(3) pending_after_mark rest)
  moreover have "distinct (map fst (lab_outbox db'))" using assms(1) by (simp add: sent(3))
  ultimately show ?thesis using rest sent(2) False by simp
qed

text \<open>Rounds of the worker: in each one the producer may be down or any send may fail.\<close>

fun dispatch_rounds ::
  "nat \<Rightarrow> (bool \<times> (lab_outbox_row \<Rightarrow> bool) \<times> datetime) list \<Rightarrow> LabDB \<Rightarrow> outbox_entry list \<times> LabDB"
where
  "dispatch_rounds limit [] db = ([], db)"
| "dispatch_rounds limit ((live, sends, now) # rounds) db =
     (let ((_, sent), db1) = dispatch_batch live sends limit now db; (topic, db2) = dispatch_rounds limit rounds db1
      in (sent @ topic, db2))"

definition good_rounds :: "(bool \<times> (lab_outbox_row \<Rightarrow> bool) \<times> datetime) list \<Rightarrow> nat" where
  "good_rounds rounds = length (filter (\<lambda>(live, sends, _). live \<and> sends = (\<lambda>_. True)) rounds)"

lemma dispatch_rounds_deliver:
  assumes "distinct (map fst (lab_outbox db))" "dispatch_rounds limit rounds db = (topic, db')" "0 < limit"
  shows "topic @ pending_rows db' = pending_rows db \<and> (length (pending_rows db) \<le> good_rounds rounds \<longrightarrow> pending_rows db' = [])"
  using assms(1,2)
proof (induction rounds arbitrary: db topic)
  case Nil
  then show ?case by (simp add: good_rounds_def)
next
  case (Cons r rounds)
  obtain live sends now where r: "r = (live, sends, now)" by (cases r)
  obtain n sent db1 where b: "dispatch_batch live sends limit now db = ((n, sent), db1)" by (metis prod_cases3 surj_pair)
  obtain log1 where topic: "dispatch_rounds limit rounds db1 = (log1, db')" "topic = sent @ log1"
    using Cons.prems(2) r b by (cases "dispatch_rounds limit rounds db1") auto
  note pre = dispatch_batch_prefix [OF Cons.prems(1) b]
  from pre have d1: "distinct (map fst (lab_outbox db1))" by blast
  note rest = Cons.IH [OF d1 topic(1)]
  have len: "length sent + length (pending_rows db1) = length (pending_rows db)" using pre by (metis length_append)
  have "pending_rows db' = []" if "length (pending_rows db) \<le> good_rounds (r # rounds)"
  proof (cases "live \<and> sends = (\<lambda>_. True)")
    case True
    show ?thesis
    proof (cases "pending_rows db = []")
      case True
      then show ?thesis using pre rest by auto
    next
      case False
      with pre True assms(3) have "sent \<noteq> []" by auto
      then have "0 < length sent" by blast
      moreover have "good_rounds (r # rounds) = Suc (good_rounds rounds)"
        using \<open>live \<and> sends = (\<lambda>_. True)\<close> r by (simp add: good_rounds_def)
      ultimately have "length (pending_rows db1) \<le> good_rounds rounds" using len that by linarith
      with rest show ?thesis by blast
    qed
  next
    case False
    with that r len rest show ?thesis by (auto simp: good_rounds_def)
  qed
  moreover have "topic @ pending_rows db' = pending_rows db" using pre rest topic(2) by (metis append.assoc)
  ultimately show ?case by blast
qed

text \<open>Without failures a batch is the dispatch loop of the outbox contract, row by row.\<close>

definition next_row :: "LabDB \<Rightarrow> outbox_entry option" where
  "next_row db = (case pending_rows db of [] \<Rightarrow> None | m # _ \<Rightarrow> Some m)"

interpretation lab_queue: outbox next_row "\<lambda>db m. mark_rows now [fst m] db" "\<lambda>db. set (pending_rows db)"
    "\<lambda>db. distinct (map fst (lab_outbox db))" "\<lambda>a b. row_order a \<le> row_order b" for now
proof unfold_locales
  fix db :: LabDB and m m' :: outbox_entry
  assume inv: "distinct (map fst (lab_outbox db))"
  show "(next_row db = None) = (set (pending_rows db) = {})" by (cases "pending_rows db") (auto simp: next_row_def)
  show "next_row db = Some m \<Longrightarrow> m \<in> set (pending_rows db)" by (cases "pending_rows db") (auto simp: next_row_def)
  show "next_row db = Some m \<Longrightarrow> m' \<in> set (pending_rows db) \<Longrightarrow> row_order m \<le> row_order m'"
    using pending_sorted [of db] by (cases "pending_rows db") (auto simp: next_row_def)
  show "m \<in> set (pending_rows db) \<Longrightarrow> set (pending_rows (mark_rows now [fst m] db)) = set (pending_rows db) - {m}"
    using pending_distinct [OF inv] by (auto simp: pending_after_mark distinct_map inj_on_def)
qed simp_all

lemma takeWhile_True: "takeWhile (\<lambda>_. True) xs = xs"
  by (simp add: takeWhile_eq_all_conv)

lemma dispatch_batch_drains:
  assumes "distinct (map fst (lab_outbox db))"
  shows "fst (drain next_row (\<lambda>db m. mark_rows now [fst m] db) limit db) = snd (fst (dispatch_batch True (\<lambda>_. True) limit now db))"
proof -
  have "fst (drain next_row (\<lambda>db m. mark_rows now [fst m] db) limit db) = take limit (pending_rows db)"
    using assms
  proof (induction limit arbitrary: db)
    case (Suc limit)
    show ?case
    proof (cases "pending_rows db")
      case (Cons m ms)
      have "distinct (map fst ([m] @ ms))" using pending_distinct [OF Suc.prems] Cons by simp
      from filter_suffix [OF this] have "pending_rows (mark_rows now [fst m] db) = ms" by (simp add: pending_after_mark Cons)
      with Suc.IH [of "mark_rows now [fst m] db"] Suc.prems Cons show ?thesis by (simp add: next_row_def case_prod_beta)
    qed (simp add: next_row_def)
  qed simp
  then show ?thesis by (simp add: dispatch_batch_def Let_def case_prod_unfold takeWhile_True)
qed

section \<open>From the simulation to the topic\<close>



end
