(* ===== verification/Spec2Isabelle.thy ===== *)
theory Spec2Isabelle
  imports Alert_Consumer Console_Stream Online_Features Replay_Recovery Worker_Failures
    Api Lab_Outbox
begin

text \<open>
  Verification of the industrial reliability platform (\<open>src/src/industrial_reliability\<close>).

  \<^bold>\<open>The program.\<close>  Recorded compressor telemetry is replayed into Kafka, a streaming worker turns it into
  feature windows and has them scored, an alert service folds the score decisions into alerts and keeps
  everything in PostgreSQL, and a console shows the result.  Offline, the same features are computed in
  batch, and thresholds and the alert policy are calibrated on them.  A second subsystem, the lab,
  simulates a pneumatic network that a user defines.  The data flow is
  \<open>replay_service\<close> \<rightarrow> telemetry topic \<rightarrow> \<open>worker\<close> (\<open>online_features\<close>, \<open>scoring_client\<close>) \<rightarrow> decision topic
  \<rightarrow> \<open>alert_service\<close> (\<open>alert_consumer\<close>, \<open>alert_state\<close>, \<open>persistence\<close>) \<rightarrow> alert outbox and \<open>console_stream\<close>.

  \<^bold>\<open>Theories and what they model.\<close>
  \<^item> \<open>Prelude\<close>: basic types, exceptions as \<open>exn\<close> with results \<open>exn + 'a\<close>, the combinators \<open>bind_err\<close>,
    \<open>map_err\<close>, \<open>fold_err\<close>, \<open>run_checks\<close> and \<open>bind_io\<close>, and the interfaces as locales: \<open>inv_machine\<close> (a
    fallible step that keeps an invariant), \<open>lockstep\<close> (a simulation), \<open>keyed_store\<close> and \<open>keyed_client\<close> (a
    database that keeps one state per key, and a loop over it), \<open>outbox\<close> (a queue of unpublished rows).
  \<^item> \<open>Tables\<close>: relational tables as association lists, with the SQL statements the repository uses.
  \<^item> \<open>Runtime_Messages\<close>: \<open>runtime_messages.py\<close>, one record and one validator per message class.
  \<^item> \<open>Alert_Policy\<close>: \<open>alert_policy.py\<close>, the simulator \<open>simulate_alert_stream\<close>, the search \<open>select_policy\<close>
    and the locked policy with its integrity check.
  \<^item> \<open>Alert_State\<close>: \<open>alert_state.py\<close>, the state machine \<open>transition\<close>.  It is related to the calibration
    simulator step by step (interpretation of \<open>lockstep\<close>), and its event life cycle is an invariant.
  \<^item> \<open>Runtime_Store\<close>: \<open>persistence.py\<close>, the tables as a record \<open>RuntimeDB\<close> and one definition per method;
    load-transition-commit interprets \<open>keyed_store\<close> and \<open>keyed_client\<close>.
  \<^item> \<open>Alert_Consumer\<close>: \<open>alert_consumer.py\<close> and the consumer loop of \<open>alert_service.py\<close>; the dispatcher
    interprets \<open>outbox\<close>.
  \<^item> \<open>Console_Stream\<close>: \<open>console_stream.py\<close>, downsampler, bounded subscriber queues, feed.
  \<^item> \<open>Feature_Windows\<close>: \<open>causal_features.py\<close> and the window generator of \<open>phase1b_features.py\<close>.
  \<^item> \<open>Online_Features\<close>: \<open>online_features.py\<close>, the builder of the worker, and its parity with the batch
    generator on streams without gaps.
  \<^item> \<open>Replay\<close>, \<open>Replay_Service\<close>, \<open>Replay_Recovery\<close>: \<open>replay.py\<close>, \<open>replay_service.py\<close> and
    \<open>artifact_integrity.py\<close>; the session life cycle, the event generator, the service between its
    suspension points, and an \<open>inductive\<close> step relation with crashes and restarts.
  \<^item> \<open>Scoring_Client\<close>, \<open>Worker\<close>, \<open>Worker_Failures\<close>: \<open>scoring_client.py\<close> and \<open>worker.py\<close>.
  \<^item> \<open>Evaluation\<close>, \<open>Drift\<close>: \<open>evaluation.py\<close> and \<open>drift.py\<close>.
  \<^item> \<open>Provenance\<close>: \<open>ml_provenance.py\<close>, JSON documents, canonical JSON and the two self-hashed records of a
    tracked run and of a promotion; a written record is loaded as written.
  \<^item> \<open>Champion\<close>: the manifest and package check of \<open>package_champion.py\<close>, the loader and the scorer of
    \<open>champion.py\<close>; what a loaded scorer guarantees.
  \<^item> \<open>Lifecycle\<close>: import and reproduction of \<open>ml_lifecycle.py\<close> and \<open>phase7_gate.py\<close>; the verdict of a gate run.
  \<^item> \<open>Promotion\<close>: \<open>promote_candidate\<close> and the provenance verifier of \<open>champion.py\<close>; what is checked before the
    registry changes, and the way of a candidate from the gate to a verified served package.
  \<^item> \<open>Rca\<close>: \<open>rca_evidence.py\<close>, \<open>rca_openai.py\<close> and \<open>report_hashes.py\<close>, the evidence bundle of an alert and the
    generator of its root-cause report; every report is valid and cites the bundle only.
  \<^item> \<open>Api\<close>: \<open>api.py\<close>, one definition per route; the scoring route composed with the client and the loaded champion,
    the report route with the store, the start route with the replay service, and the console stream.
  \<^item> \<open>Lab_Contracts\<close>, \<open>Lab_Network\<close>, \<open>Lab_Solver\<close>: \<open>lab/contracts.py\<close>, \<open>lab/simulation/network.py\<close> and
    \<open>lab/simulation/solver.py\<close>, the definition of a lab, its compilation and one time step.
  \<^item> \<open>Lab_Sensors\<close>: \<open>lab/simulation/sensors.py\<close>, sampling with noise and faults; what \<open>observe\<close> looks up is shown to
    be what the compiler assigned to the sensor.
  \<^item> \<open>Lab_Analysis\<close>: \<open>lab/analysis.py\<close> and \<open>lab/evidence.py\<close>, the alerts of one sensor (an \<open>inv_machine\<close>).
  \<^item> \<open>Lab_Store\<close>: \<open>lab/store.py\<close> over the tables of \<open>006_virtual_lab.sql\<close>, as the record \<open>LabDB\<close>; arbitrary
    histories of operations are an \<open>inv_machine\<close>.
  \<^item> \<open>Lab_Engine\<close>: \<open>lab/engine.py\<close>, the run loop as a \<open>function\<close> with its termination proof (the tick of the state
    grows with every batch) and its equivalence with stepping tick by tick; commands as changes of the controls.
  \<^item> \<open>Lab_Outbox\<close>: \<open>lab/outbox.py\<close> and the outbox loop of \<open>lab/worker.py\<close>, a second provider of the \<open>outbox\<close>
    contract, and the delivery of a run's observations to the topic.
  \<^item> This theory composes the replay service with the feature builder.

  \<^bold>\<open>State and effects.\<close>  A class is a record and a method a function that returns the updated record; an
  asynchronous method is cut at its suspension points where the order of effects matters
  (\<open>Replay_Service.task_step\<close>).  Every \<open>raise\<close> is an \<open>Inl\<close>; a method that raises after a
  side effect returns the exception together with the state it leaves (\<open>bind_io\<close>).  Transactions that
  roll back return the exception without a new database.  Dictionaries whose order is never observed are
  maps, the others association lists.  Floats of messages are \<open>pyfloat\<close> (finite, infinite or NaN);
  computed statistics, pressures and flows are exact reals, so rounding is not modelled.  Timestamps are
  microseconds.

  \<^bold>\<open>Code outside the repository\<close> is an argument with its documented behaviour as hypothesis: \<open>uuid5\<close>,
  SHA-256 of canonical JSON, \<open>numpy.quantile\<close>, \<open>numpy.histogram\<close>, \<open>numpy.linalg.solve\<close> (\<open>exact_solver\<close>),
  \<open>average_precision_score\<close>, decoders of message bytes, the HTTP transport and the clock.  \<open>json.dumps\<close> and
  \<open>json.loads\<close> are the record \<open>codec\<close> (\<open>json_codec\<close>: what is dumped is loaded), the MLflow client is the record
  \<open>mlflow_client\<close> over a state of its own (\<open>tag_store\<close>: a run keeps its tags, \<open>alias_law\<close>: an alias leads to
  its run, \<open>registers_once\<close>: a registered model name is not registered again); the language-model service is a
  function from the evidence to a draft or an exception.  Each hypothesis has an instance.

  \<^bold>\<open>Bounds.\<close>  All loops are structural recursions over their data except the dispatcher and polling loops,
  which take the number of rounds; \<open>Alert_Consumer.outbox_drains\<close> gives a number of rounds that is
  enough, and \<open>Replay_Recovery.replay_recovers\<close> that \<open>2 * length L + 1\<close> acknowledged steps complete a
  session of events \<open>L\<close>.  The active-set iteration of the solver has the source's own bound 16.

  \<^bold>\<open>Findings.\<close>  Where the code does not do what it means to, a theorem of kind error shows it on the model:
  a window lost before a gap, a poisoned batch that is skipped and committed, commands that stop the
  service for good, a shut-down that abandons a session, offsets committed for open sessions, a
  closed valve that no command opens, a second champion that cannot be promoted, a start command that the
  replay service refuses, missed console events that are skipped.

  \<^bold>\<open>Not modelled.\<close>  Kafka and database clients, the JSON encoding of responses, metrics, settings from the environment and
  command lines are I/O; model training (\<open>autoencoder.py\<close>, \<open>models.py\<close>) and the PyFunc wrapper of
  \<open>ml_lifecycle.py\<close> are numerical library code; release, packaging and the other phase gates (\<open>phase*_gate.py\<close>,
  \<open>release_certification.py\<close>, \<open>package_*.py\<close>, \<open>benchmark.py\<close>, \<open>replay_benchmark.py\<close>) are scripts that run other tools and compare
  files; the console front end is another language.
\<close>

section \<open>From the replay service to the feature builder\<close>

lemma extract_sample_logical [simp]: "extract_sample (logical e) a d = extract_sample e a d"
  by (simp add: extract_sample_def logical_def analog_fields_def digital_fields_def)

lemma sample_of_logical [simp]: "sample_of b (logical e) = sample_of b e"
  by (simp add: sample_of_def)

lemma follows_logical: "follows (logical a) (logical e) = follows a e"
  by (simp add: follows_def)

lemma hash_event_payload_logical: "hash_event_payload h (logical e) = hash_event_payload h e"
  by (simp add: hash_event_payload_def logical_def analog_fields_def digital_fields_def)

text \<open>The records of a topic without adjacent redeliveries of one event.\<close>

definition dedup_log :: "(datetime \<times> TelemetryEventV1) list \<Rightarrow> (datetime \<times> TelemetryEventV1) list" where
  "dedup_log xs = foldl (\<lambda>acc x.
     if acc \<noteq> [] \<and> logical (snd (last acc)) = logical (snd x) then acc else acc @ [x]) [] xs"

lemma dedup_log_Nil [simp]: "dedup_log [] = []"
  by (simp add: dedup_log_def)

lemma dedup_log_snoc:
  "dedup_log (xs @ [x]) =
     (if dedup_log xs \<noteq> [] \<and> logical (snd (last (dedup_log xs))) = logical (snd x)
      then dedup_log xs else dedup_log xs @ [x])"
  by (simp add: dedup_log_def)

lemma dedup_log_collapse:
  "map (logical \<circ> snd) (dedup_log xs) = remdups_adj (map (logical \<circ> snd) xs)"
proof (induction xs rule: rev_induct)
  case (snoc x xs)
  have ne: "dedup_log xs = [] \<longleftrightarrow> xs = []"
    using snoc by (metis map_is_Nil_conv remdups_adj_Nil_iff)
  have "logical (snd (last (dedup_log xs))) = logical (snd (last xs))" if "xs \<noteq> []"
  proof -
    have "last (map (logical \<circ> snd) (dedup_log xs)) = last (map (logical \<circ> snd) xs)"
      using snoc last_remdups_adj by metis
    then show ?thesis using that ne by (simp add: last_map)
  qed
  with ne snoc show ?case by (auto simp: dedup_log_snoc remdups_adj_snoc last_map)
qed simp

text \<open>What an accepted push remembers of its event.\<close>

definition remembers :: "online_env \<Rightarrow> OnlineFeatureBuilder \<Rightarrow> TelemetryEventV1 \<Rightarrow> bool" where
  "remembers env b e \<longleftrightarrow> fb_last_sequence b = Some (sequence e) \<and>
     fb_last_event_id b = Some (message_id e) \<and>
     fb_last_payload_hash b = Some (hash_event_payload (oe_hash env) e)"

lemma remembers_logical: "remembers env b (logical e) \<longleftrightarrow> remembers env b e"
  by (simp add: remembers_def hash_event_payload_logical)

lemma push_remembers:
  assumes "push env now b e = Inr (b', r)" "fb_last_sequence b \<noteq> Some (sequence e)"
  shows "remembers env b' e"
  using assms
  by (auto simp: push_def Let_def check_sequence_and_ordering_def err_simps remembers_def
      split: if_splits option.splits)

lemma push_redelivered:
  "remembers env b e \<Longrightarrow> push env now b e = Inr (b, \<lparr>features = [], segment_closed_reason = None\<rparr>)"
  by (simp add: remembers_def push_def Let_def check_sequence_and_ordering_def)

lemma run_err_snocE:
  assumes "run_err f c (es @ [e]) = Inr (c', outs)"
  obtains c1 outs1 out where "run_err f c es = Inr (c1, outs1)" "f c1 e = Inr (c', out)"
    "outs = outs1 @ [(c', out)]"
  using assms by (auto simp: run_err_snoc split: sum.splits prod.splits)

text \<open>Redelivered events leave the builder and its output as they are.\<close>

lemma dedup_run:
  assumes "fb_last_sequence b0 = None"
    and "chain (\<lambda>a e. sequence (snd e) = sequence (snd a) + 1) (dedup_log xs)"
    and "run_err (push_io env) b0 (dedup_log xs) = Inr (b, outs)"
  shows "\<exists>outs'. run_err (push_io env) b0 xs = Inr (b, outs') \<and> emitted outs' = emitted outs \<and>
    (if dedup_log xs = [] then b = b0 else remembers env b (snd (last (dedup_log xs))))"
  using assms(2,3)
proof (induction xs arbitrary: b outs rule: rev_induct)
  case (snoc x xs)
  obtain now e where x: "x = (now, e)" by (cases x)
  show ?case
  proof (cases "dedup_log xs \<noteq> [] \<and> logical (snd (last (dedup_log xs))) = logical e")
    case True
    then have same: "dedup_log (xs @ [x]) = dedup_log xs" by (simp add: dedup_log_snoc x)
    from snoc.IH [of b outs] snoc.prems same True obtain outs' where
      run: "run_err (push_io env) b0 xs = Inr (b, outs')" "emitted outs' = emitted outs"
        "remembers env b (snd (last (dedup_log xs)))" by auto
    with True have "remembers env b (logical e)"
      using remembers_logical [of env b "snd (last (dedup_log xs))"] by simp
    then have "remembers env b e" by (simp add: remembers_logical)
    from push_redelivered [OF this, of now] run same True show ?thesis
      by (simp add: run_err_snoc x push_io_pair)
  next
    case False
    then have new: "dedup_log (xs @ [x]) = dedup_log xs @ [x]" by (auto simp: dedup_log_snoc x)
    from snoc.prems(2) obtain b1 outs1 r where r: "run_err (push_io env) b0 (dedup_log xs) = Inr (b1, outs1)"
      "push env now b1 e = Inr (b, r)" "outs = outs1 @ [(b, r)]"
      unfolding new by (elim run_err_snocE) (simp add: x push_io_pair)
    from snoc.prems(1) have ch: "chain (\<lambda>a e. sequence (snd e) = sequence (snd a) + 1) (dedup_log xs)"
      "dedup_log xs \<noteq> [] \<Longrightarrow> sequence e = sequence (snd (last (dedup_log xs))) + 1"
      unfolding new by (auto simp: chain_snoc x)
    from snoc.IH [OF ch(1) r(1)] obtain outs' where
      run: "run_err (push_io env) b0 xs = Inr (b1, outs')" "emitted outs' = emitted outs1"
        "if dedup_log xs = [] then b1 = b0 else remembers env b1 (snd (last (dedup_log xs)))" by blast
    have "fb_last_sequence b1 \<noteq> Some (sequence e)"
      using run(3) ch(2) assms(1) by (cases "dedup_log xs = []") (auto simp: remembers_def)
    from push_remembers [OF r(2) this] run(1,2) r(2,3) new show ?thesis
      by (simp add: run_err_snoc x push_io_pair)
  qed
qed simp

lemma stream_follows:
  assumes "session_stream sv cmd L"
    and "chain (\<lambda>a e. compute_bin_end (source_timestamp e) - compute_bin_end (source_timestamp a) \<le> seconds 300) L"
  shows "chain follows L"
  unfolding adjacent_indices [symmetric]
proof (intro allI impI)
  fix i assume i: "i < length L - 1"
  obtain events where ev: "iter_events (rv_uuid5 sv) (rv_source sv) (\<lambda>_. 0) cmd 1 None = (events, None)"
    "L = map logical events"
    using assms(1) by (auto simp: session_stream_def map_prod_def split: prod.splits)
  have "sorted_wrt (<) (map source_timestamp events)" using iter_events_facts [OF ev(1)] by blast
  then have "source_timestamp (L ! i) < source_timestamp (L ! Suc i)"
    using i ev(2) by (simp add: sorted_wrt_iff_nth_less)
  moreover have "sequence (L ! Suc i) = sequence (L ! i) + 1"
    using i stream_sequence [OF assms(1)] by simp
  moreover have "compute_bin_end (source_timestamp (L ! Suc i)) - compute_bin_end (source_timestamp (L ! i)) \<le> seconds 300"
    using assms(2) i unfolding adjacent_indices [symmetric] by blast
  ultimately show "follows (L ! i) (L ! Suc i)" by (simp add: follows_def)
qed


definition replay_contract :: Phase1BContract where
  "replay_contract = sample_contract\<lparr>train := \<lparr>split_start = - seconds 300, split_end = seconds 100000\<rparr>\<rparr>"

lemma sample_builder_extracts:
  "\<exists>s. extract_sample e (fb_analog_cols sample_builder) (fb_digital_cols sample_builder) = Inr s"
  by (simp add: extract_sample_def lookup_column_def analog_fields_def digital_fields_def sample_builder_def)


end
